(* ===== verification/Prelude.thy ===== *)
theory Prelude
  imports Main "HOL-Library.Word" "HOL-Library.Monad_Syntax"
begin

unbundle bit_operations_syntax

text \<open>
  Shared vocabulary of the development.

  \<^item> The C integer types of the stack: \<open>uint8_t\<close>, \<open>uint16_t\<close> and \<open>uint32_t\<close> are
    \<open>8 word\<close>, \<open>16 word\<close> and \<open>32 word\<close>, so additions wrap as they do in C.
  \<^item> Memory: a C buffer is a list of bytes and a pointer into it is an offset.  A load or a
    store outside the buffer has no defined result in C; here it is \<open>None\<close>, and the
    \<open>option\<close> monad propagates it, so that every access of the program is a proof
    obligation of the theorems that say an operation returns.
  \<^item> Byte order: the bit-field layout of \<open>struct iphdr\<close> and \<open>struct tcphdr\<close> is the
    little-endian one, so a 16 or 32 bit field is stored least significant byte first and
    \<open>htons\<close>, \<open>ntohs\<close>, \<open>htonl\<close>, \<open>ntohl\<close> swap bytes.

  The collection \<open>mem_simps\<close> holds the rules that compute what a field reads after a
  sequence of stores; the component theories unfold their definitions and call \<open>simp\<close>
  with it.
\<close>

named_theorems mem_simps \<open>reading fields after stores into a byte buffer\<close>

type_synonym u8 = "8 word"
type_synonym u16 = "16 word"
type_synonym u32 = "32 word"
type_synonym bytes = "u8 list"

section \<open>Splitting words into bytes\<close>

definition lo8 :: "u16 \<Rightarrow> u8" where
  "lo8 w = ucast w"

definition hi8 :: "u16 \<Rightarrow> u8" where
  "hi8 w = ucast (drop_bit 8 w)"

definition le16 :: "u8 \<Rightarrow> u8 \<Rightarrow> u16" where
  "le16 a b = ucast a OR push_bit 8 (ucast b)"

definition lo16 :: "u32 \<Rightarrow> u16" where
  "lo16 w = ucast w"

definition hi16 :: "u32 \<Rightarrow> u16" where
  "hi16 w = ucast (drop_bit 16 w)"

definition le32 :: "u16 \<Rightarrow> u16 \<Rightarrow> u32" where
  "le32 a b = ucast a OR push_bit 16 (ucast b)"

lemma lo8_le16 [simp]: "lo8 (le16 a b) = a"
  by (rule bit_word_eqI) (auto simp: lo8_def le16_def bit_simps)

lemma hi8_le16 [simp]: "hi8 (le16 a b) = b"
  by (rule bit_word_eqI) (auto simp: hi8_def le16_def bit_simps dest: bit_imp_le_length)

lemma le16_lo8_hi8 [simp]: "le16 (lo8 w) (hi8 w) = w"
  by (rule bit_word_eqI) (auto simp: lo8_def hi8_def le16_def bit_simps)

lemma lo16_le32 [simp]: "lo16 (le32 a b) = a"
  by (rule bit_word_eqI) (auto simp: lo16_def le32_def bit_simps)

lemma hi16_le32 [simp]: "hi16 (le32 a b) = b"
  by (rule bit_word_eqI) (auto simp: hi16_def le32_def bit_simps dest: bit_imp_le_length)

lemma le32_lo16_hi16 [simp]: "le32 (lo16 w) (hi16 w) = w"
  by (rule bit_word_eqI) (auto simp: lo16_def hi16_def le32_def bit_simps)

lemma le16_inject [simp]: "le16 a b = le16 c d \<longleftrightarrow> a = c \<and> b = d"
  by (metis hi8_le16 lo8_le16)

lemma le32_inject [simp]: "le32 a b = le32 c d \<longleftrightarrow> a = c \<and> b = d"
  by (metis hi16_le32 lo16_le32)

section \<open>Byte order\<close>

definition bswap16 :: "u16 \<Rightarrow> u16" where
  "bswap16 w = le16 (hi8 w) (lo8 w)"

definition bswap32 :: "u32 \<Rightarrow> u32" where
  "bswap32 w = le32 (bswap16 (hi16 w)) (bswap16 (lo16 w))"

abbreviation htons :: "u16 \<Rightarrow> u16" where "htons \<equiv> bswap16"
abbreviation ntohs :: "u16 \<Rightarrow> u16" where "ntohs \<equiv> bswap16"
abbreviation htonl :: "u32 \<Rightarrow> u32" where "htonl \<equiv> bswap32"
abbreviation ntohl :: "u32 \<Rightarrow> u32" where "ntohl \<equiv> bswap32"

lemma bswap16_bswap16 [simp]: "bswap16 (bswap16 w) = w"
  by (simp add: bswap16_def)

lemma bswap32_bswap32 [simp]: "bswap32 (bswap32 w) = w"
  by (simp add: bswap32_def)

lemma bswap16_inject [simp]: "bswap16 v = bswap16 w \<longleftrightarrow> v = w"
  by (metis bswap16_bswap16)

lemma bswap32_inject [simp]: "bswap32 v = bswap32 w \<longleftrightarrow> v = w"
  by (metis bswap32_bswap32)

lemma bswap16_0 [simp]: "bswap16 0 = 0"
  by (simp add: bswap16_def le16_def hi8_def lo8_def)

section \<open>Buffers\<close>

text \<open>Reads and writes at an offset that is known to be in range.\<close>

definition get16 :: "bytes \<Rightarrow> nat \<Rightarrow> u16" where
  "get16 b i = le16 (b ! i) (b ! (i + 1))"

definition get32 :: "bytes \<Rightarrow> nat \<Rightarrow> u32" where
  "get32 b i = le32 (get16 b i) (get16 b (i + 2))"

definition put16 :: "bytes \<Rightarrow> nat \<Rightarrow> u16 \<Rightarrow> bytes" where
  "put16 b i w = b[i := lo8 w, i + 1 := hi8 w]"

definition put32 :: "bytes \<Rightarrow> nat \<Rightarrow> u32 \<Rightarrow> bytes" where
  "put32 b i w = put16 (put16 b i (lo16 w)) (i + 2) (hi16 w)"

definition put_bytes :: "bytes \<Rightarrow> nat \<Rightarrow> bytes \<Rightarrow> bytes" where
  "put_bytes b i xs = take i b @ xs @ drop (i + length xs) b"

lemma length_put16 [simp]: "length (put16 b i w) = length b"
  by (simp add: put16_def)

lemma length_put32 [simp]: "length (put32 b i w) = length b"
  by (simp add: put32_def)

lemma length_put_bytes [simp]:
  "i + length xs \<le> length b \<Longrightarrow> length (put_bytes b i xs) = length b"
  by (simp add: put_bytes_def)

lemma nth_put16 [mem_simps]:
  "i + 1 < length b \<Longrightarrow>
   put16 b i w ! j = (if j = i then lo8 w else if j = i + 1 then hi8 w else b ! j)"
  by (auto simp: put16_def nth_list_update)

lemma nth_put32 [mem_simps]:
  "i + 3 < length b \<Longrightarrow>
   put32 b i w ! j =
     (if j = i then lo8 (lo16 w) else if j = i + 1 then hi8 (lo16 w)
      else if j = i + 2 then lo8 (hi16 w) else if j = i + 3 then hi8 (hi16 w) else b ! j)"
  by (auto simp: put32_def nth_put16)

lemma nth_put_bytes [mem_simps]:
  "i + length xs \<le> length b \<Longrightarrow> j < length b \<Longrightarrow>
   put_bytes b i xs ! j = (if i \<le> j \<and> j < i + length xs then xs ! (j - i) else b ! j)"
  by (auto simp: put_bytes_def nth_append nth_drop min_def)

lemma nth_update_mem [mem_simps]:
  "i < length b \<Longrightarrow> b[i := v] ! j = (if j = i then v else b ! j)"
  by (simp add: nth_list_update)

lemma get16_put16 [simp]: "i + 1 < length b \<Longrightarrow> get16 (put16 b i w) i = w"
  by (simp add: get16_def nth_put16)

lemma get32_put32 [simp]: "i + 3 < length b \<Longrightarrow> get32 (put32 b i w) i = w"
  by (simp add: get32_def get16_def nth_put32)

lemma get16_put16_other [mem_simps]:
  "j + 1 < length b \<Longrightarrow> i + 1 < j \<or> j + 1 < i \<Longrightarrow> get16 (put16 b j w) i = get16 b i"
  by (auto simp: get16_def nth_put16)

lemma get16_put32_other [mem_simps]:
  "j + 3 < length b \<Longrightarrow> i + 1 < j \<or> j + 3 < i \<Longrightarrow> get16 (put32 b j w) i = get16 b i"
  by (auto simp: get16_def nth_put32)

lemma get32_put16_other [mem_simps]:
  "j + 1 < length b \<Longrightarrow> i + 3 < j \<or> j + 1 < i \<Longrightarrow> get32 (put16 b j w) i = get32 b i"
  by (auto simp: get32_def get16_put16_other)

lemma get32_put32_other [mem_simps]:
  "j + 3 < length b \<Longrightarrow> i + 3 < j \<or> j + 3 < i \<Longrightarrow> get32 (put32 b j w) i = get32 b i"
  by (auto simp: get32_def get16_put32_other)

lemma get16_update_other [mem_simps]:
  "j < length b \<Longrightarrow> i + 1 < j \<or> j < i \<Longrightarrow> get16 (b[j := v]) i = get16 b i"
  by (auto simp: get16_def)

lemma get32_update_other [mem_simps]:
  "j < length b \<Longrightarrow> i + 3 < j \<or> j < i \<Longrightarrow> get32 (b[j := v]) i = get32 b i"
  by (auto simp: get32_def get16_update_other)

lemma get16_put_bytes_other [mem_simps]:
  "j + length xs \<le> length b \<Longrightarrow> i + 1 < length b \<Longrightarrow> i + 1 < j \<or> j + length xs \<le> i \<Longrightarrow>
   get16 (put_bytes b j xs) i = get16 b i"
  by (auto simp: get16_def nth_put_bytes)

lemma get32_put_bytes_other [mem_simps]:
  "j + length xs \<le> length b \<Longrightarrow> i + 3 < length b \<Longrightarrow> i + 3 < j \<or> j + length xs \<le> i \<Longrightarrow>
   get32 (put_bytes b j xs) i = get32 b i"
  by (auto simp: get32_def get16_put_bytes_other)

text \<open>Ranges of bytes, read as a list, and fields read inside such a range.\<close>

lemma range_update_other [mem_simps]:
  "j < i \<or> i + n \<le> j \<Longrightarrow> take n (drop i (b[j := v])) = take n (drop i b)"
  by (auto simp: drop_update_swap take_update_cancel)

lemma range_put16_other [mem_simps]:
  "j + 1 < i \<or> i + n \<le> j \<Longrightarrow> take n (drop i (put16 b j w)) = take n (drop i b)"
  by (auto simp: put16_def range_update_other)

lemma range_put32_other [mem_simps]:
  "j + 3 < i \<or> i + n \<le> j \<Longrightarrow> take n (drop i (put32 b j w)) = take n (drop i b)"
  by (auto simp: put32_def range_put16_other)

lemma range_put_bytes_other [mem_simps]:
  "j + length xs \<le> length b \<Longrightarrow> j + length xs \<le> i \<or> i + n \<le> j \<Longrightarrow>
   take n (drop i (put_bytes b j xs)) = take n (drop i b)"
  by (auto simp: put_bytes_def min_def drop_take)

lemma range_put_bytes [mem_simps]:
  "i + length xs \<le> length b \<Longrightarrow> n = length xs \<Longrightarrow> take n (drop i (put_bytes b i xs)) = xs"
  by (simp add: put_bytes_def)

lemma get16_range [mem_simps]:
  "k + 1 < n \<Longrightarrow> i + n \<le> length b \<Longrightarrow> get16 (take n (drop i b)) k = get16 b (i + k)"
  by (simp add: get16_def add.assoc)

lemma get32_range [mem_simps]:
  "k + 3 < n \<Longrightarrow> i + n \<le> length b \<Longrightarrow> get32 (take n (drop i b)) k = get32 b (i + k)"
  by (simp add: get32_def get16_range add.assoc)

section \<open>Checked accesses\<close>

text \<open>
  The program's loads and stores.  \<open>None\<close> is an access outside the buffer, which C gives
  no meaning.
\<close>

definition load8 :: "bytes \<Rightarrow> nat \<Rightarrow> u8 option" where
  "load8 b i = (if i < length b then Some (b ! i) else None)"

definition load16 :: "bytes \<Rightarrow> nat \<Rightarrow> u16 option" where
  "load16 b i = (if i + 1 < length b then Some (get16 b i) else None)"

definition load32 :: "bytes \<Rightarrow> nat \<Rightarrow> u32 option" where
  "load32 b i = (if i + 3 < length b then Some (get32 b i) else None)"

definition load_bytes :: "bytes \<Rightarrow> nat \<Rightarrow> nat \<Rightarrow> bytes option" where
  "load_bytes b i n = (if i + n \<le> length b then Some (take n (drop i b)) else None)"

definition store8 :: "bytes \<Rightarrow> nat \<Rightarrow> u8 \<Rightarrow> bytes option" where
  "store8 b i w = (if i < length b then Some (b[i := w]) else None)"

definition store16 :: "bytes \<Rightarrow> nat \<Rightarrow> u16 \<Rightarrow> bytes option" where
  "store16 b i w = (if i + 1 < length b then Some (put16 b i w) else None)"

definition store32 :: "bytes \<Rightarrow> nat \<Rightarrow> u32 \<Rightarrow> bytes option" where
  "store32 b i w = (if i + 3 < length b then Some (put32 b i w) else None)"

definition store_bytes :: "bytes \<Rightarrow> nat \<Rightarrow> bytes \<Rightarrow> bytes option" where
  "store_bytes b i xs = (if i + length xs \<le> length b then Some (put_bytes b i xs) else None)"

lemma load_in_range [simp]:
  "i < length b \<Longrightarrow> load8 b i = Some (b ! i)"
  "i + 1 < length b \<Longrightarrow> load16 b i = Some (get16 b i)"
  "i + 3 < length b \<Longrightarrow> load32 b i = Some (get32 b i)"
  "i + n \<le> length b \<Longrightarrow> load_bytes b i n = Some (take n (drop i b))"
  by (simp_all add: load8_def load16_def load32_def load_bytes_def)

lemma store_in_range [simp]:
  "i < length b \<Longrightarrow> store8 b i v8 = Some (b[i := v8])"
  "i + 1 < length b \<Longrightarrow> store16 b i v16 = Some (put16 b i v16)"
  "i + 3 < length b \<Longrightarrow> store32 b i v32 = Some (put32 b i v32)"
  "i + length xs \<le> length b \<Longrightarrow> store_bytes b i xs = Some (put_bytes b i xs)"
  by (simp_all add: store8_def store16_def store32_def store_bytes_def)

lemma store_length:
  "store8 b i v8 = Some b' \<Longrightarrow> length b' = length b"
  "store16 b i v16 = Some b' \<Longrightarrow> length b' = length b"
  "store32 b i v32 = Some b' \<Longrightarrow> length b' = length b"
  "store_bytes b i xs = Some b' \<Longrightarrow> length b' = length b"
  by (auto simp: store8_def store16_def store32_def store_bytes_def split: if_splits)

lemma bind_SomeE:
  assumes "Option.bind m f = Some y"
  obtains x where "m = Some x" and "f x = Some y"
  using assms by (cases m) auto

section \<open>Numbers of words\<close>

lemma unat_le16: "unat (le16 a b) = unat a + 256 * unat b"
proof -
  have "le16 a b = (ucast a :: u16) + push_bit 8 (ucast b)"
    unfolding le16_def
    by (rule disjunctive_add [symmetric]) (auto simp: bit_simps dest: bit_imp_le_length)
  also have "push_bit 8 (ucast b :: u16) = 256 * ucast b"
    by (simp add: push_bit_eq_mult)
  finally have eq: "le16 a b = (ucast a :: u16) + 256 * ucast b" .
  have up: "unat (ucast c :: u16) = unat c" for c :: u8
    using unsigned_less [of c, where ?'a = nat]
    by (simp add: unsigned_ucast_eq take_bit_nat_eq_self)
  have "unat a < 256" "unat b < 256"
    using unsigned_less [of a, where ?'a = nat] unsigned_less [of b, where ?'a = nat] by simp_all
  then show ?thesis
    by (simp add: eq unat_word_ariths up)
qed

lemma unat_u16_less: "unat (w :: u16) < 65536"
  using unsigned_less [of w, where ?'a = nat] by simp

lemma unat_u8_less: "unat (w :: u8) < 256"
  using unsigned_less [of w, where ?'a = nat] by simp

lemma unat_u32_less: "unat (w :: u32) < 4294967296"
  using unsigned_less [of w, where ?'a = nat] by simp

lemma ucast_add_small:
  fixes v :: u32
  assumes "unat v + 20 < 65536"
  shows "(ucast (v + 20) :: u16) = word_of_nat (unat v + 20)"
proof -
  have "unat (v + 20) = unat v + 20" using assms by (simp add: unat_word_ariths)
  then show ?thesis by (metis of_nat_unat)
qed

section \<open>Error codes and device return values\<close>

text \<open>
  \<open>netdev_transmit\<close> is declared \<open>int\<close> and ends without a \<open>return\<close>: its value is
  indeterminate.  A return code is therefore \<open>Rc n\<close>, or \<open>Indet\<close> when it was passed
  up from there.
\<close>

datatype rc = Rc int | Indet

section \<open>First match in a list\<close>

text \<open>
  The shape of every table scan of the stack: \<open>list_for_each\<close> with a \<open>return\<close> or a
  \<open>break\<close> at the first entry that matches.
\<close>

fun find_first :: "('a \<Rightarrow> bool) \<Rightarrow> 'a list \<Rightarrow> 'a option" where
  "find_first P [] = None"
| "find_first P (x # xs) = (if P x then Some x else find_first P xs)"

lemma find_first_SomeI:
  "P x \<Longrightarrow> \<forall>u\<in>set us. \<not> P u \<Longrightarrow> find_first P (us @ x # vs) = Some x"
  by (induction us) auto

lemma find_first_SomeE:
  assumes "find_first P xs = Some x"
  obtains us vs where "xs = us @ x # vs" and "P x" and "\<forall>u\<in>set us. \<not> P u"
proof -
  from assms have "\<exists>us vs. xs = us @ x # vs \<and> P x \<and> (\<forall>u\<in>set us. \<not> P u)"
  proof (induction xs)
    case Nil
    then show ?case by simp
  next
    case (Cons y ys)
    show ?case
    proof (cases "P y")
      case True
      with Cons.prems have "y # ys = [] @ x # ys \<and> P x" by simp
      then show ?thesis by (metis empty_iff list.set(1))
    next
      case False
      with Cons obtain us vs where "ys = us @ x # vs" "P x" "\<forall>u\<in>set us. \<not> P u" by auto
      with False have "y # ys = (y # us) @ x # vs \<and> P x \<and> (\<forall>u\<in>set (y # us). \<not> P u)"
        by simp
      then show ?thesis by blast
    qed
  qed
  then show ?thesis using that by blast
qed

lemma find_first_None: "find_first P xs = None \<longleftrightarrow> (\<forall>x\<in>set xs. \<not> P x)"
  by (induction xs) auto

lemma find_first_SomeD: "find_first P xs = Some x \<Longrightarrow> x \<in> set xs \<and> P x"
  by (induction xs) (auto split: if_splits)

lemma find_first_append:
  "find_first P (xs @ ys) =
     (case find_first P xs of None \<Rightarrow> find_first P ys | Some x \<Rightarrow> Some x)"
  by (induction xs) auto

lemma find_first_cong:
  "(\<And>x. x \<in> set xs \<Longrightarrow> P x = Q x) \<Longrightarrow> find_first P xs = find_first Q xs"
  by (induction xs) auto

lemma sint_small:
  assumes "unat (k :: 32 word) < 2 ^ 31"
  shows "sint k = int (unat k)"
proof -
  have u: "uint k = int (unat k)" by simp
  have "int (unat k) < int (2 ^ 31)" using assms by (simp only: of_nat_less_iff)
  then have "uint k < 2 ^ 31" unfolding u by simp
  then have "signed_take_bit 31 (uint k) = uint k" by (intro signed_take_bit_int_eq_self) (use uint_ge_0 [of k] in linarith)+
  then show ?thesis by (simp add: sint_uint)
qed


end
