(* ===== verification/Utils.thy ===== *)
theory Utils
  imports Prelude
begin

text \<open>
  \<open>utils.c\<close>: the Internet checksum used by the IP, ICMP, TCP and UDP layers, and the
  parsing of dotted-decimal addresses (\<open>ip_parse\<close> of \<open>ip.h\<close>).

  The sum is taken over 16-bit words read as the host reads them (little-endian), exactly as
  the code does; \<open>sum_le\<close> is the same sum as a natural number, and the lemmas relate the
  folded 32-bit sum to it modulo \<open>2^16 - 1\<close>.  The main result is that a datagram whose
  checksum field is filled with the value computed over the zeroed field verifies: the
  receiver's \<open>checksum\<close> over it is 0.
\<close>

section \<open>The operations\<close>

text \<open>\<open>while (count > 1) { sum += *ptr++; count -= 2; }\<close>, then the odd byte.\<close>

function sum_loop :: "bytes \<Rightarrow> nat \<Rightarrow> int \<Rightarrow> u32 \<Rightarrow> u32 option" where
  "sum_loop b p count s =
     (if 1 < count then do {
        w \<leftarrow> load16 b p;
        sum_loop b (p + 2) (count - 2) (s + ucast w)
      }
      else if count = 1 then do {
        x \<leftarrow> load8 b p;
        Some (s + ucast (le16 x 0))
      }
      else Some s)"
  by pat_completeness auto
termination
  by (relation "measure (\<lambda>(b, p, count, s). nat count)") auto

declare sum_loop.simps [simp del]

definition sum_every_16bits :: "bytes \<Rightarrow> nat \<Rightarrow> int \<Rightarrow> u32 option" where
  "sum_every_16bits b p count = sum_loop b p count 0"

text \<open>\<open>while (sum >> 16) sum = (sum & 0xFFFF) + (sum >> 16);\<close>\<close>

lemma unat_and_mask16: "unat (s AND 0xFFFF :: u32) = unat s mod 65536"
proof -
  have "s AND 0xFFFF = take_bit 16 s"
    by (simp add: take_bit_eq_mask mask_eq_exp_minus_1)
  then show ?thesis by (simp add: unsigned_take_bit_eq take_bit_eq_mod unat_mod_distrib)
qed

lemma unat_shift16: "unat (drop_bit 16 s :: u32) = unat s div 65536"
  using unat_drop_bit_eq [of 16 s] by (simp only: drop_bit_eq_div) simp

lemma unat_fold_step:
  "unat ((s AND 0xFFFF) + drop_bit 16 s :: u32) = unat s mod 65536 + unat s div 65536"
proof -
  have "unat s mod 65536 < 65536" "unat s div 65536 < 65536"
    using unat_u32_less [of s] by auto
  then show ?thesis by (simp add: unat_word_ariths unat_and_mask16 unat_shift16)
qed

function fold_carries :: "u32 \<Rightarrow> u32" where
  "fold_carries s =
     (if drop_bit 16 s \<noteq> 0 then fold_carries ((s AND 0xFFFF) + drop_bit 16 s) else s)"
  by pat_completeness auto
termination
proof (relation "measure unat")
  fix s :: u32
  assume "drop_bit 16 s \<noteq> 0"
  then have "unat (drop_bit 16 s) \<noteq> 0" by (simp add: unsigned_eq_0_iff)
  then have "unat s div 65536 \<noteq> 0" by (simp add: unat_shift16)
  then have "unat s mod 65536 + unat s div 65536 < unat s"
    using div_mult_mod_eq [of "unat s" 65536] by linarith
  then show "((s AND 0xFFFF) + drop_bit 16 s, s) \<in> measure unat"
    by (simp add: unat_fold_step)
qed simp

declare fold_carries.simps [simp del]

definition checksum :: "bytes \<Rightarrow> nat \<Rightarrow> int \<Rightarrow> u32 \<Rightarrow> u16 option" where
  "checksum b p count start_sum = do {
     s \<leftarrow> sum_every_16bits b p count;
     Some (NOT (lo16 (fold_carries (start_sum + s))))
   }"

definition bytes16 :: "u16 \<Rightarrow> bytes" where
  "bytes16 w = [lo8 w, hi8 w]"

definition bytes32 :: "u32 \<Rightarrow> bytes" where
  "bytes32 w = bytes16 (lo16 w) @ bytes16 (hi16 w)"

lemma length_bytes [simp]: "length (bytes16 w) = 2" "length (bytes32 v) = 4"
  by (simp_all add: bytes16_def bytes32_def)

lemma take2_bytes16: "i + 1 < length b \<Longrightarrow> take 2 (drop i b) = bytes16 (get16 b i)"
proof -
  assume "i + 1 < length b"
  then have "drop i b = b ! i # b ! Suc i # drop (Suc (Suc i)) b"
    by (simp add: Cons_nth_drop_Suc)
  then show ?thesis by (simp add: bytes16_def get16_def)
qed

lemma take4_bytes32: "i + 3 < length b \<Longrightarrow> take 4 (drop i b) = bytes32 (get32 b i)"
proof -
  assume i: "i + 3 < length b"
  have "take 4 (drop i b) = take 2 (drop i b) @ take 2 (drop (i + 2) b)"
    using take_add [of 2 2 "drop i b"] by (simp add: add.commute)
  with i show ?thesis by (simp add: take2_bytes16 bytes32_def get32_def)
qed

lemma take1_byte: "i < length b \<Longrightarrow> take 1 (drop i b) = [b ! i]"
  by (simp add: Cons_nth_drop_Suc [symmetric])

text \<open>\<open>struct pseudo_head\<close> as it lies in memory: 12 bytes, no padding.\<close>

definition pseudo_head :: "u32 \<Rightarrow> u32 \<Rightarrow> u8 \<Rightarrow> u16 \<Rightarrow> bytes" where
  "pseudo_head saddr daddr proto len' =
     bytes32 saddr @ bytes32 daddr @ [0, proto] @ bytes16 len'"

definition tcp_udp_checksum ::
    "u32 \<Rightarrow> u32 \<Rightarrow> u8 \<Rightarrow> bytes \<Rightarrow> nat \<Rightarrow> u16 \<Rightarrow> u16 option" where
  "tcp_udp_checksum saddr daddr proto b data len' = do {
     s \<leftarrow> sum_every_16bits (pseudo_head saddr daddr proto (htons len')) 0 12;
     checksum b data (int (unat len')) s
   }"

section \<open>The sum as a number\<close>

fun sum_le :: "bytes \<Rightarrow> nat" where
  "sum_le [] = 0"
| "sum_le [x] = unat x"
| "sum_le (x # y # zs) = unat (le16 x y) + sum_le zs"

definition weight :: "nat \<Rightarrow> nat" where
  "weight i = (if even i then 1 else 256)"

lemma sum_le_weighted: "sum_le xs = (\<Sum>i<length xs. weight i * unat (xs ! i))"
proof (induction xs rule: sum_le.induct)
  case (3 x y zs)
  have "(\<Sum>i<Suc (Suc (length zs)). weight i * unat ((x # y # zs) ! i)) =
      unat x + 256 * unat y + (\<Sum>i<length zs. weight (Suc (Suc i)) * unat (zs ! i))"
    by (simp only: sum.lessThan_Suc_shift) (simp add: weight_def)
  moreover have "weight (Suc (Suc i)) = weight i" for i by (simp add: weight_def)
  ultimately show ?case using 3 by (simp add: unat_le16)
qed (simp_all add: weight_def)

lemma sum_le_bound: "sum_le xs \<le> 65535 * ((length xs + 1) div 2)"
proof (induction xs rule: sum_le.induct)
  case (2 x)
  then show ?case using unat_u8_less [of x] by simp
next
  case (3 x y zs)
  then show ?case using unat_u16_less [of "le16 x y"] by simp
qed simp

lemma of_nat_unat16: "word_of_nat (unat (w :: u16)) = (ucast w :: u32)"
  by (metis unsigned_ucast_eq of_nat_unat)

lemma sum_loop_eq:
  "p + n \<le> length b \<Longrightarrow>
   sum_loop b p (int n) s = Some (s + word_of_nat (sum_le (take n (drop p b))))"
proof (induction n arbitrary: p s rule: less_induct)
  case (less n)
  consider "n = 0" | "n = 1" | m where "n = Suc (Suc m)"
    by (metis One_nat_def not0_implies_Suc)
  then show ?case
  proof cases
    case 1
    then show ?thesis by (simp add: sum_loop.simps)
  next
    case 2
    with less.prems obtain x zs where "drop p b = x # zs" and x: "b ! p = x"
      by (metis Cons_nth_drop_Suc One_nat_def Suc_le_lessD add.commute plus_1_eq_Suc)
    moreover have "unat (le16 x 0) = unat x" by (simp add: unat_le16)
    then have "(ucast (le16 x 0) :: u32) = word_of_nat (unat x)"
      by (metis of_nat_unat16)
    ultimately show ?thesis
      using 2 less.prems by (simp add: sum_loop.simps)
  next
    case 3
    with less.prems have lt: "p < length b" "Suc p < length b" by simp_all
    then have d: "drop p b = b ! p # b ! Suc p # drop (Suc (Suc p)) b"
      by (simp add: Cons_nth_drop_Suc)
    have "sum_loop b (p + 2) (int m) (s + ucast (get16 b p)) =
        Some (s + ucast (get16 b p) + word_of_nat (sum_le (take m (drop (p + 2) b))))"
      using less.prems 3 by (intro less.IH) auto
    moreover have "(ucast (get16 b p) :: u32) = word_of_nat (unat (get16 b p))"
      by (simp only: of_nat_unat16)
    ultimately show ?thesis
      using 3 lt d by (subst sum_loop.simps) (simp add: get16_def)
  qed
qed

lemma sum_every_16bits_eq:
  "p + n \<le> length b \<Longrightarrow>
   sum_every_16bits b p (int n) = Some (word_of_nat (sum_le (take n (drop p b))))"
  by (simp add: sum_every_16bits_def sum_loop_eq)

text \<open>A sum that runs over the end of the buffer is an access outside it.\<close>

lemma sum_loop_fault: "length b < p + n \<Longrightarrow> 0 < n \<Longrightarrow> sum_loop b p (int n) s = None"
proof (induction n arbitrary: p s rule: less_induct)
  case (less n)
  consider "n = 1" | m where "n = Suc (Suc m)"
    using less.prems(2) by (metis One_nat_def gr0_conv_Suc not0_implies_Suc)
  then show ?case
  proof cases
    case 1
    with less.prems show ?thesis by (simp add: sum_loop.simps load8_def)
  next
    case 2
    show ?thesis
    proof (cases "p + 1 < length b")
      case True
      then have "0 < m" "length b < p + 2 + m" using less.prems 2 by auto
      then have "sum_loop b (p + 2) (int m) (s + ucast (get16 b p)) = None"
        using 2 by (intro less.IH) auto
      with True 2 show ?thesis by (subst sum_loop.simps) simp
    next
      case False
      with 2 show ?thesis by (subst sum_loop.simps) (simp add: load16_def)
    qed
  qed
qed

lemma checksum_fault: "length b < p + n \<Longrightarrow> 0 < n \<Longrightarrow> checksum b p (int n) s = None"
  by (simp add: checksum_def sum_every_16bits_def sum_loop_fault)

lemma checksum_range:
  assumes "i + n \<le> length b" and "p + m \<le> n"
  shows "checksum (take n (drop i b)) p (int m) s = checksum b (i + p) (int m) s"
proof -
  have "take m (drop p (take n (drop i b))) = take m (drop (i + p) b)"
    using assms by (simp add: drop_take min_def add.commute)
  with assms show ?thesis by (simp add: checksum_def sum_every_16bits_eq)
qed

section \<open>Folding the carries\<close>

lemma mod_fold: "(s mod 65536 + s div 65536) mod 65535 = s mod (65535::nat)"
proof -
  have "s = 65536 * (s div 65536) + s mod 65536" by simp
  then have "s = (s mod 65536 + s div 65536) + 65535 * (s div 65536)" by linarith
  then have "s mod 65535 = ((s mod 65536 + s div 65536) + 65535 * (s div 65536)) mod 65535"
    by simp
  also have "\<dots> = (s mod 65536 + s div 65536) mod 65535" by (rule mod_mult_self2)
  finally show ?thesis by simp
qed

lemma fold_carries_props:
  "unat (fold_carries s) < 65536 \<and> unat (fold_carries s) mod 65535 = unat s mod 65535 \<and>
   (unat (fold_carries s) = 0 \<longleftrightarrow> unat s = 0)"
proof (induction s rule: fold_carries.induct)
  case (1 s)
  show ?case
  proof (cases "drop_bit 16 s = 0")
    case True
    then have "unat s div 65536 = 0" by (metis unat_shift16 unsigned_0)
    then have "unat s < 65536" by (simp add: div_eq_0_iff)
    with True show ?thesis by (subst (1 2 3) fold_carries.simps) simp
  next
    case False
    let ?t = "(s AND 0xFFFF) + drop_bit 16 s"
    have f: "fold_carries s = fold_carries ?t"
      using False by (subst fold_carries.simps) simp
    have "unat ?t mod 65535 = unat s mod 65535"
      by (simp only: unat_fold_step mod_fold)
    moreover have "unat ?t = 0 \<longleftrightarrow> unat s = 0"
      unfolding unat_fold_step by (metis add_is_0 div_mult_mod_eq mult_0 div_0 mod_0)
    ultimately show ?thesis using "1.IH" [OF False] unfolding f by metis
  qed
qed

lemma unat_not16: "unat (NOT (w :: u16)) = 65535 - unat w"
proof -
  have "w + NOT w = mask 16" by (simp add: not_eq_complement mask_eq_exp_minus_1)
  then have "NOT w = 65535 - w" by (simp add: mask_eq_exp_minus_1 algebra_simps)
  moreover have "unat (65535 - w) = 65535 - unat w"
    using unat_u16_less [of w] by (subst unat_sub) (auto simp: word_le_nat_alt)
  ultimately show ?thesis by simp
qed

lemma unat_lo16: "unat (w :: u32) < 65536 \<Longrightarrow> unat (lo16 w) = unat w"
  by (simp add: lo16_def unsigned_ucast_eq take_bit_nat_eq_self)

text \<open>
  What \<open>checksum\<close> returns, as a number: the complement of a 16-bit value that is congruent
  to the sum modulo \<open>2^16 - 1\<close>, and is zero only for a zero sum.
\<close>

definition folds_to :: "nat \<Rightarrow> nat \<Rightarrow> bool" where
  "folds_to s f \<longleftrightarrow> f < 65536 \<and> f mod 65535 = s mod 65535 \<and> (f = 0 \<longleftrightarrow> s = 0)"

lemma checksum_folds:
  assumes "p + n \<le> length b" and "unat start + sum_le (take n (drop p b)) < 2 ^ 32"
  shows "\<exists>c. checksum b p (int n) start = Some c \<and>
    folds_to (unat start + sum_le (take n (drop p b))) (65535 - unat c) \<and> unat c \<le> 65535"
proof -
  let ?t = "start + word_of_nat (sum_le (take n (drop p b))) :: u32"
  have t: "unat ?t = unat start + sum_le (take n (drop p b))"
    using assms(2) by (simp add: unat_word_ariths unat_of_nat)
  let ?f = "fold_carries ?t"
  note props = fold_carries_props [of ?t]
  then have "unat (NOT (lo16 ?f)) = 65535 - unat ?f" by (simp add: unat_not16 unat_lo16)
  moreover have "checksum b p (int n) start = Some (NOT (lo16 ?f))"
    using assms(1) by (simp add: checksum_def sum_every_16bits_eq)
  ultimately show ?thesis
    using props by (auto simp: folds_to_def t)
qed

section \<open>Filling the field makes the datagram verify\<close>

lemma sum_le_put16:
  assumes "even k" and "k + 1 < n" and "p + n \<le> length b" and "get16 b (p + k) = 0"
  shows "sum_le (take n (drop p (put16 b (p + k) c))) = sum_le (take n (drop p b)) + unat c"
proof -
  let ?b = "put16 b (p + k) c"
  have z: "b ! (p + k) = 0" "b ! (p + k + 1) = 0"
    using assms(4) unfolding get16_def
    by (metis hi8_def hi8_le16 lo8_def lo8_le16 drop_bit_of_0 unsigned_0 add.assoc)+
  have len: "length (take n (drop p ?b)) = n" "length (take n (drop p b)) = n"
    using assms by simp_all
  define f where "f i = weight i * unat (b ! (p + i))" for i
  have old: "sum_le (take n (drop p b)) = (\<Sum>i<n. f i)"
    unfolding sum_le_weighted len f_def using assms by (intro sum.cong) (auto simp: nth_append)
  have new: "sum_le (take n (drop p ?b)) =
      (\<Sum>i<n. f i + (if i = k then unat (lo8 c) else 0) + (if i = k + 1 then 256 * unat (hi8 c) else 0))"
    unfolding sum_le_weighted len f_def
    using assms z by (intro sum.cong) (auto simp: nth_put16 weight_def)
  have "unat c = unat (lo8 c) + 256 * unat (hi8 c)"
    by (metis le16_lo8_hi8 unat_le16)
  then show ?thesis
    using assms by (simp add: old new sum.distrib)
qed

lemma folds_to_full: "folds_to (s + c) f \<Longrightarrow> folds_to s (65535 - c) \<Longrightarrow> c \<le> 65535 \<Longrightarrow> f = 65535"
proof -
  assume f: "folds_to (s + c) f" and c: "folds_to s (65535 - c)" and le: "c \<le> 65535"
  from c have "(65535 - c + c) mod 65535 = (s + c) mod 65535"
    unfolding folds_to_def by (metis mod_add_left_eq)
  with le f have "f mod 65535 = 0" by (simp add: folds_to_def)
  moreover have "s + c \<noteq> 0"
    using c le by (auto simp: folds_to_def)
  ultimately show ?thesis
    using f by (auto simp: folds_to_def mod_eq_0_iff_dvd dvd_def)
qed

lemma checksum_verifies:
  assumes "even k" and "k + 1 < n" and "p + n \<le> length b" and "get16 b (p + k) = 0"
    and "unat start + sum_le (take n (drop p b)) + 65535 < 2 ^ 32"
    and "checksum b p (int n) start = Some c"
  shows "checksum (put16 b (p + k) c) p (int n) start = Some 0"
proof -
  let ?b = "put16 b (p + k) c"
  let ?s = "unat start + sum_le (take n (drop p b))"
  have c: "folds_to ?s (65535 - unat c)" "unat c \<le> 65535"
    using checksum_folds [OF assms(3), of start] assms(5,6) by auto
  have s': "sum_le (take n (drop p ?b)) = sum_le (take n (drop p b)) + unat c"
    using assms(1-4) by (rule sum_le_put16)
  have "unat start + sum_le (take n (drop p ?b)) < 2 ^ 32"
    using assms(5) c(2) by (simp add: s')
  then obtain d where d: "checksum ?b p (int n) start = Some d"
    "folds_to (?s + unat c) (65535 - unat d)" "unat d \<le> 65535"
    using checksum_folds [of p n ?b start] assms(3) by (auto simp: s' add.assoc)
  have "65535 - unat d = 65535"
    using d(2) c by (rule folds_to_full)
  then have "unat d = 0" using d(3) by simp
  then have "d = 0" by (simp add: unsigned_eq_0_iff)
  with d(1) show ?thesis by simp
qed

text \<open>No buffer the stack can sum overflows the 32-bit accumulator.\<close>

lemma sum_le_small: "length xs \<le> 65535 \<Longrightarrow> sum_le xs \<le> 2147450880"
proof -
  assume "length xs \<le> 65535"
  then have "(length xs + 1) div 2 \<le> 32768" by simp
  with sum_le_bound [of xs] show ?thesis by linarith
qed

lemma length_pseudo_head [simp]: "length (pseudo_head saddr daddr proto len') = 12"
  by (simp add: pseudo_head_def)

lemma unat_len16: "n < 65536 \<Longrightarrow> unat (word_of_nat n :: u16) = n"
  by (simp add: unsigned_of_nat take_bit_nat_eq_self)

lemma uint_len16: "n < 65536 \<Longrightarrow> uint (word_of_nat n :: u16) = int n"
  by (simp add: uint_nat unat_len16)

text \<open>
  A transport checksum written into its zeroed field verifies, pseudo header included.
\<close>

lemma tcp_udp_checksum_fills:
  assumes "even k" and "k + 1 < n" and "p + n \<le> length b" and "get16 b (p + k) = 0" and "n < 65536"
  shows "\<exists>c. tcp_udp_checksum saddr daddr proto b p (word_of_nat n) = Some c \<and>
    tcp_udp_checksum saddr daddr proto (put16 b (p + k) c) p (word_of_nat n) = Some 0"
proof -
  let ?ph = "pseudo_head saddr daddr proto (htons (word_of_nat n))"
  define ps where "ps = (word_of_nat (sum_le ?ph) :: u32)"
  have ps: "sum_every_16bits ?ph 0 12 = Some ps"
    using sum_every_16bits_eq [of 0 12 ?ph] by (simp add: ps_def)
  have "sum_le ?ph \<le> 65535 * 6" using sum_le_bound [of ?ph] by simp
  then have "unat ps \<le> 393210" by (simp add: ps_def unsigned_of_nat take_bit_nat_eq_self)
  moreover have "sum_le (take n (drop p b)) \<le> 2147450880"
    using assms by (intro sum_le_small) simp
  ultimately have small: "unat ps + sum_le (take n (drop p b)) + 65535 < 2 ^ 32" by simp
  then obtain c where c: "checksum b p (int n) ps = Some c"
    using checksum_folds [of p n b ps] assms(3) by fastforce
  have "checksum (put16 b (p + k) c) p (int n) ps = Some 0"
    using assms(1-4) small c by (rule checksum_verifies)
  with c ps show ?thesis
    using assms(5) by (simp add: tcp_udp_checksum_def uint_len16)
qed

lemma tcp_udp_checksum_range:
  assumes "i + n \<le> length b" and "n < 65536"
  shows "tcp_udp_checksum saddr daddr proto (take n (drop i b)) 0 (word_of_nat n) =
    tcp_udp_checksum saddr daddr proto b i (word_of_nat n)"
  using checksum_range [of i n b 0 n] assms
  by (simp add: tcp_udp_checksum_def uint_len16)

section \<open>Dotted-decimal addresses\<close>

text \<open>
  \<open>inet_pton (AF_INET, ...)\<close>: four decimal octets separated by dots, each without a
  leading zero and at most 255; anything else is refused.  It stores the octets in order,
  which a little-endian host reads as a 32-bit value in network byte order.
\<close>

definition is_digit :: "char \<Rightarrow> bool" where
  "is_digit c \<longleftrightarrow> 48 \<le> (of_char c :: nat) \<and> (of_char c :: nat) \<le> 57"

definition octet_value :: "string \<Rightarrow> nat" where
  "octet_value ds = foldl (\<lambda>n c. 10 * n + ((of_char c :: nat) - 48)) 0 ds"

definition octet :: "string \<Rightarrow> u8 option" where
  "octet ds =
     (if ds \<noteq> [] \<and> list_all is_digit ds \<and> (hd ds = CHR ''0'' \<longrightarrow> tl ds = []) \<and> octet_value ds \<le> 255
      then Some (word_of_nat (octet_value ds)) else None)"

fun split_on :: "char \<Rightarrow> string \<Rightarrow> string list" where
  "split_on c [] = [[]]"
| "split_on c (x # xs) =
     (if x = c then [] # split_on c xs
      else case split_on c xs of [] \<Rightarrow> [[x]] | y # ys \<Rightarrow> (x # y) # ys)"

definition inet_pton :: "string \<Rightarrow> u32 option" where
  "inet_pton s =
     (case split_on (CHR ''.'') s of
        [a, b, c, d] \<Rightarrow> do {
          a \<leftarrow> octet a; b \<leftarrow> octet b; c \<leftarrow> octet c; d \<leftarrow> octet d;
          Some (le32 (le16 a b) (le16 c d))
        }
      | _ \<Rightarrow> None)"

text \<open>\<open>ip_pton\<close> (network order) and \<open>ip_parse\<close> (host order); \<open>None\<close> is \<open>exit(1)\<close>.\<close>

definition ip_pton :: "string \<Rightarrow> u32 option" where
  "ip_pton addr = inet_pton addr"

definition ip_parse :: "string \<Rightarrow> u32 option" where
  "ip_parse addr = do {
     dst \<leftarrow> inet_pton addr;
     Some (ntohl dst)
   }"

definition dotted :: "u8 \<Rightarrow> u8 \<Rightarrow> u8 \<Rightarrow> u8 \<Rightarrow> u32" where
  "dotted a b c d = le32 (le16 d c) (le16 b a)"

lemma ip_parse_stack: "ip_parse ''10.0.1.4'' = Some 0x0A000104"
  by code_simp

lemma ip_parse_tap: "ip_parse ''10.0.1.5'' = Some 0x0A000105"
  by code_simp

lemma ip_parse_loop: "ip_parse ''127.0.0.1'' = Some 0x7F000001"
  by code_simp

end
