(* ===== verification/Skbuff.thy ===== *)
theory Skbuff
  imports Prelude
begin

text \<open>
  \<open>skbuff.h\<close> and \<open>skbuff.c\<close>: packet buffers and packet queues, with the structures a
  packet buffer points to (\<open>struct netdev\<close>, \<open>struct rtentry\<close>; both are written once at
  start-up, so the pointers \<open>skb->dev\<close> and \<open>skb->rt\<close> are their values).

  The bytes between \<open>skb->head\<close> and \<open>skb->end\<close> are the list \<open>skb_buf\<close>; \<open>skb->data\<close>
  and \<open>skb->payload\<close> are offsets from \<open>skb->head\<close>.  Moving \<open>data\<close> below \<open>head\<close>
  faults; moving it past \<open>end\<close> is allowed, as in C nothing checks it, and faults at the
  first access.

  A queue keeps its elements in order (\<open>List_Head\<close> justifies the list) beside the counter
  \<open>qlen\<close> the code maintains by hand; \<open>queue_inv\<close> says they agree.
\<close>

section \<open>Structures\<close>

record netdev =
  nd_addr :: u32
  nd_addr_len :: u8
  nd_hwaddr :: bytes
  nd_mtu :: u32

record rtentry =
  rt_dst :: u32
  rt_gateway :: u32
  rt_netmask :: u32
  rt_flags :: u8
  rt_metric :: u32
  rt_dev :: netdev

record sk_buff =
  skb_rt :: "rtentry option"
  skb_dev :: "netdev option"
  skb_refcnt :: int
  skb_protocol :: u16
  skb_len :: u32
  skb_dlen :: u32
  skb_seq :: u32
  skb_end_seq :: u32
  skb_buf :: bytes
  skb_data :: nat
  skb_payload :: nat

text \<open>
  \<open>q_linked\<close> tells whether \<open>head\<close> has been initialised: until \<open>skb_queue_init\<close> the links of a structure that
  was cleared by \<open>memset\<close> are NULL.
\<close>

record sk_buff_head =
  q_items :: "sk_buff list"
  qlen :: u32
  q_linked :: bool

section \<open>Buffers\<close>

definition alloc_skb :: "nat \<Rightarrow> sk_buff" where
  "alloc_skb size' =
     \<lparr>skb_rt = None, skb_dev = None, skb_refcnt = 0, skb_protocol = 0, skb_len = 0,
      skb_dlen = 0, skb_seq = 0, skb_end_seq = 0, skb_buf = replicate size' 0,
      skb_data = 0, skb_payload = 0\<rparr>"

text \<open>\<open>None\<close>: the buffer and the structure were given back to the allocator.\<close>

definition free_skb :: "sk_buff \<Rightarrow> sk_buff option" where
  "free_skb skb = (if skb_refcnt skb < 1 then None else Some skb)"

definition skb_reserve :: "sk_buff \<Rightarrow> nat \<Rightarrow> sk_buff" where
  "skb_reserve skb n = skb\<lparr>skb_data := skb_data skb + n\<rparr>"

definition skb_push :: "sk_buff \<Rightarrow> nat \<Rightarrow> sk_buff option" where
  "skb_push skb n =
     (if n \<le> skb_data skb
      then Some (skb\<lparr>skb_data := skb_data skb - n, skb_len := skb_len skb + word_of_nat n\<rparr>)
      else None)"

definition skb_head :: "sk_buff \<Rightarrow> nat" where
  "skb_head skb = 0"

definition skb_reset_header :: "sk_buff \<Rightarrow> sk_buff option" where
  "skb_reset_header skb =
     (if unat (skb_dlen skb) \<le> length (skb_buf skb)
      then Some (skb\<lparr>skb_data := length (skb_buf skb) - unat (skb_dlen skb),
                      skb_len := skb_dlen skb\<rparr>)
      else None)"

section \<open>Queues\<close>

definition skb_queue_init :: sk_buff_head where
  "skb_queue_init = \<lparr>q_items = [], qlen = 0, q_linked = True\<rparr>"

definition skb_queue_zero :: sk_buff_head where
  "skb_queue_zero = \<lparr>q_items = [], qlen = 0, q_linked = False\<rparr>"

definition skb_queue_len :: "sk_buff_head \<Rightarrow> u32" where
  "skb_queue_len q = qlen q"

text \<open>
  \<open>skb_queue_add (list, new_item, next)\<close> calls \<open>list_add (new_item, next)\<close>: the new
  element goes right behind \<open>next\<close>, which is the \<open>i\<close>-th element of the queue.
\<close>

definition skb_queue_add :: "sk_buff_head \<Rightarrow> sk_buff \<Rightarrow> nat \<Rightarrow> sk_buff_head" where
  "skb_queue_add q new_item i =
     q\<lparr>q_items := take (i + 1) (q_items q) @ new_item # drop (i + 1) (q_items q),
       qlen := qlen q + 1\<rparr>"

text \<open>
  \<open>skb_queue_tail\<close>; \<open>list_add_tail\<close> writes through \<open>head->prev\<close>, which faults on a queue that was not
  initialised.
\<close>

definition queue_push :: "sk_buff_head \<Rightarrow> sk_buff \<Rightarrow> sk_buff_head" where
  "queue_push q new_item = q\<lparr>q_items := q_items q @ [new_item], qlen := qlen q + 1\<rparr>"

definition skb_queue_tail :: "sk_buff_head \<Rightarrow> sk_buff \<Rightarrow> sk_buff_head option" where
  "skb_queue_tail q new_item = (if q_linked q then Some (queue_push q new_item) else None)"

text \<open>On an empty ring \<open>list_first_entry\<close> is the anchor itself, not a packet: a fault.\<close>

definition skb_dequeue :: "sk_buff_head \<Rightarrow> (sk_buff \<times> sk_buff_head) option" where
  "skb_dequeue q =
     (case q_items q of
        [] \<Rightarrow> None
      | x # xs \<Rightarrow> Some (x, q\<lparr>q_items := xs, qlen := qlen q - 1\<rparr>))"

definition skb_queue_empty :: "sk_buff_head \<Rightarrow> bool" where
  "skb_queue_empty q \<longleftrightarrow> skb_queue_len q < 1"

text \<open>\<open>Some None\<close> is the NULL result; \<open>None\<close> the fault.\<close>

definition skb_peek :: "sk_buff_head \<Rightarrow> sk_buff option option" where
  "skb_peek q =
     (if skb_queue_empty q then Some None
      else case q_items q of [] \<Rightarrow> None | x # xs \<Rightarrow> Some (Some x))"

lemma qlen_dec: "\<not> skb_queue_empty q \<Longrightarrow> unat (qlen q - 1) < unat (qlen q)"
  by (simp add: skb_queue_empty_def skb_queue_len_def unat_minus_one word_less_1
      unat_gt_0)

text \<open>
  \<open>while ((skb = skb_peek (list)) != NULL) { skb_dequeue; skb->refcnt--; free_skb }\<close>; the
  result is the emptied queue and the buffers some other reference still holds.
\<close>

function skb_queue_free :: "sk_buff_head \<Rightarrow> (sk_buff_head \<times> sk_buff list) option" where
  "skb_queue_free q =
     (if skb_queue_empty q then Some (q, [])
      else case q_items q of
          [] \<Rightarrow> None
        | x # xs \<Rightarrow> do {
            (q', kept) \<leftarrow> skb_queue_free (q\<lparr>q_items := xs, qlen := qlen q - 1\<rparr>);
            Some (q', (case free_skb (x\<lparr>skb_refcnt := skb_refcnt x - 1\<rparr>) of
                         None \<Rightarrow> kept | Some y \<Rightarrow> y # kept))
          })"
  by pat_completeness auto
termination
  by (relation "measure (\<lambda>q. unat (qlen q))") (auto dest: qlen_dec)

declare skb_queue_free.simps [simp del]

section \<open>Invariant and laws\<close>

definition queue_inv :: "sk_buff_head \<Rightarrow> bool" where
  "queue_inv q \<longleftrightarrow> q_linked q \<and> length (q_items q) = unat (qlen q)"

lemma queue_inv_linked: "queue_inv q \<Longrightarrow> q_linked q"
  by (simp add: queue_inv_def)

lemma q_linked_simps [simp]:
  "q_linked skb_queue_init" "q_linked (queue_push q x) = q_linked q" "q_linked (skb_queue_add q x i) = q_linked q"
  by (simp_all add: skb_queue_init_def queue_push_def skb_queue_add_def)

lemma skb_queue_tail_ok [simp]: "q_linked q \<Longrightarrow> skb_queue_tail q x = Some (queue_push q x)"
  by (simp add: skb_queue_tail_def)

lemma queue_inv_init [simp]: "queue_inv skb_queue_init"
  by (simp add: queue_inv_def skb_queue_init_def)

lemma queue_inv_empty: "queue_inv q \<Longrightarrow> skb_queue_empty q \<longleftrightarrow> q_items q = []"
  by (auto simp: queue_inv_def skb_queue_empty_def skb_queue_len_def word_less_1 unsigned_eq_0_iff)

lemma queue_inv_peek:
  "queue_inv q \<Longrightarrow> skb_peek q = Some (case q_items q of [] \<Rightarrow> None | x # xs \<Rightarrow> Some x)"
  by (auto simp: skb_peek_def queue_inv_empty split: list.splits)

lemma unat_succ_u32: "unat (w :: u32) + 1 < 2 ^ 32 \<Longrightarrow> unat (w + 1) = unat w + 1"
  by (simp add: unat_word_ariths)

lemma queue_inv_tail:
  "queue_inv q \<Longrightarrow> length (q_items q) + 1 < 2 ^ 32 \<Longrightarrow> queue_inv (queue_push q x)"
  by (simp add: queue_inv_def queue_push_def unat_succ_u32)

lemma queue_inv_add:
  "queue_inv q \<Longrightarrow> length (q_items q) + 1 < 2 ^ 32 \<Longrightarrow> queue_inv (skb_queue_add q x i)"
  by (simp add: queue_inv_def skb_queue_add_def unat_succ_u32 min_def)

lemma queue_inv_tl:
  assumes "queue_inv q" and "q_items q = x # xs"
  shows "queue_inv (q\<lparr>q_items := xs, qlen := qlen q - 1\<rparr>)"
proof -
  from assms have "qlen q \<noteq> 0" by (auto simp: queue_inv_def)
  moreover have "Suc (length xs) = unat (qlen q)" "q_linked q" using assms by (auto simp: queue_inv_def)
  ultimately show ?thesis by (simp add: queue_inv_def unat_minus_one)
qed

lemma queue_inv_dequeue:
  "queue_inv q \<Longrightarrow> skb_dequeue q = Some (x, q') \<Longrightarrow> queue_inv q' \<and> q_items q = x # q_items q'"
  by (auto simp: skb_dequeue_def split: list.splits dest: queue_inv_tl)

section \<open>A first-in first-out queue\<close>

text \<open>
  The contract the protocol layers rely on: a queue is its list of elements, \<open>enq\<close> appends
  while there is room for one more, \<open>peek\<close> and \<open>deq\<close> give the first.
\<close>

locale fifo =
  fixes enq :: "'q \<Rightarrow> 'a \<Rightarrow> 'q option"
    and deq :: "'q \<Rightarrow> ('a \<times> 'q) option"
    and peek :: "'q \<Rightarrow> 'a option option"
    and elems :: "'q \<Rightarrow> 'a list"
    and inv :: "'q \<Rightarrow> bool"
    and limit :: nat
  assumes enq_snoc: "inv q \<Longrightarrow> length (elems q) + 1 < limit \<Longrightarrow> \<exists>q'. enq q x = Some q' \<and> elems q' = elems q @ [x] \<and> inv q'"
    and deq_Cons: "inv q \<Longrightarrow> elems q = x # xs \<Longrightarrow> \<exists>q'. deq q = Some (x, q') \<and> elems q' = xs \<and> inv q'"
    and deq_Nil: "inv q \<Longrightarrow> elems q = [] \<Longrightarrow> deq q = None"
    and peek_elems: "inv q \<Longrightarrow> peek q = Some (case elems q of [] \<Rightarrow> None | x # xs \<Rightarrow> Some x)"
begin

primrec enq_all :: "'a list \<Rightarrow> 'q \<Rightarrow> 'q option" where
  "enq_all [] q = Some q"
| "enq_all (x # xs) q = Option.bind (enq q x) (enq_all xs)"

lemma enq_all_elems:
  "inv q \<Longrightarrow> length (elems q) + length xs < limit \<Longrightarrow>
   \<exists>q'. enq_all xs q = Some q' \<and> inv q' \<and> elems q' = elems q @ xs"
proof (induction xs arbitrary: q)
  case Nil
  then show ?case by simp
next
  case (Cons x xs)
  then obtain q1 where "enq q x = Some q1" "elems q1 = elems q @ [x]" "inv q1"
    using enq_snoc [of q x] by auto
  with Cons.IH [of q1] Cons.prems show ?case by simp
qed

primrec deq_all :: "nat \<Rightarrow> 'q \<Rightarrow> ('a list \<times> 'q) option" where
  "deq_all 0 q = Some ([], q)"
| "deq_all (Suc n) q =
     Option.bind (deq q) (\<lambda>r. Option.bind (deq_all n (snd r)) (\<lambda>s. Some (fst r # fst s, snd s)))"

lemma deq_all_elems:
  "inv q \<Longrightarrow> n \<le> length (elems q) \<Longrightarrow>
   \<exists>q'. deq_all n q = Some (take n (elems q), q') \<and> elems q' = drop n (elems q) \<and> inv q'"
proof (induction n arbitrary: q)
  case 0
  then show ?case by simp
next
  case (Suc n)
  then obtain x xs where xs: "elems q = x # xs" by (cases "elems q") auto
  with Suc.prems deq_Cons obtain q1 where q1: "deq q = Some (x, q1)" "elems q1 = xs" "inv q1"
    by blast
  with Suc.IH [of q1] Suc.prems xs show ?case by auto
qed

lemma fifo_order:
  assumes "inv q" and "elems q = []" and "length xs < limit"
  shows "\<exists>q1 q2. enq_all xs q = Some q1 \<and> deq_all (length xs) q1 = Some (xs, q2) \<and> elems q2 = [] \<and> inv q2"
proof -
  from enq_all_elems [of q xs] assms obtain q1 where "enq_all xs q = Some q1" "inv q1" "elems q1 = xs"
    by auto
  with deq_all_elems [of q1 "length xs"] show ?thesis by auto
qed

end

interpretation skbq: fifo skb_queue_tail skb_dequeue skb_peek q_items queue_inv "2 ^ 32"
proof unfold_locales
  fix q :: sk_buff_head and x xs
  assume "queue_inv q" and "q_items q = x # xs"
  then show "\<exists>q'. skb_dequeue q = Some (x, q') \<and> q_items q' = xs \<and> queue_inv q'"
    by (auto simp: skb_dequeue_def dest: queue_inv_tl)
next
  fix q :: sk_buff_head and x
  assume "queue_inv q" and "length (q_items q) + 1 < 2 ^ 32"
  then show "\<exists>q'. skb_queue_tail q x = Some q' \<and> q_items q' = q_items q @ [x] \<and> queue_inv q'"
    using queue_inv_tail [of q x] by (simp add: queue_inv_linked queue_push_def)
qed (simp_all add: skb_dequeue_def queue_inv_peek)

lemma skb_queue_free_empties:
  "queue_inv q \<Longrightarrow> \<exists>kept. skb_queue_free q = Some (skb_queue_init, kept)"
proof (induction q rule: skb_queue_free.induct)
  case (1 q)
  show ?case
  proof (cases "q_items q")
    case Nil
    with 1 have "skb_queue_empty q" and "q = skb_queue_init"
      by (auto simp: queue_inv_empty queue_inv_def skb_queue_init_def unsigned_eq_0_iff)
    then show ?thesis by (subst skb_queue_free.simps) simp
  next
    case (Cons x xs)
    with 1 have ne: "\<not> skb_queue_empty q" by (simp add: queue_inv_empty)
    have "queue_inv (q\<lparr>q_items := xs, qlen := qlen q - 1\<rparr>)"
      using "1.prems" Cons by (rule queue_inv_tl)
    then obtain kept where "skb_queue_free (q\<lparr>q_items := xs, qlen := qlen q - 1\<rparr>) =
        Some (skb_queue_init, kept)"
      using "1.IH" [OF ne Cons] by blast
    with ne Cons show ?thesis by (subst skb_queue_free.simps) simp
  qed
qed

section \<open>Buffer lemmas\<close>

lemma skb_buf_alloc [simp]: "skb_buf (alloc_skb n) = replicate n 0"
  by (simp add: alloc_skb_def)

lemma skb_push_ok:
  "n \<le> skb_data skb \<Longrightarrow>
   skb_push skb n =
     Some (skb\<lparr>skb_data := skb_data skb - n, skb_len := skb_len skb + word_of_nat n\<rparr>)"
  by (simp add: skb_push_def)

end
