(* ===== verification/Netdev.thy ===== *)
theory Netdev
  imports Utils Skbuff
begin

text \<open>
  The link layer: \<open>netdev.c\<close> (devices, framing, transmission), \<open>ethernet.h\<close>, and the
  state the layers below TCP and UDP keep.

  \<open>net\<close> gathers the file-level variables of \<open>netdev.c\<close>, \<open>arp.c\<close> and \<open>route.c\<close>: the two
  devices, the ARP cache and the routing table.  \<open>net_tx\<close> is what the stack has handed to
  \<open>tun_write\<close>, the oldest frame first.  The tap device itself (\<open>tuntap.c\<close>) is the
  environment: a frame goes out by being appended to \<open>net_tx\<close>, one comes in as the argument
  of the receive path.
\<close>

record arp_cache_entry =
  ae_hwtype :: u16
  ae_sip :: u32
  ae_smac :: bytes
  ae_state :: u32

record net =
  net_loop :: netdev
  net_dev :: netdev
  net_arp :: "arp_cache_entry list"
  net_routes :: "rtentry list"
  net_tx :: "bytes list"

section \<open>Ethernet framing\<close>

abbreviation ETH_HDR_LEN :: nat where "ETH_HDR_LEN \<equiv> 14"
abbreviation ETH_P_IP :: u16 where "ETH_P_IP \<equiv> 0x0800"
abbreviation ETH_P_ARP :: u16 where "ETH_P_ARP \<equiv> 0x0806"
abbreviation ETH_P_IPV6 :: u16 where "ETH_P_IPV6 \<equiv> 0x86DD"

text \<open>
  \<open>struct eth_hdr\<close>: \<open>dmac\<close> at 0, \<open>smac\<close> at 6, \<open>ethertype\<close> at 12.  \<open>eth_hdr\<close>
  converts the type to host order in place.
\<close>

definition eth_hdr :: "sk_buff \<Rightarrow> (u16 \<times> sk_buff) option" where
  "eth_hdr skb = do {
     t \<leftarrow> load16 (skb_buf skb) (skb_head skb + 12);
     b \<leftarrow> store16 (skb_buf skb) (skb_head skb + 12) (ntohs t);
     Some (ntohs t, skb\<lparr>skb_buf := b\<rparr>)
   }"

definition tun_write :: "bytes \<Rightarrow> net \<Rightarrow> net" where
  "tun_write frame n = n\<lparr>net_tx := net_tx n @ [frame]\<rparr>"

text \<open>
  \<open>netdev_transmit\<close>.  The two \<open>memcpy\<close> move \<open>dev->addr_len\<close> bytes, 6 on every device
  \<open>netdev_alloc\<close> makes.  The function has no \<open>return\<close> statement.
\<close>

definition netdev_transmit :: "sk_buff \<Rightarrow> bytes \<Rightarrow> u16 \<Rightarrow> net \<Rightarrow> (rc \<times> sk_buff \<times> net) option" where
  "netdev_transmit skb dst_hw ethertype n = do {
     dev \<leftarrow> skb_dev skb;
     skb \<leftarrow> skb_push skb ETH_HDR_LEN;
     let hdr = skb_data skb;
     dmac \<leftarrow> load_bytes dst_hw 0 (unat (nd_addr_len dev));
     b \<leftarrow> store_bytes (skb_buf skb) hdr dmac;
     smac \<leftarrow> load_bytes (nd_hwaddr dev) 0 (unat (nd_addr_len dev));
     b \<leftarrow> store_bytes b (hdr + 6) smac;
     b \<leftarrow> store16 b (hdr + 12) (htons ethertype);
     let skb = skb\<lparr>skb_buf := b\<rparr>;
     frame \<leftarrow> load_bytes b (skb_data skb) (unat (skb_len skb));
     Some (Indet, skb, tun_write frame n)
   }"

section \<open>Devices\<close>

text \<open>
  \<open>sscanf (hwaddr, "%hhx:%hhx:...")\<close> on a string of six groups of hexadecimal digits; any
  other string leaves bytes of the structure unset and is refused here.
\<close>

definition hex_digit :: "char \<Rightarrow> nat option" where
  "hex_digit c =
     (let n = (of_char c :: nat) in
      if 48 \<le> n \<and> n \<le> 57 then Some (n - 48)
      else if 65 \<le> n \<and> n \<le> 70 then Some (n - 55)
      else if 97 \<le> n \<and> n \<le> 102 then Some (n - 87)
      else None)"

fun hex_value :: "string \<Rightarrow> nat \<Rightarrow> nat option" where
  "hex_value [] acc = Some acc"
| "hex_value (c # cs) acc = do { d \<leftarrow> hex_digit c; hex_value cs (16 * acc + d) }"

fun scan_mac :: "string list \<Rightarrow> bytes option" where
  "scan_mac [] = Some []"
| "scan_mac (g # gs) =
     (if g = [] then None
      else do { v \<leftarrow> hex_value g 0; vs \<leftarrow> scan_mac gs; Some (word_of_nat v # vs) })"

definition netdev_alloc :: "string \<Rightarrow> string \<Rightarrow> u32 \<Rightarrow> netdev option" where
  "netdev_alloc addr hwaddr mtu = do {
     a \<leftarrow> ip_parse addr;
     mac \<leftarrow> scan_mac (split_on (CHR '':'') hwaddr);
     (if length mac = 6
      then Some \<lparr>nd_addr = a, nd_addr_len = 6, nd_hwaddr = mac, nd_mtu = mtu\<rparr> else None)
   }"

definition netdev_init :: "net option" where
  "netdev_init = do {
     l \<leftarrow> netdev_alloc ''127.0.0.1'' ''00:00:00:00:00:00'' 1500;
     d \<leftarrow> netdev_alloc ''10.0.1.4'' ''00:0c:29:6d:50:25'' 1500;
     Some \<lparr>net_loop = l, net_dev = d, net_arp = [], net_routes = [], net_tx = []\<rparr>
   }"

definition netdev_get :: "net \<Rightarrow> u32 \<Rightarrow> netdev option" where
  "netdev_get n sip = (if nd_addr (net_dev n) = sip then Some (net_dev n) else None)"

definition local_ipaddress :: "net \<Rightarrow> u32 \<Rightarrow> bool" where
  "local_ipaddress n addr =
     (if addr = 0 then True
      else if addr = nd_addr (net_dev n) then True
      else if addr = nd_addr (net_loop n) then True
      else False)"

section \<open>Well-formed devices\<close>

definition dev_ok :: "netdev \<Rightarrow> bool" where
  "dev_ok d \<longleftrightarrow> nd_addr_len d = 6 \<and> length (nd_hwaddr d) = 6"

lemma netdev_alloc_ok: "netdev_alloc a m mtu = Some d \<Longrightarrow> dev_ok d"
  by (auto simp: netdev_alloc_def dev_ok_def split: if_splits elim!: bind_SomeE)

lemma netdev_init_eq:
  "netdev_init = Some
     \<lparr>net_loop = \<lparr>nd_addr = 0x7F000001, nd_addr_len = 6, nd_hwaddr = [0, 0, 0, 0, 0, 0],
                  nd_mtu = 1500\<rparr>,
      net_dev = \<lparr>nd_addr = 0x0A000104, nd_addr_len = 6,
                 nd_hwaddr = [0x00, 0x0C, 0x29, 0x6D, 0x50, 0x25], nd_mtu = 1500\<rparr>,
      net_arp = [], net_routes = [], net_tx = []\<rparr>"
  by code_simp

text \<open>
  What \<open>netdev_transmit\<close> puts on the wire: the 14 byte header in front of the \<open>skb->len\<close>
  bytes at \<open>skb->data\<close>.
\<close>

definition eth_frame :: "bytes \<Rightarrow> bytes \<Rightarrow> u16 \<Rightarrow> bytes \<Rightarrow> bytes" where
  "eth_frame dmac smac ethertype payload =
     dmac @ smac @ [hi8 ethertype, lo8 ethertype] @ payload"

lemma put16_hdr:
  "length xs = n \<Longrightarrow> put16 (xs @ a # b # ys) n w = xs @ lo8 w # hi8 w # ys"
  by (auto simp: put16_def list_update_append)

lemma eth_hdr_bytes:
  assumes "length dmac = 6" and "length smac = 6" and "d + 14 \<le> length b"
  shows "put16 (put_bytes (put_bytes b d dmac) (d + 6) smac) (d + 12) w =
    take d b @ dmac @ smac @ [lo8 w, hi8 w] @ drop (d + 14) b" (is "?L = ?R")
proof (rule nth_equalityI)
  have len: "length (put_bytes b d dmac) = length b"
    using assms by simp
  then have len2: "length (put_bytes (put_bytes b d dmac) (d + 6) smac) = length b"
    using assms by (subst length_put_bytes) auto
  with assms show "length ?L = length ?R" by simp
  fix i
  assume i: "i < length ?L"
  consider "i < d" | "d \<le> i" "i < d + 6" | "d + 6 \<le> i" "i < d + 12" | "i = d + 12" | "i = d + 13"
    | "d + 14 \<le> i" by linarith
  then show "?L ! i = ?R ! i"
    using assms len len2 i
    by cases (auto simp: nth_append nth_put16 nth_put_bytes nth_Cons')
qed

lemma netdev_transmit_eq:
  assumes "skb_dev skb = Some dev" and "dev_ok dev" and "length dst_hw = 6"
    and "14 \<le> skb_data skb" and "skb_data skb + unat (skb_len skb) \<le> length (skb_buf skb)"
    and "unat (skb_len skb) + 14 < 2 ^ 32"
  shows "\<exists>b'. netdev_transmit skb dst_hw ethertype n =
    Some (Indet, skb\<lparr>skb_buf := b', skb_data := skb_data skb - 14, skb_len := skb_len skb + 14\<rparr>,
      tun_write (eth_frame dst_hw (nd_hwaddr dev) ethertype
        (take (unat (skb_len skb)) (drop (skb_data skb) (skb_buf skb)))) n) \<and>
    drop (skb_data skb) b' = drop (skb_data skb) (skb_buf skb) \<and> length b' = length (skb_buf skb)"
proof -
  define d where "d = skb_data skb - 14"
  have d: "skb_data skb = d + 14" using assms(4) by (simp add: d_def)
  let ?b = "put16 (put_bytes (put_bytes (skb_buf skb) d dst_hw) (d + 6) (nd_hwaddr dev)) (d + 12)
      (htons ethertype)"
  have hw: "unat (nd_addr_len dev) = 6" "length (nd_hwaddr dev) = 6"
    using assms(2) by (simp_all add: dev_ok_def)
  have b: "?b = take d (skb_buf skb) @ dst_hw @ nd_hwaddr dev @ [hi8 ethertype, lo8 ethertype] @
      drop (d + 14) (skb_buf skb)"
    using eth_hdr_bytes [of dst_hw "nd_hwaddr dev" d "skb_buf skb"] assms hw d
    by (simp add: bswap16_def)
  have len: "length (put_bytes (skb_buf skb) d dst_hw) = length (skb_buf skb)"
    using assms d by simp
  have len2: "length (put_bytes (put_bytes (skb_buf skb) d dst_hw) (d + 6) (nd_hwaddr dev)) =
      length (skb_buf skb)"
    using assms d hw len by (subst length_put_bytes) auto
  have n14: "unat (skb_len skb + 14) = unat (skb_len skb) + 14"
    using assms(6) by (simp add: unat_word_ariths)
  have frame: "take (unat (skb_len skb) + 14) (drop d ?b) =
      eth_frame dst_hw (nd_hwaddr dev) ethertype (take (unat (skb_len skb)) (drop (d + 14) (skb_buf skb)))"
    unfolding b eth_frame_def using assms d hw by (simp add: add.commute)
  have "drop (d + 14) ?b = drop (d + 14) (skb_buf skb)"
    unfolding b using assms d hw by (simp add: add.commute)
  moreover have "length ?b = length (skb_buf skb)" using len2 by simp
  moreover have "netdev_transmit skb dst_hw ethertype n =
      Some (Indet, skb\<lparr>skb_buf := ?b, skb_data := d, skb_len := skb_len skb + 14\<rparr>,
        tun_write (take (unat (skb_len skb) + 14) (drop d ?b)) n)"
    using assms d hw len len2 n14
    by (simp add: netdev_transmit_def skb_push_def Let_def)
  ultimately show ?thesis
    unfolding frame by (intro exI [of _ ?b]) (simp add: d)
qed

end
