(* ===== verification/Arp.thy ===== *)
theory Arp
  imports Netdev
begin

text \<open>
  \<open>arp.c\<close>: the ARP cache and the ARP packets.  The operations work on the packet buffer in
  place, byte for byte; \<open>struct arp_hdr\<close> lies behind the Ethernet header (\<open>hwtype\<close> at 0,
  \<open>protype\<close> 2, \<open>hwsize\<close> 4, \<open>prosize\<close> 5, \<open>opcode\<close> 6) and \<open>struct arp_ipv4\<close> behind that
  (\<open>smac\<close> at 8, \<open>sip\<close> 14, \<open>dmac\<close> 18, \<open>dip\<close> 24).

  \<open>arp_pkt\<close> with \<open>arp_view\<close> is the packet as a protocol message, \<open>arp_learn\<close> the cache as
  a finite map with in-place update; the lemmas show that \<open>arp_rcv\<close>, \<open>arp_reply\<close> and
  \<open>arp_request\<close> do on buffers what the protocol says on messages.
\<close>

abbreviation ARP_ETHERNET :: u16 where "ARP_ETHERNET \<equiv> 1"
abbreviation ARP_IPV4 :: u16 where "ARP_IPV4 \<equiv> 0x0800"
abbreviation ARP_REQUEST :: u16 where "ARP_REQUEST \<equiv> 1"
abbreviation ARP_REPLY :: u16 where "ARP_REPLY \<equiv> 2"
abbreviation ARP_HDR_LEN :: nat where "ARP_HDR_LEN \<equiv> 8"
abbreviation ARP_DATA_LEN :: nat where "ARP_DATA_LEN \<equiv> 20"
abbreviation ARP_RESOLVED :: u32 where "ARP_RESOLVED \<equiv> 2"

definition broadcast_hw :: bytes where
  "broadcast_hw = [0xFF, 0xFF, 0xFF, 0xFF, 0xFF, 0xFF]"

section \<open>The cache\<close>

definition arp_entry_alloc :: "u16 \<Rightarrow> u32 \<Rightarrow> bytes \<Rightarrow> arp_cache_entry" where
  "arp_entry_alloc hwtype sip smac =
     \<lparr>ae_hwtype = hwtype, ae_sip = sip, ae_smac = smac, ae_state = ARP_RESOLVED\<rparr>"

definition insert_arp_translation_table ::
    "u16 \<Rightarrow> u32 \<Rightarrow> bytes \<Rightarrow> arp_cache_entry list \<Rightarrow> int \<times> arp_cache_entry list" where
  "insert_arp_translation_table hwtype sip smac cache =
     (0, cache @ [arp_entry_alloc hwtype sip smac])"

fun update_arp_translation_table ::
    "u16 \<Rightarrow> u32 \<Rightarrow> bytes \<Rightarrow> arp_cache_entry list \<Rightarrow> int \<times> arp_cache_entry list" where
  "update_arp_translation_table hwtype sip smac [] = (0, [])"
| "update_arp_translation_table hwtype sip smac (e # es) =
     (if ae_hwtype e = hwtype \<and> ae_sip e = sip then (1, e\<lparr>ae_smac := smac\<rparr> # es)
      else let (r, es') = update_arp_translation_table hwtype sip smac es in (r, e # es'))"

definition arp_get_hwaddr :: "net \<Rightarrow> u32 \<Rightarrow> bytes option" where
  "arp_get_hwaddr n sip =
     map_option ae_smac (find_first (\<lambda>e. ae_state e = ARP_RESOLVED \<and> ae_sip e = sip) (net_arp n))"

text \<open>\<open>free_arp\<close>: every entry is unlinked and freed (\<open>List_Head.list_free_all\<close>).\<close>

definition free_arp :: "net \<Rightarrow> net" where
  "free_arp n = n\<lparr>net_arp := []\<rparr>"

section \<open>Packets\<close>

definition arp_alloc_skb :: sk_buff where
  "arp_alloc_skb =
     (skb_reserve (alloc_skb (ETH_HDR_LEN + ARP_HDR_LEN + ARP_DATA_LEN))
        (ETH_HDR_LEN + ARP_HDR_LEN + ARP_DATA_LEN))\<lparr>skb_protocol := htons ETH_P_ARP\<rparr>"

definition arp_request :: "u32 \<Rightarrow> u32 \<Rightarrow> netdev \<Rightarrow> net \<Rightarrow> (rc \<times> net) option" where
  "arp_request sip dip dev n = do {
     let skb = arp_alloc_skb\<lparr>skb_dev := Some dev\<rparr>;
     skb \<leftarrow> skb_push skb ARP_DATA_LEN;
     let payload = skb_data skb;
     hw \<leftarrow> load_bytes (nd_hwaddr dev) 0 (unat (nd_addr_len dev));
     b \<leftarrow> store_bytes (skb_buf skb) payload hw;
     b \<leftarrow> store32 b (payload + 6) sip;
     bc \<leftarrow> load_bytes broadcast_hw 0 (unat (nd_addr_len dev));
     b \<leftarrow> store_bytes b (payload + 10) bc;
     b \<leftarrow> store32 b (payload + 16) dip;
     skb \<leftarrow> skb_push skb ARP_HDR_LEN;
     let arp = skb_data skb;
     b \<leftarrow> store16 b (arp + 6) (htons ARP_REQUEST);
     b \<leftarrow> store16 b arp (htons ARP_ETHERNET);
     b \<leftarrow> store16 b (arp + 2) (htons ETH_P_IP);
     b \<leftarrow> store8 b (arp + 4) (nd_addr_len dev);
     b \<leftarrow> store8 b (arp + 5) 4;
     s \<leftarrow> load32 b (payload + 6);
     b \<leftarrow> store32 b (payload + 6) (htonl s);
     d \<leftarrow> load32 b (payload + 16);
     b \<leftarrow> store32 b (payload + 16) (htonl d);
     (r, skb, n) \<leftarrow> netdev_transmit (skb\<lparr>skb_buf := b\<rparr>) broadcast_hw ETH_P_ARP n;
     Some (r, n)
   }"

definition arp_reply :: "sk_buff \<Rightarrow> netdev \<Rightarrow> net \<Rightarrow> (sk_buff option \<times> net) option" where
  "arp_reply skb dev n = do {
     let arphdr = skb_head skb + ETH_HDR_LEN;
     let skb = skb_reserve skb (ETH_HDR_LEN + ARP_HDR_LEN + ARP_DATA_LEN);
     skb \<leftarrow> skb_push skb (ARP_HDR_LEN + ARP_DATA_LEN);
     let arpdata = arphdr + 8;
     let b = skb_buf skb;
     m \<leftarrow> load_bytes b arpdata 6;
     b \<leftarrow> store_bytes b (arpdata + 10) m;
     s \<leftarrow> load32 b (arpdata + 6);
     b \<leftarrow> store32 b (arpdata + 16) s;
     hw \<leftarrow> load_bytes (nd_hwaddr dev) 0 6;
     b \<leftarrow> store_bytes b arpdata hw;
     b \<leftarrow> store32 b (arpdata + 6) (nd_addr dev);
     b \<leftarrow> store16 b (arphdr + 6) ARP_REPLY;
     opcode \<leftarrow> load16 b (arphdr + 6);
     b \<leftarrow> store16 b (arphdr + 6) (htons opcode);
     hwtype \<leftarrow> load16 b arphdr;
     b \<leftarrow> store16 b arphdr (htons hwtype);
     protype \<leftarrow> load16 b (arphdr + 2);
     b \<leftarrow> store16 b (arphdr + 2) (htons protype);
     s \<leftarrow> load32 b (arpdata + 6);
     b \<leftarrow> store32 b (arpdata + 6) (htonl s);
     d \<leftarrow> load32 b (arpdata + 16);
     b \<leftarrow> store32 b (arpdata + 16) (htonl d);
     dmac \<leftarrow> load_bytes b (arpdata + 10) 6;
     (r, skb, n) \<leftarrow> netdev_transmit (skb\<lparr>skb_buf := b, skb_dev := Some dev\<rparr>) dmac ETH_P_ARP n;
     Some (free_skb skb, n)
   }"

text \<open>
  \<open>arp_rcv\<close>.  The first component of the result is what is left of the buffer: \<open>None\<close> when
  it was freed.
\<close>

definition arp_rcv :: "sk_buff \<Rightarrow> net \<Rightarrow> (sk_buff option \<times> net) option" where
  "arp_rcv skb n = do {
     let arphdr = skb_head skb + ETH_HDR_LEN;
     let b = skb_buf skb;
     v \<leftarrow> load16 b arphdr;
     b \<leftarrow> store16 b arphdr (ntohs v);
     v \<leftarrow> load16 b (arphdr + 2);
     b \<leftarrow> store16 b (arphdr + 2) (ntohs v);
     v \<leftarrow> load16 b (arphdr + 6);
     b \<leftarrow> store16 b (arphdr + 6) (ntohs v);
     hwtype \<leftarrow> load16 b arphdr;
     protype \<leftarrow> load16 b (arphdr + 2);
     (if hwtype \<noteq> ARP_ETHERNET then Some (free_skb (skb\<lparr>skb_buf := b\<rparr>), n)
      else if protype \<noteq> ARP_IPV4 then Some (free_skb (skb\<lparr>skb_buf := b\<rparr>), n)
      else do {
        let arpdata = arphdr + 8;
        v \<leftarrow> load32 b (arpdata + 6);
        b \<leftarrow> store32 b (arpdata + 6) (ntohl v);
        v \<leftarrow> load32 b (arpdata + 16);
        b \<leftarrow> store32 b (arpdata + 16) (ntohl v);
        let skb = skb\<lparr>skb_buf := b\<rparr>;
        sip \<leftarrow> load32 b (arpdata + 6);
        dip \<leftarrow> load32 b (arpdata + 16);
        smac \<leftarrow> load_bytes b arpdata 6;
        let (merge, cache) = update_arp_translation_table hwtype sip smac (net_arp n);
        let n = n\<lparr>net_arp := cache\<rparr>;
        (case netdev_get n dip of
           None \<Rightarrow> Some (free_skb skb, n)
         | Some dev \<Rightarrow> do {
             let (r, cache) = (if merge = 0 then insert_arp_translation_table hwtype sip smac (net_arp n)
                               else (0, net_arp n));
             let n = n\<lparr>net_arp := cache\<rparr>;
             (if r \<noteq> 0 then Some (free_skb skb, n)
              else do {
                opcode \<leftarrow> load16 b (arphdr + 6);
                (if opcode = ARP_REQUEST then arp_reply skb dev n
                 else if opcode = ARP_REPLY then Some (Some skb, n)
                 else Some (free_skb skb, n))
              })
           })
      })
   }"

section \<open>The cache as a table of addresses\<close>

text \<open>
  Entries are learned from Ethernet packets only and are born resolved, one per address.
\<close>

definition arp_inv :: "arp_cache_entry list \<Rightarrow> bool" where
  "arp_inv c \<longleftrightarrow> distinct (map ae_sip c) \<and>
     (\<forall>e\<in>set c. ae_hwtype e = ARP_ETHERNET \<and> ae_state e = ARP_RESOLVED \<and> length (ae_smac e) = 6)"

definition arp_lookup :: "arp_cache_entry list \<Rightarrow> u32 \<Rightarrow> bytes option" where
  "arp_lookup c sip =
     map_option ae_smac (find_first (\<lambda>e. ae_state e = ARP_RESOLVED \<and> ae_sip e = sip) c)"

text \<open>What a packet for this host does to the cache: update the entry, or add one.\<close>

definition arp_learn :: "u32 \<Rightarrow> bytes \<Rightarrow> arp_cache_entry list \<Rightarrow> arp_cache_entry list" where
  "arp_learn sip smac c =
     (case update_arp_translation_table ARP_ETHERNET sip smac c of
        (r, c') \<Rightarrow> if r = 0 then snd (insert_arp_translation_table ARP_ETHERNET sip smac c') else c')"

lemma arp_get_hwaddr_lookup: "arp_get_hwaddr n sip = arp_lookup (net_arp n) sip"
  by (simp add: arp_get_hwaddr_def arp_lookup_def)

lemma update_arp_miss:
  "(\<forall>e\<in>set c. \<not> (ae_hwtype e = t \<and> ae_sip e = sip)) \<Longrightarrow>
   update_arp_translation_table t sip smac c = (0, c)"
  by (induction c) auto

lemma update_arp_hit:
  assumes "e \<in> set c" and "ae_hwtype e = t" and "ae_sip e = sip"
  shows "\<exists>us d vs. c = us @ d # vs \<and> ae_hwtype d = t \<and> ae_sip d = sip \<and>
    update_arp_translation_table t sip smac c = (1, us @ d\<lparr>ae_smac := smac\<rparr> # vs)"
  using assms
proof (induction c)
  case Nil
  then show ?case by simp
next
  case (Cons x xs)
  show ?case
  proof (cases "ae_hwtype x = t \<and> ae_sip x = sip")
    case True
    then show ?thesis by (intro exI [of _ "[]"] exI [of _ x] exI [of _ xs]) simp
  next
    case False
    with Cons obtain us d vs where "xs = us @ d # vs" "ae_hwtype d = t" "ae_sip d = sip"
      "update_arp_translation_table t sip smac xs = (1, us @ d\<lparr>ae_smac := smac\<rparr> # vs)" by auto
    with False show ?thesis by (intro exI [of _ "x # us"] exI [of _ d] exI [of _ vs]) auto
  qed
qed

lemma arp_lookup_decomp:
  assumes "arp_inv (us @ d # vs)"
  shows "arp_lookup (us @ d # vs) s = (if ae_sip d = s then Some (ae_smac d) else arp_lookup (us @ vs) s)"
proof -
  have "\<forall>u\<in>set us. ae_sip u \<noteq> ae_sip d" "ae_state d = ARP_RESOLVED"
    using assms by (auto simp: arp_inv_def) (metis image_eqI)
  then have "ae_sip d = s \<Longrightarrow>
      find_first (\<lambda>e. ae_state e = ARP_RESOLVED \<and> ae_sip e = s) us = None"
    by (auto simp: find_first_None)
  then show ?thesis
    using \<open>ae_state d = ARP_RESOLVED\<close>
    by (auto simp: arp_lookup_def find_first_append split: option.splits)
qed

lemma arp_inv_update:
  assumes "arp_inv c" and "length smac = 6"
  shows "arp_inv (snd (update_arp_translation_table ARP_ETHERNET sip smac c))"
proof (cases "\<exists>e\<in>set c. ae_hwtype e = ARP_ETHERNET \<and> ae_sip e = sip")
  case True
  then obtain us d vs where "c = us @ d # vs"
    "update_arp_translation_table ARP_ETHERNET sip smac c = (1, us @ d\<lparr>ae_smac := smac\<rparr> # vs)"
    using update_arp_hit by blast
  with assms show ?thesis by (auto simp: arp_inv_def)
next
  case False
  with assms show ?thesis by (simp add: update_arp_miss)
qed

lemma arp_learn_cases:
  assumes "arp_inv c"
  obtains us d vs where "c = us @ d # vs" and "ae_sip d = sip" and
      "arp_learn sip smac c = us @ d\<lparr>ae_smac := smac\<rparr> # vs"
  | "sip \<notin> ae_sip ` set c" and "arp_learn sip smac c = c @ [arp_entry_alloc ARP_ETHERNET sip smac]"
proof (cases "\<exists>e\<in>set c. ae_hwtype e = ARP_ETHERNET \<and> ae_sip e = sip")
  case True
  then obtain us d vs where "c = us @ d # vs" "ae_sip d = sip"
    "update_arp_translation_table ARP_ETHERNET sip smac c = (1, us @ d\<lparr>ae_smac := smac\<rparr> # vs)"
    using update_arp_hit by blast
  then show ?thesis by (intro that(1)) (auto simp: arp_learn_def)
next
  case False
  with assms have "sip \<notin> ae_sip ` set c" by (auto simp: arp_inv_def)
  moreover from False have "update_arp_translation_table ARP_ETHERNET sip smac c = (0, c)"
    by (intro update_arp_miss) auto
  ultimately show ?thesis
    by (intro that(2)) (auto simp: arp_learn_def insert_arp_translation_table_def)
qed

lemma arp_inv_learn:
  assumes "arp_inv c" and "length smac = 6"
  shows "arp_inv (arp_learn sip smac c)"
  using assms(1)
proof (cases rule: arp_learn_cases [of c sip smac])
  case (1 us d vs)
  with assms show ?thesis by (auto simp: arp_inv_def)
next
  case 2
  with assms show ?thesis by (auto simp: arp_inv_def arp_entry_alloc_def)
qed

lemma arp_lookup_learn:
  assumes "arp_inv c" and "length smac = 6"
  shows "arp_lookup (arp_learn sip smac c) = (arp_lookup c)(sip \<mapsto> smac)"
  using assms(1)
proof (cases rule: arp_learn_cases [of c sip smac])
  case (1 us d vs)
  have "arp_inv (us @ d\<lparr>ae_smac := smac\<rparr> # vs)"
    using arp_inv_learn [OF assms, of sip] 1(3) by metis
  then show ?thesis
    using 1 assms by (auto simp: fun_eq_iff arp_lookup_decomp)
next
  case 2
  then have "arp_lookup (arp_learn sip smac c) s =
      (case find_first (\<lambda>e. ae_state e = ARP_RESOLVED \<and> ae_sip e = s) c of
         None \<Rightarrow> if s = sip then Some smac else None | Some e \<Rightarrow> Some (ae_smac e))" for s
    by (auto simp: arp_lookup_def find_first_append arp_entry_alloc_def split: option.splits)
  moreover from 2 have "find_first (\<lambda>e. ae_state e = ARP_RESOLVED \<and> ae_sip e = sip) c = None"
    by (auto simp: find_first_None)
  ultimately show ?thesis
    by (auto simp: fun_eq_iff arp_lookup_def split: option.splits)
qed

text \<open>
  The interface of the cache: the resolver of the IP layer relies on nothing else.
\<close>

locale address_table =
  fixes lookup :: "'t \<Rightarrow> 'k \<Rightarrow> 'v option"
    and learn :: "'k \<Rightarrow> 'v \<Rightarrow> 't \<Rightarrow> 't"
    and inv :: "'t \<Rightarrow> bool"
    and valid :: "'v \<Rightarrow> bool"
  assumes lookup_learn: "inv t \<Longrightarrow> valid v \<Longrightarrow> lookup (learn k v t) = (lookup t)(k \<mapsto> v)"
    and inv_learn: "inv t \<Longrightarrow> valid v \<Longrightarrow> inv (learn k v t)"
    and lookup_valid: "inv t \<Longrightarrow> lookup t k = Some v \<Longrightarrow> valid v"
begin

lemma learn_all:
  "inv t \<Longrightarrow> \<forall>(k, v)\<in>set kvs. valid v \<Longrightarrow>
   inv (foldl (\<lambda>t (k, v). learn k v t) t kvs) \<and>
   lookup (foldl (\<lambda>t (k, v). learn k v t) t kvs) = lookup t ++ map_of (rev kvs)"
proof (induction kvs arbitrary: t)
  case Nil
  then show ?case by simp
next
  case (Cons kv kvs)
  obtain k v where kv: "kv = (k, v)" by fastforce
  with Cons.prems have "inv (learn k v t)" "lookup (learn k v t) = (lookup t)(k \<mapsto> v)"
    by (auto simp: inv_learn lookup_learn)
  with Cons.IH [of "learn k v t"] Cons.prems show ?case
    by (auto simp: kv map_add_def fun_eq_iff split: option.splits)
qed

lemma last_learned_wins:
  "inv t \<Longrightarrow> valid v \<Longrightarrow> valid w \<Longrightarrow> lookup (learn k w (learn k v t)) k = Some w"
  by (simp add: lookup_learn inv_learn)

end

interpretation arpt: address_table arp_lookup arp_learn arp_inv "\<lambda>m. length m = 6"
proof unfold_locales
  fix c :: "arp_cache_entry list" and k :: u32 and v :: bytes
  assume "arp_inv c" and "arp_lookup c k = Some v"
  then show "length v = 6"
    by (auto simp: arp_lookup_def arp_inv_def dest: find_first_SomeD)
qed (simp_all add: arp_lookup_learn arp_inv_learn)

section \<open>Packets as messages\<close>

record arp_pkt =
  ap_hwtype :: u16
  ap_protype :: u16
  ap_hwsize :: u8
  ap_prosize :: u8
  ap_opcode :: u16
  ap_smac :: bytes
  ap_sip :: u32
  ap_dmac :: bytes
  ap_dip :: u32

text \<open>The packet at offset \<open>a\<close>, every field brought to host order.\<close>

definition arp_view :: "bytes \<Rightarrow> nat \<Rightarrow> arp_pkt" where
  "arp_view b a =
     \<lparr>ap_hwtype = ntohs (get16 b a), ap_protype = ntohs (get16 b (a + 2)),
      ap_hwsize = b ! (a + 4), ap_prosize = b ! (a + 5), ap_opcode = ntohs (get16 b (a + 6)),
      ap_smac = take 6 (drop (a + 8) b), ap_sip = ntohl (get32 b (a + 14)),
      ap_dmac = take 6 (drop (a + 18) b), ap_dip = ntohl (get32 b (a + 24))\<rparr>"

text \<open>The message as the 28 bytes of a packet.\<close>

definition arp_encode :: "arp_pkt \<Rightarrow> bytes" where
  "arp_encode m =
     bytes16 (htons (ap_hwtype m)) @ bytes16 (htons (ap_protype m)) @
     [ap_hwsize m] @ [ap_prosize m] @ bytes16 (htons (ap_opcode m)) @
     ap_smac m @ bytes32 (htonl (ap_sip m)) @ ap_dmac m @ bytes32 (htonl (ap_dip m))"

lemma arp_encode_view:
  assumes "i + 28 \<le> length b"
  shows "take 28 (drop i b) = arp_encode (arp_view b i)"
proof -
  have split: "take (k + m) (drop j b) = take k (drop j b) @ take m (drop (j + k) b)" for k m j
    by (simp add: take_add add.commute)
  have "take 28 (drop i b) =
      take (2 + (2 + (1 + (1 + (2 + (6 + (4 + (6 + 4)))))))) (drop i b)" by simp
  also have "\<dots> = arp_encode (arp_view b i)"
    unfolding split using assms
    by (simp add: arp_encode_def arp_view_def take2_bytes16 take4_bytes32 take1_byte del: One_nat_def)
      (simp add: numeral_eq_Suc)
  finally show ?thesis .
qed

text \<open>Encoding a message and reading it back gives the message.\<close>

lemma arp_view_encode:
  assumes "length (ap_smac m) = 6" and "length (ap_dmac m) = 6"
  shows "arp_view (arp_encode m) 0 = m"
  using assms
  by (cases m) (simp add: arp_view_def arp_encode_def get32_def get16_def bytes16_def bytes32_def
      nth_append nth_Cons' bswap16_def)

definition arp_request_msg :: "netdev \<Rightarrow> u32 \<Rightarrow> u32 \<Rightarrow> arp_pkt" where
  "arp_request_msg dev sip dip =
     \<lparr>ap_hwtype = ARP_ETHERNET, ap_protype = ARP_IPV4, ap_hwsize = 6, ap_prosize = 4,
      ap_opcode = ARP_REQUEST, ap_smac = nd_hwaddr dev, ap_sip = sip,
      ap_dmac = broadcast_hw, ap_dip = dip\<rparr>"

text \<open>The answer to \<open>m\<close>: source and destination exchanged, our address filled in.\<close>

definition arp_reply_msg :: "netdev \<Rightarrow> arp_pkt \<Rightarrow> arp_pkt" where
  "arp_reply_msg dev m =
     m\<lparr>ap_opcode := ARP_REPLY, ap_smac := nd_hwaddr dev, ap_sip := nd_addr dev,
       ap_dmac := ap_smac m, ap_dip := ap_sip m\<rparr>"

lemma length_broadcast_hw [simp]: "length broadcast_hw = 6"
  by (simp add: broadcast_hw_def)

lemma take_broadcast_hw [simp]: "take 6 broadcast_hw = broadcast_hw"
  by (simp add: broadcast_hw_def)

lemma arp_request_frame:
  assumes "dev_ok dev"
  shows "arp_request sip dip dev n =
    Some (Indet, tun_write (eth_frame broadcast_hw (nd_hwaddr dev) ETH_P_ARP
      (arp_encode (arp_request_msg dev sip dip))) n)"
proof -
  have hw: "unat (nd_addr_len dev) = 6" "length (nd_hwaddr dev) = 6" "nd_addr_len dev = 6"
    using assms by (simp_all add: dev_ok_def)
  define b where "b = put32 (put32 (((put16 (put16 (put16 (put32 (put_bytes (put32 (put_bytes
      (replicate 42 0) 22 (nd_hwaddr dev)) 28 sip) 32 broadcast_hw) 38 dip) 20 (htons ARP_REQUEST))
      14 (htons ARP_ETHERNET)) 16 (htons ETH_P_IP))[18 := 6])[19 := 4]) 28 (htonl sip)) 38 (htonl dip)"
  have len: "length b = 42" using hw by (simp add: b_def)
  have view: "arp_view b 14 = arp_request_msg dev sip dip"
    unfolding arp_view_def arp_request_msg_def b_def using hw by (simp add: mem_simps)
  let ?s = "arp_alloc_skb\<lparr>skb_dev := Some dev, skb_data := 14, skb_len := 28, skb_buf := b\<rparr>"
  have req: "arp_request sip dip dev n =
      Option.bind (netdev_transmit ?s broadcast_hw ETH_P_ARP n) (\<lambda>(r, skb, n). Some (r, n))"
    using hw
    by (simp add: arp_request_def arp_alloc_skb_def alloc_skb_def skb_reserve_def skb_push_def
        Let_def b_def mem_simps)
  have "\<exists>b'. netdev_transmit ?s broadcast_hw ETH_P_ARP n =
      Some (Indet, ?s\<lparr>skb_buf := b', skb_data := 0, skb_len := 42\<rparr>,
        tun_write (eth_frame broadcast_hw (nd_hwaddr dev) ETH_P_ARP (take 28 (drop 14 b))) n)"
    using netdev_transmit_eq [of ?s dev broadcast_hw ETH_P_ARP n] assms len by auto
  then show ?thesis
    using req len by (auto simp: arp_encode_view view [symmetric] simp del: take_all_iff take_all)
qed

text \<open>The packet at offset \<open>a\<close> once \<open>arp_rcv\<close> has converted it in place.\<close>

definition arp_hview :: "bytes \<Rightarrow> nat \<Rightarrow> arp_pkt" where
  "arp_hview b a =
     \<lparr>ap_hwtype = get16 b a, ap_protype = get16 b (a + 2),
      ap_hwsize = b ! (a + 4), ap_prosize = b ! (a + 5), ap_opcode = get16 b (a + 6),
      ap_smac = take 6 (drop (a + 8) b), ap_sip = get32 b (a + 14),
      ap_dmac = take 6 (drop (a + 18) b), ap_dip = get32 b (a + 24)\<rparr>"

lemma arp_reply_frame:
  assumes "dev_ok dev" and "skb_data skb = 0" and "skb_len skb = 0" and "skb_refcnt skb < 1"
    and "42 \<le> length (skb_buf skb)"
  shows "arp_reply skb dev n =
    Some (None, tun_write (eth_frame (ap_smac (arp_hview (skb_buf skb) 14)) (nd_hwaddr dev) ETH_P_ARP
      (arp_encode (arp_reply_msg dev (arp_hview (skb_buf skb) 14)))) n)"
proof -
  let ?b = "skb_buf skb"
  let ?sm = "take 6 (drop 22 ?b)"
  have hw: "unat (nd_addr_len dev) = 6" "length (nd_hwaddr dev) = 6" "nd_addr_len dev = 6"
    using assms by (simp_all add: dev_ok_def)
  have sm: "length ?sm = 6" using assms by simp
  define b where "b = put32 (put32 (put16 (put16 (put16 (put16 (put32 (put_bytes (put32 (put_bytes
      ?b 32 ?sm) 38 (get32 ?b 28)) 22 (nd_hwaddr dev)) 28 (nd_addr dev)) 20 ARP_REPLY)
      20 (htons ARP_REPLY)) 14 (htons (get16 ?b 14))) 16 (htons (get16 ?b 16)))
      28 (htonl (nd_addr dev))) 38 (htonl (get32 ?b 28))"
  have len: "length b = length ?b" using hw assms sm by (simp add: b_def)
  have view: "arp_view b 14 = arp_reply_msg dev (arp_hview ?b 14)"
    unfolding arp_view_def arp_reply_msg_def arp_hview_def b_def
    using hw assms sm by (simp add: mem_simps)
  have dmac: "take 6 (drop 32 b) = ?sm"
    unfolding b_def using hw assms sm by (simp add: mem_simps)
  let ?s = "skb\<lparr>skb_data := 14, skb_len := 28, skb_buf := b, skb_dev := Some dev\<rparr>"
  have rep: "arp_reply skb dev n =
      Option.bind (netdev_transmit ?s ?sm ETH_P_ARP n) (\<lambda>(r, skb, n). Some (free_skb skb, n))"
    using hw assms sm dmac
    by (simp add: arp_reply_def skb_reserve_def skb_push_def skb_head_def Let_def b_def mem_simps)
  obtain b' where "netdev_transmit ?s ?sm ETH_P_ARP n =
      Some (Indet, ?s\<lparr>skb_buf := b', skb_data := 0, skb_len := 42\<rparr>,
        tun_write (eth_frame ?sm (nd_hwaddr dev) ETH_P_ARP (take 28 (drop 14 b))) n)"
    using netdev_transmit_eq [of ?s dev ?sm ETH_P_ARP n] assms len sm by auto
  moreover have "take 28 (drop 14 b) = arp_encode (arp_reply_msg dev (arp_hview ?b 14))"
    using assms len by (simp add: arp_encode_view view)
  ultimately show ?thesis
    using rep assms by (simp add: free_skb_def arp_hview_def)
qed

text \<open>The cache as \<open>arp_rcv\<close> leaves it, in terms of the two functions it calls.\<close>

definition arp_cache_after :: "arp_pkt \<Rightarrow> net \<Rightarrow> arp_cache_entry list" where
  "arp_cache_after m n =
     (if ap_hwtype m \<noteq> ARP_ETHERNET \<or> ap_protype m \<noteq> ARP_IPV4 then net_arp n
      else if ap_dip m = nd_addr (net_dev n) then arp_learn (ap_sip m) (ap_smac m) (net_arp n)
      else snd (update_arp_translation_table ARP_ETHERNET (ap_sip m) (ap_smac m) (net_arp n)))"

definition arp_answers :: "arp_pkt \<Rightarrow> net \<Rightarrow> bool" where
  "arp_answers m n \<longleftrightarrow> ap_hwtype m = ARP_ETHERNET \<and> ap_protype m = ARP_IPV4 \<and>
     ap_dip m = nd_addr (net_dev n) \<and> ap_opcode m = ARP_REQUEST"

lemma arp_rcv_effect:
  assumes "dev_ok (net_dev n)" and "skb_data skb = 0" and "skb_len skb = 0" and "skb_refcnt skb < 1"
    and "42 \<le> length (skb_buf skb)" and "m = arp_view (skb_buf skb) 14"
  shows "\<exists>fate n'. arp_rcv skb n = Some (fate, n') \<and>
    net_arp n' = arp_cache_after m n \<and>
    net_loop n' = net_loop n \<and> net_dev n' = net_dev n \<and> net_routes n' = net_routes n \<and>
    net_tx n' = net_tx n @ (if arp_answers m n then
      [eth_frame (ap_smac m) (nd_hwaddr (net_dev n)) ETH_P_ARP (arp_encode (arp_reply_msg (net_dev n) m))]
      else [])"
proof -
  let ?b = "skb_buf skb"
  define b1 where "b1 = put16 (put16 (put16 ?b 14 (ntohs (get16 ?b 14))) 16 (ntohs (get16 ?b 16)))
      20 (ntohs (get16 ?b 20))"
  define b2 where "b2 = put32 (put32 b1 28 (ntohl (get32 ?b 28))) 38 (ntohl (get32 ?b 38))"
  have len: "length b2 = length ?b" by (simp add: b1_def b2_def)
  have hv: "arp_hview b2 14 = m"
    unfolding assms(6) arp_hview_def arp_view_def b1_def b2_def using assms(5)
    by (simp add: mem_simps)
  let ?skb = "skb\<lparr>skb_buf := b2\<rparr>"
  let ?u = "update_arp_translation_table ARP_ETHERNET (ap_sip m) (ap_smac m) (net_arp n)"
  let ?n = "n\<lparr>net_arp := arp_learn (ap_sip m) (ap_smac m) (net_arp n)\<rparr>"
  have fields: "get16 b2 14 = ap_hwtype m" "get16 b2 16 = ap_protype m" "get16 b2 20 = ap_opcode m"
    "get32 b2 28 = ap_sip m" "get32 b2 38 = ap_dip m" "take 6 (drop 22 b2) = ap_smac m"
    by (simp_all add: hv [symmetric] arp_hview_def)
  have eq: "arp_rcv skb n =
     (if ap_hwtype m \<noteq> ARP_ETHERNET \<or> ap_protype m \<noteq> ARP_IPV4
      then Some (free_skb (skb\<lparr>skb_buf := b1\<rparr>), n)
      else if ap_dip m \<noteq> nd_addr (net_dev n) then Some (free_skb ?skb, n\<lparr>net_arp := snd ?u\<rparr>)
      else if ap_opcode m = ARP_REQUEST then arp_reply ?skb (net_dev n) ?n
      else if ap_opcode m = ARP_REPLY then Some (Some ?skb, ?n)
      else Some (free_skb ?skb, ?n))"
    using assms fields
    by (auto simp: arp_rcv_def b1_def b2_def skb_head_def Let_def mem_simps netdev_get_def
        arp_learn_def insert_arp_translation_table_def split: prod.splits)
  have "arp_reply ?skb (net_dev n) ?n = Some (None, tun_write (eth_frame (ap_smac m)
        (nd_hwaddr (net_dev n)) ETH_P_ARP (arp_encode (arp_reply_msg (net_dev n) m))) ?n)"
    using arp_reply_frame [of "net_dev n" ?skb ?n] assms len hv by auto
  then show ?thesis
    by (auto simp: eq arp_cache_after_def arp_answers_def tun_write_def)
qed

section \<open>The protocol\<close>

lemma arp_lookup_update:
  assumes "arp_inv c" and "length smac = 6"
  shows "arp_lookup (snd (update_arp_translation_table ARP_ETHERNET sip smac c)) =
    (if arp_lookup c sip = None then arp_lookup c else (arp_lookup c)(sip \<mapsto> smac))"
proof (cases "\<exists>e\<in>set c. ae_hwtype e = ARP_ETHERNET \<and> ae_sip e = sip")
  case True
  then obtain e where e: "e \<in> set c" "ae_hwtype e = ARP_ETHERNET" "ae_sip e = sip" by blast
  then have "arp_lookup c sip \<noteq> None"
    using assms(1) by (auto simp: arp_lookup_def arp_inv_def find_first_None)
  moreover have "snd (update_arp_translation_table ARP_ETHERNET sip smac c) = arp_learn sip smac c"
    using update_arp_hit [OF e, of smac] by (auto simp: arp_learn_def)
  ultimately show ?thesis using arp_lookup_learn [OF assms] by auto
next
  case False
  then have "arp_lookup c sip = None"
    using assms(1) by (auto simp: arp_lookup_def arp_inv_def find_first_None)
  with False show ?thesis by (simp add: update_arp_miss)
qed

text \<open>
  What the protocol asks of a host, over the addresses it can resolve: of a message that concerns
  Ethernet and IPv4, the sender's addresses are noted when the message is for this host or the
  sender was known before, and in no other case does anything change.
\<close>

definition arp_table_after :: "arp_pkt \<Rightarrow> u32 \<Rightarrow> (u32 \<rightharpoonup> bytes) \<Rightarrow> (u32 \<rightharpoonup> bytes)" where
  "arp_table_after m own table =
     (if ap_hwtype m = ARP_ETHERNET \<and> ap_protype m = ARP_IPV4 \<and> (ap_dip m = own \<or> ap_sip m \<in> dom table)
      then table(ap_sip m \<mapsto> ap_smac m) else table)"

lemma arp_lookup_after:
  assumes "arp_inv (net_arp n)" and "length (ap_smac m) = 6"
  shows "arp_lookup (arp_cache_after m n) = arp_table_after m (nd_addr (net_dev n)) (arp_lookup (net_arp n))"
    and "arp_inv (arp_cache_after m n)"
  using assms
  by (auto simp: arp_cache_after_def arp_table_after_def arp_lookup_learn arp_lookup_update arp_inv_learn
      arp_inv_update fun_upd_idem_iff)

text \<open>
  C17.  \<open>arp_rcv\<close> against a specification of the protocol: what \<open>arp_get_hwaddr\<close> returns afterwards, for every
  address, is what the message calls for; an answer, with the addresses exchanged and our own
  filled in, goes out exactly when one is due; the cache keeps its invariant and the rest of the
  stack is as before.
\<close>

theorem arp_rcv_refines:
  assumes "dev_ok (net_dev n)" and "skb_data skb = 0" and "skb_len skb = 0" and "skb_refcnt skb < 1"
    and "42 \<le> length (skb_buf skb)" and "m = arp_view (skb_buf skb) 14" and "arp_inv (net_arp n)"
  shows "\<exists>fate n'. arp_rcv skb n = Some (fate, n') \<and>
    arp_get_hwaddr n' = arp_table_after m (nd_addr (net_dev n)) (arp_get_hwaddr n) \<and> arp_inv (net_arp n') \<and>
    net_loop n' = net_loop n \<and> net_dev n' = net_dev n \<and> net_routes n' = net_routes n \<and>
    net_tx n' = net_tx n @ (if arp_answers m n then
      [eth_frame (ap_smac m) (nd_hwaddr (net_dev n)) ETH_P_ARP (arp_encode (arp_reply_msg (net_dev n) m))]
      else [])"
proof -
  have sm: "length (ap_smac m) = 6" using assms(5,6) by (simp add: arp_view_def)
  have "arp_get_hwaddr n' = arp_lookup (net_arp n')" for n' by (simp add: fun_eq_iff arp_get_hwaddr_lookup)
  then show ?thesis
    using arp_rcv_effect [OF assms(1-6)] arp_lookup_after [OF assms(7) sm] by auto
qed

end
