(* ===== verification/Route.thy ===== *)
theory Route
  imports Netdev
begin

text \<open>
  \<open>route.c\<close>: the routing table.  \<open>route_lookup\<close> walks the table and leaves the loop at the
  first entry whose masked destination matches; when none does, the loop variable still holds
  the last entry, which the code uses as the default.  \<open>route_init\<close> enters the loopback
  device, the tap device and the default gateway.

  The lemmas give the exact meaning of a lookup (first match, else last entry, NULL only on an
  empty table), and what it means on the table \<open>route_init\<close> builds: its first two entries
  store a host address where the comparison expects a network address, so they match no
  destination and every packet takes the default route.
\<close>

abbreviation RT_LOOPBACK :: u8 where "RT_LOOPBACK \<equiv> 1"
abbreviation RT_GATEWAY :: u8 where "RT_GATEWAY \<equiv> 2"
abbreviation RT_HOST :: u8 where "RT_HOST \<equiv> 3"

definition tapaddr :: string where
  "tapaddr = ''10.0.1.5''"

definition stackaddr :: string where
  "stackaddr = ''10.0.1.4''"

definition route_alloc :: "u32 \<Rightarrow> u32 \<Rightarrow> u32 \<Rightarrow> u8 \<Rightarrow> u32 \<Rightarrow> netdev \<Rightarrow> rtentry" where
  "route_alloc dst gateway netmask flags metric dev =
     \<lparr>rt_dst = dst, rt_gateway = gateway, rt_netmask = netmask, rt_flags = flags,
      rt_metric = metric, rt_dev = dev\<rparr>"

definition route_add :: "u32 \<Rightarrow> u32 \<Rightarrow> u32 \<Rightarrow> u8 \<Rightarrow> u32 \<Rightarrow> netdev \<Rightarrow> net \<Rightarrow> net" where
  "route_add dst gateway netmask flags metric dev n =
     n\<lparr>net_routes := net_routes n @ [route_alloc dst gateway netmask flags metric dev]\<rparr>"

definition route_init :: "net \<Rightarrow> net option" where
  "route_init n = do {
     let n = route_add (nd_addr (net_loop n)) 0 0xFF000000 RT_LOOPBACK 0 (net_loop n) n;
     let n = route_add (nd_addr (net_dev n)) 0 0xFFFFFF00 RT_HOST 0 (net_dev n) n;
     gw \<leftarrow> ip_parse tapaddr;
     Some (route_add 0 gw 0 RT_GATEWAY 0 (net_dev n) n)
   }"

text \<open>The loop, with \<open>rt\<close> the last entry visited.\<close>

fun route_scan :: "u32 \<Rightarrow> rtentry option \<Rightarrow> rtentry list \<Rightarrow> rtentry option" where
  "route_scan daddr rt [] = rt"
| "route_scan daddr rt (r # rs) =
     (if (rt_netmask r AND daddr) = rt_dst r then Some r else route_scan daddr (Some r) rs)"

definition route_lookup :: "net \<Rightarrow> u32 \<Rightarrow> rtentry option" where
  "route_lookup n daddr = route_scan daddr None (net_routes n)"

text \<open>\<open>free_routes\<close>: every entry is unlinked and freed (\<open>List_Head.list_free_all\<close>).\<close>

definition free_routes :: "net \<Rightarrow> net" where
  "free_routes n = n\<lparr>net_routes := []\<rparr>"

section \<open>First match, else the last entry\<close>

definition route_matches :: "u32 \<Rightarrow> rtentry \<Rightarrow> bool" where
  "route_matches daddr r \<longleftrightarrow> (rt_netmask r AND daddr) = rt_dst r"

lemma route_scan_eq:
  "route_scan daddr rt rs =
     (case find_first (route_matches daddr) rs of
        Some r \<Rightarrow> Some r
      | None \<Rightarrow> if rs = [] then rt else Some (last rs))"
  by (induction rs arbitrary: rt) (auto simp: route_matches_def split: option.splits)

lemma route_lookup_eq:
  "route_lookup n daddr =
     (case find_first (route_matches daddr) (net_routes n) of
        Some r \<Rightarrow> Some r
      | None \<Rightarrow> if net_routes n = [] then None else Some (last (net_routes n)))"
  by (simp add: route_lookup_def route_scan_eq)

lemma route_lookup_in: "route_lookup n daddr = Some r \<Longrightarrow> r \<in> set (net_routes n)"
  by (auto simp: route_lookup_eq split: option.splits if_splits dest: find_first_SomeD)

section \<open>The table after start-up\<close>

text \<open>A masked address never has a bit outside the mask.\<close>

lemma masked_never_matches:
  fixes m d a :: "32 word"
  assumes "d AND NOT m \<noteq> 0"
  shows "(m AND a) \<noteq> d"
proof
  assume "(m AND a) = d"
  then have "d AND NOT m = (m AND a) AND NOT m" by simp
  also have "\<dots> = 0" by (rule bit_word_eqI) (auto simp: bit_simps)
  finally show False using assms by simp
qed

definition default_route :: "netdev \<Rightarrow> rtentry" where
  "default_route dev =
     \<lparr>rt_dst = 0, rt_gateway = 0x0A000105, rt_netmask = 0, rt_flags = RT_GATEWAY,
      rt_metric = 0, rt_dev = dev\<rparr>"

definition boot_net :: net where
  "boot_net =
     (let l = \<lparr>nd_addr = 0x7F000001, nd_addr_len = 6, nd_hwaddr = [0, 0, 0, 0, 0, 0],
               nd_mtu = 1500\<rparr>;
          d = \<lparr>nd_addr = 0x0A000104, nd_addr_len = 6,
               nd_hwaddr = [0x00, 0x0C, 0x29, 0x6D, 0x50, 0x25], nd_mtu = 1500\<rparr>
      in \<lparr>net_loop = l, net_dev = d, net_arp = [],
          net_routes = [route_alloc 0x7F000001 0 0xFF000000 RT_LOOPBACK 0 l,
                        route_alloc 0x0A000104 0 0xFFFFFF00 RT_HOST 0 d,
                        default_route d],
          net_tx = []\<rparr>)"

lemma boot_net_eq: "Option.bind netdev_init route_init = Some boot_net"
  by (simp add: netdev_init_eq route_init_def route_add_def tapaddr_def ip_parse_tap
      boot_net_def default_route_def route_alloc_def Let_def)

text \<open>
  Whether the routing table is the one of \<open>boot_net\<close> for the device at hand; nothing in the
  stack changes the table afterwards.
\<close>

definition routes_booted :: "net \<Rightarrow> bool" where
  "routes_booted n \<longleftrightarrow> net_routes n = net_routes boot_net \<and> net_dev n = net_dev boot_net \<and>
     net_loop n = net_loop boot_net"

lemma routes_booted_boot [simp]: "routes_booted boot_net"
  by (simp add: routes_booted_def)

lemma routes_booted_update [simp]:
  "routes_booted (n\<lparr>net_arp := c\<rparr>) = routes_booted n"
  "routes_booted (n\<lparr>net_tx := t\<rparr>) = routes_booted n"
  by (simp_all add: routes_booted_def)

lemma routes_booted_dev: "routes_booted n \<Longrightarrow> dev_ok (net_dev n) \<and> nd_addr (net_dev n) = 0x0A000104"
  by (simp add: routes_booted_def boot_net_def dev_ok_def Let_def)

lemma route_lookup_booted:
  assumes "routes_booted n"
  shows "route_lookup n daddr = Some (default_route (net_dev n))"
proof -
  have l: "(0xFF000000 AND daddr) \<noteq> (0x7F000001 :: u32)"
    by (rule masked_never_matches) simp
  have h: "(0xFFFFFF00 AND daddr) \<noteq> (0x0A000104 :: u32)"
    by (rule masked_never_matches) simp
  show ?thesis
    using assms l h
    by (simp add: routes_booted_def route_lookup_def boot_net_def route_alloc_def default_route_def
        Let_def)
qed

end
