(* ===== verification/Ip_Output.thy ===== *)
theory Ip_Output
  imports Arp Route
begin

text \<open>
  The output half of the network layer: \<open>ip_output\<close> (\<open>ip_output.c\<close>) fills the IP header in
  the buffer, \<open>dst_neigh_output\<close> (\<open>dst.c\<close>) resolves the next hop and hands the packet to
  the link layer.  \<open>struct iphdr\<close> lies at \<open>skb->head + 14\<close>: the byte 0 holds \<open>ihl\<close> (low
  nibble) and \<open>version\<close> (high nibble), then \<open>tos\<close> 1, \<open>len\<close> 2, \<open>id\<close> 4, \<open>flags\<close> (3 low
  bits) and \<open>frag_offset\<close> 6, \<open>ttl\<close> 8, \<open>proto\<close> 9, \<open>csum\<close> 10, \<open>saddr\<close> 12, \<open>daddr\<close> 16.

  \<open>dst_neigh_output\<close> sleeps 10 ms between two ARP requests.  What the other threads of the
  stack do to the link-layer state in that time (the receive thread may process the ARP reply)
  is the parameter \<open>others\<close> of every operation that can send.
\<close>

abbreviation IP_HDR_LEN :: nat where "IP_HDR_LEN \<equiv> 20"
abbreviation IPV4 :: u8 where "IPV4 \<equiv> 4"
abbreviation IP_TCP :: u8 where "IP_TCP \<equiv> 6"
abbreviation IP_UDP :: u8 where "IP_UDP \<equiv> 17"
abbreviation ICMPV4 :: u8 where "ICMPV4 \<equiv> 1"

type_synonym others = "net \<Rightarrow> net"

definition set_lo_nibble :: "u8 \<Rightarrow> u8 \<Rightarrow> u8" where
  "set_lo_nibble x v = (x AND 0xF0) OR (v AND 0x0F)"

definition set_hi_nibble :: "u8 \<Rightarrow> u8 \<Rightarrow> u8" where
  "set_hi_nibble x v = (x AND 0x0F) OR push_bit 4 (v AND 0x0F)"

definition lo_nibble :: "u8 \<Rightarrow> u8" where
  "lo_nibble x = x AND 0x0F"

definition hi_nibble :: "u8 \<Rightarrow> u8" where
  "hi_nibble x = drop_bit 4 x"

text \<open>\<open>ip_hdr\<close> of \<open>ip.h\<close>: where the IP header starts.\<close>

definition ip_hdr :: "sk_buff \<Rightarrow> nat" where
  "ip_hdr skb = skb_head skb + ETH_HDR_LEN"

section \<open>Resolving the next hop\<close>

text \<open>The loop at \<open>try_agin\<close>; \<open>count\<close> is the number of requests sent so far.\<close>

function neigh_try ::
    "others \<Rightarrow> sk_buff \<Rightarrow> netdev \<Rightarrow> u32 \<Rightarrow> u32 \<Rightarrow> nat \<Rightarrow> net \<Rightarrow> (rc \<times> sk_buff \<times> net) option" where
  "neigh_try others skb dev saddr daddr count n =
     (case arp_get_hwaddr n daddr of
        Some dmac \<Rightarrow> netdev_transmit skb dmac ETH_P_IP n
      | None \<Rightarrow> do {
          (r, n) \<leftarrow> arp_request saddr daddr dev n;
          (if count + 1 < 3 then neigh_try others skb dev saddr daddr (count + 1) (others n)
           else Some (Rc (-1), skb, n))
        })"
  by pat_completeness auto
termination
  by (relation "measure (\<lambda>(others, skb, dev, saddr, daddr, count, n). 3 - count)") auto

declare neigh_try.simps [simp del]

definition dst_neigh_output :: "others \<Rightarrow> sk_buff \<Rightarrow> net \<Rightarrow> (rc \<times> sk_buff \<times> net) option" where
  "dst_neigh_output others skb n = do {
     let iphdr = ip_hdr skb;
     dev \<leftarrow> skb_dev skb;
     rt \<leftarrow> skb_rt skb;
     d \<leftarrow> load32 (skb_buf skb) (iphdr + 16);
     s \<leftarrow> load32 (skb_buf skb) (iphdr + 12);
     let daddr = (if rt_flags rt AND RT_GATEWAY \<noteq> 0 then rt_gateway rt else ntohl d);
     neigh_try others skb dev (ntohl s) daddr 0 n
   }"

section \<open>Filling the header\<close>

definition ip_output :: "others \<Rightarrow> u32 \<Rightarrow> sk_buff \<Rightarrow> net \<Rightarrow> (rc \<times> sk_buff \<times> net) option" where
  "ip_output others sk_daddr skb n = do {
     let ihdr = ip_hdr skb;
     d \<leftarrow> load32 (skb_buf skb) (ihdr + 16);
     (case route_lookup n d of
        None \<Rightarrow> Some (Rc (-1), skb, n)
      | Some rt \<Rightarrow> do {
          let skb = skb\<lparr>skb_dev := Some (rt_dev rt), skb_rt := Some rt\<rparr>;
          skb \<leftarrow> skb_push skb IP_HDR_LEN;
          let b = skb_buf skb;
          v \<leftarrow> load8 b ihdr;
          b \<leftarrow> store8 b ihdr (set_hi_nibble v IPV4);
          v \<leftarrow> load8 b ihdr;
          b \<leftarrow> store8 b ihdr (set_lo_nibble v 5);
          b \<leftarrow> store8 b (ihdr + 1) 0;
          b \<leftarrow> store16 b (ihdr + 2) (ucast (skb_len skb));
          v \<leftarrow> load16 b (ihdr + 6);
          b \<leftarrow> store16 b (ihdr + 6) (v AND NOT 7);
          v \<leftarrow> load16 b (ihdr + 6);
          b \<leftarrow> store16 b (ihdr + 6) (v AND 7);
          b \<leftarrow> store8 b (ihdr + 8) 64;
          b \<leftarrow> store8 b (ihdr + 9) (ucast (skb_protocol skb));
          b \<leftarrow> store32 b (ihdr + 12) (nd_addr (rt_dev rt));
          b \<leftarrow> store32 b (ihdr + 16) sk_daddr;
          b \<leftarrow> store16 b (ihdr + 10) 0;
          v \<leftarrow> load16 b (ihdr + 2);
          b \<leftarrow> store16 b (ihdr + 2) (htons v);
          v \<leftarrow> load16 b (ihdr + 4);
          b \<leftarrow> store16 b (ihdr + 4) (htons v);
          v \<leftarrow> load32 b (ihdr + 16);
          b \<leftarrow> store32 b (ihdr + 16) (htonl v);
          v \<leftarrow> load32 b (ihdr + 12);
          b \<leftarrow> store32 b (ihdr + 12) (htonl v);
          v \<leftarrow> load16 b (ihdr + 10);
          b \<leftarrow> store16 b (ihdr + 10) (htons v);
          v \<leftarrow> load8 b ihdr;
          c \<leftarrow> checksum b ihdr (int (unat (lo_nibble v)) * 4) 0;
          b \<leftarrow> store16 b (ihdr + 10) c;
          dst_neigh_output others (skb\<lparr>skb_buf := b\<rparr>) n
        })
   }"

section \<open>Headers as records\<close>

record iphdr =
  ih_version :: u8
  ih_ihl :: u8
  ih_tos :: u8
  ih_len :: u16
  ih_id :: u16
  ih_frag :: u16
  ih_ttl :: u8
  ih_proto :: u8
  ih_saddr :: u32
  ih_daddr :: u32

text \<open>The header on the wire at offset \<open>a\<close>, its fields brought to host order.\<close>

definition ip_view :: "bytes \<Rightarrow> nat \<Rightarrow> iphdr" where
  "ip_view b a =
     \<lparr>ih_version = hi_nibble (b ! a), ih_ihl = lo_nibble (b ! a), ih_tos = b ! (a + 1),
      ih_len = ntohs (get16 b (a + 2)), ih_id = ntohs (get16 b (a + 4)),
      ih_frag = get16 b (a + 6), ih_ttl = b ! (a + 8), ih_proto = b ! (a + 9),
      ih_saddr = ntohl (get32 b (a + 12)), ih_daddr = ntohl (get32 b (a + 16))\<rparr>"

lemma ip_view_range:
  "i + n \<le> length b \<Longrightarrow> 20 \<le> n \<Longrightarrow> ip_view (take n (drop i b)) 0 = ip_view b i"
  by (simp add: ip_view_def get16_range get32_range)

lemma nibbles_0x45: "set_lo_nibble (set_hi_nibble v 4) 5 = 0x45"
proof -
  have "set_lo_nibble (set_hi_nibble v 4) 5 = ((v AND 0x0F) AND 0xF0) OR 0x45"
    by (simp add: set_lo_nibble_def set_hi_nibble_def bit.conj_disj_distrib2 or.assoc)
  also have "(v AND 0x0F) AND 0xF0 = 0"
    by (simp add: and.assoc)
  finally show ?thesis by simp
qed

lemma flags_cleared: "(w AND - 8) AND 7 = (0 :: u16)"
  by (simp add: and.assoc)

definition ip_header_for :: "netdev \<Rightarrow> u32 \<Rightarrow> u16 \<Rightarrow> u16 \<Rightarrow> u8 \<Rightarrow> iphdr" where
  "ip_header_for dev daddr len' id' proto =
     \<lparr>ih_version = 4, ih_ihl = 5, ih_tos = 0, ih_len = len', ih_id = id', ih_frag = 0,
      ih_ttl = 64, ih_proto = proto, ih_saddr = nd_addr dev, ih_daddr = daddr\<rparr>"

text \<open>The header bytes are the header, its checksum verifies.\<close>

definition ip_header_ok :: "bytes \<Rightarrow> nat \<Rightarrow> iphdr \<Rightarrow> bool" where
  "ip_header_ok b a h \<longleftrightarrow> ip_view b a = h \<and> checksum b a (int (unat (ih_ihl h)) * 4) 0 = Some 0"

lemma ip_output_header:
  assumes "skb_data skb = 34" and "34 \<le> length (skb_buf skb)"
    and "route_lookup n (get32 (skb_buf skb) 30) = Some rt"
  shows "\<exists>b. ip_output others daddr skb n =
      dst_neigh_output others (skb\<lparr>skb_dev := Some (rt_dev rt), skb_rt := Some rt, skb_data := 14,
        skb_len := skb_len skb + 20, skb_buf := b\<rparr>) n \<and>
    length b = length (skb_buf skb) \<and> drop 34 b = drop 34 (skb_buf skb) \<and>
    ip_header_ok b 14 (ip_header_for (rt_dev rt) daddr (ucast (skb_len skb + 20))
      (get16 (skb_buf skb) 18) (ucast (skb_protocol skb)))"
proof -
  let ?b = "skb_buf skb"
  define b1 where "b1 = put16 (put32 (put32 (put16 (put16 (put16 (put32 (put32 (((put16 (put16 (put16
      ((?b[14 := 0x45])[15 := 0]) 16 (ucast (skb_len skb + 20))) 20 (get16 ?b 20 AND - 8)) 20 0)
      [22 := 64])[23 := ucast (skb_protocol skb)]) 26 (nd_addr (rt_dev rt))) 30 daddr) 24 0)
      16 (htons (ucast (skb_len skb + 20)))) 18 (htons (get16 ?b 18))) 30 (htonl daddr))
      26 (htonl (nd_addr (rt_dev rt)))) 24 0"
  have len: "length b1 = length ?b" by (simp add: b1_def)
  have z: "get16 b1 (14 + 10) = 0" unfolding b1_def using assms(2) by simp
  have "sum_le (take 20 (drop 14 b1)) \<le> 2147450880"
    by (rule sum_le_small) simp
  then obtain c where c: "checksum b1 14 20 0 = Some c" "checksum (put16 b1 24 c) 14 20 0 = Some 0"
    using checksum_folds [of 14 20 b1 0] checksum_verifies [of 10 20 14 b1 0] len z assms(2)
    by fastforce
  let ?r = "put16 b1 24 c"
  have view: "ip_view ?r 14 = ip_header_for (rt_dev rt) daddr (ucast (skb_len skb + 20))
      (get16 ?b 18) (ucast (skb_protocol skb))"
    unfolding ip_view_def ip_header_for_def b1_def lo_nibble_def hi_nibble_def
    using assms(2) by (simp add: mem_simps)
  have "drop 34 ?r = drop 34 ?b"
    unfolding b1_def put16_def put32_def by (simp add: drop_update_cancel)
  moreover have "ip_output others daddr skb n =
      dst_neigh_output others (skb\<lparr>skb_dev := Some (rt_dev rt), skb_rt := Some rt, skb_data := 14,
        skb_len := skb_len skb + 20, skb_buf := ?r\<rparr>) n"
    using assms c len
    by (simp add: ip_output_def ip_hdr_def skb_head_def skb_push_def Let_def mem_simps
        nibbles_0x45 flags_cleared lo_nibble_def b1_def)
  ultimately show ?thesis
    using view c(2) len by (intro exI [of _ ?r]) (simp add: ip_header_ok_def ip_header_for_def)
qed

end
