(* ===== verification/Ip_Send.thy ===== *)
theory Ip_Send
  imports Ip_Output
begin

text \<open>
  What \<open>ip_output\<close> and \<open>dst_neigh_output\<close> guarantee their callers: the datagram on the wire
  when the next hop is resolved, the three ARP requests when it is not, and that neither
  faults.  The invariant \<open>net_inv\<close> of the layers below the transport protocols is stated here.
\<close>

section \<open>Sending when the next hop is resolved\<close>

text \<open>
  The hop a packet is sent to on the booted routing table is always the gateway.
\<close>

abbreviation gateway :: u32 where "gateway \<equiv> 0x0A000105"

lemma neigh_try_hit:
  "arp_get_hwaddr n daddr = Some mac \<Longrightarrow>
   neigh_try others skb dev saddr daddr count n = netdev_transmit skb mac ETH_P_IP n"
  by (subst neigh_try.simps) simp

lemma neigh_try_miss:
  "arp_get_hwaddr n daddr = None \<Longrightarrow> dev_ok dev \<Longrightarrow>
   neigh_try others skb dev saddr daddr count n =
     (let n' = tun_write (eth_frame broadcast_hw (nd_hwaddr dev) ETH_P_ARP
                 (arp_encode (arp_request_msg dev saddr daddr))) n in
      if count + 1 < 3 then neigh_try others skb dev saddr daddr (count + 1) (others n')
      else Some (Rc (-1), skb, n'))"
  by (subst neigh_try.simps) (simp add: arp_request_frame Let_def)

lemma arp_get_hwaddr_tun_write [simp]: "arp_get_hwaddr (tun_write f n) ip = arp_get_hwaddr n ip"
  by (simp add: tun_write_def arp_get_hwaddr_def)

lemma arp_get_hwaddr_length:
  "arp_inv (net_arp n) \<Longrightarrow> arp_get_hwaddr n ip = Some mac \<Longrightarrow> length mac = 6"
  unfolding arp_get_hwaddr_lookup by (rule arpt.lookup_valid)

text \<open>The bytes \<open>skb\<close> carries from \<open>skb->data\<close> on.\<close>

definition skb_bytes :: "sk_buff \<Rightarrow> bytes" where
  "skb_bytes skb = take (unat (skb_len skb)) (drop (skb_data skb) (skb_buf skb))"

text \<open>
  A transport packet ready for \<open>ip_output\<close>: the transport header starts right behind the room
  for the two lower headers, and the packet fits an IP datagram and its buffer.
\<close>

definition out_ready :: "sk_buff \<Rightarrow> bool" where
  "out_ready skb \<longleftrightarrow> skb_data skb = 34 \<and> 34 + unat (skb_len skb) \<le> length (skb_buf skb) \<and>
     unat (skb_len skb) + 20 < 65536"

text \<open>\<open>pkt\<close> is an IP datagram from \<open>dev\<close> that carries \<open>payload\<close> to \<open>daddr\<close>.\<close>

definition ip_datagram :: "netdev \<Rightarrow> u32 \<Rightarrow> u8 \<Rightarrow> bytes \<Rightarrow> bytes \<Rightarrow> bool" where
  "ip_datagram dev daddr proto payload pkt \<longleftrightarrow>
     (\<exists>id'. ip_header_ok pkt 0 (ip_header_for dev daddr (word_of_nat (length payload + 20)) id' proto)) \<and>
     length pkt = length payload + 20 \<and> drop 20 pkt = payload"

lemma ip_output_built:
  assumes "routes_booted n" and "out_ready skb"
  obtains b where
    "ip_output others daddr skb n =
       neigh_try others (skb\<lparr>skb_dev := Some (net_dev n), skb_rt := Some (default_route (net_dev n)),
         skb_data := 14, skb_len := skb_len skb + 20, skb_buf := b\<rparr>) (net_dev n)
         (nd_addr (net_dev n)) gateway 0 n"
    and "length b = length (skb_buf skb)"
    and "ip_datagram (net_dev n) daddr (ucast (skb_protocol skb)) (skb_bytes skb)
           (take (unat (skb_len skb) + 20) (drop 14 b))"
    and "drop 34 b = drop 34 (skb_buf skb)"
proof -
  let ?L = "unat (skb_len skb)"
  have o: "skb_data skb = 34" "34 \<le> length (skb_buf skb)" "34 + ?L \<le> length (skb_buf skb)"
    "?L + 20 < 65536"
    using assms(2) by (auto simp: out_ready_def)
  define rt where "rt = default_route (net_dev n)"
  have rt: "route_lookup n (get32 (skb_buf skb) 30) = Some rt" "rt_dev rt = net_dev n"
    "rt_flags rt = 2" "rt_gateway rt = gateway"
    using assms(1) by (simp_all add: route_lookup_booted rt_def default_route_def)
  obtain b where out: "ip_output others daddr skb n =
      dst_neigh_output others (skb\<lparr>skb_dev := Some (rt_dev rt), skb_rt := Some rt, skb_data := 14,
        skb_len := skb_len skb + 20, skb_buf := b\<rparr>) n"
    and len: "length b = length (skb_buf skb)" and rest: "drop 34 b = drop 34 (skb_buf skb)"
    and ok: "ip_header_ok b 14 (ip_header_for (rt_dev rt) daddr (ucast (skb_len skb + 20))
      (get16 (skb_buf skb) 18) (ucast (skb_protocol skb)))"
    using ip_output_header [OF o(1,2) rt(1)] by blast
  have src: "ntohl (get32 b 26) = nd_addr (net_dev n)"
    using ok by (simp add: ip_header_ok_def ip_view_def ip_header_for_def rt)
  have ucast_len: "(ucast (skb_len skb + 20) :: u16) = word_of_nat (?L + 20)"
    using o(4) by (intro ucast_add_small) simp
  let ?p = "take (?L + 20) (drop 14 b)"
  have plen: "14 + (?L + 20) \<le> length b" using o len by simp
  have "ip_view ?p 0 = ip_view b 14" using plen by (simp add: ip_view_range)
  moreover have "checksum ?p 0 20 0 = checksum b 14 20 0"
    using checksum_range [of 14 "?L + 20" b 0 20 0] plen by simp
  moreover have "drop 20 ?p = skb_bytes skb"
    using o rest by (simp add: skb_bytes_def drop_take)
  moreover have "length (skb_bytes skb) = ?L" using o by (simp add: skb_bytes_def)
  ultimately have "ip_datagram (net_dev n) daddr (ucast (skb_protocol skb)) (skb_bytes skb) ?p"
    using ok plen unfolding ip_datagram_def ip_header_ok_def
    by (auto simp: rt ucast_len ip_header_for_def)
  moreover have "ip_output others daddr skb n =
      neigh_try others (skb\<lparr>skb_dev := Some (net_dev n), skb_rt := Some rt,
         skb_data := 14, skb_len := skb_len skb + 20, skb_buf := b\<rparr>) (net_dev n)
         (nd_addr (net_dev n)) gateway 0 n"
    using out rt len o src
    by (simp add: dst_neigh_output_def ip_hdr_def skb_head_def Let_def)
  ultimately show ?thesis using that len rest by (simp add: rt_def)
qed

section \<open>The network layer's invariant\<close>

definition net_inv :: "net \<Rightarrow> bool" where
  "net_inv n \<longleftrightarrow> routes_booted n \<and> arp_inv (net_arp n)"

text \<open>What the rest of the stack may do while a packet waits for address resolution.\<close>

definition others_ok :: "others \<Rightarrow> bool" where
  "others_ok others \<longleftrightarrow> (\<forall>n. net_inv n \<longrightarrow> net_inv (others n))"

lemma others_ok_id [simp]: "others_ok (\<lambda>n. n)"
  by (simp add: others_ok_def)

lemma net_arp_boot: "net_arp boot_net = []"
  by (simp add: boot_net_def Let_def)

lemma net_inv_boot [simp]: "net_inv boot_net"
  by (simp add: net_inv_def arp_inv_def net_arp_boot)

lemma net_inv_tun_write [simp]: "net_inv (tun_write f n) = net_inv n"
  by (simp add: net_inv_def tun_write_def)

lemma net_inv_dev: "net_inv n \<Longrightarrow> dev_ok (net_dev n)"
  by (simp add: net_inv_def routes_booted_dev)

text \<open>Sending changes of a buffer only its lower headers, its lengths and its route.\<close>

definition sent_from :: "sk_buff \<Rightarrow> sk_buff \<Rightarrow> bool" where
  "sent_from skb skb' \<longleftrightarrow>
     skb_refcnt skb' = skb_refcnt skb \<and> skb_protocol skb' = skb_protocol skb \<and>
     skb_dlen skb' = skb_dlen skb \<and> skb_seq skb' = skb_seq skb \<and>
     skb_end_seq skb' = skb_end_seq skb \<and> skb_payload skb' = skb_payload skb \<and>
     length (skb_buf skb') = length (skb_buf skb) \<and> drop 34 (skb_buf skb') = drop 34 (skb_buf skb)"

lemma transmit_ready:
  assumes "dev_ok dev" and "length mac = 6" and "14 + unat (skb_len skb) \<le> length (skb_buf skb)"
    and "skb_data skb = 14" and "skb_dev skb = Some dev" and "unat (skb_len skb) < 65536"
  obtains b where
    "netdev_transmit skb mac ETH_P_IP n =
       Some (Indet, skb\<lparr>skb_buf := b, skb_data := 0, skb_len := skb_len skb + 14\<rparr>,
         tun_write (eth_frame mac (nd_hwaddr dev) ETH_P_IP
           (take (unat (skb_len skb)) (drop 14 (skb_buf skb)))) n)"
    and "length b = length (skb_buf skb)" and "drop 14 b = drop 14 (skb_buf skb)"
  using netdev_transmit_eq [of skb dev mac ETH_P_IP n] assms by auto

lemma neigh_try_total:
  assumes "others_ok others" and "net_inv n" and "dev_ok dev"
    and "14 + unat (skb_len skb) \<le> length (skb_buf skb)"
    and "skb_data skb = 14" and "skb_dev skb = Some dev" and "unat (skb_len skb) < 65536"
  shows "\<exists>r skb' n'. neigh_try others skb dev saddr daddr count n = Some (r, skb', n') \<and>
    net_inv n' \<and> sent_from skb skb'"
  using assms
proof (induction others skb dev saddr daddr count n rule: neigh_try.induct)
  case (1 others skb dev saddr daddr count n)
  show ?case
  proof (cases "arp_get_hwaddr n daddr")
    case (Some mac)
    with "1.prems" have "length mac = 6" by (metis arp_get_hwaddr_length net_inv_def)
    with "1.prems" obtain b where b: "netdev_transmit skb mac ETH_P_IP n =
       Some (Indet, skb\<lparr>skb_buf := b, skb_data := 0, skb_len := skb_len skb + 14\<rparr>,
         tun_write (eth_frame mac (nd_hwaddr dev) ETH_P_IP
           (take (unat (skb_len skb)) (drop 14 (skb_buf skb)))) n)"
      "length b = length (skb_buf skb)" "drop 14 b = drop 14 (skb_buf skb)"
      by (metis transmit_ready)
    have "drop 20 (drop 14 b) = drop 20 (drop 14 (skb_buf skb))" using b(3) by simp
    then have "drop 34 b = drop 34 (skb_buf skb)" by simp
    with b Some "1.prems" show ?thesis
      by (simp add: neigh_try_hit sent_from_def)
  next
    case None
    let ?n = "tun_write (eth_frame broadcast_hw (nd_hwaddr dev) ETH_P_ARP
                 (arp_encode (arp_request_msg dev saddr daddr))) n"
    have req: "arp_request saddr daddr dev n = Some (Indet, ?n)"
      using "1.prems" by (simp add: arp_request_frame)
    have "net_inv (others ?n)" using "1.prems" by (simp add: others_ok_def)
    then have "count + 1 < 3 \<Longrightarrow>
        \<exists>r skb' n'. neigh_try others skb dev saddr daddr (count + 1) (others ?n) = Some (r, skb', n') \<and>
          net_inv n' \<and> sent_from skb skb'"
      using "1.prems" by (intro "1.IH" [OF None req]) auto
    with None "1.prems" show ?thesis
      by (auto simp: neigh_try_miss Let_def sent_from_def)
  qed
qed

lemma out_ready_built:
  assumes "out_ready skb" and "length b = length (skb_buf skb)"
  shows "14 + unat (skb_len skb + 20) \<le> length b" and "unat (skb_len skb + 20) = unat (skb_len skb) + 20"
    and "unat (skb_len skb + 20) < 65536"
proof -
  show "unat (skb_len skb + 20) = unat (skb_len skb) + 20"
    using assms by (simp add: out_ready_def unat_word_ariths)
  with assms show "14 + unat (skb_len skb + 20) \<le> length b" "unat (skb_len skb + 20) < 65536"
    by (simp_all add: out_ready_def)
qed

text \<open>
  Whatever the state of the ARP cache, \<open>ip_output\<close> returns: no access leaves the buffer.
\<close>

lemma ip_output_total:
  assumes "others_ok others" and "net_inv n" and "out_ready skb"
  shows "\<exists>r skb' n'. ip_output others daddr skb n = Some (r, skb', n') \<and> net_inv n' \<and> sent_from skb skb'"
proof -
  from assms have rb: "routes_booted n" by (simp add: net_inv_def)
  obtain b where b: "ip_output others daddr skb n =
       neigh_try others (skb\<lparr>skb_dev := Some (net_dev n), skb_rt := Some (default_route (net_dev n)),
         skb_data := 14, skb_len := skb_len skb + 20, skb_buf := b\<rparr>) (net_dev n)
         (nd_addr (net_dev n)) gateway 0 n"
    "length b = length (skb_buf skb)" "drop 34 b = drop 34 (skb_buf skb)"
    using ip_output_built [OF rb assms(3)] by metis
  let ?s = "skb\<lparr>skb_dev := Some (net_dev n), skb_rt := Some (default_route (net_dev n)),
         skb_data := 14, skb_len := skb_len skb + 20, skb_buf := b\<rparr>"
  note r = out_ready_built [OF assms(3) b(2)]
  have "\<exists>r skb' n'. neigh_try others ?s (net_dev n) (nd_addr (net_dev n)) gateway 0 n =
      Some (r, skb', n') \<and> net_inv n' \<and> sent_from ?s skb'"
    using assms r net_inv_dev [OF assms(2)] by (intro neigh_try_total) auto
  then show ?thesis using b by (auto simp: sent_from_def)
qed

text \<open>With the gateway resolved the datagram is on the wire, once.\<close>

lemma ip_output_sent:
  assumes "net_inv n" and "out_ready skb" and "arp_get_hwaddr n gateway = Some mac"
  shows "\<exists>skb' pkt. ip_output others daddr skb n =
      Some (Indet, skb', tun_write (eth_frame mac (nd_hwaddr (net_dev n)) ETH_P_IP pkt) n) \<and>
    ip_datagram (net_dev n) daddr (ucast (skb_protocol skb)) (skb_bytes skb) pkt \<and>
    sent_from skb skb'"
proof -
  from assms have rb: "routes_booted n" by (simp add: net_inv_def)
  obtain b where b: "ip_output others daddr skb n =
       neigh_try others (skb\<lparr>skb_dev := Some (net_dev n), skb_rt := Some (default_route (net_dev n)),
         skb_data := 14, skb_len := skb_len skb + 20, skb_buf := b\<rparr>) (net_dev n)
         (nd_addr (net_dev n)) gateway 0 n"
    "length b = length (skb_buf skb)" "drop 34 b = drop 34 (skb_buf skb)"
    "ip_datagram (net_dev n) daddr (ucast (skb_protocol skb)) (skb_bytes skb)
       (take (unat (skb_len skb) + 20) (drop 14 b))"
    using ip_output_built [OF rb assms(2)] by metis
  let ?s = "skb\<lparr>skb_dev := Some (net_dev n), skb_rt := Some (default_route (net_dev n)),
         skb_data := 14, skb_len := skb_len skb + 20, skb_buf := b\<rparr>"
  note r = out_ready_built [OF assms(2) b(2)]
  have mac: "length mac = 6" using assms by (metis arp_get_hwaddr_length net_inv_def)
  obtain b' where b': "netdev_transmit ?s mac ETH_P_IP n =
       Some (Indet, ?s\<lparr>skb_buf := b', skb_data := 0, skb_len := skb_len skb + 20 + 14\<rparr>,
         tun_write (eth_frame mac (nd_hwaddr (net_dev n)) ETH_P_IP
           (take (unat (skb_len skb + 20)) (drop 14 b))) n)"
    "length b' = length b" "drop 14 b' = drop 14 b"
    using transmit_ready [of "net_dev n" mac ?s n] net_inv_dev [OF assms(1)] mac r by auto
  have "drop 20 (drop 14 b') = drop 20 (drop 14 b)" using b'(3) by simp
  then have "drop 34 b' = drop 34 (skb_buf skb)" using b(3) by simp
  then have "sent_from skb (?s\<lparr>skb_buf := b', skb_data := 0, skb_len := skb_len skb + 20 + 14\<rparr>)"
    using b'(2) b(2) by (simp add: sent_from_def)
  moreover have "ip_output others daddr skb n =
       Some (Indet, ?s\<lparr>skb_buf := b', skb_data := 0, skb_len := skb_len skb + 20 + 14\<rparr>,
         tun_write (eth_frame mac (nd_hwaddr (net_dev n)) ETH_P_IP
           (take (unat (skb_len skb) + 20) (drop 14 b))) n)"
    using b(1) b'(1) assms(3) r(2) by (simp add: neigh_try_hit)
  ultimately show ?thesis using b(4) by blast
qed

text \<open>
  C27.  With the gateway unresolved and nobody answering, three ARP requests go out, the packet does
  not, and the caller gets \<open>-1\<close>.
\<close>

theorem ip_output_unresolved:
  assumes "net_inv n" and "out_ready skb" and "arp_get_hwaddr n gateway = None"
  shows "\<exists>skb'. ip_output (\<lambda>n. n) daddr skb n =
    Some (Rc (-1), skb', n\<lparr>net_tx := net_tx n @ replicate 3
      (eth_frame broadcast_hw (nd_hwaddr (net_dev n)) ETH_P_ARP
        (arp_encode (arp_request_msg (net_dev n) (nd_addr (net_dev n)) gateway)))\<rparr>)"
proof -
  from assms have rb: "routes_booted n" by (simp add: net_inv_def)
  obtain b where b: "ip_output (\<lambda>n. n) daddr skb n =
       neigh_try (\<lambda>n. n) (skb\<lparr>skb_dev := Some (net_dev n), skb_rt := Some (default_route (net_dev n)),
         skb_data := 14, skb_len := skb_len skb + 20, skb_buf := b\<rparr>) (net_dev n)
         (nd_addr (net_dev n)) gateway 0 n"
    using ip_output_built [OF rb assms(2)] by metis
  show ?thesis
    using assms(3) net_inv_dev [OF assms(1)] unfolding b
    by (simp add: neigh_try_miss Let_def numeral_3_eq_3) (simp add: tun_write_def)
qed

end
