(* ===== verification/Icmp.thy ===== *)
theory Icmp
  imports Ip_Send
begin

text \<open>
  \<open>icmpv4.c\<close>: echo and timestamp replies.

  \<open>struct icmp_v4\<close> starts at \<open>iphdr->data\<close>, 20 bytes behind the IP header whatever \<open>ihl\<close>
  says: \<open>type\<close> 0, \<open>code\<close> 1, \<open>csum\<close> 2.  The reply is built in the buffer of the request.
\<close>

abbreviation ICMP_V4_REPLY :: u8 where "ICMP_V4_REPLY \<equiv> 0"
abbreviation ICMP_V4_ECHO :: u8 where "ICMP_V4_ECHO \<equiv> 8"
abbreviation ICMP_V4_TSTAMP :: u8 where "ICMP_V4_TSTAMP \<equiv> 13"
abbreviation ICMP_V4_TSTAMP_REPLY :: u8 where "ICMP_V4_TSTAMP_REPLY \<equiv> 14"

text \<open>The wall clock \<open>gettimeofday\<close> reads: seconds and microseconds.\<close>

type_synonym clock = "nat \<times> nat"

section \<open>Handlers\<close>

definition icmpv4_reply :: "others \<Rightarrow> sk_buff \<Rightarrow> net \<Rightarrow> (sk_buff option \<times> net) option" where
  "icmpv4_reply others skb n = do {
     let iphdr = ip_hdr skb;
     len' \<leftarrow> load16 (skb_buf skb) (iphdr + 2);
     vi \<leftarrow> load8 (skb_buf skb) iphdr;
     let icmp_len = len' - ucast (lo_nibble vi) * 4;
     let skb = skb_reserve skb (ETH_HDR_LEN + IP_HDR_LEN + unat icmp_len);
     skb \<leftarrow> skb_push skb (unat icmp_len);
     let icmp = skb_data skb;
     b \<leftarrow> store8 (skb_buf skb) icmp ICMP_V4_REPLY;
     b \<leftarrow> store16 b (icmp + 2) 0;
     c \<leftarrow> checksum b icmp (int (unat icmp_len)) 0;
     b \<leftarrow> store16 b (icmp + 2) c;
     daddr \<leftarrow> load32 b (iphdr + 12);
     (r, skb, n) \<leftarrow> ip_output others daddr (skb\<lparr>skb_buf := b, skb_protocol := ucast ICMPV4\<rparr>) n;
     Some (free_skb skb, n)
   }"

definition icmpv4_timestamp ::
    "others \<Rightarrow> clock \<Rightarrow> sk_buff \<Rightarrow> net \<Rightarrow> (sk_buff option \<times> net) option" where
  "icmpv4_timestamp others tv skb n = do {
     let iphdr = ip_hdr skb;
     len' \<leftarrow> load16 (skb_buf skb) (iphdr + 2);
     vi \<leftarrow> load8 (skb_buf skb) iphdr;
     let icmp_len = len' - push_bit 2 (ucast (lo_nibble vi));
     let skb = skb_reserve skb (ETH_HDR_LEN + IP_HDR_LEN + unat icmp_len);
     skb \<leftarrow> skb_push skb (unat icmp_len);
     let icmp = skb_data skb;
     b \<leftarrow> store8 (skb_buf skb) icmp ICMP_V4_TSTAMP_REPLY;
     let ts_recv = (word_of_nat (fst tv mod (24 * 60 * 60) * 1000 + snd tv div 1000) :: u32);
     b \<leftarrow> store32 b (icmp + 12) (htonl ts_recv);
     b \<leftarrow> store32 b (icmp + 8) (htonl ts_recv);
     b \<leftarrow> store16 b (icmp + 2) 0;
     c \<leftarrow> checksum b icmp (int (unat icmp_len)) 0;
     b \<leftarrow> store16 b (icmp + 2) c;
     daddr \<leftarrow> load32 b (iphdr + 12);
     (r, skb, n) \<leftarrow> ip_output others daddr (skb\<lparr>skb_buf := b, skb_protocol := ucast ICMPV4\<rparr>) n;
     Some (free_skb skb, n)
   }"

definition icmpv4_incoming ::
    "others \<Rightarrow> clock \<Rightarrow> sk_buff \<Rightarrow> net \<Rightarrow> (sk_buff option \<times> net) option" where
  "icmpv4_incoming others tv skb n = do {
     type' \<leftarrow> load8 (skb_buf skb) (ip_hdr skb + 20);
     (if type' = ICMP_V4_ECHO then icmpv4_reply others skb n
      else if type' = ICMP_V4_TSTAMP then icmpv4_timestamp others tv skb n
      else Some (free_skb skb, n))
   }"

section \<open>Replies\<close>

text \<open>
  The common tail of the two handlers, from the zeroed checksum field on: the message at
  offset 34 is completed by its checksum and leaves as one IP datagram, and the buffer is
  released.
\<close>

lemma icmp_tail:
  assumes "net_inv n" and "arp_get_hwaddr n gateway = Some mac"
    and "skb_data skb = 34" and "unat (skb_len skb) = m" and "4 \<le> m" and "34 + m \<le> length b"
    and "m + 20 < 65536" and "skb_refcnt skb < 1" and "get16 b 36 = 0"
  shows "\<exists>c skb' pkt. checksum b 34 (int m) 0 = Some c \<and>
    ip_output others d (skb\<lparr>skb_buf := put16 b 36 c, skb_protocol := 1\<rparr>) n =
      Some (Indet, skb', tun_write (eth_frame mac (nd_hwaddr (net_dev n)) ETH_P_IP pkt) n) \<and>
    free_skb skb' = None \<and>
    ip_datagram (net_dev n) d ICMPV4 (take m (drop 34 (put16 b 36 c))) pkt \<and>
    checksum (take m (drop 34 (put16 b 36 c))) 0 (int m) 0 = Some 0"
proof -
  have "sum_le (take m (drop 34 b)) \<le> 2147450880"
    using assms by (intro sum_le_small) simp
  then obtain c where c: "checksum b 34 (int m) 0 = Some c" "checksum (put16 b 36 c) 34 (int m) 0 = Some 0"
    using checksum_folds [of 34 m b 0] checksum_verifies [of 2 m 34 b 0] assms by fastforce
  let ?s = "skb\<lparr>skb_buf := put16 b 36 c, skb_protocol := 1\<rparr>"
  have "out_ready ?s" "skb_bytes ?s = take m (drop 34 (put16 b 36 c))"
    using assms by (simp_all add: out_ready_def skb_bytes_def)
  then obtain skb' pkt where "ip_output others d ?s n =
      Some (Indet, skb', tun_write (eth_frame mac (nd_hwaddr (net_dev n)) ETH_P_IP pkt) n)"
    "ip_datagram (net_dev n) d ICMPV4 (take m (drop 34 (put16 b 36 c))) pkt" "sent_from ?s skb'"
    using ip_output_sent [of n ?s mac others d] assms(1,2) by auto
  moreover from this(3) have "free_skb skb' = None"
    using assms(8) by (simp add: sent_from_def free_skb_def)
  moreover have "checksum (take m (drop 34 (put16 b 36 c))) 0 (int m) 0 = Some 0"
    using checksum_range [of 34 m "put16 b 36 c" 0 m 0] c(2) assms by simp
  ultimately show ?thesis using c(1) by blast
qed

text \<open>A message for the echo handler, as \<open>ip_rcv\<close> leaves it: header fields in host order.\<close>

definition icmp_delivered :: "sk_buff \<Rightarrow> nat \<Rightarrow> bool" where
  "icmp_delivered skb m \<longleftrightarrow>
     skb_data skb = 0 \<and> skb_len skb = 0 \<and> skb_refcnt skb < 1 \<and> lo_nibble (skb_buf skb ! 14) = 5 \<and>
     unat (get16 (skb_buf skb) 16) = m + 20 \<and> 4 \<le> m \<and> 34 + m \<le> length (skb_buf skb)"

lemma icmp_delivered_len:
  assumes "icmp_delivered skb m"
  shows "unat (get16 (skb_buf skb) 16 - 20) = m" and "m + 20 < 65536"
    and "uint (get16 (skb_buf skb) 16 - 20) = int m"
    and "(ucast (get16 (skb_buf skb) 16 - 20) :: u32) = word_of_nat m"
proof -
  show u: "unat (get16 (skb_buf skb) 16 - 20) = m" and "m + 20 < 65536"
    using assms unat_u16_less [of "get16 (skb_buf skb) 16"]
    by (auto simp: icmp_delivered_def unat_sub word_le_nat_alt)
  show "uint (get16 (skb_buf skb) 16 - 20) = int m"
    by (simp flip: u)
  show "(ucast (get16 (skb_buf skb) 16 - 20) :: u32) = word_of_nat m"
    by (simp flip: u)
qed

text \<open>
  An echo reply to \<open>req\<close>: type 0, everything behind the checksum as in the request, and the
  checksum verifies.
\<close>

definition echo_reply_to :: "bytes \<Rightarrow> bytes \<Rightarrow> bool" where
  "echo_reply_to req msg \<longleftrightarrow>
     length msg = length req \<and> msg ! 0 = ICMP_V4_REPLY \<and> msg ! 1 = req ! 1 \<and>
     drop 4 msg = drop 4 req \<and> checksum msg 0 (int (length msg)) 0 = Some 0"

lemma icmpv4_reply_sends:
  assumes "net_inv n" and "arp_get_hwaddr n gateway = Some mac" and "icmp_delivered skb m"
  shows "\<exists>pkt msg. icmpv4_reply others skb n =
      Some (None, tun_write (eth_frame mac (nd_hwaddr (net_dev n)) ETH_P_IP pkt) n) \<and>
    ip_datagram (net_dev n) (get32 (skb_buf skb) 26) ICMPV4 msg pkt \<and>
    echo_reply_to (take m (drop 34 (skb_buf skb))) msg"
proof -
  let ?b = "skb_buf skb"
  note len = icmp_delivered_len [OF assms(3)]
  have d: "skb_data skb = 0" "skb_len skb = 0" "skb_refcnt skb < 1" "lo_nibble (?b ! 14) = 5"
    "4 \<le> m" "34 + m \<le> length ?b"
    using assms(3) by (simp_all add: icmp_delivered_def)
  let ?b1 = "put16 (?b[34 := 0]) 36 0"
  let ?s = "skb\<lparr>skb_data := 34, skb_len := word_of_nat m\<rparr>"
  have m: "unat (word_of_nat m :: u32) = m" using len(2) by (simp add: unsigned_of_nat take_bit_nat_eq_self)
  obtain c skb' pkt where c: "checksum ?b1 34 (int m) 0 = Some c"
    "ip_output others (get32 ?b 26) (?s\<lparr>skb_buf := put16 ?b1 36 c, skb_protocol := 1\<rparr>) n =
      Some (Indet, skb', tun_write (eth_frame mac (nd_hwaddr (net_dev n)) ETH_P_IP pkt) n)"
    "free_skb skb' = None"
    "ip_datagram (net_dev n) (get32 ?b 26) ICMPV4 (take m (drop 34 (put16 ?b1 36 c))) pkt"
    "checksum (take m (drop 34 (put16 ?b1 36 c))) 0 (int m) 0 = Some 0"
    using icmp_tail [of n mac ?s m ?b1 others "get32 ?b 26"] assms(1,2) d len m by auto
  have "icmpv4_reply others skb n =
      Some (None, tun_write (eth_frame mac (nd_hwaddr (net_dev n)) ETH_P_IP pkt) n)"
    using c d len
    by (simp add: icmpv4_reply_def ip_hdr_def skb_head_def skb_reserve_def skb_push_def Let_def mem_simps)
  moreover have "echo_reply_to (take m (drop 34 ?b)) (take m (drop 34 (put16 ?b1 36 c)))"
    using d c(5)
    by (simp add: echo_reply_to_def drop_take nth_put16 put16_def drop_update_cancel)
  ultimately show ?thesis using c(4) by blast
qed

text \<open>
  A timestamp reply as the handler makes it: the milliseconds since midnight at the offsets
  \<open>struct icmp_v4_timestamp\<close> gives \<open>rtime\<close> (8) and \<open>ttime\<close> (12), the four bytes behind the
  checksum and everything past 16 as in the request.
\<close>

definition tstamp_reply_to :: "clock \<Rightarrow> bytes \<Rightarrow> bytes \<Rightarrow> bool" where
  "tstamp_reply_to tv req msg \<longleftrightarrow>
     (let ms = word_of_nat (fst tv mod 86400 * 1000 + snd tv div 1000) in
      length msg = length req \<and> msg ! 0 = ICMP_V4_TSTAMP_REPLY \<and> msg ! 1 = req ! 1 \<and>
      get32 msg 4 = get32 req 4 \<and> ntohl (get32 msg 8) = ms \<and> ntohl (get32 msg 12) = ms \<and>
      drop 16 msg = drop 16 req \<and> checksum msg 0 (int (length msg)) 0 = Some 0)"

lemma icmpv4_timestamp_sends:
  assumes "net_inv n" and "arp_get_hwaddr n gateway = Some mac" and "icmp_delivered skb m"
    and "16 \<le> m"
  shows "\<exists>pkt msg. icmpv4_timestamp others tv skb n =
      Some (None, tun_write (eth_frame mac (nd_hwaddr (net_dev n)) ETH_P_IP pkt) n) \<and>
    ip_datagram (net_dev n) (get32 (skb_buf skb) 26) ICMPV4 msg pkt \<and>
    tstamp_reply_to tv (take m (drop 34 (skb_buf skb))) msg"
proof -
  let ?b = "skb_buf skb"
  note len = icmp_delivered_len [OF assms(3)]
  have d: "skb_data skb = 0" "skb_len skb = 0" "skb_refcnt skb < 1" "lo_nibble (?b ! 14) = 5"
    "4 \<le> m" "34 + m \<le> length ?b"
    using assms(3) by (simp_all add: icmp_delivered_def)
  define ms where "ms = (word_of_nat (fst tv mod 86400 * 1000 + snd tv div 1000) :: u32)"
  let ?b1 = "put16 (put32 (put32 (?b[34 := ICMP_V4_TSTAMP_REPLY]) 46 (htonl ms)) 42 (htonl ms)) 36 0"
  let ?s = "skb\<lparr>skb_data := 34, skb_len := word_of_nat m\<rparr>"
  have m: "unat (word_of_nat m :: u32) = m" using len(2) by (simp add: unsigned_of_nat take_bit_nat_eq_self)
  obtain c skb' pkt where c: "checksum ?b1 34 (int m) 0 = Some c"
    "ip_output others (get32 ?b 26) (?s\<lparr>skb_buf := put16 ?b1 36 c, skb_protocol := 1\<rparr>) n =
      Some (Indet, skb', tun_write (eth_frame mac (nd_hwaddr (net_dev n)) ETH_P_IP pkt) n)"
    "free_skb skb' = None"
    "ip_datagram (net_dev n) (get32 ?b 26) ICMPV4 (take m (drop 34 (put16 ?b1 36 c))) pkt"
    "checksum (take m (drop 34 (put16 ?b1 36 c))) 0 (int m) 0 = Some 0"
    using icmp_tail [of n mac ?s m ?b1 others "get32 ?b 26"] assms(1,2) d len m by auto
  have "push_bit 2 (5 :: u16) = 20" by (simp add: push_bit_eq_mult)
  then have "icmpv4_timestamp others tv skb n =
      Some (None, tun_write (eth_frame mac (nd_hwaddr (net_dev n)) ETH_P_IP pkt) n)"
    using c d len assms(4)
    by (simp add: icmpv4_timestamp_def ip_hdr_def skb_head_def skb_reserve_def skb_push_def Let_def
        mem_simps ms_def)
  moreover have "tstamp_reply_to tv (take m (drop 34 ?b)) (take m (drop 34 (put16 ?b1 36 c)))"
    using d c(5) assms(4)
    by (simp add: tstamp_reply_to_def drop_take nth_put16 mem_simps get32_range ms_def Let_def)
  ultimately show ?thesis using c(4) by blast
qed

text \<open>
  C40.  No length check protects the handlers: when the IP length promises more than the buffer
  holds, the checksum runs over the end of the buffer.
\<close>

theorem icmp_overrun:
  assumes "length (skb_buf skb) <
      34 + unat (get16 (skb_buf skb) 16 - ucast (lo_nibble (skb_buf skb ! 14)) * 4)"
    and "skb_data skb = 0"
  shows "icmpv4_reply others skb n = None"
proof -
  have "checksum (put16 (b[34 := v]) 36 0) 34 (uint w) 0 = None"
    if "length b < 34 + unat w" "37 < length b" for b v and w :: u16
    using that checksum_fault [of "put16 (b[34 := v]) 36 0" 34 "unat w" 0] by simp
  with assms show ?thesis
    by (auto simp: icmpv4_reply_def ip_hdr_def skb_head_def skb_reserve_def skb_push_def Let_def
        load16_def load8_def store8_def store16_def)
qed

end
