(* ===== verification/List_Head.thy ===== *)
theory List_Head
  imports Prelude
begin

text \<open>
  The intrusive doubly linked list of \<open>list.h\<close>, on an explicit store.  A node is an
  address; address 0 is the NULL pointer and following it faults (\<open>None\<close>).  The operations
  are transcribed assignment by assignment, re-reading what the C re-reads.

  \<open>dlist h head xs\<close> says that the ring anchored at \<open>head\<close> holds exactly the nodes
  \<open>xs\<close>, in traversal order, in both directions.  The lemmas show that each operation
  implements its list counterpart on that abstraction, and leaves every disjoint ring alone.
  They are what lets the other theories use a HOL list for each of the stack's queues
  (routes, ARP cache, timers, sockets, packet queues).
\<close>

type_synonym addr = nat

record links =
  nxt :: "addr \<Rightarrow> addr"
  prv :: "addr \<Rightarrow> addr"

section \<open>The operations\<close>

definition rd_next :: "links \<Rightarrow> addr \<Rightarrow> addr option" where
  "rd_next h p = (if p = 0 then None else Some (nxt h p))"

definition rd_prev :: "links \<Rightarrow> addr \<Rightarrow> addr option" where
  "rd_prev h p = (if p = 0 then None else Some (prv h p))"

definition wr_next :: "links \<Rightarrow> addr \<Rightarrow> addr \<Rightarrow> links option" where
  "wr_next h p q = (if p = 0 then None else Some (h\<lparr>nxt := (nxt h)(p := q)\<rparr>))"

definition wr_prev :: "links \<Rightarrow> addr \<Rightarrow> addr \<Rightarrow> links option" where
  "wr_prev h p q = (if p = 0 then None else Some (h\<lparr>prv := (prv h)(p := q)\<rparr>))"

lemmas link_defs = rd_next_def rd_prev_def wr_next_def wr_prev_def

definition list_init :: "links \<Rightarrow> addr \<Rightarrow> links option" where
  "list_init h head = do {
     h \<leftarrow> wr_next h head head;
     wr_prev h head head
   }"

definition list_add :: "links \<Rightarrow> addr \<Rightarrow> addr \<Rightarrow> links option" where
  "list_add h new_node head = do {
     n \<leftarrow> rd_next h head;
     h \<leftarrow> wr_prev h n new_node;
     n \<leftarrow> rd_next h head;
     h \<leftarrow> wr_next h new_node n;
     h \<leftarrow> wr_prev h new_node head;
     wr_next h head new_node
   }"

definition list_add_tail :: "links \<Rightarrow> addr \<Rightarrow> addr \<Rightarrow> links option" where
  "list_add_tail h new_node head = do {
     p \<leftarrow> rd_prev h head;
     h \<leftarrow> wr_next h p new_node;
     p \<leftarrow> rd_prev h head;
     h \<leftarrow> wr_prev h new_node p;
     h \<leftarrow> wr_next h new_node head;
     wr_prev h head new_node
   }"

definition list_del :: "links \<Rightarrow> addr \<Rightarrow> links option" where
  "list_del h elem = do {
     prev \<leftarrow> rd_prev h elem;
     next \<leftarrow> rd_next h elem;
     h \<leftarrow> wr_next h prev next;
     wr_prev h next prev
   }"

definition list_del_init :: "links \<Rightarrow> addr \<Rightarrow> links option" where
  "list_del_init h elem = do {
     prev \<leftarrow> rd_prev h elem;
     next \<leftarrow> rd_next h elem;
     h \<leftarrow> wr_next h prev next;
     h \<leftarrow> wr_prev h next prev;
     h \<leftarrow> wr_next h elem elem;
     wr_prev h elem elem
   }"

definition list_empty :: "links \<Rightarrow> addr \<Rightarrow> bool option" where
  "list_empty h head = do {
     n \<leftarrow> rd_next h head;
     Some (n = head)
   }"

text \<open>
  \<open>list_for_each (pos, head)\<close>: start at \<open>head->next\<close>, stop at \<open>head\<close>.  On a
  corrupted ring the loop need not end, so it is a partial function; its value is the list
  of the nodes it visits.
\<close>

partial_function (option) list_walk :: "links \<Rightarrow> addr \<Rightarrow> addr \<Rightarrow> addr list option" where
  "list_walk h head pos =
     (if pos = head then Some []
      else Option.bind (rd_next h pos) (\<lambda>n.
           Option.bind (list_walk h head n) (\<lambda>xs. Some (pos # xs))))"

definition list_for_each :: "links \<Rightarrow> addr \<Rightarrow> addr list option" where
  "list_for_each h head = do {
     n \<leftarrow> rd_next h head;
     list_walk h head n
   }"

text \<open>
  The clean-up loops (\<open>free_arp\<close>, \<open>free_routes\<close>): \<open>list_for_each_safe\<close> with a body
  that unlinks the current node and gives it back to the allocator.  \<open>freed\<close> are the nodes given
  back so far, the last one first; an access to one of them faults.  \<open>p\<close> is the saved successor.
\<close>

definition rd_next_live :: "addr list \<Rightarrow> links \<Rightarrow> addr \<Rightarrow> addr option" where
  "rd_next_live freed h p = (if p \<in> set freed then None else rd_next h p)"

definition list_del_live :: "addr list \<Rightarrow> links \<Rightarrow> addr \<Rightarrow> links option" where
  "list_del_live freed h elem =
     (if elem \<in> set freed then None
      else do {
        prev \<leftarrow> rd_prev h elem;
        next \<leftarrow> rd_next h elem;
        (if prev \<in> set freed \<or> next \<in> set freed then None else list_del h elem)
      })"

definition list_free_node :: "addr list \<Rightarrow> links \<Rightarrow> addr \<Rightarrow> (addr list \<times> links) option" where
  "list_free_node freed h pos = do {
     h \<leftarrow> list_del_live freed h pos;
     Some (pos # freed, h)
   }"

partial_function (option) list_del_walk ::
    "addr list \<Rightarrow> links \<Rightarrow> addr \<Rightarrow> addr \<Rightarrow> addr \<Rightarrow> (addr list \<times> links) option" where
  "list_del_walk freed h head pos p =
     (if pos = head then Some (freed, h)
      else Option.bind (list_free_node freed h pos) (\<lambda>r.
           Option.bind (rd_next_live (fst r) (snd r) p) (\<lambda>n. list_del_walk (fst r) (snd r) head p n)))"

definition list_free_all :: "links \<Rightarrow> addr \<Rightarrow> (addr list \<times> links) option" where
  "list_free_all h head = do {
     pos \<leftarrow> rd_next_live [] h head;
     p \<leftarrow> rd_next_live [] h pos;
     list_del_walk [] h head pos p
   }"

section \<open>The abstraction\<close>

fun seg :: "links \<Rightarrow> addr \<Rightarrow> addr list \<Rightarrow> addr \<Rightarrow> bool" where
  "seg h a [] b \<longleftrightarrow> nxt h a = b \<and> prv h b = a"
| "seg h a (x # xs) b \<longleftrightarrow> nxt h a = x \<and> prv h x = a \<and> seg h x xs b"

definition dlist :: "links \<Rightarrow> addr \<Rightarrow> addr list \<Rightarrow> bool" where
  "dlist h head xs \<longleftrightarrow> seg h head xs head \<and> distinct (head # xs) \<and> 0 \<notin> set (head # xs)"

lemma seg_append: "seg h a (xs @ ys) b \<longleftrightarrow> (
    if ys = [] then seg h a xs b else seg h a xs (hd ys) \<and> seg h (hd ys) (tl ys) b)"
  by (induction xs arbitrary: a) (cases ys; simp)+

lemma seg_snoc: "seg h a (xs @ [x]) b \<longleftrightarrow> seg h a xs x \<and> nxt h x = b \<and> prv h b = x"
  by (simp add: seg_append)

lemma seg_mid: "seg h a (xs @ x # ys) b \<longleftrightarrow> seg h a xs x \<and> seg h x ys b"
  by (simp add: seg_append)

lemma seg_last_next: "seg h a xs b \<Longrightarrow> nxt h (last (a # xs)) = b"
  by (induction xs arbitrary: a) auto

lemma seg_first_next: "seg h a xs b \<Longrightarrow> nxt h a = hd (xs @ [b])"
  by (cases xs) auto

lemma seg_last_prev: "seg h a xs b \<Longrightarrow> prv h b = last (a # xs)"
  by (induction xs arbitrary: a) auto

lemma seg_first_prev: "seg h a xs b \<Longrightarrow> prv h (hd (xs @ [b])) = a"
  by (cases xs) auto

lemma seg_cong:
  assumes "seg h a xs b"
    and "\<And>x. x \<in> set (a # xs) \<Longrightarrow> nxt h' x = nxt h x"
    and "\<And>x. x \<in> set (xs @ [b]) \<Longrightarrow> prv h' x = prv h x"
  shows "seg h' a xs b"
  using assms by (induction xs arbitrary: a) auto

text \<open>The two elementary changes: a node is linked in between neighbours, or linked out.\<close>

definition link_between :: "links \<Rightarrow> addr \<Rightarrow> addr \<Rightarrow> addr \<Rightarrow> links" where
  "link_between h a x b =
     h\<lparr>nxt := (nxt h)(x := b, a := x), prv := (prv h)(b := x, x := a)\<rparr>"

definition unlink :: "links \<Rightarrow> addr \<Rightarrow> addr \<Rightarrow> links" where
  "unlink h a b = h\<lparr>nxt := (nxt h)(a := b), prv := (prv h)(b := a)\<rparr>"

lemma seg_link_first:
  assumes "seg h a xs b" and "x \<notin> set (a # xs @ [b])" and "distinct (a # xs)" and "distinct (xs @ [b])"
  shows "seg (link_between h a x (hd (xs @ [b]))) a (x # xs) b"
proof (cases xs)
  case Nil
  with assms show ?thesis by (auto simp: link_between_def)
next
  case (Cons y ys)
  with assms have y: "seg h y ys b" "x \<noteq> a" "x \<noteq> y" "y \<noteq> a" by auto
  have "seg (link_between h a x y) y ys b"
    using y(1) by (rule seg_cong) (use assms Cons in \<open>auto simp: link_between_def\<close>)
  with Cons assms y show ?thesis by (auto simp: link_between_def)
qed

lemma seg_link_last:
  assumes "seg h a xs b" and "x \<notin> set (a # xs @ [b])" and "distinct (a # xs)" and "distinct (xs @ [b])"
  shows "seg (link_between h (last (a # xs)) x b) a (xs @ [x]) b"
proof (cases xs rule: rev_cases)
  case Nil
  with assms show ?thesis by (auto simp: link_between_def)
next
  case (snoc ys y)
  with assms have y: "seg h a ys y" "x \<noteq> b" "x \<noteq> y" "y \<noteq> a" "y \<noteq> b"
    by (auto simp: seg_snoc)
  have "seg (link_between h y x b) a ys y"
    using y(1) by (rule seg_cong) (use assms snoc in \<open>auto simp: link_between_def\<close>)
  with snoc assms y show ?thesis by (auto simp: link_between_def seg_mid)
qed

lemma seg_unlink_other:
  assumes "seg h v ws b" and "c \<notin> set (v # ws)" and "d \<notin> set (ws @ [b])"
  shows "seg (unlink h c d) v ws b"
  using assms(1) by (rule seg_cong) (use assms(2,3) in \<open>auto simp: unlink_def\<close>)

lemma seg_unlink:
  assumes "seg h a (us @ x # vs) b" and "distinct (a # us @ x # vs)" and "distinct (us @ x # vs @ [b])"
  shows "seg (unlink h (last (a # us)) (hd (vs @ [b]))) a (us @ vs) b"
proof -
  let ?h = "unlink h (last (a # us)) (hd (vs @ [b]))"
  have last_in: "last (a # us) \<in> set (a # us)" by (rule last_in_set) simp
  from assms(1) have l: "seg h a us x" and r: "seg h x vs b" by (auto simp: seg_mid)
  show ?thesis
  proof (cases vs)
    case Nil
    show ?thesis
    proof (cases us rule: rev_cases)
      case Nil
      with \<open>vs = []\<close> show ?thesis by (simp add: unlink_def)
    next
      case (snoc ys y)
      with l have "seg h a ys y" by (simp add: seg_snoc)
      then have "seg ?h a ys y"
        by (rule seg_cong) (use assms snoc \<open>vs = []\<close> in \<open>auto simp: unlink_def\<close>)
      with snoc \<open>vs = []\<close> show ?thesis by (simp add: seg_snoc unlink_def)
    qed
  next
    case (Cons v ws)
    with r have "seg h v ws b" by simp
    moreover have "last (a # us) \<notin> set (v # ws)" using last_in assms(2) Cons by auto
    moreover have "v \<notin> set (ws @ [b])" using assms(3) Cons by auto
    ultimately have vb: "seg ?h v ws b" using Cons by (simp add: seg_unlink_other)
    have "seg ?h a us v"
    proof (cases us rule: rev_cases)
      case Nil
      then show ?thesis using Cons by (simp add: unlink_def)
    next
      case (snoc ys y)
      with l have "seg h a ys y" by (simp add: seg_snoc)
      then have "seg ?h a ys y"
        by (rule seg_cong) (use assms snoc Cons in \<open>auto simp: unlink_def\<close>)
      with snoc Cons show ?thesis by (simp add: seg_snoc unlink_def)
    qed
    with vb Cons show ?thesis by (simp add: seg_mid)
  qed
qed

section \<open>Each operation implements its list counterpart\<close>

lemma dlist_init: "p \<noteq> 0 \<Longrightarrow> \<exists>h'. list_init h p = Some h' \<and> dlist h' p []"
  by (auto simp: list_init_def link_defs dlist_def)

lemma list_add_eq:
  assumes "nxt h p = n" and "n \<noteq> 0" and "p \<noteq> 0" and "x \<noteq> 0" and "x \<noteq> p" and "x \<noteq> n"
  shows "list_add h x p = Some (link_between h p x n)"
  using assms by (auto simp: list_add_def link_defs link_between_def)

lemma list_add_tail_eq:
  assumes "prv h p = n" and "n \<noteq> 0" and "p \<noteq> 0" and "x \<noteq> 0" and "x \<noteq> p" and "x \<noteq> n"
  shows "list_add_tail h x p = Some (link_between h n x p)"
  using assms
  by (auto simp: list_add_tail_def link_defs link_between_def fun_upd_twist)

lemma dlist_add:
  assumes "dlist h head xs" and "x \<notin> set (head # xs)" and "x \<noteq> 0"
  shows "\<exists>h'. list_add h x head = Some h' \<and> dlist h' head (x # xs)"
proof -
  let ?n = "hd (xs @ [head])"
  from assms have s: "seg h head xs head" and d: "distinct (head # xs)" and z: "0 \<notin> set (head # xs)"
    by (auto simp: dlist_def)
  have n: "?n \<in> set (head # xs)" by (cases xs) auto
  then have "?n \<noteq> 0" "x \<noteq> ?n" using z assms(2) by metis+
  with z assms have "list_add h x head = Some (link_between h head x ?n)"
    by (intro list_add_eq) (auto simp: seg_first_next [OF s])
  moreover have "seg (link_between h head x ?n) head (x # xs) head"
    by (rule seg_link_first [OF s]) (use assms d in auto)
  ultimately show ?thesis using assms d z by (auto simp: dlist_def)
qed

lemma dlist_add_tail:
  assumes "dlist h head xs" and "x \<notin> set (head # xs)" and "x \<noteq> 0"
  shows "\<exists>h'. list_add_tail h x head = Some h' \<and> dlist h' head (xs @ [x])"
proof -
  let ?n = "last (head # xs)"
  from assms have s: "seg h head xs head" and d: "distinct (head # xs)" and z: "0 \<notin> set (head # xs)"
    by (auto simp: dlist_def)
  have n: "?n \<in> set (head # xs)" by (rule last_in_set) simp
  then have "?n \<noteq> 0" "x \<noteq> ?n" using z assms(2) by metis+
  with z assms have "list_add_tail h x head = Some (link_between h ?n x head)"
    by (intro list_add_tail_eq) (auto simp: seg_last_prev [OF s])
  moreover have "seg (link_between h ?n x head) head (xs @ [x]) head"
    by (rule seg_link_last [OF s]) (use assms d in auto)
  ultimately show ?thesis using assms d z by (auto simp: dlist_def)
qed

text \<open>
  \<open>skb_queue_add\<close> calls \<open>list_add\<close> with an element of the queue in the place of the
  head: the new node goes right after that element.
\<close>

lemma dlist_add_after:
  assumes "dlist h head (us @ p # vs)" and "x \<notin> set (head # us @ p # vs)" and "x \<noteq> 0"
  shows "\<exists>h'. list_add h x p = Some h' \<and> dlist h' head (us @ p # x # vs)"
proof -
  let ?n = "hd (vs @ [head])" and ?h = "link_between h p x (hd (vs @ [head]))"
  from assms have l: "seg h head us p" and r: "seg h p vs head"
    and d: "distinct (head # us @ p # vs)" and z: "0 \<notin> set (head # us @ p # vs)"
    by (auto simp: dlist_def seg_mid)
  have n: "?n \<in> set (vs @ [head])" by (cases vs) auto
  with z assms d have add: "list_add h x p = Some ?h"
    by (intro list_add_eq) (auto simp: seg_first_next [OF r])
  have "seg ?h p (x # vs) head"
    by (rule seg_link_first [OF r]) (use assms d in auto)
  moreover have "seg ?h head us p"
    using l by (rule seg_cong) (use assms d n in \<open>auto simp: link_between_def split: if_splits\<close>)
  ultimately have "seg ?h head (us @ p # x # vs) head" by (simp add: seg_mid)
  with add show ?thesis using assms d z by (auto simp: dlist_def)
qed

lemma list_del_eq:
  assumes "prv h x = a" and "nxt h x = b" and "x \<noteq> 0" and "a \<noteq> 0" and "b \<noteq> 0"
  shows "list_del h x = Some (unlink h a b)"
  using assms by (auto simp: list_del_def link_defs unlink_def)

lemma dlist_unlink:
  assumes "dlist h head (us @ x # vs)"
  shows "dlist (unlink h (last (head # us)) (hd (vs @ [head]))) head (us @ vs)"
    and "prv h x = last (head # us)" and "nxt h x = hd (vs @ [head])"
    and "x \<noteq> 0" and "last (head # us) \<noteq> 0" and "hd (vs @ [head]) \<noteq> 0"
proof -
  from assms have s: "seg h head (us @ x # vs) head" and d: "distinct (head # us @ x # vs)"
    and z: "0 \<notin> set (head # us @ x # vs)"
    by (auto simp: dlist_def)
  have "seg (unlink h (last (head # us)) (hd (vs @ [head]))) head (us @ vs) head"
    by (rule seg_unlink [OF s]) (use d in auto)
  with d z show "dlist (unlink h (last (head # us)) (hd (vs @ [head]))) head (us @ vs)"
    by (auto simp: dlist_def)
  from s have l: "seg h head us x" and r: "seg h x vs head" by (auto simp: seg_mid)
  show "prv h x = last (head # us)" by (rule seg_last_prev [OF l])
  show "nxt h x = hd (vs @ [head])" by (rule seg_first_next [OF r])
  have "last (head # us) \<in> set (head # us)" by (rule last_in_set) simp
  then have "last (head # us) \<in> set (head # us @ x # vs)" by auto
  with z show "last (head # us) \<noteq> 0" by metis
  show "hd (vs @ [head]) \<noteq> 0" using z by (cases vs) auto
  from z show "x \<noteq> 0" by auto
qed

lemma dlist_del:
  assumes "dlist h head (us @ x # vs)"
  shows "\<exists>h'. list_del h x = Some h' \<and> dlist h' head (us @ vs)"
  using dlist_unlink [OF assms] list_del_eq by metis

lemma list_del_init_eq:
  "list_del_init h x = Option.bind (list_del h x) (\<lambda>h. list_init h x)"
  by (auto simp: list_del_init_def list_del_def list_init_def bind_assoc
      intro!: Option.bind_cong)

lemma dlist_frame_init:
  assumes "dlist h head xs" and "x \<notin> set (head # xs)" and "list_init h x = Some h'"
  shows "dlist h' head xs"
proof -
  from assms have "seg h head xs head" by (simp add: dlist_def)
  then have "seg h' head xs head"
    by (rule seg_cong) (use assms in \<open>auto simp: list_init_def link_defs split: if_splits\<close>)
  with assms show ?thesis by (simp add: dlist_def)
qed

lemma dlist_del_init:
  assumes "dlist h head (us @ x # vs)"
  shows "\<exists>h'. list_del_init h x = Some h' \<and> dlist h' head (us @ vs) \<and> dlist h' x []"
proof -
  from dlist_del [OF assms] obtain h1 where h1: "list_del h x = Some h1" "dlist h1 head (us @ vs)"
    by blast
  from assms have "x \<noteq> 0" and x: "x \<notin> set (head # us @ vs)" by (auto simp: dlist_def)
  then obtain h2 where h2: "list_init h1 x = Some h2" "dlist h2 x []"
    using dlist_init by blast
  from h1(2) x h2(1) have "dlist h2 head (us @ vs)" by (rule dlist_frame_init)
  with h1 h2 show ?thesis by (simp add: list_del_init_eq)
qed

lemma dlist_empty: "dlist h head xs \<Longrightarrow> list_empty h head = Some (xs = [])"
  by (cases xs) (auto simp: list_empty_def dlist_def link_defs)

section \<open>Traversal\<close>

lemma list_walk_seg:
  assumes "seg h a xs head" and "head \<notin> set xs" and "0 \<notin> set xs"
  shows "list_walk h head (nxt h a) = Some xs"
  using assms
proof (induction xs arbitrary: a)
  case Nil
  then show ?case by (simp add: list_walk.simps)
next
  case (Cons x xs)
  then have "list_walk h head (nxt h x) = Some xs" by simp
  with Cons.prems show ?case by (subst list_walk.simps) (auto simp: rd_next_def)
qed

lemma dlist_walk: "dlist h head xs \<Longrightarrow> list_for_each h head = Some xs"
  by (auto simp: list_for_each_def dlist_def rd_next_def intro!: list_walk_seg)

text \<open>A node of an intact ring of which nothing was freed is given back.\<close>

lemma list_free_node_first:
  assumes "dlist h head (x # xs)" and "set freed \<inter> set (head # x # xs) = {}"
  shows "\<exists>h'. list_free_node freed h x = Some (x # freed, h') \<and> dlist h' head xs"
proof -
  obtain h' where h': "list_del h x = Some h'" "dlist h' head xs"
    using dlist_del [of h head "[]" x xs] assms(1) by auto
  have "prv h x = head" "nxt h x \<in> set (head # xs)" "x \<noteq> 0"
    using dlist_unlink(2-4) [of h head "[]" x xs] assms(1) by (auto simp: hd_append)
  then have "list_del_live freed h x = Some h'"
    using assms(2) h'(1) by (auto simp: list_del_live_def link_defs)
  with h'(2) show ?thesis by (simp add: list_free_node_def)
qed

lemma list_del_walk_dlist:
  assumes "dlist h head xs" and "pos = hd (xs @ [head])"
    and "xs \<noteq> [] \<Longrightarrow> p = hd (tl xs @ [head])" and "set freed \<inter> set (head # xs) = {}"
  shows "\<exists>h'. list_del_walk freed h head pos p = Some (rev xs @ freed, h') \<and> dlist h' head []"
  using assms
proof (induction xs arbitrary: h pos p freed)
  case Nil
  then show ?case by (simp add: list_del_walk.simps)
next
  case (Cons x xs)
  from Cons.prems(1,4) obtain h1 where h1: "list_free_node freed h x = Some (x # freed, h1)" "dlist h1 head xs"
    using list_free_node_first by blast
  have p: "p = hd (xs @ [head])" and "pos = x" and x: "x \<noteq> head" "x \<notin> set xs"
    using Cons.prems by (auto simp: dlist_def)
  have "p \<in> set (head # xs)" using p by (cases xs) auto
  then have fr: "set (x # freed) \<inter> set (head # xs) = {}" "p \<notin> set (x # freed)"
    using Cons.prems(4) x by auto
  have "p \<noteq> 0" using p h1(2) by (cases xs) (auto simp: dlist_def)
  moreover have "xs \<noteq> [] \<Longrightarrow> nxt h1 p = hd (tl xs @ [head])"
    using h1(2) p by (cases xs) (auto simp: dlist_def dest: seg_first_next)
  ultimately have "\<exists>h'. list_del_walk (x # freed) h1 head p (nxt h1 p) = Some (rev xs @ x # freed, h') \<and> dlist h' head []"
    using h1(2) p fr(1) by (intro Cons.IH) auto
  with h1 fr(2) \<open>p \<noteq> 0\<close> \<open>pos = x\<close> x(1) show ?case
    by (subst list_del_walk.simps) (simp add: rd_next_live_def rd_next_def)
qed

text \<open>
  The reason for the saved successor: once the current node has been given back, the step
  \<open>pos = pos->next\<close> of \<open>list_for_each\<close> faults.
\<close>

lemma list_for_each_unsafe: "list_free_node freed h pos = Some (freed', h') \<Longrightarrow> rd_next_live freed' h' pos = None"
  by (auto simp: list_free_node_def rd_next_live_def elim!: bind_SomeE)

text \<open>
  C25.  \<open>list_for_each_safe\<close> with a body that unlinks and frees the current node, where every access to a
  node that was freed is a fault: on every ring the walk ends without a fault, gives back each of its
  nodes once, in order, and leaves the ring empty.
\<close>

theorem dlist_free_all:
  assumes "dlist h head xs"
  shows "\<exists>h'. list_free_all h head = Some (rev xs, h') \<and> dlist h' head []"
proof -
  let ?pos = "hd (xs @ [head])"
  have pos: "nxt h head = ?pos" "head \<noteq> 0" "?pos \<noteq> 0"
    using assms by (cases xs; auto simp: dlist_def)+
  have "xs \<noteq> [] \<Longrightarrow> nxt h ?pos = hd (tl xs @ [head])"
    using assms by (cases xs) (auto simp: dlist_def dest: seg_first_next)
  then have "\<exists>h'. list_del_walk [] h head ?pos (nxt h ?pos) = Some (rev xs @ [], h') \<and> dlist h' head []"
    using assms by (intro list_del_walk_dlist) auto
  with pos show ?thesis by (simp add: list_free_all_def rd_next_live_def rd_next_def)
qed

section \<open>Disjoint rings\<close>

text \<open>
  An operation on one ring only writes nodes of that ring and the node it is given, so every
  ring that shares none of them is untouched.
\<close>

definition agree :: "addr set \<Rightarrow> links \<Rightarrow> links \<Rightarrow> bool" where
  "agree A h h' \<longleftrightarrow> (\<forall>z\<in>A. nxt h' z = nxt h z \<and> prv h' z = prv h z)"

lemma dlist_agree:
  assumes "dlist h b ys" and "agree (set (b # ys)) h h'"
  shows "dlist h' b ys"
proof -
  from assms(1) have "seg h b ys b" by (simp add: dlist_def)
  then have "seg h' b ys b"
    by (rule seg_cong) (use assms(2) in \<open>auto simp: agree_def\<close>)
  with assms(1) show ?thesis by (simp add: dlist_def)
qed

lemma agree_trans: "agree A h h1 \<Longrightarrow> agree A h1 h2 \<Longrightarrow> agree A h h2"
  by (simp add: agree_def)

lemma agree_subset: "agree A h h' \<Longrightarrow> B \<subseteq> A \<Longrightarrow> agree B h h'"
  by (auto simp: agree_def)

lemma dlist_ends:
  assumes "dlist h head xs"
  shows "prv h head \<in> set (head # xs)" and "nxt h head \<in> set (head # xs)"
    and "prv h head \<noteq> 0" and "nxt h head \<noteq> 0"
proof -
  from assms have s: "seg h head xs head" and z: "0 \<notin> set (head # xs)" by (auto simp: dlist_def)
  show p: "prv h head \<in> set (head # xs)"
    unfolding seg_last_prev [OF s] by (rule last_in_set) simp
  show n: "nxt h head \<in> set (head # xs)"
    unfolding seg_first_next [OF s] by (cases xs) auto
  from p n z show "prv h head \<noteq> 0" "nxt h head \<noteq> 0" by metis+
qed

lemma list_add_tail_agree:
  assumes "dlist h head xs" and "list_add_tail h x head = Some h'"
  shows "agree (- set (x # head # xs)) h h'"
  using assms(2) dlist_ends [OF assms(1)]
  by (auto simp: agree_def list_add_tail_def link_defs split: if_splits)

lemma list_add_agree:
  assumes "dlist h head xs" and "list_add h x head = Some h'"
  shows "agree (- set (x # head # xs)) h h'"
  using assms(2) dlist_ends [OF assms(1)]
  by (auto simp: agree_def list_add_def link_defs split: if_splits)

lemma dlist_neighbours:
  assumes "dlist h head (us @ x # vs)"
  shows "prv h x \<in> set (head # us)" and "nxt h x \<in> set (head # vs)"
proof -
  show "prv h x \<in> set (head # us)"
    unfolding dlist_unlink(2) [OF assms] by (rule last_in_set) simp
  show "nxt h x \<in> set (head # vs)"
    unfolding dlist_unlink(3) [OF assms] by (cases vs) auto
qed

lemma list_del_init_agree:
  assumes "dlist h head (us @ x # vs)" and "list_del_init h x = Some h'"
  shows "agree (- set (head # us @ x # vs)) h h'"
  using assms(2) dlist_neighbours [OF assms(1)]
  by (auto simp: agree_def list_del_init_def link_defs split: if_splits)

lemma list_del_agree:
  assumes "dlist h head (us @ x # vs)" and "list_del h x = Some h'"
  shows "agree (- set (head # us @ vs)) h h'"
  using assms(2) dlist_neighbours [OF assms(1)]
  by (auto simp: agree_def list_del_def link_defs split: if_splits)

lemma list_init_agree: "list_init h x = Some h' \<Longrightarrow> agree (- {x}) h h'"
  by (auto simp: agree_def list_init_def link_defs split: if_splits)

text \<open>
  Linking in a node that is already last of the ring leaves the forward chain as it was and
  makes the node its own predecessor; unlinking it afterwards does not take it out of the
  ring: the walk then never ends.
\<close>

lemma double_add_tail:
  assumes "head \<noteq> 0" and "x \<noteq> 0" and "x \<noteq> head" and "dlist h head [x]"
  shows "\<exists>h1 h2. list_add_tail h x head = Some h1 \<and> list_for_each h1 head = Some [x] \<and>
    list_del_init h1 x = Some h2 \<and> nxt h2 head = x \<and> nxt h2 x = x"
proof -
  have r: "nxt h head = x" "nxt h x = head" "prv h x = head" "prv h head = x"
    using assms(4) by (auto simp: dlist_def)
  define h1 where "h1 = h\<lparr>nxt := (nxt h)(x := head), prv := (prv h)(x := x, head := x)\<rparr>"
  have "list_add_tail h x head = Some h1"
    using assms(1-3) r by (auto simp: list_add_tail_def link_defs h1_def)
  moreover have "list_for_each h1 head = Some [x]"
    using assms(1-3) r by (simp add: list_for_each_def link_defs h1_def list_walk.simps)
  moreover have "\<exists>h2. list_del_init h1 x = Some h2 \<and> nxt h2 head = x \<and> nxt h2 x = x"
    using assms(1-3) r by (simp add: list_del_init_def link_defs h1_def)
  ultimately show ?thesis by blast
qed

end
