(* ===== verification/Timer.thy ===== *)
theory Timer
  imports Prelude
begin

text \<open>
  \<open>timer.c\<close>: the timers of the stack and the operations that arm, release and cancel them.

  A timer is reached by its identifier (the \<open>struct timer *\<close> of the code); the ring \<open>timers\<close>
  is an association list in ring order (\<open>list_add_tail\<close> appends, \<open>timer_free\<close> takes the entry
  out).  The handlers are the four functions the TCP code arms timers with; the pass over
  the ring that calls them, \<open>timers_tick\<close>, is in \<open>Stack\<close>, where TCP is in scope.

  A timer that was freed is no longer in the list: touching it through a stale pointer is
  \<open>None\<close>.  A NULL pointer is \<open>None\<close> of the pointer type and is accepted, as in the code.
\<close>

type_synonym tid = nat
type_synonym sid = nat

datatype handler = Connect_rto | Retransmission_timeout | Send_delack | Linger

record timer =
  tm_refcnt :: int
  tm_expires :: u32
  tm_cancelled :: bool
  tm_handler :: handler
  tm_arg :: sid

record timers =
  tms :: "(tid \<times> timer) list"
  tick :: u32
  next_tid :: tid

definition timers_boot :: timers where
  "timers_boot = \<lparr>tms = [], tick = 0, next_tid = 1\<rparr>"

section \<open>Operations\<close>

definition timer_alloc :: timer where
  "timer_alloc = \<lparr>tm_refcnt = 0, tm_expires = 0, tm_cancelled = False, tm_handler = Connect_rto,
     tm_arg = 0\<rparr>"

definition timer_add :: "u32 \<Rightarrow> handler \<Rightarrow> sid \<Rightarrow> timers \<Rightarrow> tid \<times> timers" where
  "timer_add expire handler arg ts =
     (let t = timer_alloc\<lparr>tm_refcnt := 1, tm_expires := tick ts + expire, tm_cancelled := False,
                tm_handler := handler, tm_arg := arg\<rparr>
      in (next_tid ts, ts\<lparr>tms := tms ts @ [(next_tid ts, t)], next_tid := next_tid ts + 1\<rparr>))"

definition timer_get :: "timers \<Rightarrow> tid \<Rightarrow> timer option" where
  "timer_get ts t = map_of (tms ts) t"

definition timer_set :: "timers \<Rightarrow> tid \<Rightarrow> timer \<Rightarrow> timers" where
  "timer_set ts t x = ts\<lparr>tms := map (\<lambda>(k, y). if k = t then (k, x) else (k, y)) (tms ts)\<rparr>"

definition timer_release :: "tid option \<Rightarrow> timers \<Rightarrow> timers option" where
  "timer_release t ts =
     (case t of
        None \<Rightarrow> Some ts
      | Some t \<Rightarrow> do {
          x \<leftarrow> timer_get ts t;
          Some (timer_set ts t (x\<lparr>tm_refcnt := tm_refcnt x - 1\<rparr>))
        })"

definition timer_cancel :: "tid option \<Rightarrow> timers \<Rightarrow> timers option" where
  "timer_cancel t ts =
     (case t of
        None \<Rightarrow> Some ts
      | Some t \<Rightarrow> do {
          x \<leftarrow> timer_get ts t;
          Some (timer_set ts t (x\<lparr>tm_refcnt := tm_refcnt x - 1, tm_cancelled := True\<rparr>))
        })"

text \<open>
  \<open>timer_free\<close>; \<open>busy\<close> says whether \<open>pthread_mutex_trylock\<close> finds the lock taken, in which
  case the timer stays.
\<close>

definition timer_free :: "bool \<Rightarrow> tid \<Rightarrow> timers \<Rightarrow> timers" where
  "timer_free busy t ts =
     (if busy then ts else ts\<lparr>tms := filter (\<lambda>(k, y). k \<noteq> t) (tms ts)\<rparr>)"

definition timer_get_tick :: "timers \<Rightarrow> int" where
  "timer_get_tick ts = sint (tick ts)"

text \<open>The test of \<open>timers_tick\<close> that makes a timer fire.\<close>

definition timer_due :: "u32 \<Rightarrow> timer \<Rightarrow> bool" where
  "timer_due now t \<longleftrightarrow> \<not> tm_cancelled t \<and> tm_expires t < now"

section \<open>Laws\<close>

definition timers_inv :: "timers \<Rightarrow> bool" where
  "timers_inv ts \<longleftrightarrow> distinct (map fst (tms ts)) \<and> (\<forall>t\<in>set (map fst (tms ts)). t < next_tid ts)"

lemma timers_inv_boot [simp]: "timers_inv timers_boot"
  by (simp add: timers_inv_def timers_boot_def)

lemma map_fst_timer_set [simp]: "map fst (tms (timer_set ts t x)) = map fst (tms ts)"
  by (auto simp: timer_set_def)

lemma timer_set_keeps [simp]:
  "tick (timer_set ts t x) = tick ts" "next_tid (timer_set ts t x) = next_tid ts"
  by (simp_all add: timer_set_def)

lemma timers_inv_set: "timers_inv ts \<Longrightarrow> timers_inv (timer_set ts t x)"
  unfolding timers_inv_def map_fst_timer_set timer_set_keeps .

lemma timers_inv_add: "timers_inv ts \<Longrightarrow> timers_inv (snd (timer_add e h a ts))"
  by (auto simp: timers_inv_def timer_add_def Let_def)

lemma timers_inv_release: "timers_inv ts \<Longrightarrow> timer_release t ts = Some ts' \<Longrightarrow> timers_inv ts'"
  by (auto simp: timer_release_def timers_inv_set split: option.splits elim!: bind_SomeE)

lemma timers_inv_cancel: "timers_inv ts \<Longrightarrow> timer_cancel t ts = Some ts' \<Longrightarrow> timers_inv ts'"
  by (auto simp: timer_cancel_def timers_inv_set split: option.splits elim!: bind_SomeE)

lemma timers_inv_free: "timers_inv ts \<Longrightarrow> timers_inv (timer_free busy t ts)"
  by (auto simp: timers_inv_def timer_free_def distinct_map_filter)

lemma timer_get_set:
  "timer_get ts t \<noteq> None \<Longrightarrow>
   timer_get (timer_set ts t x) u = (if u = t then Some x else timer_get ts u)"
proof -
  assume "timer_get ts t \<noteq> None"
  moreover have "map_of (map (\<lambda>(k, y). if k = t then (k, x) else (k, y)) l) u =
      (if u = t then (if map_of l t = None then None else Some x) else map_of l u)" for l
    by (induction l) auto
  ultimately show ?thesis by (auto simp: timer_get_def timer_set_def)
qed

lemma timer_get_fresh: "timers_inv ts \<Longrightarrow> timer_get ts (next_tid ts) = None"
  by (force simp: timer_get_def timers_inv_def map_of_eq_None_iff)

lemma timer_get_add:
  assumes "timers_inv ts" and "timer_add e h a ts = (t, ts')"
  shows "timer_get ts' u =
     (if u = t then Some \<lparr>tm_refcnt = 1, tm_expires = tick ts + e, tm_cancelled = False,
        tm_handler = h, tm_arg = a\<rparr> else timer_get ts u)"
  using assms timer_get_fresh [OF assms(1)]
  by (auto simp: timer_add_def timer_get_def timer_alloc_def map_add_def Let_def split: option.splits)

text \<open>
  Releasing a timer leaves it armed: only \<open>timer_cancel\<close> keeps it from firing.
\<close>

lemma timer_release_due:
  assumes "timer_get ts t = Some x" and "timer_release (Some t) ts = Some ts'"
  shows "\<exists>y. timer_get ts' t = Some y \<and> timer_due now y = timer_due now x"
  using assms by (auto simp: timer_release_def timer_get_set timer_due_def)

lemma timer_cancel_not_due:
  assumes "timer_get ts t = Some x" and "timer_cancel (Some t) ts = Some ts'"
  shows "\<exists>y. timer_get ts' t = Some y \<and> \<not> timer_due now y"
  using assms by (auto simp: timer_cancel_def timer_get_set timer_due_def)

text \<open>
  C26.  A timer armed for \<open>e\<close> ticks is due from \<open>e + 1\<close> ticks later on and not before, as long as
  the 32-bit counter does not wrap in between.
\<close>

theorem timer_due_after:
  assumes "timers_inv ts" and "timer_add e h a ts = (t, ts')"
    and "unat (tick ts) + unat e < 2 ^ 32" and "unat now = unat (tick ts) + k"
  shows "\<exists>x. timer_get ts' t = Some x \<and> (timer_due now x \<longleftrightarrow> unat e < k)"
proof -
  have "unat (tick ts + e) = unat (tick ts) + unat e"
    using assms(3) by (simp add: unat_word_ariths)
  with assms(4) show ?thesis
    using timer_get_add [OF assms(1,2), of t] by (simp add: timer_due_def word_less_nat_alt)
qed

end
