(* ===== verification/World.thy ===== *)
theory World
  imports List_Head Ip_Send Timer
begin

text \<open>
  The state above the network layer: \<open>sock.h\<close>, \<open>sock.c\<close>, \<open>wait.h\<close>, the TCP and UDP
  structures of \<open>tcp.h\<close> and \<open>udp.h\<close>, and the record \<open>world\<close> that gathers every variable the
  transport layer reads or writes.

  Sockets live in a store: \<open>w_tcp\<close> and \<open>w_udp\<close> map an identifier (the \<open>struct sock *\<close> of the
  code) to the structure.  Freeing a socket removes it, so that a use after \<open>free\<close> is a lookup
  that fails.  The list nodes embedded in the structures (\<open>sk->link\<close>, \<open>tsk->list\<close>,
  \<open>listen_queue\<close>, \<open>accept_queue\<close>) and the anchors of the global rings are addresses of the
  pointer heap \<open>w_links\<close> of theory \<open>List_Head\<close>: the rings are manipulated by the pointer
  operations of \<open>list.h\<close>, and what they hold is a theorem.

  \<open>w_others\<close> is what the other threads do to the link layer while a packet waits for address
  resolution, \<open>w_isns\<close> the values \<open>tcp_generate_isn\<close> produces.
\<close>

section \<open>Wait locks\<close>

record wait_lock =
  wl_sleeping :: bool

definition wait_init :: wait_lock where
  "wait_init = \<lparr>wl_sleeping = False\<rparr>"

definition wait_wakeup :: "wait_lock \<Rightarrow> wait_lock" where
  "wait_wakeup wl = wl\<lparr>wl_sleeping := False\<rparr>"

section \<open>Sockets\<close>

text \<open>
  \<open>struct sock\<close>, over the type of its state (the code keeps an \<open>int\<close> for both protocols).
  \<open>sk_socket\<close> is the identifier of the owning \<open>struct socket\<close>; \<open>sk_lock\<close> says whether the
  mutex \<open>sk->lock\<close> is held by the call that is running.
\<close>

record 'st sock =
  sk_socket :: "nat option"
  sk_lock :: bool
  sk_recv_wait :: wait_lock
  sk_receive_queue :: sk_buff_head
  sk_write_queue :: sk_buff_head
  sk_protocol :: int
  sk_state :: 'st
  sk_err :: int
  sk_sport :: u16
  sk_dport :: u16
  sk_saddr :: u32
  sk_daddr :: u32

text \<open>The structure after \<open>malloc\<close> and \<open>memset\<close>, with its first state.\<close>

definition sock_zero :: "'st \<Rightarrow> 'st sock" where
  "sock_zero st =
     \<lparr>sk_socket = None, sk_lock = False, sk_recv_wait = \<lparr>wl_sleeping = False\<rparr>,
      sk_receive_queue = skb_queue_zero, sk_write_queue = skb_queue_zero,
      sk_protocol = 0, sk_state = st, sk_err = 0, sk_sport = 0, sk_dport = 0, sk_saddr = 0,
      sk_daddr = 0\<rparr>"

definition sk_init :: "'st sock \<Rightarrow> 'st sock" where
  "sk_init sk =
     sk\<lparr>sk_socket := None, sk_recv_wait := wait_init, sk_receive_queue := skb_queue_init,
        sk_write_queue := skb_queue_init, sk_lock := False\<rparr>"

text \<open>\<open>sk_init_with_socket\<close>, the part that concerns the \<open>struct sock\<close>.\<close>

definition sk_init_with_socket :: "nat \<Rightarrow> 'st sock \<Rightarrow> 'st sock" where
  "sk_init_with_socket so sk = (sk_init sk)\<lparr>sk_socket := Some so\<rparr>"

definition sk_free :: "'st sock \<Rightarrow> 'st sock option" where
  "sk_free sk = do {
     (rq, kept) \<leftarrow> skb_queue_free (sk_receive_queue sk);
     (wq, kept) \<leftarrow> skb_queue_free (sk_write_queue sk);
     Some (sk\<lparr>sk_receive_queue := rq, sk_write_queue := wq\<rparr>)
   }"

section \<open>TCP structures\<close>

datatype tcp_state =
    TCP_LISTEN | TCP_SYN_SENT | TCP_SYN_RECEIVED | TCP_ESTABLISHED | TCP_FIN_WAIT_1
  | TCP_FIN_WAIT_2 | TCP_CLOSE | TCP_CLOSE_WAIT | TCP_CLOSING | TCP_LAST_ACK | TCP_TIME_WAIT

abbreviation TCP_FIN :: u8 where "TCP_FIN \<equiv> 0x01"
abbreviation TCP_PSH :: u8 where "TCP_PSH \<equiv> 0x08"

record tcb =
  snd_una :: u32
  snd_nxt :: u32
  snd_wnd :: u32
  snd_up :: u32
  snd_wl1 :: u32
  snd_wl2 :: u32
  isn :: u32
  rcv_nxt :: u32
  rcv_wnd :: u32
  rcv_up :: u32
  irs :: u32

definition tcb_zero :: tcb where
  "tcb_zero = \<lparr>snd_una = 0, snd_nxt = 0, snd_wnd = 0, snd_up = 0, snd_wl1 = 0, snd_wl2 = 0,
     isn = 0, rcv_nxt = 0, rcv_wnd = 0, rcv_up = 0, irs = 0\<rparr>"

record tcp_sock =
  tsk_sk :: "tcp_state sock"
  tsk_header_len :: u16
  tsk_tcb :: tcb
  tsk_flags :: u8
  tsk_backoff :: u8
  tsk_wait :: wait_lock
  tsk_parent :: "sid option"
  tsk_retransmit :: "tid option"
  tsk_delack :: "tid option"
  tsk_keepalive :: "tid option"
  tsk_linger :: "tid option"
  tsk_delacks :: u8
  tsk_rmss :: u16
  tsk_smss :: u16
  tsk_ofo_queue :: sk_buff_head

abbreviation tsk_state :: "tcp_sock \<Rightarrow> tcp_state" where
  "tsk_state tsk \<equiv> sk_state (tsk_sk tsk)"

text \<open>Field updates through the embedded \<open>struct sock\<close> and \<open>struct tcb\<close>.\<close>

definition on_sk :: "(tcp_state sock \<Rightarrow> tcp_state sock) \<Rightarrow> tcp_sock \<Rightarrow> tcp_sock" where
  "on_sk f tsk = tsk\<lparr>tsk_sk := f (tsk_sk tsk)\<rparr>"

definition on_tcb :: "(tcb \<Rightarrow> tcb) \<Rightarrow> tcp_sock \<Rightarrow> tcp_sock" where
  "on_tcb f tsk = tsk\<lparr>tsk_tcb := f (tsk_tcb tsk)\<rparr>"

section \<open>UDP structures\<close>

datatype udp_state = UDP_UNCONNECTED | UDP_CONNECTED | UDP_CLOSED

type_synonym udp_sock = "udp_state sock"

section \<open>The socket layer's structure\<close>

text \<open>
  \<open>struct socket\<close>.  \<open>alloc_socket\<close> does not clear the memory, so \<open>sk\<close> can be unset.  \<open>so_ops\<close>
  says whether \<open>ops\<close> was set (there is one table of operations).
\<close>

datatype sk_ptr = Unset | Null | Sk sid

record socket =
  so_fd :: int
  so_pid :: int
  so_type :: "int option"
  so_flags :: int
  so_sk :: sk_ptr
  so_ops :: bool

section \<open>The state of the stack\<close>

record world =
  w_net :: net
  w_others :: others
  w_timers :: timers
  w_links :: links
  w_tcp :: "sid \<rightharpoonup> tcp_sock"
  w_udp :: "sid \<rightharpoonup> udp_sock"
  w_sockets :: "nat \<rightharpoonup> socket"
  w_next :: sid
  w_tcp_port :: int
  w_udp_port :: int
  w_udp_amount :: int
  w_isns :: "nat \<Rightarrow> u32"
  w_isn_cnt :: nat
  w_socket_count :: int
  w_fd :: int

text \<open>
  Addresses of list nodes.  0 is NULL, 1 to 4 are the anchors of
  \<open>tcp_connecting_or_listening_socks\<close>, \<open>tcp_establised_or_syn_recvd_socks\<close>, \<open>udp_socks\<close> and
  \<open>sockets\<close>; each structure owns four nodes from address 8 on (identifiers start at 1).
\<close>

abbreviation CL_HEAD :: addr where "CL_HEAD \<equiv> 1"
abbreviation ES_HEAD :: addr where "ES_HEAD \<equiv> 2"
abbreviation UDP_HEAD :: addr where "UDP_HEAD \<equiv> 3"
abbreviation SO_HEAD :: addr where "SO_HEAD \<equiv> 4"

definition link_of :: "sid \<Rightarrow> addr" where
  "link_of s = 4 * s + 4"

definition list_of :: "sid \<Rightarrow> addr" where
  "list_of s = 4 * s + 5"

definition listen_queue_of :: "sid \<Rightarrow> addr" where
  "listen_queue_of s = 4 * s + 6"

definition accept_queue_of :: "sid \<Rightarrow> addr" where
  "accept_queue_of s = 4 * s + 7"

text \<open>\<open>list_entry\<close>: from the address of a node to the structure that embeds it.\<close>

definition sid_at :: "addr \<Rightarrow> sid" where
  "sid_at a = a div 4 - 1"

lemma sid_at_node [simp]:
  "sid_at (link_of s) = s" "sid_at (list_of s) = s"
  "sid_at (listen_queue_of s) = s" "sid_at (accept_queue_of s) = s"
  by (simp_all add: sid_at_def link_of_def list_of_def listen_queue_of_def accept_queue_of_def)

text \<open>The nodes of a structure whose memory is zeroed, or given back.\<close>

definition clear_nodes :: "sid \<Rightarrow> links \<Rightarrow> links" where
  "clear_nodes s h =
     h\<lparr>nxt := (\<lambda>a. if 4 * s + 4 \<le> a \<and> a < 4 * s + 8 then 0 else nxt h a),
       prv := (\<lambda>a. if 4 * s + 4 \<le> a \<and> a < 4 * s + 8 then 0 else prv h a)\<rparr>"

definition links_boot :: links where
  "links_boot =
     \<lparr>nxt = (\<lambda>a. if 1 \<le> a \<and> a \<le> 4 then a else 0), prv = (\<lambda>a. if 1 \<le> a \<and> a \<le> 4 then a else 0)\<rparr>"

definition world_boot :: "others \<Rightarrow> (nat \<Rightarrow> u32) \<Rightarrow> world" where
  "world_boot oth isns =
     \<lparr>w_net = boot_net, w_others = oth, w_timers = timers_boot, w_links = links_boot,
      w_tcp = Map.empty, w_udp = Map.empty, w_sockets = Map.empty, w_next = 1, w_tcp_port = 40000, w_udp_port = 40000,
      w_udp_amount = 0, w_isns = isns, w_isn_cnt = 0, w_socket_count = 0, w_fd = 4097\<rparr>"

text \<open>Access to a TCP socket through its pointer.\<close>

definition put_tsk :: "sid \<Rightarrow> tcp_sock \<Rightarrow> world \<Rightarrow> world" where
  "put_tsk s tsk w = w\<lparr>w_tcp := (w_tcp w)(s \<mapsto> tsk)\<rparr>"

definition upd_tsk :: "sid \<Rightarrow> (tcp_sock \<Rightarrow> tcp_sock) \<Rightarrow> world \<Rightarrow> world option" where
  "upd_tsk s f w = do {
     tsk \<leftarrow> w_tcp w s;
     Some (put_tsk s (f tsk) w)
   }"

lemma upd_tsk_Some [simp]: "w_tcp w s = Some tsk \<Longrightarrow> upd_tsk s f w = Some (put_tsk s (f tsk) w)"
  by (simp add: upd_tsk_def)

lemma put_tsk_simps [simp]:
  "w_tcp (put_tsk s tsk w) = (w_tcp w)(s \<mapsto> tsk)" "w_net (put_tsk s tsk w) = w_net w"
  "w_others (put_tsk s tsk w) = w_others w" "w_timers (put_tsk s tsk w) = w_timers w"
  "w_links (put_tsk s tsk w) = w_links w" "w_udp (put_tsk s tsk w) = w_udp w"
  "w_next (put_tsk s tsk w) = w_next w" "w_isns (put_tsk s tsk w) = w_isns w"
  "w_isn_cnt (put_tsk s tsk w) = w_isn_cnt w" "w_tcp_port (put_tsk s tsk w) = w_tcp_port w"
  "w_udp_port (put_tsk s tsk w) = w_udp_port w" "w_udp_amount (put_tsk s tsk w) = w_udp_amount w"
  "w_sockets (put_tsk s tsk w) = w_sockets w"
  by (simp_all add: put_tsk_def)

lemma put_tsk_put_tsk [simp]: "put_tsk s a (put_tsk s b w) = put_tsk s a w"
  by (simp add: put_tsk_def)

lemma put_tsk_same: "w_tcp w s = Some tsk \<Longrightarrow> put_tsk s tsk w = w"
  by (simp add: put_tsk_def map_upd_triv)

lemma on_sk_simps [simp]:
  "tsk_sk (on_sk f tsk) = f (tsk_sk tsk)" "tsk_tcb (on_sk f tsk) = tsk_tcb tsk"
  "tsk_sk (on_tcb g tsk) = tsk_sk tsk" "tsk_tcb (on_tcb g tsk) = g (tsk_tcb tsk)"
  "tsk_retransmit (on_sk f tsk) = tsk_retransmit tsk" "tsk_delack (on_sk f tsk) = tsk_delack tsk"
  "tsk_retransmit (on_tcb g tsk) = tsk_retransmit tsk" "tsk_delack (on_tcb g tsk) = tsk_delack tsk"
  "tsk_parent (on_sk f tsk) = tsk_parent tsk" "tsk_parent (on_tcb g tsk) = tsk_parent tsk"
  "tsk_ofo_queue (on_sk f tsk) = tsk_ofo_queue tsk" "tsk_ofo_queue (on_tcb g tsk) = tsk_ofo_queue tsk"
  "tsk_flags (on_sk f tsk) = tsk_flags tsk" "tsk_flags (on_tcb g tsk) = tsk_flags tsk"
  "tsk_smss (on_sk f tsk) = tsk_smss tsk" "tsk_smss (on_tcb g tsk) = tsk_smss tsk"
  "tsk_rmss (on_sk f tsk) = tsk_rmss tsk" "tsk_rmss (on_tcb g tsk) = tsk_rmss tsk"
  "tsk_keepalive (on_sk f tsk) = tsk_keepalive tsk" "tsk_keepalive (on_tcb g tsk) = tsk_keepalive tsk"
  "tsk_linger (on_sk f tsk) = tsk_linger tsk" "tsk_linger (on_tcb g tsk) = tsk_linger tsk"
  "tsk_delacks (on_sk f tsk) = tsk_delacks tsk" "tsk_delacks (on_tcb g tsk) = tsk_delacks tsk"
  "tsk_backoff (on_sk f tsk) = tsk_backoff tsk" "tsk_backoff (on_tcb g tsk) = tsk_backoff tsk"
  "tsk_wait (on_sk f tsk) = tsk_wait tsk" "tsk_wait (on_tcb g tsk) = tsk_wait tsk"
  by (simp_all add: on_sk_def on_tcb_def)

section \<open>Scanning a ring of sockets\<close>

text \<open>
  \<open>list_for_each\<close> with \<open>list_entry\<close> and a \<open>return\<close> at the first match, interleaved as in the
  code: a match ends the walk before the rest of the ring is read.  \<open>P\<close> is \<open>None\<close> when the
  structure at the node is gone.
\<close>

partial_function (option) ring_scan ::
    "links \<Rightarrow> (sid \<Rightarrow> bool option) \<Rightarrow> addr \<Rightarrow> addr \<Rightarrow> sid option option" where
  "ring_scan h P head pos =
     (if pos = head then Some None
      else Option.bind (P (sid_at pos)) (\<lambda>m.
        if m then Some (Some (sid_at pos))
        else Option.bind (rd_next h pos) (\<lambda>n. ring_scan h P head n)))"

definition ring_find :: "links \<Rightarrow> addr \<Rightarrow> (sid \<Rightarrow> bool option) \<Rightarrow> sid option option" where
  "ring_find h head P = do {
     n \<leftarrow> rd_next h head;
     ring_scan h P head n
   }"

lemma ring_scan_seg:
  assumes "seg h a (map link_of ss) head" and "head \<notin> set (map link_of ss)"
    and "\<And>s. s \<in> set ss \<Longrightarrow> P s = Some (Q s)"
  shows "ring_scan h P head (nxt h a) = Some (find_first Q ss)"
  using assms
proof (induction ss arbitrary: a)
  case Nil
  then show ?case by (simp add: ring_scan.simps)
next
  case (Cons s ss)
  then have "ring_scan h P head (nxt h (link_of s)) = Some (find_first Q ss)" by simp
  moreover have "link_of s \<noteq> 0" by (simp add: link_of_def)
  ultimately show ?case
    using Cons.prems by (subst ring_scan.simps) (auto simp: rd_next_def)
qed

text \<open>On an intact ring the scan is \<open>find_first\<close> on the sockets it holds, in ring order.\<close>

lemma ring_find_dlist:
  assumes "dlist h head (map link_of ss)" and "\<And>s. s \<in> set ss \<Longrightarrow> P s = Some (Q s)"
  shows "ring_find h head P = Some (find_first Q ss)"
  using assms by (auto simp: ring_find_def dlist_def rd_next_def intro!: ring_scan_seg)

end
