(* ===== verification/Tcp.thy ===== *)
theory Tcp
  imports World
begin

text \<open>
  \<open>tcp.c\<close> but for \<open>tcp_in\<close>, and the part of \<open>tcp_sock.c\<close> that manages TCP sockets: creation and
  destruction, the two global rings, lookup, ports, timers.

  An operation takes the pointer of the socket (its identifier) and the state of the stack.
  \<open>None\<close> is a fault: NULL or freed memory was touched, or a mutex was locked twice by the same
  call.
\<close>

abbreviation ETIMEDOUT :: int where "ETIMEDOUT \<equiv> 110"
abbreviation EBADF :: int where "EBADF \<equiv> 9"

section \<open>The global rings\<close>

definition tcp_established_or_syn_recvd_socks_enqueue :: "sid \<Rightarrow> world \<Rightarrow> world option" where
  "tcp_established_or_syn_recvd_socks_enqueue s w = do {
     h \<leftarrow> list_add_tail (w_links w) (link_of s) ES_HEAD;
     Some (w\<lparr>w_links := h\<rparr>)
   }"

definition tcp_established_or_syn_recvd_socks_remove :: "sid \<Rightarrow> world \<Rightarrow> world option" where
  "tcp_established_or_syn_recvd_socks_remove s w = do {
     h \<leftarrow> list_del_init (w_links w) (link_of s);
     Some (w\<lparr>w_links := h\<rparr>)
   }"

definition tcp_connecting_or_listening_socks_enqueue :: "sid \<Rightarrow> world \<Rightarrow> world option" where
  "tcp_connecting_or_listening_socks_enqueue s w = do {
     h \<leftarrow> list_add_tail (w_links w) (link_of s) CL_HEAD;
     Some (w\<lparr>w_links := h\<rparr>)
   }"

definition tcp_connecting_or_listening_socks_remove :: "sid \<Rightarrow> world \<Rightarrow> world option" where
  "tcp_connecting_or_listening_socks_remove s w = do {
     h \<leftarrow> list_del_init (w_links w) (link_of s);
     Some (w\<lparr>w_links := h\<rparr>)
   }"

section \<open>Lookup\<close>

definition tcp_lookup_establised_or_syn_recvd_sock ::
    "world \<Rightarrow> u32 \<Rightarrow> u16 \<Rightarrow> u32 \<Rightarrow> u16 \<Rightarrow> sid option option" where
  "tcp_lookup_establised_or_syn_recvd_sock w src sport dst dport =
     ring_find (w_links w) ES_HEAD (\<lambda>s. do {
       tsk \<leftarrow> w_tcp w s;
       let sk = tsk_sk tsk;
       Some (sk_saddr sk = src \<and> sk_sport sk = sport \<and> sk_daddr sk = dst \<and> sk_dport sk = dport)
     })"

definition tcp_lookup_connecting_or_listening_sock ::
    "world \<Rightarrow> u32 \<Rightarrow> u16 \<Rightarrow> sid option option" where
  "tcp_lookup_connecting_or_listening_sock w src sport =
     ring_find (w_links w) CL_HEAD (\<lambda>s. do {
       tsk \<leftarrow> w_tcp w s;
       let sk = tsk_sk tsk;
       Some (sk_saddr sk = src \<and> sk_sport sk = sport)
     })"

definition tcp_connection_exist :: "world \<Rightarrow> u32 \<Rightarrow> u16 \<Rightarrow> bool option" where
  "tcp_connection_exist w dst dport = do {
     r \<leftarrow> ring_find (w_links w) ES_HEAD (\<lambda>s. do {
       tsk \<leftarrow> w_tcp w s;
       let sk = tsk_sk tsk;
       Some (sk_daddr sk = dst \<and> sk_dport sk = dport)
     });
     Some (r \<noteq> None)
   }"

definition tcp_lookup_sock :: "world \<Rightarrow> u32 \<Rightarrow> u16 \<Rightarrow> u32 \<Rightarrow> u16 \<Rightarrow> sid option option" where
  "tcp_lookup_sock w src sport dst dport = do {
     sk \<leftarrow> tcp_lookup_establised_or_syn_recvd_sock w dst dport src sport;
     (case sk of
        None \<Rightarrow> tcp_lookup_connecting_or_listening_sock w dst dport
      | Some s \<Rightarrow> Some (Some s))
   }"

section \<open>Ports and sequence numbers\<close>

definition tcp_port_used :: "world \<Rightarrow> u16 \<Rightarrow> bool option" where
  "tcp_port_used w pt = do {
     r \<leftarrow> ring_find (w_links w) CL_HEAD (\<lambda>s. do {
       tsk \<leftarrow> w_tcp w s;
       Some (sk_sport (tsk_sk tsk) = pt)
     });
     Some (r \<noteq> None)
   }"

definition tcp_set_sport :: "sid \<Rightarrow> u16 \<Rightarrow> world \<Rightarrow> (int \<times> world) option" where
  "tcp_set_sport s port w =
     (if port = 0 then Some (-1, w)
      else do {
        used \<leftarrow> tcp_port_used w port;
        (if used then Some (-1, w)
         else do {
           w \<leftarrow> upd_tsk s (on_sk (\<lambda>sk. sk\<lparr>sk_sport := port\<rparr>)) w;
           Some (0, w)
         })
      })"

text \<open>The remainder of C, whose sign is the dividend's.\<close>

definition c_rem :: "int \<Rightarrow> int \<Rightarrow> int" where
  "c_rem a b = (if a < 0 then - ((- a) mod b) else a mod b)"

definition tcp_generate_port :: "world \<Rightarrow> u16 \<times> world" where
  "tcp_generate_port w =
     (let port = w_tcp_port w + 1
      in (word_of_int (port + c_rem (timer_get_tick (w_timers w)) 10000), w\<lparr>w_tcp_port := port\<rparr>))"

text \<open>\<open>time (NULL) * rand ()\<close>: the next value of the stream the environment supplies.\<close>

definition tcp_generate_isn :: "world \<Rightarrow> u32 \<times> world" where
  "tcp_generate_isn w = (w_isns w (w_isn_cnt w), w\<lparr>w_isn_cnt := w_isn_cnt w + 1\<rparr>)"

section \<open>Timers of a connection\<close>

definition tcp_stop_retransmission_timer :: "sid \<Rightarrow> world \<Rightarrow> world option" where
  "tcp_stop_retransmission_timer s w = do {
     tsk \<leftarrow> w_tcp w s;
     ts \<leftarrow> timer_cancel (tsk_retransmit tsk) (w_timers w);
     Some (put_tsk s (tsk\<lparr>tsk_retransmit := None\<rparr>) (w\<lparr>w_timers := ts\<rparr>))
   }"

definition tcp_release_retransmission_timer :: "sid \<Rightarrow> world \<Rightarrow> world option" where
  "tcp_release_retransmission_timer s w = do {
     tsk \<leftarrow> w_tcp w s;
     ts \<leftarrow> timer_release (tsk_retransmit tsk) (w_timers w);
     Some (put_tsk s (tsk\<lparr>tsk_retransmit := None\<rparr>) (w\<lparr>w_timers := ts\<rparr>))
   }"

definition tcp_stop_delack_timer :: "sid \<Rightarrow> world \<Rightarrow> world option" where
  "tcp_stop_delack_timer s w = do {
     tsk \<leftarrow> w_tcp w s;
     ts \<leftarrow> timer_cancel (tsk_delack tsk) (w_timers w);
     Some (put_tsk s (tsk\<lparr>tsk_delack := None\<rparr>) (w\<lparr>w_timers := ts\<rparr>))
   }"

definition tcp_release_delack_timer :: "sid \<Rightarrow> world \<Rightarrow> world option" where
  "tcp_release_delack_timer s w = do {
     tsk \<leftarrow> w_tcp w s;
     ts \<leftarrow> timer_release (tsk_delack tsk) (w_timers w);
     Some (put_tsk s (tsk\<lparr>tsk_delack := None\<rparr>) (w\<lparr>w_timers := ts\<rparr>))
   }"

definition tcp_clear_timers :: "sid \<Rightarrow> world \<Rightarrow> world option" where
  "tcp_clear_timers s w = do {
     w \<leftarrow> tcp_stop_retransmission_timer s w;
     w \<leftarrow> tcp_stop_delack_timer s w;
     tsk \<leftarrow> w_tcp w s;
     ts \<leftarrow> timer_cancel (tsk_keepalive tsk) (w_timers w);
     Some (w\<lparr>w_timers := ts\<rparr>)
   }"

text \<open>\<open>timer_add\<close> on the state of the stack.\<close>

definition world_timer_add :: "u32 \<Rightarrow> handler \<Rightarrow> sid \<Rightarrow> world \<Rightarrow> tid \<times> world" where
  "world_timer_add expire h s w =
     (let (t, ts) = timer_add expire h s (w_timers w) in (t, w\<lparr>w_timers := ts\<rparr>))"

section \<open>Creation and destruction\<close>

definition tcp_set_state :: "sid \<Rightarrow> tcp_state \<Rightarrow> world \<Rightarrow> world option" where
  "tcp_set_state s st w = upd_tsk s (on_sk (\<lambda>sk. sk\<lparr>sk_state := st\<rparr>)) w"

definition tcp_sock_zero :: tcp_sock where
  "tcp_sock_zero =
     \<lparr>tsk_sk = sock_zero TCP_CLOSE, tsk_header_len = 0, tsk_tcb = tcb_zero, tsk_flags = 0,
      tsk_backoff = 0, tsk_wait = wait_init, tsk_parent = None, tsk_retransmit = None,
      tsk_delack = None, tsk_keepalive = None, tsk_linger = None, tsk_delacks = 0,
      tsk_rmss = 1460, tsk_smss = 1460, tsk_ofo_queue = skb_queue_init\<rparr>"

definition tcp_alloc_sock :: "world \<Rightarrow> (sid \<times> world) option" where
  "tcp_alloc_sock w = do {
     let s = w_next w;
     let w = put_tsk s tcp_sock_zero (w\<lparr>w_next := s + 1, w_links := clear_nodes s (w_links w)\<rparr>);
     h \<leftarrow> list_init (w_links w) (accept_queue_of s);
     h \<leftarrow> list_init h (listen_queue_of s);
     Some (s, w\<lparr>w_links := h\<rparr>)
   }"

definition tcp_clear_queues :: "sid \<Rightarrow> world \<Rightarrow> world option" where
  "tcp_clear_queues s w = do {
     tsk \<leftarrow> w_tcp w s;
     (q, kept) \<leftarrow> skb_queue_free (tsk_ofo_queue tsk);
     Some (put_tsk s (tsk\<lparr>tsk_ofo_queue := q\<rparr>) w)
   }"

text \<open>
  \<open>tcp_free_sock\<close>.  It locks \<open>sk->lock\<close>, a mutex that is not recursive: a caller that holds it
  never comes back.
\<close>

definition tcp_free_sock :: "sid \<Rightarrow> world \<Rightarrow> world option" where
  "tcp_free_sock s w = do {
     tsk \<leftarrow> w_tcp w s;
     (if sk_lock (tsk_sk tsk) then None
      else do {
        w \<leftarrow> tcp_set_state s TCP_CLOSE w;
        w \<leftarrow> tcp_clear_timers s w;
        w \<leftarrow> tcp_clear_queues s w;
        tsk \<leftarrow> w_tcp w s;
        w \<leftarrow> (case sk_socket (tsk_sk tsk) of
               None \<Rightarrow> Some w
             | Some so \<Rightarrow> do {
                 x \<leftarrow> w_sockets w so;
                 Some (w\<lparr>w_sockets := (w_sockets w)(so \<mapsto> x\<lparr>so_sk := Null\<rparr>)\<rparr>)
               });
        sk \<leftarrow> sk_free (tsk_sk tsk);
        Some (w\<lparr>w_tcp := (w_tcp w)(s := None), w_links := clear_nodes s (w_links w)\<rparr>)
      })
   }"

definition tcp_done :: "sid \<Rightarrow> world \<Rightarrow> world option" where
  "tcp_done s w = do {
     w \<leftarrow> tcp_established_or_syn_recvd_socks_remove s w;
     tcp_free_sock s w
   }"

section \<open>Closing states\<close>

definition tcp_handle_fin_state :: "sid \<Rightarrow> world \<Rightarrow> world option" where
  "tcp_handle_fin_state s w = do {
     tsk \<leftarrow> w_tcp w s;
     (case tsk_state tsk of
        TCP_CLOSE_WAIT \<Rightarrow> tcp_set_state s TCP_LAST_ACK w
      | TCP_ESTABLISHED \<Rightarrow> tcp_set_state s TCP_FIN_WAIT_1 w
      | _ \<Rightarrow> Some w)
   }"

text \<open>The handler of the linger timer.\<close>

definition tcp_linger :: "sid \<Rightarrow> world \<Rightarrow> world option" where
  "tcp_linger s w = do {
     tsk \<leftarrow> w_tcp w s;
     ts \<leftarrow> timer_release (tsk_linger tsk) (w_timers w);
     let w = put_tsk s (tsk\<lparr>tsk_linger := None\<rparr>) (w\<lparr>w_timers := ts\<rparr>);
     tcp_done s w
   }"

definition tcp_enter_time_wait :: "sid \<Rightarrow> world \<Rightarrow> world option" where
  "tcp_enter_time_wait s w = do {
     w \<leftarrow> tcp_set_state s TCP_TIME_WAIT w;
     w \<leftarrow> tcp_clear_timers s w;
     tsk \<leftarrow> w_tcp w s;
     ts \<leftarrow> timer_cancel (tsk_linger tsk) (w_timers w);
     let (t, w) = world_timer_add 3000 Linger s (w\<lparr>w_timers := ts\<rparr>);
     upd_tsk s (\<lambda>tsk. tsk\<lparr>tsk_linger := Some t\<rparr>) w
   }"

section \<open>The rings as tables of sockets\<close>

text \<open>
  What a global ring of sockets promises its users: it holds a list of sockets, \<open>enq\<close>
  appends one that is on no ring, \<open>rm\<close> takes one out, and a scan returns the first match.
\<close>

locale socket_table =
  fixes holds :: "world \<Rightarrow> sid list \<Rightarrow> bool"
    and enq :: "sid \<Rightarrow> world \<Rightarrow> world option"
    and rm :: "sid \<Rightarrow> world \<Rightarrow> world option"
    and scan :: "world \<Rightarrow> (sid \<Rightarrow> bool option) \<Rightarrow> sid option option"
  assumes enq_holds: "holds w ss \<Longrightarrow> s \<notin> set ss \<Longrightarrow>
      \<exists>h. enq s w = Some (w\<lparr>w_links := h\<rparr>) \<and> holds (w\<lparr>w_links := h\<rparr>) (ss @ [s])"
    and rm_holds: "holds w (us @ s # vs) \<Longrightarrow>
      \<exists>h. rm s w = Some (w\<lparr>w_links := h\<rparr>) \<and> holds (w\<lparr>w_links := h\<rparr>) (us @ vs)"
    and holds_distinct: "holds w ss \<Longrightarrow> distinct ss"
    and scan_holds: "holds w ss \<Longrightarrow> (\<And>s. s \<in> set ss \<Longrightarrow> P s = Some (Q s)) \<Longrightarrow>
      scan w P = Some (find_first Q ss)"
begin

lemma scan_enq:
  assumes "holds w ss" and "s \<notin> set ss" and "\<And>t. t \<in> set (s # ss) \<Longrightarrow> P t = Some (Q t)"
    and "Q s" and "\<forall>t\<in>set ss. \<not> Q t"
  shows "\<exists>w'. enq s w = Some w' \<and> scan w' P = Some (Some s)"
proof -
  obtain h where h: "enq s w = Some (w\<lparr>w_links := h\<rparr>)" "holds (w\<lparr>w_links := h\<rparr>) (ss @ [s])"
    using enq_holds [OF assms(1,2)] by blast
  from h(2) have "scan (w\<lparr>w_links := h\<rparr>) P = Some (find_first Q (ss @ [s]))"
    by (rule scan_holds) (use assms(3) in auto)
  also have "find_first Q (ss @ [s]) = Some s"
    using assms(4,5) find_first_SomeI [of Q s ss "[]"] by simp
  finally show ?thesis using h(1) by blast
qed

lemma scan_rm:
  assumes "holds w (us @ s # vs)" and "\<And>t. t \<in> set (us @ vs) \<Longrightarrow> P t = Some (Q t)"
  shows "\<exists>w'. rm s w = Some w' \<and> scan w' P \<noteq> Some (Some s)"
proof -
  obtain h where h: "rm s w = Some (w\<lparr>w_links := h\<rparr>)" "holds (w\<lparr>w_links := h\<rparr>) (us @ vs)"
    using rm_holds [OF assms(1)] by blast
  have s: "s \<notin> set (us @ vs)" using holds_distinct [OF assms(1)] by auto
  from h(2) have eq: "scan (w\<lparr>w_links := h\<rparr>) P = Some (find_first Q (us @ vs))"
    by (rule scan_holds) (use assms(2) in auto)
  have "find_first Q (us @ vs) \<noteq> Some s"
  proof
    assume "find_first Q (us @ vs) = Some s"
    then have "s \<in> set (us @ vs)" by (rule find_first_SomeD [THEN conjunct1])
    with s show False by contradiction
  qed
  with eq h(1) show ?thesis by auto
qed

lemma enq_rm:
  assumes "holds w ss" and "s \<notin> set ss"
  shows "\<exists>w1 w2. enq s w = Some w1 \<and> rm s w1 = Some w2 \<and> holds w2 ss"
proof -
  obtain h where h: "enq s w = Some (w\<lparr>w_links := h\<rparr>)" "holds (w\<lparr>w_links := h\<rparr>) (ss @ [s])"
    using enq_holds [OF assms] by blast
  then show ?thesis using rm_holds [of "w\<lparr>w_links := h\<rparr>" ss s "[]"] by auto
qed

end

definition ring_holds :: "addr \<Rightarrow> world \<Rightarrow> sid list \<Rightarrow> bool" where
  "ring_holds head w ss \<longleftrightarrow> dlist (w_links w) head (map link_of ss)"

lemma link_of_inject [simp]: "link_of s = link_of t \<longleftrightarrow> s = t"
  by (simp add: link_of_def)

lemma link_of_simps [simp]: "link_of s \<noteq> 0" "0 < link_of s" "link_of s \<noteq> Suc 0" "link_of s \<noteq> 2"
    "link_of s \<noteq> 3" "Suc 0 \<noteq> link_of s" "2 \<noteq> link_of s" "3 \<noteq> link_of s"
  by (simp_all add: link_of_def)

lemma link_of_in_image [simp]: "link_of s \<in> link_of ` S \<longleftrightarrow> s \<in> S"
  by (auto simp: image_iff)

lemma ring_holds_enq:
  assumes "ring_holds head w ss" and "s \<notin> set ss" and "link_of s \<noteq> head"
  shows "\<exists>h. list_add_tail (w_links w) (link_of s) head = Some h \<and>
    ring_holds head (w\<lparr>w_links := h\<rparr>) (ss @ [s])"
  using dlist_add_tail [of "w_links w" head "map link_of ss" "link_of s"] assms
  by (auto simp: ring_holds_def)

lemma ring_holds_rm:
  "ring_holds head w (us @ s # vs) \<Longrightarrow>
   \<exists>h. list_del_init (w_links w) (link_of s) = Some h \<and> ring_holds head (w\<lparr>w_links := h\<rparr>) (us @ vs)"
  using dlist_del_init [of "w_links w" head "map link_of us" "link_of s" "map link_of vs"]
  by (auto simp: ring_holds_def)

lemma ring_holds_distinct: "ring_holds head w ss \<Longrightarrow> distinct ss"
  by (auto simp: ring_holds_def dlist_def distinct_map)

lemma ring_holds_scan:
  "ring_holds head w ss \<Longrightarrow> (\<And>s. s \<in> set ss \<Longrightarrow> P s = Some (Q s)) \<Longrightarrow>
   ring_find (w_links w) head P = Some (find_first Q ss)"
  unfolding ring_holds_def by (rule ring_find_dlist)

interpretation es: socket_table "ring_holds ES_HEAD" tcp_established_or_syn_recvd_socks_enqueue
    tcp_established_or_syn_recvd_socks_remove "\<lambda>w. ring_find (w_links w) ES_HEAD"
proof unfold_locales
  fix w ss s
  assume "ring_holds ES_HEAD w ss" "s \<notin> set ss"
  then show "\<exists>h. tcp_established_or_syn_recvd_socks_enqueue s w = Some (w\<lparr>w_links := h\<rparr>) \<and>
      ring_holds ES_HEAD (w\<lparr>w_links := h\<rparr>) (ss @ [s])"
    using ring_holds_enq [of ES_HEAD w ss s]
    by (auto simp: tcp_established_or_syn_recvd_socks_enqueue_def)
next
  fix w us s vs
  assume "ring_holds ES_HEAD w (us @ s # vs)"
  then show "\<exists>h. tcp_established_or_syn_recvd_socks_remove s w = Some (w\<lparr>w_links := h\<rparr>) \<and>
      ring_holds ES_HEAD (w\<lparr>w_links := h\<rparr>) (us @ vs)"
    using ring_holds_rm [of ES_HEAD w us s vs]
    by (auto simp: tcp_established_or_syn_recvd_socks_remove_def)
qed (auto intro: ring_holds_distinct ring_holds_scan)

interpretation cl: socket_table "ring_holds CL_HEAD" tcp_connecting_or_listening_socks_enqueue
    tcp_connecting_or_listening_socks_remove "\<lambda>w. ring_find (w_links w) CL_HEAD"
proof unfold_locales
  fix w ss s
  assume "ring_holds CL_HEAD w ss" "s \<notin> set ss"
  then show "\<exists>h. tcp_connecting_or_listening_socks_enqueue s w = Some (w\<lparr>w_links := h\<rparr>) \<and>
      ring_holds CL_HEAD (w\<lparr>w_links := h\<rparr>) (ss @ [s])"
    using ring_holds_enq [of CL_HEAD w ss s]
    by (auto simp: tcp_connecting_or_listening_socks_enqueue_def)
next
  fix w us s vs
  assume "ring_holds CL_HEAD w (us @ s # vs)"
  then show "\<exists>h. tcp_connecting_or_listening_socks_remove s w = Some (w\<lparr>w_links := h\<rparr>) \<and>
      ring_holds CL_HEAD (w\<lparr>w_links := h\<rparr>) (us @ vs)"
    using ring_holds_rm [of CL_HEAD w us s vs]
    by (auto simp: tcp_connecting_or_listening_socks_remove_def)
qed (auto intro: ring_holds_distinct ring_holds_scan)

text \<open>
  Both rings intact, holding live sockets, no socket on both.
\<close>

definition tables :: "world \<Rightarrow> sid list \<Rightarrow> sid list \<Rightarrow> bool" where
  "tables w cs es \<longleftrightarrow> ring_holds CL_HEAD w cs \<and> ring_holds ES_HEAD w es \<and>
     set cs \<inter> set es = {} \<and> set cs \<union> set es \<subseteq> dom (w_tcp w)"

lemma ring_holds_agree:
  "ring_holds head w ss \<Longrightarrow> agree (set (head # map link_of ss)) (w_links w) h \<Longrightarrow>
   ring_holds head (w\<lparr>w_links := h\<rparr>) ss"
  unfolding ring_holds_def by (simp add: dlist_agree)

lemma tables_boot [simp]: "tables (world_boot oth isns) [] []"
  by (simp add: tables_def ring_holds_def dlist_def world_boot_def links_boot_def)

lemma tables_es_enqueue:
  assumes "tables w cs es" and "s \<notin> set (cs @ es)" and "s \<in> dom (w_tcp w)"
  shows "\<exists>h. tcp_established_or_syn_recvd_socks_enqueue s w = Some (w\<lparr>w_links := h\<rparr>) \<and>
    tables (w\<lparr>w_links := h\<rparr>) cs (es @ [s])"
proof -
  from assms obtain h where h: "list_add_tail (w_links w) (link_of s) ES_HEAD = Some h"
    "ring_holds ES_HEAD (w\<lparr>w_links := h\<rparr>) (es @ [s])"
    using ring_holds_enq [of ES_HEAD w es s] by (auto simp: tables_def)
  have "agree (- set (link_of s # ES_HEAD # map link_of es)) (w_links w) h"
    using assms(1) h(1) list_add_tail_agree unfolding tables_def ring_holds_def by blast
  then have "agree (set (CL_HEAD # map link_of cs)) (w_links w) h"
    by (rule agree_subset) (use assms in \<open>auto simp: tables_def\<close>)
  with assms h show ?thesis
    by (auto simp: tables_def tcp_established_or_syn_recvd_socks_enqueue_def ring_holds_agree)
qed

lemma tables_cl_enqueue:
  assumes "tables w cs es" and "s \<notin> set (cs @ es)" and "s \<in> dom (w_tcp w)"
  shows "\<exists>h. tcp_connecting_or_listening_socks_enqueue s w = Some (w\<lparr>w_links := h\<rparr>) \<and>
    tables (w\<lparr>w_links := h\<rparr>) (cs @ [s]) es"
proof -
  from assms obtain h where h: "list_add_tail (w_links w) (link_of s) CL_HEAD = Some h"
    "ring_holds CL_HEAD (w\<lparr>w_links := h\<rparr>) (cs @ [s])"
    using ring_holds_enq [of CL_HEAD w cs s] by (auto simp: tables_def)
  have "agree (- set (link_of s # CL_HEAD # map link_of cs)) (w_links w) h"
    using assms(1) h(1) list_add_tail_agree unfolding tables_def ring_holds_def by blast
  then have "agree (set (ES_HEAD # map link_of es)) (w_links w) h"
    by (rule agree_subset) (use assms in \<open>auto simp: tables_def\<close>)
  with assms h show ?thesis
    by (auto simp: tables_def tcp_connecting_or_listening_socks_enqueue_def ring_holds_agree)
qed

lemma tables_cl_remove:
  assumes "tables w (us @ s # vs) es"
  shows "\<exists>h. tcp_connecting_or_listening_socks_remove s w = Some (w\<lparr>w_links := h\<rparr>) \<and>
    tables (w\<lparr>w_links := h\<rparr>) (us @ vs) es"
proof -
  from assms obtain h where h: "list_del_init (w_links w) (link_of s) = Some h"
    "ring_holds CL_HEAD (w\<lparr>w_links := h\<rparr>) (us @ vs)"
    using ring_holds_rm [of CL_HEAD w us s vs] by (auto simp: tables_def)
  have "dlist (w_links w) CL_HEAD (map link_of us @ link_of s # map link_of vs)"
    using assms by (simp add: tables_def ring_holds_def)
  then have "agree (- set (CL_HEAD # map link_of us @ link_of s # map link_of vs)) (w_links w) h"
    using h(1) by (rule list_del_init_agree)
  then have "agree (set (ES_HEAD # map link_of es)) (w_links w) h"
    by (rule agree_subset) (use assms in \<open>auto simp: tables_def\<close>)
  with assms h show ?thesis
    by (auto simp: tables_def tcp_connecting_or_listening_socks_remove_def ring_holds_agree)
qed

lemma tables_es_remove:
  assumes "tables w cs (us @ s # vs)"
  shows "\<exists>h. tcp_established_or_syn_recvd_socks_remove s w = Some (w\<lparr>w_links := h\<rparr>) \<and>
    tables (w\<lparr>w_links := h\<rparr>) cs (us @ vs)"
proof -
  from assms obtain h where h: "list_del_init (w_links w) (link_of s) = Some h"
    "ring_holds ES_HEAD (w\<lparr>w_links := h\<rparr>) (us @ vs)"
    using ring_holds_rm [of ES_HEAD w us s vs] by (auto simp: tables_def)
  have "dlist (w_links w) ES_HEAD (map link_of us @ link_of s # map link_of vs)"
    using assms by (simp add: tables_def ring_holds_def)
  then have "agree (- set (ES_HEAD # map link_of us @ link_of s # map link_of vs)) (w_links w) h"
    using h(1) by (rule list_del_init_agree)
  then have "agree (set (CL_HEAD # map link_of cs)) (w_links w) h"
    by (rule agree_subset) (use assms in \<open>auto simp: tables_def\<close>)
  with assms h show ?thesis
    by (auto simp: tables_def tcp_established_or_syn_recvd_socks_remove_def ring_holds_agree)
qed

text \<open>Lookup: the established connections first, by the four-tuple; then the local address.\<close>

definition conn_match :: "world \<Rightarrow> u32 \<Rightarrow> u16 \<Rightarrow> u32 \<Rightarrow> u16 \<Rightarrow> sid \<Rightarrow> bool" where
  "conn_match w src sport dst dport s \<longleftrightarrow>
     (case w_tcp w s of None \<Rightarrow> False
      | Some tsk \<Rightarrow> sk_saddr (tsk_sk tsk) = src \<and> sk_sport (tsk_sk tsk) = sport \<and>
          sk_daddr (tsk_sk tsk) = dst \<and> sk_dport (tsk_sk tsk) = dport)"

definition local_match :: "world \<Rightarrow> u32 \<Rightarrow> u16 \<Rightarrow> sid \<Rightarrow> bool" where
  "local_match w src sport s \<longleftrightarrow>
     (case w_tcp w s of None \<Rightarrow> False
      | Some tsk \<Rightarrow> sk_saddr (tsk_sk tsk) = src \<and> sk_sport (tsk_sk tsk) = sport)"

lemma tcp_lookup_sock_tables:
  assumes "tables w cs es"
  shows "tcp_lookup_sock w src sport dst dport =
    Some (case find_first (conn_match w dst dport src sport) es of
            Some s \<Rightarrow> Some s
          | None \<Rightarrow> find_first (local_match w dst dport) cs)"
proof -
  have live: "\<exists>tsk. w_tcp w s = Some tsk" if "s \<in> set cs \<union> set es" for s
    using assms that by (auto simp: tables_def)
  have "tcp_lookup_establised_or_syn_recvd_sock w dst dport src sport =
      Some (find_first (conn_match w dst dport src sport) es)"
    unfolding tcp_lookup_establised_or_syn_recvd_sock_def
    using assms live by (intro es.scan_holds) (auto simp: tables_def conn_match_def Let_def)
  moreover have "tcp_lookup_connecting_or_listening_sock w dst dport =
      Some (find_first (local_match w dst dport) cs)"
    unfolding tcp_lookup_connecting_or_listening_sock_def
    using assms live by (intro cl.scan_holds) (auto simp: tables_def local_match_def Let_def)
  ultimately show ?thesis by (auto simp: tcp_lookup_sock_def split: option.splits)
qed

end
