(* ===== verification/Tcp_Output.thy ===== *)
theory Tcp_Output
  imports Tcp
begin

text \<open>
  \<open>tcp_output.c\<close>: building segments, transmitting them, queueing them for retransmission, and
  the two retransmission timers.

  \<open>struct tcphdr\<close> lies at \<open>skb->head + 34\<close>: \<open>sport\<close> 0, \<open>dport\<close> 2, \<open>seq\<close> 4, \<open>ack_seq\<close> 8, the
  byte 12 with \<open>rsvd\<close> (low nibble) and \<open>hl\<close> (high nibble), the byte 13 with the flags from
  \<open>fin\<close> (bit 0) to \<open>cwr\<close> (bit 7), \<open>win\<close> 14, \<open>csum\<close> 16, \<open>urp\<close> 18, \<open>data\<close> 20.

  A packet on the write queue is the same object as the one being transmitted, so the queue
  receives the packet as the transmission leaves it.
\<close>

abbreviation TCP_HDR_LEN :: nat where "TCP_HDR_LEN \<equiv> 20"
abbreviation TCP_DOFFSET :: u8 where "TCP_DOFFSET \<equiv> 5"
abbreviation TCP_SYN :: u8 where "TCP_SYN \<equiv> 0x02"
abbreviation TCP_RST :: u8 where "TCP_RST \<equiv> 0x04"
abbreviation TCP_ACK :: u8 where "TCP_ACK \<equiv> 0x10"
abbreviation TCP_CONN_RETRIES :: u8 where "TCP_CONN_RETRIES \<equiv> 3"
abbreviation TCP_SYN_BACKOFF :: u32 where "TCP_SYN_BACKOFF \<equiv> 500"
abbreviation TCP_OPTLEN_MSS :: nat where "TCP_OPTLEN_MSS \<equiv> 4"
abbreviation TCP_OPT_MSS :: u8 where "TCP_OPT_MSS \<equiv> 2"

definition tcp_hdr :: "sk_buff \<Rightarrow> nat" where
  "tcp_hdr skb = skb_head skb + ETH_HDR_LEN + IP_HDR_LEN"

section \<open>Building segments\<close>

definition tcp_alloc_skb :: "nat \<Rightarrow> nat \<Rightarrow> sk_buff" where
  "tcp_alloc_skb optlen size' =
     (let reserved = ETH_HDR_LEN + IP_HDR_LEN + TCP_HDR_LEN + optlen + size';
          skb = skb_reserve (alloc_skb reserved) reserved
      in skb\<lparr>skb_protocol := ucast IP_TCP, skb_dlen := word_of_nat size'\<rparr>)"

text \<open>Setting bits of the flag byte (\<open>th->syn = 1\<close> and so on).\<close>

definition tcp_set_flags :: "u8 \<Rightarrow> sk_buff \<Rightarrow> sk_buff option" where
  "tcp_set_flags f skb = do {
     v \<leftarrow> load8 (skb_buf skb) (tcp_hdr skb + 13);
     b \<leftarrow> store8 (skb_buf skb) (tcp_hdr skb + 13) (v OR f);
     Some (skb\<lparr>skb_buf := b\<rparr>)
   }"

definition tcp_write_options :: "u16 \<Rightarrow> nat \<Rightarrow> sk_buff \<Rightarrow> sk_buff option" where
  "tcp_write_options mss optlen skb = do {
     let th = tcp_hdr skb;
     b \<leftarrow> store8 (skb_buf skb) (th + 20) TCP_OPT_MSS;
     b \<leftarrow> store8 b (th + 21) (word_of_nat TCP_OPTLEN_MSS);
     b \<leftarrow> store16 b (th + 22) (htons mss);
     v \<leftarrow> load8 b (th + 12);
     b \<leftarrow> store8 b (th + 12) (set_hi_nibble v (TCP_DOFFSET + word_of_nat (optlen div 4)));
     Some (skb\<lparr>skb_buf := b\<rparr>)
   }"

text \<open>The option values and their length.\<close>

definition tcp_syn_options :: "tcp_sock \<Rightarrow> u16 \<times> nat" where
  "tcp_syn_options tsk = (tsk_rmss tsk, TCP_OPTLEN_MSS)"

definition tcp_checksum :: "sk_buff \<Rightarrow> u32 \<Rightarrow> u32 \<Rightarrow> u16 option" where
  "tcp_checksum skb saddr daddr =
     tcp_udp_checksum saddr daddr IP_TCP (skb_buf skb) (skb_data skb) (ucast (skb_len skb))"

section \<open>Transmission\<close>

definition tcp_transmit_skb :: "sid \<Rightarrow> sk_buff \<Rightarrow> u32 \<Rightarrow> world \<Rightarrow> (rc \<times> sk_buff \<times> world) option" where
  "tcp_transmit_skb s skb seq w = do {
     tsk \<leftarrow> w_tcp w s;
     let sk = tsk_sk tsk;
     let tcb = tsk_tcb tsk;
     let thdr = tcp_hdr skb;
     v \<leftarrow> load8 (skb_buf skb) (thdr + 12);
     b \<leftarrow> (if hi_nibble v = 0 then store8 (skb_buf skb) (thdr + 12) (set_hi_nibble v TCP_DOFFSET)
           else Some (skb_buf skb));
     v \<leftarrow> load8 b (thdr + 12);
     skb \<leftarrow> skb_push (skb\<lparr>skb_buf := b\<rparr>) (unat (hi_nibble v) * 4);
     b \<leftarrow> store16 b thdr (sk_sport sk);
     b \<leftarrow> store16 b (thdr + 2) (sk_dport sk);
     b \<leftarrow> store32 b (thdr + 4) seq;
     b \<leftarrow> store32 b (thdr + 8) (rcv_nxt tcb);
     b \<leftarrow> store16 b (thdr + 14) (ucast (rcv_wnd tcb));
     b \<leftarrow> store16 b (thdr + 16) 0;
     b \<leftarrow> store16 b (thdr + 18) 0;
     v \<leftarrow> load8 b (thdr + 12);
     b \<leftarrow> store8 b (thdr + 12) (set_lo_nibble v 0);
     let skb = skb\<lparr>skb_seq := snd_una tcb, skb_end_seq := snd_una tcb + skb_dlen skb\<rparr>;
     v \<leftarrow> load16 b thdr;
     b \<leftarrow> store16 b thdr (htons v);
     v \<leftarrow> load16 b (thdr + 2);
     b \<leftarrow> store16 b (thdr + 2) (htons v);
     v \<leftarrow> load32 b (thdr + 4);
     b \<leftarrow> store32 b (thdr + 4) (htonl v);
     v \<leftarrow> load32 b (thdr + 8);
     b \<leftarrow> store32 b (thdr + 8) (htonl v);
     v \<leftarrow> load16 b (thdr + 14);
     b \<leftarrow> store16 b (thdr + 14) (htons v);
     v \<leftarrow> load16 b (thdr + 16);
     b \<leftarrow> store16 b (thdr + 16) (htons v);
     v \<leftarrow> load16 b (thdr + 18);
     b \<leftarrow> store16 b (thdr + 18) (htons v);
     c \<leftarrow> tcp_checksum (skb\<lparr>skb_buf := b\<rparr>) (htonl (sk_saddr sk)) (htonl (sk_daddr sk));
     b \<leftarrow> store16 b (thdr + 16) c;
     (r, skb, n) \<leftarrow> ip_output (w_others w) (sk_daddr sk) (skb\<lparr>skb_buf := b\<rparr>) (w_net w);
     Some (r, skb, w\<lparr>w_net := n\<rparr>)
   }"

section \<open>Retransmission\<close>

definition tcp_reset_retransmission_timer :: "sid \<Rightarrow> world \<Rightarrow> world option" where
  "tcp_reset_retransmission_timer s w = do {
     w \<leftarrow> tcp_release_retransmission_timer s w;
     tsk \<leftarrow> w_tcp w s;
     let (t, w) =
       (if tsk_state tsk = TCP_SYN_SENT
        then world_timer_add (push_bit (unat (tsk_backoff tsk)) TCP_SYN_BACKOFF) Connect_rto s w
        else world_timer_add 500 Retransmission_timeout s w);
     upd_tsk s (\<lambda>tsk. tsk\<lparr>tsk_retransmit := Some t\<rparr>) w
   }"

definition tcp_queue_transmit_skb :: "sid \<Rightarrow> sk_buff \<Rightarrow> world \<Rightarrow> (rc \<times> world) option" where
  "tcp_queue_transmit_skb s skb w = do {
     tsk \<leftarrow> w_tcp w s;
     w \<leftarrow> (if skb_queue_empty (sk_write_queue (tsk_sk tsk)) then tcp_reset_retransmission_timer s w
           else Some w);
     tsk \<leftarrow> w_tcp w s;
     (r, skb, w) \<leftarrow> tcp_transmit_skb s skb (snd_nxt (tsk_tcb tsk)) w;
     tsk \<leftarrow> w_tcp w s;
     q \<leftarrow> skb_queue_tail (sk_write_queue (tsk_sk tsk)) skb;
     w \<leftarrow> upd_tsk s (on_sk (\<lambda>sk. sk\<lparr>sk_write_queue := q\<rparr>)) w;
     w \<leftarrow> upd_tsk s (on_tcb (\<lambda>tcb. tcb\<lparr>snd_nxt := snd_nxt tcb + skb_dlen skb\<rparr>)) w;
     Some (r, w)
   }"

definition tcp_send_synack :: "sid \<Rightarrow> world \<Rightarrow> (rc \<times> world) option" where
  "tcp_send_synack s w = do {
     tsk \<leftarrow> w_tcp w s;
     (if tsk_state tsk \<noteq> TCP_SYN_RECEIVED then Some (Rc 1, w)
      else do {
        skb \<leftarrow> tcp_set_flags (TCP_SYN OR TCP_ACK) (tcp_alloc_skb 0 0);
        (r, skb, w) \<leftarrow> tcp_transmit_skb s skb (snd_nxt (tsk_tcb tsk)) w;
        Some (r, w)
      })
   }"

definition tcp_send_ack :: "sid \<Rightarrow> world \<Rightarrow> (rc \<times> world) option" where
  "tcp_send_ack s w = do {
     tsk \<leftarrow> w_tcp w s;
     (if tsk_state tsk = TCP_CLOSE then Some (Rc 0, w)
      else do {
        skb \<leftarrow> tcp_set_flags TCP_ACK (tcp_alloc_skb 0 0);
        (r, skb, w) \<leftarrow> tcp_transmit_skb s skb (snd_nxt (tsk_tcb tsk)) w;
        Some (r, w)
      })
   }"

text \<open>The handler of the delayed-ack timer.\<close>

definition tcp_send_delack :: "sid \<Rightarrow> world \<Rightarrow> world option" where
  "tcp_send_delack s w = do {
     w \<leftarrow> upd_tsk s (\<lambda>tsk. tsk\<lparr>tsk_delacks := 0\<rparr>) w;
     w \<leftarrow> tcp_release_delack_timer s w;
     (r, w) \<leftarrow> tcp_send_ack s w;
     Some w
   }"

definition tcp_send_syn :: "sid \<Rightarrow> world \<Rightarrow> (rc \<times> world) option" where
  "tcp_send_syn s w = do {
     tsk \<leftarrow> w_tcp w s;
     (if tsk_state tsk \<noteq> TCP_SYN_SENT \<and> tsk_state tsk \<noteq> TCP_CLOSE \<and> tsk_state tsk \<noteq> TCP_LISTEN
      then Some (Rc 1, w)
      else do {
        let (mss, optlen) = tcp_syn_options tsk;
        skb \<leftarrow> tcp_write_options mss optlen (tcp_alloc_skb optlen 0);
        w \<leftarrow> tcp_set_state s TCP_SYN_SENT w;
        skb \<leftarrow> tcp_set_flags TCP_SYN skb;
        tcp_queue_transmit_skb s skb w
      })
   }"

definition tcp_send_fin :: "sid \<Rightarrow> world \<Rightarrow> (rc \<times> world) option" where
  "tcp_send_fin s w = do {
     tsk \<leftarrow> w_tcp w s;
     (if tsk_state tsk = TCP_CLOSE then Some (Rc 0, w)
      else do {
        skb \<leftarrow> tcp_set_flags (TCP_FIN OR TCP_ACK) (tcp_alloc_skb 0 0);
        tcp_queue_transmit_skb s skb w
      })
   }"

definition tcp_select_initial_window :: u32 where
  "tcp_select_initial_window = 44477"

definition tcp_notify_user :: "sid \<Rightarrow> world \<Rightarrow> world option" where
  "tcp_notify_user s w = do {
     tsk \<leftarrow> w_tcp w s;
     (case tsk_state tsk of
        TCP_CLOSE_WAIT \<Rightarrow> Some (put_tsk s (tsk\<lparr>tsk_wait := wait_wakeup (tsk_wait tsk)\<rparr>) w)
      | _ \<Rightarrow> Some w)
   }"

text \<open>
  Sending the head of the write queue again: \<open>skb_reset_header\<close>, then \<open>tcp_transmit_skb\<close> with
  \<open>snd_una\<close>.  The packet stays at the head of the queue.
\<close>

definition tcp_retransmit_head :: "sid \<Rightarrow> sk_buff \<Rightarrow> world \<Rightarrow> (sk_buff \<times> world) option" where
  "tcp_retransmit_head s skb w = do {
     tsk \<leftarrow> w_tcp w s;
     skb \<leftarrow> skb_reset_header skb;
     (r, skb, w) \<leftarrow> tcp_transmit_skb s skb (snd_una (tsk_tcb tsk)) w;
     w \<leftarrow> upd_tsk s (on_sk (\<lambda>sk. sk\<lparr>sk_write_queue :=
            (sk_write_queue sk)\<lparr>q_items := skb # tl (q_items (sk_write_queue sk))\<rparr>\<rparr>)) w;
     Some (skb, w)
   }"

text \<open>The handler that retries a connection request.\<close>

definition tcp_connect_rto :: "sid \<Rightarrow> world \<Rightarrow> world option" where
  "tcp_connect_rto s w = do {
     w \<leftarrow> tcp_release_retransmission_timer s w;
     tsk \<leftarrow> w_tcp w s;
     (if tsk_state tsk \<noteq> TCP_ESTABLISHED
      then if tsk_backoff tsk > TCP_CONN_RETRIES
        then do {
          w \<leftarrow> upd_tsk s (on_sk (\<lambda>sk. sk\<lparr>sk_err := - ETIMEDOUT\<rparr>)) w;
          tcp_free_sock s w
        }
        else do {
          head \<leftarrow> skb_peek (sk_write_queue (tsk_sk tsk));
          (case head of
             None \<Rightarrow> Some w
           | Some skb \<Rightarrow> do {
               (skb, w) \<leftarrow> tcp_retransmit_head s skb w;
               w \<leftarrow> upd_tsk s (\<lambda>tsk. tsk\<lparr>tsk_backoff := tsk_backoff tsk + 1\<rparr>) w;
               tcp_reset_retransmission_timer s w
             })
        }
      else Some w)
   }"

text \<open>The handler that retransmits data.\<close>

definition tcp_retransmission_timeout :: "sid \<Rightarrow> world \<Rightarrow> world option" where
  "tcp_retransmission_timeout s w = do {
     w \<leftarrow> tcp_release_retransmission_timer s w;
     tsk \<leftarrow> w_tcp w s;
     head \<leftarrow> skb_peek (sk_write_queue (tsk_sk tsk));
     (case head of
        None \<Rightarrow> tcp_notify_user s w
      | Some skb \<Rightarrow> do {
          (skb, w) \<leftarrow> tcp_retransmit_head s skb w;
          let (t, w) = world_timer_add 500 Retransmission_timeout s w;
          w \<leftarrow> upd_tsk s (\<lambda>tsk. tsk\<lparr>tsk_retransmit := Some t\<rparr>) w;
          v \<leftarrow> load8 (skb_buf skb) (tcp_hdr skb + 13);
          (if v AND TCP_FIN \<noteq> 0 then tcp_handle_fin_state s w else Some w)
        })
   }"

section \<open>Operations of a connection\<close>

definition tcp_begin_connect :: "sid \<Rightarrow> world \<Rightarrow> (rc \<times> world) option" where
  "tcp_begin_connect s w = do {
     w \<leftarrow> upd_tsk s (\<lambda>tsk. tsk\<lparr>tsk_header_len := 20\<rparr>) w;
     let (i, w) = tcp_generate_isn w;
     w \<leftarrow> upd_tsk s (on_tcb (\<lambda>tcb. tcb\<lparr>isn := i, snd_wnd := 0, snd_wl1 := 0, snd_una := i,
            snd_up := i, snd_nxt := i, rcv_nxt := 0, rcv_wnd := tcp_select_initial_window\<rparr>)) w;
     (r, w) \<leftarrow> tcp_send_syn s w;
     w \<leftarrow> upd_tsk s (on_tcb (\<lambda>tcb. tcb\<lparr>snd_nxt := snd_nxt tcb + 1\<rparr>)) w;
     Some (r, w)
   }"

text \<open>
  The loop of \<open>tcp_send\<close>: \<open>buf\<close> is what is left of the caller's buffer.  With \<open>smss = 0\<close> it
  would not end.
\<close>

partial_function (option) tcp_send_loop :: "sid \<Rightarrow> bytes \<Rightarrow> int \<Rightarrow> int \<Rightarrow> world \<Rightarrow> world option" where
  "tcp_send_loop s buf slen mss w =
     (if slen > 0 then
        let dlen = (if slen > mss then mss else slen); slen = slen - dlen in
        Option.bind (skb_push (tcp_alloc_skb 0 (nat dlen)) (nat dlen)) (\<lambda>skb.
        Option.bind (load_bytes buf 0 (nat dlen)) (\<lambda>d.
        Option.bind (store_bytes (skb_buf skb) (skb_data skb) d) (\<lambda>b.
        Option.bind (tcp_set_flags (if slen = 0 then TCP_ACK OR TCP_PSH else TCP_ACK)
           (skb\<lparr>skb_buf := b\<rparr>)) (\<lambda>skb.
        Option.bind (tcp_queue_transmit_skb s skb w) (\<lambda>rw.
          tcp_send_loop s (drop (nat dlen) buf) slen mss (snd rw))))))
      else Some w)"

definition tcp_send :: "sid \<Rightarrow> bytes \<Rightarrow> int \<Rightarrow> world \<Rightarrow> (int \<times> world) option" where
  "tcp_send s buf len' w = do {
     tsk \<leftarrow> w_tcp w s;
     w \<leftarrow> tcp_send_loop s buf len' (int (unat (tsk_smss tsk))) w;
     Some (len', w)
   }"

definition tcp_send_reset :: "sid \<Rightarrow> world \<Rightarrow> (rc \<times> world) option" where
  "tcp_send_reset s w = do {
     skb \<leftarrow> tcp_set_flags TCP_RST (tcp_alloc_skb 0 0);
     w \<leftarrow> upd_tsk s (on_tcb (\<lambda>tcb. tcb\<lparr>snd_una := snd_nxt tcb\<rparr>)) w;
     tsk \<leftarrow> w_tcp w s;
     (r, skb, w) \<leftarrow> tcp_transmit_skb s skb (snd_nxt (tsk_tcb tsk)) w;
     Some (r, w)
   }"

definition tcp_queue_fin :: "sid \<Rightarrow> world \<Rightarrow> (rc \<times> world) option" where
  "tcp_queue_fin s w = do {
     skb \<leftarrow> tcp_set_flags (TCP_FIN OR TCP_ACK) (tcp_alloc_skb 0 0);
     (r, w) \<leftarrow> tcp_queue_transmit_skb s skb w;
     w \<leftarrow> upd_tsk s (on_tcb (\<lambda>tcb. tcb\<lparr>snd_nxt := snd_nxt tcb + 1\<rparr>)) w;
     Some (r, w)
   }"

section \<open>Segments as values\<close>

text \<open>\<open>struct tcphdr\<close> with its fields in host order; \<open>th_flags\<close> is the flag byte.\<close>

record tcphdr =
  th_sport :: u16
  th_dport :: u16
  th_seq :: u32
  th_ack_seq :: u32
  th_hl :: u8
  th_flags :: u8
  th_win :: u16

definition th_fin :: "tcphdr \<Rightarrow> bool" where "th_fin th = bit (th_flags th) 0"
definition th_syn :: "tcphdr \<Rightarrow> bool" where "th_syn th = bit (th_flags th) 1"
definition th_rst :: "tcphdr \<Rightarrow> bool" where "th_rst th = bit (th_flags th) 2"
definition th_psh :: "tcphdr \<Rightarrow> bool" where "th_psh th = bit (th_flags th) 3"
definition th_ack :: "tcphdr \<Rightarrow> bool" where "th_ack th = bit (th_flags th) 4"

text \<open>The header on the wire at offset \<open>a\<close>.\<close>

definition tcp_view :: "bytes \<Rightarrow> nat \<Rightarrow> tcphdr" where
  "tcp_view b a =
     \<lparr>th_sport = ntohs (get16 b a), th_dport = ntohs (get16 b (a + 2)),
      th_seq = ntohl (get32 b (a + 4)), th_ack_seq = ntohl (get32 b (a + 8)),
      th_hl = hi_nibble (b ! (a + 12)), th_flags = b ! (a + 13), th_win = ntohs (get16 b (a + 14))\<rparr>"

text \<open>The header \<open>tcp_transmit_skb\<close> is to write: addresses and acknowledgment of the socket.\<close>

definition tcp_header_for :: "tcp_sock \<Rightarrow> u32 \<Rightarrow> nat \<Rightarrow> u8 \<Rightarrow> tcphdr" where
  "tcp_header_for tsk seq k flags =
     \<lparr>th_sport = sk_sport (tsk_sk tsk), th_dport = sk_dport (tsk_sk tsk), th_seq = seq,
      th_ack_seq = rcv_nxt (tsk_tcb tsk), th_hl = word_of_nat k, th_flags = flags,
      th_win = ucast (rcv_wnd (tsk_tcb tsk))\<rparr>"

text \<open>
  \<open>sgm\<close> is a segment of the connection \<open>tsk\<close> with sequence number \<open>seq\<close>, a header of \<open>k\<close>
  words, and \<open>rest\<close> (options and data) behind the fixed header; its checksum verifies.
\<close>

definition tcp_segment :: "tcp_sock \<Rightarrow> u32 \<Rightarrow> nat \<Rightarrow> u8 \<Rightarrow> bytes \<Rightarrow> bytes \<Rightarrow> bool" where
  "tcp_segment tsk seq k flags rest sgm \<longleftrightarrow>
     20 \<le> length sgm \<and> tcp_view sgm 0 = tcp_header_for tsk seq k flags \<and> drop 20 sgm = rest \<and>
     tcp_udp_checksum (htonl (sk_saddr (tsk_sk tsk))) (htonl (sk_daddr (tsk_sk tsk))) IP_TCP sgm 0
       (word_of_nat (length sgm)) = Some 0"

lemma nibble_masks: "(0x0F :: u8) = mask 4" "(0xF0 :: u8) = push_bit 4 (mask 4)"
  by (simp_all add: mask_eq_exp_minus_1 push_bit_eq_mult)

lemma hi_nibble_set_hi: "hi_nibble (set_hi_nibble v x) = x AND 0x0F"
  unfolding hi_nibble_def set_hi_nibble_def nibble_masks
  by (rule bit_word_eqI) (auto simp: bit_simps)

lemma hi_nibble_set_lo [simp]: "hi_nibble (set_lo_nibble v x) = hi_nibble v"
  unfolding hi_nibble_def set_lo_nibble_def nibble_masks
  by (rule bit_word_eqI) (auto simp: bit_simps dest: bit_imp_le_length)

text \<open>
  A packet \<open>tcp_transmit_skb\<close> can send: \<open>data\<close> behind a header of \<open>k\<close> words, whose \<open>hl\<close> is set
  or still zero.
\<close>

definition tcp_ready :: "nat \<Rightarrow> sk_buff \<Rightarrow> bool" where
  "tcp_ready k skb \<longleftrightarrow> skb_data skb = 34 + 4 * k \<and> 5 \<le> k \<and> k \<le> 15 \<and>
     (hi_nibble (skb_buf skb ! 46) = word_of_nat k \<or> hi_nibble (skb_buf skb ! 46) = 0 \<and> k = 5) \<and>
     34 + 4 * k + unat (skb_len skb) \<le> length (skb_buf skb) \<and> unat (skb_len skb) + 4 * k + 20 < 65536"

text \<open>What the packet is when it is handed to \<open>ip_output\<close>.\<close>

definition tcp_handed :: "tcp_sock \<Rightarrow> nat \<Rightarrow> sk_buff \<Rightarrow> bytes \<Rightarrow> sk_buff" where
  "tcp_handed tsk k skb b =
     skb\<lparr>skb_data := 34, skb_len := skb_len skb + word_of_nat (k * 4),
         skb_seq := snd_una (tsk_tcb tsk), skb_end_seq := snd_una (tsk_tcb tsk) + skb_dlen skb,
         skb_buf := b\<rparr>"

lemma unat_nibble: "k \<le> 15 \<Longrightarrow> unat (word_of_nat k :: u8) = k"
  by (simp add: unsigned_of_nat take_bit_nat_eq_self)

lemma tcp_handed_len:
  assumes "tcp_ready k skb"
  shows "unat (skb_len skb + word_of_nat (k * 4)) = unat (skb_len skb) + 4 * k"
    and "(ucast (skb_len skb + word_of_nat (k * 4)) :: u16) = word_of_nat (unat (skb_len skb) + 4 * k)"
proof -
  have "unat (word_of_nat (k * 4) :: u32) = 4 * k"
    using assms by (simp add: tcp_ready_def unsigned_of_nat take_bit_nat_eq_self del: of_nat_mult)
  then show u: "unat (skb_len skb + word_of_nat (k * 4)) = unat (skb_len skb) + 4 * k"
    using assms by (simp add: unat_word_ariths tcp_ready_def del: of_nat_mult)
  show "(ucast (skb_len skb + word_of_nat (k * 4)) :: u16) = word_of_nat (unat (skb_len skb) + 4 * k)"
    by (metis u of_nat_unat)
qed

lemma tcp_transmit_built:
  assumes tsk: "w_tcp w s = Some tsk" and ready: "tcp_ready k skb"
  obtains b where
    "tcp_transmit_skb s skb seq w =
       Option.bind (ip_output (w_others w) (sk_daddr (tsk_sk tsk)) (tcp_handed tsk k skb b) (w_net w))
         (\<lambda>(r, skb, n). Some (r, skb, w\<lparr>w_net := n\<rparr>))"
    and "length b = length (skb_buf skb)" and "drop 54 b = drop 54 (skb_buf skb)"
    and "tcp_view b 34 = tcp_header_for tsk seq k (skb_buf skb ! 47)"
    and "tcp_udp_checksum (htonl (sk_saddr (tsk_sk tsk))) (htonl (sk_daddr (tsk_sk tsk))) IP_TCP b 34
           (word_of_nat (unat (skb_len skb) + 4 * k)) = Some 0"
proof -
  let ?b = "skb_buf skb" and ?sk = "tsk_sk tsk" and ?tcb = "tsk_tcb tsk"
  let ?n = "unat (skb_len skb) + 4 * k"
  define v where "v = (if hi_nibble (?b ! 46) = 0 then set_hi_nibble (?b ! 46) 5 else ?b ! 46)"
  have r: "skb_data skb = 34 + 4 * k" "54 \<le> length ?b" "34 + ?n \<le> length ?b" "?n < 65536" "20 \<le> ?n"
      "5 \<le> k" "k \<le> 15"
    using ready by (auto simp: tcp_ready_def)
  have "unat (word_of_nat k :: u8) \<noteq> 0" using r(6,7) by (simp add: unat_nibble)
  then have k0: "(word_of_nat k :: u8) \<noteq> 0" by auto
  have k: "hi_nibble v = word_of_nat k"
    using ready k0 by (auto simp: v_def tcp_ready_def hi_nibble_set_hi)
  have k4: "unat (hi_nibble v) * 4 = 4 * k" using k r(7) by (simp add: unat_nibble)
  define b1 where "b1 = put16 (put16 (put16 (put32 (put32 (put16 (put16
      ((put16 (put16 (put16 (put32 (put32 (put16 (put16 (?b[46 := v]) 34 (sk_sport ?sk))
        36 (sk_dport ?sk)) 38 seq) 42 (rcv_nxt ?tcb)) 48 (ucast (rcv_wnd ?tcb))) 50 0) 52 0)
        [46 := set_lo_nibble v 0]) 34 (htons (sk_sport ?sk))) 36 (htons (sk_dport ?sk)))
        38 (htonl seq)) 42 (htonl (rcv_nxt ?tcb))) 48 (htons (ucast (rcv_wnd ?tcb)))) 50 0) 52 0"
  have len: "length b1 = length ?b" by (simp add: b1_def)
  have "get16 b1 (34 + 16) = 0" unfolding b1_def using r(2) by (simp add: mem_simps)
  then obtain c where
    c: "tcp_udp_checksum (htonl (sk_saddr ?sk)) (htonl (sk_daddr ?sk)) IP_TCP b1 34 (word_of_nat ?n) = Some c"
      "tcp_udp_checksum (htonl (sk_saddr ?sk)) (htonl (sk_daddr ?sk)) IP_TCP (put16 b1 50 c) 34
         (word_of_nat ?n) = Some 0"
    using tcp_udp_checksum_fills [of 16 ?n 34 b1 "htonl (sk_saddr ?sk)" "htonl (sk_daddr ?sk)" IP_TCP]
      r len by auto
  let ?r = "put16 b1 50 c"
  have view: "tcp_view ?r 34 = tcp_header_for tsk seq k (?b ! 47)"
    unfolding tcp_view_def tcp_header_for_def b1_def using r(2) k by (simp add: mem_simps)
  have drop: "drop 54 ?r = drop 54 ?b"
    unfolding b1_def put16_def put32_def by (simp add: drop_update_cancel)
  have "tcp_transmit_skb s skb seq w =
       Option.bind (ip_output (w_others w) (sk_daddr ?sk) (tcp_handed tsk k skb ?r) (w_net w))
         (\<lambda>(r, skb, n). Some (r, skb, w\<lparr>w_net := n\<rparr>))"
    using tsk r c(1) len k4 tcp_handed_len(2) [OF ready]
    by (cases "hi_nibble (?b ! 46) = 0")
      (simp_all add: tcp_transmit_skb_def tcp_hdr_def skb_head_def skb_push_def Let_def mem_simps
        tcp_checksum_def tcp_handed_def b1_def v_def)
  with view drop len c(2) that show ?thesis by simp
qed

text \<open>What a transmission leaves of the packet.\<close>

definition tcp_sent :: "tcp_sock \<Rightarrow> nat \<Rightarrow> sk_buff \<Rightarrow> sk_buff \<Rightarrow> bool" where
  "tcp_sent tsk k skb skb' \<longleftrightarrow>
     skb_seq skb' = snd_una (tsk_tcb tsk) \<and>
     skb_end_seq skb' = snd_una (tsk_tcb tsk) + skb_dlen skb \<and>
     skb_dlen skb' = skb_dlen skb \<and> skb_refcnt skb' = skb_refcnt skb \<and>
     length (skb_buf skb') = length (skb_buf skb) \<and> drop 54 (skb_buf skb') = drop 54 (skb_buf skb) \<and>
     hi_nibble (skb_buf skb' ! 46) = word_of_nat k \<and> skb_buf skb' ! 47 = skb_buf skb ! 47 \<and>
     skb_protocol skb' = skb_protocol skb"

lemma tcp_handed_ready: "tcp_ready k skb \<Longrightarrow> length b = length (skb_buf skb) \<Longrightarrow> out_ready (tcp_handed tsk k skb b)"
  using tcp_handed_len(1) [of k skb] by (simp add: out_ready_def tcp_handed_def tcp_ready_def)

lemma tcp_sent_handed:
  assumes "tcp_ready k skb" and "length b = length (skb_buf skb)" and "drop 54 b = drop 54 (skb_buf skb)"
    and "tcp_view b 34 = tcp_header_for tsk' seq k (skb_buf skb ! 47)"
    and "sent_from (tcp_handed tsk k skb b) skb'"
  shows "tcp_sent tsk k skb skb'"
proof -
  have s: "drop 34 (skb_buf skb') = drop 34 b" "length (skb_buf skb') = length b"
    using assms(5) by (simp_all add: sent_from_def tcp_handed_def)
  have "54 \<le> length b" using assms(1,2) by (auto simp: tcp_ready_def)
  have at: "skb_buf skb' ! (34 + i) = b ! (34 + i)" if "i < 20" for i
  proof -
    have "drop 34 (skb_buf skb') ! i = drop 34 b ! i" using s(1) by simp
    then show ?thesis using \<open>54 \<le> length b\<close> s(2) by simp
  qed
  have "drop 20 (drop 34 (skb_buf skb')) = drop 20 (drop 34 b)" using s(1) by simp
  then have "drop 54 (skb_buf skb') = drop 54 b" by simp
  moreover have "hi_nibble (b ! 46) = word_of_nat k" "b ! 47 = skb_buf skb ! 47"
    using assms(4) by (simp_all add: tcp_view_def tcp_header_for_def)
  ultimately show ?thesis
    using assms at [of 12] at [of 13] s(2)
    by (simp add: tcp_sent_def sent_from_def tcp_handed_def)
qed

text \<open>Transmission never faults, and touches nothing but the link layer.\<close>

lemma tcp_transmit_total:
  assumes "w_tcp w s = Some tsk" and "tcp_ready k skb" and "others_ok (w_others w)"
    and "net_inv (w_net w)"
  shows "\<exists>r skb' n. tcp_transmit_skb s skb seq w = Some (r, skb', w\<lparr>w_net := n\<rparr>) \<and> net_inv n \<and>
    tcp_sent tsk k skb skb'"
proof -
  obtain b where b: "tcp_transmit_skb s skb seq w =
       Option.bind (ip_output (w_others w) (sk_daddr (tsk_sk tsk)) (tcp_handed tsk k skb b) (w_net w))
         (\<lambda>(r, skb, n). Some (r, skb, w\<lparr>w_net := n\<rparr>))"
    "length b = length (skb_buf skb)" "drop 54 b = drop 54 (skb_buf skb)"
    "tcp_view b 34 = tcp_header_for tsk seq k (skb_buf skb ! 47)"
    using tcp_transmit_built [OF assms(1,2)] by metis
  obtain r skb' n where o: "ip_output (w_others w) (sk_daddr (tsk_sk tsk)) (tcp_handed tsk k skb b)
      (w_net w) = Some (r, skb', n)" "net_inv n" "sent_from (tcp_handed tsk k skb b) skb'"
    using ip_output_total [OF assms(3,4) tcp_handed_ready [OF assms(2) b(2)]] by blast
  from assms(2) b(2-4) o(3) have "tcp_sent tsk k skb skb'" by (rule tcp_sent_handed)
  moreover have "tcp_transmit_skb s skb seq w = Some (r, skb', w\<lparr>w_net := n\<rparr>)"
    using b(1) o(1) by simp
  ultimately show ?thesis using o(2) by blast
qed

lemma tcp_view_range:
  "i + n \<le> length b \<Longrightarrow> 20 \<le> n \<Longrightarrow> tcp_view (take n (drop i b)) 0 = tcp_view b i"
  by (simp add: tcp_view_def get16_range get32_range)

text \<open>With the gateway resolved, the segment is on the wire.\<close>

lemma tcp_transmit_sent:
  assumes "w_tcp w s = Some tsk" and "tcp_ready k skb" and "skb_protocol skb = ucast IP_TCP"
    and "net_inv (w_net w)" and "arp_get_hwaddr (w_net w) gateway = Some mac"
  shows "\<exists>skb' pkt sgm. tcp_transmit_skb s skb seq w =
      Some (Indet, skb', w\<lparr>w_net :=
        tun_write (eth_frame mac (nd_hwaddr (net_dev (w_net w))) ETH_P_IP pkt) (w_net w)\<rparr>) \<and>
    tcp_sent tsk k skb skb' \<and> ip_datagram (net_dev (w_net w)) (sk_daddr (tsk_sk tsk)) IP_TCP sgm pkt \<and>
    tcp_segment tsk seq k (skb_buf skb ! 47)
      (take (unat (skb_len skb) + 4 * k - 20) (drop 54 (skb_buf skb))) sgm"
proof -
  let ?n = "unat (skb_len skb) + 4 * k"
  obtain b where b: "tcp_transmit_skb s skb seq w =
       Option.bind (ip_output (w_others w) (sk_daddr (tsk_sk tsk)) (tcp_handed tsk k skb b) (w_net w))
         (\<lambda>(r, skb, n). Some (r, skb, w\<lparr>w_net := n\<rparr>))"
    "length b = length (skb_buf skb)" "drop 54 b = drop 54 (skb_buf skb)"
    "tcp_view b 34 = tcp_header_for tsk seq k (skb_buf skb ! 47)"
    "tcp_udp_checksum (htonl (sk_saddr (tsk_sk tsk))) (htonl (sk_daddr (tsk_sk tsk))) IP_TCP b 34
           (word_of_nat ?n) = Some 0"
    using tcp_transmit_built [OF assms(1,2)] by metis
  let ?s = "tcp_handed tsk k skb b"
  obtain skb' pkt where o: "ip_output (w_others w) (sk_daddr (tsk_sk tsk)) ?s (w_net w) =
      Some (Indet, skb', tun_write (eth_frame mac (nd_hwaddr (net_dev (w_net w))) ETH_P_IP pkt) (w_net w))"
    "ip_datagram (net_dev (w_net w)) (sk_daddr (tsk_sk tsk)) (ucast (skb_protocol ?s)) (skb_bytes ?s) pkt"
    "sent_from ?s skb'"
    using ip_output_sent [OF assms(4) tcp_handed_ready [OF assms(2) b(2)] assms(5)] by blast
  have r: "34 + ?n \<le> length b" "20 \<le> ?n" "?n < 65536" using assms(2) b(2) by (auto simp: tcp_ready_def)
  have bytes: "skb_bytes ?s = take ?n (drop 34 b)"
    using tcp_handed_len(1) [OF assms(2)] by (simp add: skb_bytes_def tcp_handed_def)
  have "tcp_segment tsk seq k (skb_buf skb ! 47)
      (take (?n - 20) (drop 54 (skb_buf skb))) (take ?n (drop 34 b))"
    using r b(3-5) by (simp add: tcp_segment_def tcp_view_range drop_take tcp_udp_checksum_range del: of_nat_add)
  moreover from assms(2) b(2-4) o(3) have "tcp_sent tsk k skb skb'" by (rule tcp_sent_handed)
  moreover have "skb_protocol ?s = ucast IP_TCP" using assms(3) by (simp add: tcp_handed_def)
  ultimately show ?thesis using b(1) o(1,2) bytes by auto
qed

section \<open>Queueing for retransmission\<close>

text \<open>The timer pointers of a connection lead to timers that exist.\<close>

definition timers_live :: "timers \<Rightarrow> tcp_sock \<Rightarrow> bool" where
  "timers_live ts tsk \<longleftrightarrow> timers_inv ts \<and> tsk_keepalive tsk = None \<and>
     (\<forall>t \<in> set_option (tsk_retransmit tsk) \<union> set_option (tsk_delack tsk) \<union> set_option (tsk_linger tsk).
        timer_get ts t \<noteq> None)"

lemma timer_get_set_None:
  "timer_get ts t \<noteq> None \<Longrightarrow> (timer_get (timer_set ts t x) u = None) = (timer_get ts u = None)"
  by (auto simp: timer_get_set)

lemma timers_live_set:
  "timers_live ts tsk \<Longrightarrow> timer_get ts t \<noteq> None \<Longrightarrow> timers_live (timer_set ts t x) tsk"
  by (simp add: timers_live_def timer_get_set_None timers_inv_set)

lemma timer_release_live:
  assumes "timers_live ts tsk" and "t \<in> {tsk_retransmit tsk, tsk_delack tsk, tsk_linger tsk}"
  shows "\<exists>ts'. timer_release t ts = Some ts' \<and> timers_live ts' tsk \<and> tick ts' = tick ts"
proof (cases t)
  case None
  then show ?thesis using assms by (simp add: timer_release_def)
next
  case (Some u)
  with assms have "timer_get ts u \<noteq> None" by (auto simp: timers_live_def)
  with assms Some show ?thesis by (auto simp: timer_release_def timers_live_set)
qed

lemma timer_cancel_live:
  assumes "timers_live ts tsk" and "t \<in> {tsk_retransmit tsk, tsk_delack tsk, tsk_linger tsk}"
  shows "\<exists>ts'. timer_cancel t ts = Some ts' \<and> timers_live ts' tsk \<and> tick ts' = tick ts"
proof (cases t)
  case None
  then show ?thesis using assms by (simp add: timer_cancel_def)
next
  case (Some u)
  with assms have "timer_get ts u \<noteq> None" by (auto simp: timers_live_def)
  with assms Some show ?thesis by (auto simp: timer_cancel_def timers_live_set)
qed

lemma timers_live_add:
  assumes "timers_live ts tsk" and "timer_add e h a ts = (t, ts')"
  shows "timers_live ts' tsk" and "timer_get ts' t \<noteq> None" and "timers_inv ts'" and "tick ts' = tick ts"
proof -
  have inv: "timers_inv ts" using assms by (simp add: timers_live_def)
  show "timers_inv ts'" using timers_inv_add [OF inv, of e h a] assms(2) by simp
  then show "timers_live ts' tsk" "timer_get ts' t \<noteq> None"
    using assms timer_get_add [OF inv assms(2)] by (auto simp: timers_live_def)
  show "tick ts' = tick ts" using assms(2) by (auto simp: timer_add_def Let_def)
qed

text \<open>The interval the retransmission timer is armed for.\<close>

definition rto_of :: "tcp_sock \<Rightarrow> u32 \<times> handler" where
  "rto_of tsk = (if tsk_state tsk = TCP_SYN_SENT
     then (push_bit (unat (tsk_backoff tsk)) 500, Connect_rto) else (500, Retransmission_timeout))"

lemma tcp_reset_retransmission_timer_ok:
  assumes "w_tcp w s = Some tsk" and "timers_live (w_timers w) tsk"
  shows "\<exists>t ts. tcp_reset_retransmission_timer s w =
      Some (put_tsk s (tsk\<lparr>tsk_retransmit := Some t\<rparr>) (w\<lparr>w_timers := ts\<rparr>)) \<and>
    timers_live ts (tsk\<lparr>tsk_retransmit := Some t\<rparr>) \<and> tick ts = tick (w_timers w) \<and>
    timer_get ts t = Some \<lparr>tm_refcnt = 1, tm_expires = tick (w_timers w) + fst (rto_of tsk),
      tm_cancelled = False, tm_handler = snd (rto_of tsk), tm_arg = s\<rparr>"
proof -
  obtain ts1 where ts1: "timer_release (tsk_retransmit tsk) (w_timers w) = Some ts1"
    "timers_live ts1 tsk" "tick ts1 = tick (w_timers w)"
    using timer_release_live [OF assms(2)] by blast
  obtain t ts where ts: "timer_add (fst (rto_of tsk)) (snd (rto_of tsk)) s ts1 = (t, ts)"
    by (cases "timer_add (fst (rto_of tsk)) (snd (rto_of tsk)) s ts1")
  have inv: "timers_inv ts1" using ts1(2) by (simp add: timers_live_def)
  have "tcp_reset_retransmission_timer s w =
      Some (put_tsk s (tsk\<lparr>tsk_retransmit := Some t\<rparr>) (w\<lparr>w_timers := ts\<rparr>))"
    using assms(1) ts1(1) ts
    by (simp add: tcp_reset_retransmission_timer_def tcp_release_retransmission_timer_def
        world_timer_add_def rto_of_def put_tsk_def upd_tsk_def split: if_splits)
  moreover have "timers_live ts (tsk\<lparr>tsk_retransmit := Some t\<rparr>)" "tick ts = tick (w_timers w)"
    using timers_live_add [OF ts1(2) ts] ts1(3) by (auto simp: timers_live_def)
  ultimately show ?thesis using timer_get_add [OF inv ts, of t] ts1(3) by auto
qed

text \<open>The socket after a packet was queued: \<open>rt\<close> is the retransmission timer.\<close>

definition queued :: "tcp_sock \<Rightarrow> tid option \<Rightarrow> sk_buff \<Rightarrow> tcp_sock" where
  "queued tsk rt skb =
     on_tcb (\<lambda>tcb. tcb\<lparr>snd_nxt := snd_nxt tcb + skb_dlen skb\<rparr>)
      (on_sk (\<lambda>sk. sk\<lparr>sk_write_queue := queue_push (sk_write_queue sk) skb\<rparr>)
        (tsk\<lparr>tsk_retransmit := rt\<rparr>))"

lemma q_linked_queued [simp]:
  "q_linked (sk_write_queue (tsk_sk (queued tsk rt skb))) = q_linked (sk_write_queue (tsk_sk tsk))"
  by (simp add: queued_def on_tcb_def on_sk_def)

lemma timers_live_queued [simp]:
  "timers_live ts (queued tsk rt skb) = timers_live ts (tsk\<lparr>tsk_retransmit := rt\<rparr>)"
  by (simp add: timers_live_def queued_def on_tcb_def on_sk_def)

text \<open>
  The states in which \<open>s\<close> can send: packets that are not kept, and packets that are put on the queue
  of what waits for its acknowledgement, which must have been initialised.
\<close>

definition can_answer :: "world \<Rightarrow> sid \<Rightarrow> tcp_sock \<Rightarrow> bool" where
  "can_answer w s tsk \<longleftrightarrow> w_tcp w s = Some tsk \<and> timers_live (w_timers w) tsk \<and>
     others_ok (w_others w) \<and> net_inv (w_net w)"

definition can_send :: "world \<Rightarrow> sid \<Rightarrow> tcp_sock \<Rightarrow> bool" where
  "can_send w s tsk \<longleftrightarrow> w_tcp w s = Some tsk \<and> timers_live (w_timers w) tsk \<and>
     others_ok (w_others w) \<and> net_inv (w_net w) \<and> q_linked (sk_write_queue (tsk_sk tsk))"

lemma can_send_answer: "can_send w s tsk \<Longrightarrow> can_answer w s tsk"
  by (simp add: can_send_def can_answer_def)

lemma queue_timer_ok:
  assumes "w_tcp w s = Some tsk" and "timers_live (w_timers w) tsk"
  shows "\<exists>rt ts. (if skb_queue_empty (sk_write_queue (tsk_sk tsk))
       then tcp_reset_retransmission_timer s w else Some w) =
     Some (put_tsk s (tsk\<lparr>tsk_retransmit := rt\<rparr>) (w\<lparr>w_timers := ts\<rparr>)) \<and>
     timers_live ts (tsk\<lparr>tsk_retransmit := rt\<rparr>) \<and> tick ts = tick (w_timers w) \<and>
     (skb_queue_empty (sk_write_queue (tsk_sk tsk)) \<longrightarrow> rt \<noteq> None) \<and>
     (\<not> skb_queue_empty (sk_write_queue (tsk_sk tsk)) \<longrightarrow> rt = tsk_retransmit tsk)"
proof (cases "skb_queue_empty (sk_write_queue (tsk_sk tsk))")
  case True
  then show ?thesis using tcp_reset_retransmission_timer_ok [OF assms] by fastforce
next
  case False
  have "Some w = Some (put_tsk s (tsk\<lparr>tsk_retransmit := tsk_retransmit tsk\<rparr>) (w\<lparr>w_timers := w_timers w\<rparr>))"
    using assms(1) by (simp add: put_tsk_same)
  then show ?thesis using False assms(2) by (intro exI) auto
qed

lemma tcp_queue_transmit_total:
  assumes "can_send w s tsk" and "tcp_ready k skb"
  shows "\<exists>r rt skb' n ts. tcp_queue_transmit_skb s skb w =
      Some (r, put_tsk s (queued tsk rt skb') (w\<lparr>w_net := n, w_timers := ts\<rparr>)) \<and>
    net_inv n \<and> timers_live ts (queued tsk rt skb') \<and> tcp_sent tsk k skb skb' \<and> tick ts = tick (w_timers w) \<and>
    (skb_queue_empty (sk_write_queue (tsk_sk tsk)) \<longrightarrow> rt \<noteq> None) \<and>
    (\<not> skb_queue_empty (sk_write_queue (tsk_sk tsk)) \<longrightarrow> rt = tsk_retransmit tsk)"
proof -
  have tsk: "w_tcp w s = Some tsk" "q_linked (sk_write_queue (tsk_sk tsk))" and live: "timers_live (w_timers w) tsk"
    using assms(1) by (simp_all add: can_send_def)
  obtain rt ts where rt: "(if skb_queue_empty (sk_write_queue (tsk_sk tsk))
       then tcp_reset_retransmission_timer s w else Some w) =
     Some (put_tsk s (tsk\<lparr>tsk_retransmit := rt\<rparr>) (w\<lparr>w_timers := ts\<rparr>))"
     "timers_live ts (tsk\<lparr>tsk_retransmit := rt\<rparr>)" "tick ts = tick (w_timers w)"
     "skb_queue_empty (sk_write_queue (tsk_sk tsk)) \<longrightarrow> rt \<noteq> None"
     "\<not> skb_queue_empty (sk_write_queue (tsk_sk tsk)) \<longrightarrow> rt = tsk_retransmit tsk"
    using queue_timer_ok [OF tsk(1) live] by blast
  let ?w = "put_tsk s (tsk\<lparr>tsk_retransmit := rt\<rparr>) (w\<lparr>w_timers := ts\<rparr>)"
  obtain r skb' n where t: "tcp_transmit_skb s skb (snd_nxt (tsk_tcb tsk)) ?w = Some (r, skb', ?w\<lparr>w_net := n\<rparr>)"
    "net_inv n" "tcp_sent (tsk\<lparr>tsk_retransmit := rt\<rparr>) k skb skb'"
    using tcp_transmit_total [of ?w s "tsk\<lparr>tsk_retransmit := rt\<rparr>" k skb "snd_nxt (tsk_tcb tsk)"] assms
    by (auto simp: can_send_def)
  have "tcp_sent tsk k skb skb'" using t(3) by (simp add: tcp_sent_def)
  moreover have "tcp_queue_transmit_skb s skb w =
      Some (r, put_tsk s (queued tsk rt skb') (w\<lparr>w_net := n, w_timers := ts\<rparr>))"
    using tsk rt(1) t(1)
    by (simp add: tcp_queue_transmit_skb_def queued_def put_tsk_def on_sk_def)
  moreover have "timers_live ts (queued tsk rt skb')" using rt(2) by simp
  ultimately show ?thesis using t(2) rt(3-5) by blast
qed

lemma tcp_queue_transmit_sent:
  assumes "can_send w s tsk" and "tcp_ready k skb" and "skb_protocol skb = ucast IP_TCP"
    and "arp_get_hwaddr (w_net w) gateway = Some mac"
  shows "\<exists>rt skb' ts pkt sgm. tcp_queue_transmit_skb s skb w =
      Some (Indet, put_tsk s (queued tsk rt skb') (w\<lparr>w_net :=
        tun_write (eth_frame mac (nd_hwaddr (net_dev (w_net w))) ETH_P_IP pkt) (w_net w), w_timers := ts\<rparr>)) \<and>
    timers_live ts (queued tsk rt skb') \<and> tcp_sent tsk k skb skb' \<and>
    ip_datagram (net_dev (w_net w)) (sk_daddr (tsk_sk tsk)) IP_TCP sgm pkt \<and>
    tcp_segment tsk (snd_nxt (tsk_tcb tsk)) k (skb_buf skb ! 47)
      (take (unat (skb_len skb) + 4 * k - 20) (drop 54 (skb_buf skb))) sgm \<and>
    (skb_queue_empty (sk_write_queue (tsk_sk tsk)) \<longrightarrow> rt \<noteq> None) \<and>
    (\<not> skb_queue_empty (sk_write_queue (tsk_sk tsk)) \<longrightarrow> rt = tsk_retransmit tsk)"
proof -
  have tsk: "w_tcp w s = Some tsk" "q_linked (sk_write_queue (tsk_sk tsk))" and live: "timers_live (w_timers w) tsk"
    and net: "net_inv (w_net w)"
    using assms(1) by (simp_all add: can_send_def)
  obtain rt ts where rt: "(if skb_queue_empty (sk_write_queue (tsk_sk tsk))
       then tcp_reset_retransmission_timer s w else Some w) =
     Some (put_tsk s (tsk\<lparr>tsk_retransmit := rt\<rparr>) (w\<lparr>w_timers := ts\<rparr>))"
     "timers_live ts (tsk\<lparr>tsk_retransmit := rt\<rparr>)"
     "skb_queue_empty (sk_write_queue (tsk_sk tsk)) \<longrightarrow> rt \<noteq> None"
     "\<not> skb_queue_empty (sk_write_queue (tsk_sk tsk)) \<longrightarrow> rt = tsk_retransmit tsk"
    using queue_timer_ok [OF tsk(1) live] by blast
  let ?w = "put_tsk s (tsk\<lparr>tsk_retransmit := rt\<rparr>) (w\<lparr>w_timers := ts\<rparr>)"
  let ?n = "\<lambda>pkt. tun_write (eth_frame mac (nd_hwaddr (net_dev (w_net w))) ETH_P_IP pkt) (w_net w)"
  obtain skb' pkt sgm where t:
    "tcp_transmit_skb s skb (snd_nxt (tsk_tcb tsk)) ?w = Some (Indet, skb', ?w\<lparr>w_net := ?n pkt\<rparr>)"
    "tcp_sent (tsk\<lparr>tsk_retransmit := rt\<rparr>) k skb skb'"
    "ip_datagram (net_dev (w_net w)) (sk_daddr (tsk_sk tsk)) IP_TCP sgm pkt"
    "tcp_segment (tsk\<lparr>tsk_retransmit := rt\<rparr>) (snd_nxt (tsk_tcb tsk)) k (skb_buf skb ! 47)
      (take (unat (skb_len skb) + 4 * k - 20) (drop 54 (skb_buf skb))) sgm"
    using tcp_transmit_sent [of ?w s "tsk\<lparr>tsk_retransmit := rt\<rparr>" k skb mac "snd_nxt (tsk_tcb tsk)"]
      assms net by auto
  have "tcp_sent tsk k skb skb'" using t(2) by (simp add: tcp_sent_def)
  moreover have "tcp_segment tsk (snd_nxt (tsk_tcb tsk)) k (skb_buf skb ! 47)
      (take (unat (skb_len skb) + 4 * k - 20) (drop 54 (skb_buf skb))) sgm"
    using t(4) by (simp add: tcp_segment_def tcp_header_for_def)
  moreover have "tcp_queue_transmit_skb s skb w =
      Some (Indet, put_tsk s (queued tsk rt skb') (w\<lparr>w_net := ?n pkt, w_timers := ts\<rparr>))"
    using tsk rt(1) t(1)
    by (simp add: tcp_queue_transmit_skb_def queued_def put_tsk_def on_sk_def)
  moreover have "timers_live ts (queued tsk rt skb')" using rt(2) by simp
  ultimately show ?thesis using t(3) rt(3,4) by blast
qed

section \<open>Segments the code builds\<close>

text \<open>Segments without data.\<close>

lemma tcp_ctl_skb:
  "\<exists>skb. tcp_set_flags f (tcp_alloc_skb 0 0) = Some skb \<and> tcp_ready 5 skb \<and>
     skb_protocol skb = ucast IP_TCP \<and> skb_buf skb ! 47 = f \<and> skb_dlen skb = 0 \<and> skb_len skb = 0 \<and>
     skb_refcnt skb = 0 \<and> length (skb_buf skb) = 54"
  by (simp add: tcp_set_flags_def tcp_alloc_skb_def tcp_hdr_def skb_head_def skb_reserve_def
      alloc_skb_def Let_def tcp_ready_def hi_nibble_def)

text \<open>A segment with data, as \<open>tcp_send\<close> builds it.\<close>

lemma tcp_data_skb:
  assumes "length d = n" and "n \<le> 65000"
  shows "\<exists>skb0 b skb. skb_push (tcp_alloc_skb 0 n) n = Some skb0 \<and>
    store_bytes (skb_buf skb0) (skb_data skb0) d = Some b \<and>
    tcp_set_flags f (skb0\<lparr>skb_buf := b\<rparr>) = Some skb \<and>
    tcp_ready 5 skb \<and> skb_protocol skb = ucast IP_TCP \<and> skb_buf skb ! 47 = f \<and>
    unat (skb_dlen skb) = n \<and> unat (skb_len skb) = n \<and> skb_refcnt skb = 0 \<and>
    drop 54 (skb_buf skb) = d"
proof -
  have u: "unat (word_of_nat n :: u32) = n"
    using assms(2) by (simp add: unsigned_of_nat take_bit_nat_eq_self)
  let ?b = "put_bytes (replicate (54 + n) 0) 54 d"
  have len: "length ?b = 54 + n" and z: "?b ! 46 = 0" "?b ! 47 = 0" and d: "drop 54 ?b = d"
    using assms(1) by (simp_all add: put_bytes_def nth_append)
  show ?thesis
    using u len z d assms
    by (simp add: tcp_set_flags_def tcp_alloc_skb_def tcp_hdr_def skb_head_def skb_reserve_def
        alloc_skb_def Let_def tcp_ready_def hi_nibble_def skb_push_def)
qed

section \<open>Segmentation\<close>

function chunks :: "nat \<Rightarrow> bytes \<Rightarrow> bytes list" where
  "chunks m xs = (if xs = [] \<or> m = 0 then [] else take m xs # chunks m (drop m xs))"
  by pat_completeness auto
termination
  by (relation "measure (\<lambda>(m, xs). length xs)") auto

declare chunks.simps [simp del]

lemma chunks_Nil [simp]: "chunks m [] = []"
  by (simp add: chunks.simps)

lemma chunks_concat: "0 < m \<Longrightarrow> concat (chunks m xs) = xs"
  by (induction m xs rule: chunks.induct) (subst chunks.simps, auto)

lemma chunks_bound: "c \<in> set (chunks m xs) \<Longrightarrow> 0 < length c \<and> length c \<le> m"
  by (induction m xs rule: chunks.induct) (subst (asm) chunks.simps, auto split: if_splits)

lemma chunks_few: "length (chunks m xs) \<le> length xs"
  by (induction m xs rule: chunks.induct) (subst chunks.simps, auto simp: Suc_le_eq intro: le_less_trans)

text \<open>
  \<open>pkts\<close> carry the chunks in order, as segments of \<open>tsk\<close> with consecutive sequence numbers
  from \<open>seq\<close> on; only the last one is pushed.
\<close>

fun on_wire :: "tcp_sock \<Rightarrow> netdev \<Rightarrow> u32 \<Rightarrow> bytes list \<Rightarrow> bytes list \<Rightarrow> bool" where
  "on_wire tsk dev seq [] pkts \<longleftrightarrow> pkts = []"
| "on_wire tsk dev seq (c # cs) pkts \<longleftrightarrow>
     (\<exists>pkt rest sgm. pkts = pkt # rest \<and>
        ip_datagram dev (sk_daddr (tsk_sk tsk)) IP_TCP sgm pkt \<and>
        tcp_segment tsk seq 5 (if cs = [] then TCP_ACK OR TCP_PSH else TCP_ACK) c sgm \<and>
        on_wire tsk dev (seq + word_of_nat (length c)) cs rest)"

lemma tcp_segment_queued [simp]: "tcp_segment (queued tsk rt skb) = tcp_segment tsk"
  by (intro ext) (simp add: tcp_segment_def tcp_header_for_def queued_def on_sk_def on_tcb_def)

lemma on_wire_queued [simp]: "on_wire (queued tsk rt skb) dev seq cs pkts = on_wire tsk dev seq cs pkts"
proof (induction cs arbitrary: seq pkts)
  case (Cons c cs)
  have "sk_daddr (tsk_sk (queued tsk rt skb)) = sk_daddr (tsk_sk tsk)"
    by (simp add: queued_def on_sk_def on_tcb_def)
  with Cons show ?case by simp
qed simp

text \<open>What queueing the chunks leaves on the write queue.\<close>

definition queue_holds :: "tcp_sock \<Rightarrow> bytes list \<Rightarrow> sk_buff list \<Rightarrow> bool" where
  "queue_holds tsk cs items \<longleftrightarrow> map (\<lambda>skb. drop 54 (skb_buf skb)) items = cs \<and>
     (\<forall>skb\<in>set items. skb_seq skb = snd_una (tsk_tcb tsk) \<and>
        skb_end_seq skb = snd_una (tsk_tcb tsk) + skb_dlen skb \<and> skb_refcnt skb = 0 \<and>
        unat (skb_dlen skb) = length (drop 54 (skb_buf skb)))"

lemma queue_holds_queued: "queue_holds (queued tsk rt skb) = queue_holds tsk"
  by (intro ext) (simp add: queue_holds_def queued_def on_tcb_def on_sk_def)

text \<open>
  A packet on the write queue that can be sent again: \<open>skb_reset_header\<close> puts \<open>data\<close> back
  behind a header of \<open>k\<close> words.
\<close>

definition resendable :: "nat \<Rightarrow> sk_buff \<Rightarrow> bool" where
  "resendable k skb \<longleftrightarrow> 5 \<le> k \<and> k \<le> 15 \<and> hi_nibble (skb_buf skb ! 46) = word_of_nat k \<and>
     length (skb_buf skb) = 34 + 4 * k + unat (skb_dlen skb) \<and> unat (skb_dlen skb) + 4 * k + 20 < 65536 \<and>
     skb_protocol skb = ucast IP_TCP"

text \<open>One round of the loop.\<close>

lemma tcp_send_round:
  assumes "can_send w s tsk" and "arp_get_hwaddr (w_net w) gateway = Some mac"
    and "buf \<noteq> []" and "0 < m" and "m \<le> 65000"
  shows "\<exists>rt skb' ts pkt sgm. tcp_send_loop s buf (int (length buf)) (int m) w =
      tcp_send_loop s (drop m buf) (int (length (drop m buf))) (int m)
        (put_tsk s (queued tsk rt skb') (w\<lparr>w_net :=
          tun_write (eth_frame mac (nd_hwaddr (net_dev (w_net w))) ETH_P_IP pkt) (w_net w), w_timers := ts\<rparr>)) \<and>
    timers_live ts (queued tsk rt skb') \<and>
    queue_holds tsk [take m buf] [skb'] \<and> skb_dlen skb' = word_of_nat (length (take m buf)) \<and>
    ip_datagram (net_dev (w_net w)) (sk_daddr (tsk_sk tsk)) IP_TCP sgm pkt \<and>
    tcp_segment tsk (snd_nxt (tsk_tcb tsk)) 5
      (if drop m buf = [] then TCP_ACK OR TCP_PSH else TCP_ACK) (take m buf) sgm \<and>
    resendable 5 skb' \<and> skb_buf skb' ! 47 = (if drop m buf = [] then TCP_ACK OR TCP_PSH else TCP_ACK) \<and>
    (skb_queue_empty (sk_write_queue (tsk_sk tsk)) \<longrightarrow> rt \<noteq> None) \<and>
    (\<not> skb_queue_empty (sk_write_queue (tsk_sk tsk)) \<longrightarrow> rt = tsk_retransmit tsk)"
proof -
  let ?c = "take m buf" and ?f = "if drop m buf = [] then TCP_ACK OR TCP_PSH else TCP_ACK"
  let ?n = "length (take m buf)"
  have n: "?n \<le> 65000" using assms(5) by simp
  obtain skb0 b skb where d: "skb_push (tcp_alloc_skb 0 ?n) ?n = Some skb0"
    "store_bytes (skb_buf skb0) (skb_data skb0) ?c = Some b"
    "tcp_set_flags ?f (skb0\<lparr>skb_buf := b\<rparr>) = Some skb" "tcp_ready 5 skb"
    "skb_protocol skb = ucast IP_TCP" "skb_buf skb ! 47 = ?f" "unat (skb_dlen skb) = ?n"
    "unat (skb_len skb) = ?n" "skb_refcnt skb = 0" "drop 54 (skb_buf skb) = ?c"
    using tcp_data_skb [OF refl n, of ?f] by blast
  have len54: "54 \<le> length (skb_buf skb)" using d(4) by (simp add: tcp_ready_def)
  have rest: "take (unat (skb_len skb) + 4 * 5 - 20) (drop 54 (skb_buf skb)) = ?c"
    using d(8,10) by (simp add: min_def)
  obtain rt skb' ts pkt sgm where q: "tcp_queue_transmit_skb s skb w =
      Some (Indet, put_tsk s (queued tsk rt skb') (w\<lparr>w_net :=
        tun_write (eth_frame mac (nd_hwaddr (net_dev (w_net w))) ETH_P_IP pkt) (w_net w), w_timers := ts\<rparr>))"
    "timers_live ts (queued tsk rt skb')" "tcp_sent tsk 5 skb skb'"
    "ip_datagram (net_dev (w_net w)) (sk_daddr (tsk_sk tsk)) IP_TCP sgm pkt"
    "tcp_segment tsk (snd_nxt (tsk_tcb tsk)) 5 ?f ?c sgm"
    "skb_queue_empty (sk_write_queue (tsk_sk tsk)) \<longrightarrow> rt \<noteq> None"
    "\<not> skb_queue_empty (sk_write_queue (tsk_sk tsk)) \<longrightarrow> rt = tsk_retransmit tsk"
    using tcp_queue_transmit_sent [OF assms(1) d(4,5) assms(2)] unfolding rest d(6) by blast
  have dlen: "(if int (length buf) > int m then int m else int (length buf)) = int ?n"
    "int (length buf) - int ?n = int (length (drop m buf))" "take ?n buf = ?c" "drop ?n buf = drop m buf"
    "?n \<le> length buf" "(length buf = ?n) = (length buf \<le> m)"
    by (auto simp: min_def)
  have "tcp_send_loop s buf (int (length buf)) (int m) w =
      tcp_send_loop s (drop m buf) (int (length (drop m buf))) (int m)
        (put_tsk s (queued tsk rt skb') (w\<lparr>w_net :=
          tun_write (eth_frame mac (nd_hwaddr (net_dev (w_net w))) ETH_P_IP pkt) (w_net w), w_timers := ts\<rparr>))"
    using d(1-3) q(1) assms(3) unfolding tcp_send_loop.simps [of s buf "int (length buf)"] dlen(1)
    by (simp add: Let_def dlen(2-6) del: length_take length_drop)
  moreover have "word_of_nat ?n = skb_dlen skb" by (metis d(7) of_nat_unat ucast_id)
  then have "skb_dlen skb' = word_of_nat ?n" using q(3) by (simp add: tcp_sent_def)
  moreover have "length (drop 54 (skb_buf skb')) = ?n" "drop 54 (skb_buf skb') = ?c"
    using q(3) d(10) by (simp_all add: tcp_sent_def)
  then have "queue_holds tsk [?c] [skb']"
    using q(3) d(7,9) by (simp add: queue_holds_def tcp_sent_def)
  moreover have "length (skb_buf skb) = 54 + ?n" using d(7,10) len54 by (metis add_diff_inverse_nat length_drop not_less)
  then have "resendable 5 skb'" "skb_buf skb' ! 47 = ?f"
    using q(3) d(4-7) n by (simp_all add: resendable_def tcp_sent_def)
  ultimately show ?thesis using q(2,4-7) by blast
qed

text \<open>
  \<open>tcp_send\<close> of a whole buffer: it returns, the packets on the wire carry the buffer in order,
  \<open>snd_nxt\<close> advances by its length and every segment waits on the write queue.
\<close>

lemma tcp_send_loop_sent:
  assumes "can_send w s tsk" and "arp_get_hwaddr (w_net w) gateway = Some mac"
    and "0 < m" and "m \<le> 65000"
  shows "\<exists>w' tsk' pkts items. tcp_send_loop s buf (int (length buf)) (int m) w = Some w' \<and>
    can_send w' s tsk' \<and>
    w_net w' = (w_net w)\<lparr>net_tx := net_tx (w_net w) @
      map (eth_frame mac (nd_hwaddr (net_dev (w_net w))) ETH_P_IP) pkts\<rparr> \<and>
    on_wire tsk (net_dev (w_net w)) (snd_nxt (tsk_tcb tsk)) (chunks m buf) pkts \<and>
    tsk_tcb tsk' = (tsk_tcb tsk)\<lparr>snd_nxt := snd_nxt (tsk_tcb tsk) + word_of_nat (length buf)\<rparr> \<and>
    q_items (sk_write_queue (tsk_sk tsk')) = q_items (sk_write_queue (tsk_sk tsk)) @ items \<and>
    queue_holds tsk (chunks m buf) items"
  using assms
proof (induction m buf arbitrary: w tsk rule: chunks.induct)
  case (1 m buf)
  show ?case
  proof (cases "buf = []")
    case True
    have "tcp_send_loop s buf (int (length buf)) (int m) w = Some w"
      using True by (subst tcp_send_loop.simps) simp
    with True "1.prems"(1) show ?thesis by (auto simp: queue_holds_def)
  next
    case False
    let ?d = "net_dev (w_net w)" and ?n = "length (take m buf)"
    obtain rt skb ts pkt sgm where r: "tcp_send_loop s buf (int (length buf)) (int m) w =
        tcp_send_loop s (drop m buf) (int (length (drop m buf))) (int m)
          (put_tsk s (queued tsk rt skb) (w\<lparr>w_net :=
            tun_write (eth_frame mac (nd_hwaddr ?d) ETH_P_IP pkt) (w_net w), w_timers := ts\<rparr>))"
      "timers_live ts (queued tsk rt skb)" "queue_holds tsk [take m buf] [skb]"
      "skb_dlen skb = word_of_nat ?n"
      "ip_datagram ?d (sk_daddr (tsk_sk tsk)) IP_TCP sgm pkt"
      "tcp_segment tsk (snd_nxt (tsk_tcb tsk)) 5
        (if drop m buf = [] then TCP_ACK OR TCP_PSH else TCP_ACK) (take m buf) sgm"
      using tcp_send_round [OF "1.prems"(1,2) False "1.prems"(3,4)] by blast
    let ?w = "put_tsk s (queued tsk rt skb) (w\<lparr>w_net :=
            tun_write (eth_frame mac (nd_hwaddr ?d) ETH_P_IP pkt) (w_net w), w_timers := ts\<rparr>)"
    let ?t = "queued tsk rt skb"
    have cs: "can_send ?w s ?t" using "1.prems"(1) r(2) by (simp add: can_send_def)
    have nx: "snd_nxt (tsk_tcb ?t) = snd_nxt (tsk_tcb tsk) + word_of_nat ?n"
      "tsk_tcb ?t = (tsk_tcb tsk)\<lparr>snd_nxt := snd_nxt (tsk_tcb tsk) + word_of_nat ?n\<rparr>"
      using r(4) by (simp_all add: queued_def on_tcb_def)
    have dev: "net_dev (w_net ?w) = ?d" by (simp add: tun_write_def)
    have "\<exists>w' tsk' pkts items. tcp_send_loop s (drop m buf) (int (length (drop m buf))) (int m) ?w = Some w' \<and>
      can_send w' s tsk' \<and>
      w_net w' = (w_net ?w)\<lparr>net_tx := net_tx (w_net ?w) @
        map (eth_frame mac (nd_hwaddr (net_dev (w_net ?w))) ETH_P_IP) pkts\<rparr> \<and>
      on_wire ?t (net_dev (w_net ?w)) (snd_nxt (tsk_tcb ?t)) (chunks m (drop m buf)) pkts \<and>
      tsk_tcb tsk' = (tsk_tcb ?t)\<lparr>snd_nxt := snd_nxt (tsk_tcb ?t) + word_of_nat (length (drop m buf))\<rparr> \<and>
      q_items (sk_write_queue (tsk_sk tsk')) = q_items (sk_write_queue (tsk_sk ?t)) @ items \<and>
      queue_holds ?t (chunks m (drop m buf)) items"
      using False "1.prems" cs by (intro "1.IH") auto
    then obtain w' tsk' pkts items where i:
      "tcp_send_loop s (drop m buf) (int (length (drop m buf))) (int m) ?w = Some w'" "can_send w' s tsk'"
      "w_net w' = (w_net w)\<lparr>net_tx := net_tx (w_net w) @
        map (eth_frame mac (nd_hwaddr ?d) ETH_P_IP) (pkt # pkts)\<rparr>"
      "on_wire tsk ?d (snd_nxt (tsk_tcb tsk) + word_of_nat ?n) (chunks m (drop m buf)) pkts"
      "tsk_tcb tsk' = (tsk_tcb tsk)\<lparr>snd_nxt := snd_nxt (tsk_tcb tsk) + word_of_nat ?n +
         word_of_nat (length (drop m buf))\<rparr>"
      "q_items (sk_write_queue (tsk_sk tsk')) = q_items (sk_write_queue (tsk_sk tsk)) @ skb # items"
      "queue_holds tsk (chunks m (drop m buf)) items"
      unfolding dev nx on_wire_queued queue_holds_queued
      by (auto simp: tun_write_def queued_def on_sk_def on_tcb_def queue_push_def)
    have ch: "chunks m buf = take m buf # chunks m (drop m buf)"
      using False "1.prems"(3) by (subst chunks.simps) simp
    have last: "chunks m (drop m buf) = [] \<longleftrightarrow> drop m buf = []"
      using "1.prems"(3) by (subst chunks.simps) simp
    have "length buf = ?n + length (drop m buf)" by simp
    then have sum: "word_of_nat ?n + word_of_nat (length (drop m buf)) = (word_of_nat (length buf) :: u32)"
      by (metis of_nat_add)
    have "on_wire tsk ?d (snd_nxt (tsk_tcb tsk)) (chunks m buf) (pkt # pkts)"
      unfolding ch using r(5,6) i(4) last by auto
    moreover have "queue_holds tsk (chunks m buf) (skb # items)"
      unfolding ch using r(3) i(7) by (auto simp: queue_holds_def)
    ultimately show ?thesis
      using r(1) i(1-3,5,6) sum by (intro exI conjI) (simp_all add: add.assoc del: length_take length_drop)
  qed
qed

section \<open>Control segments and timers never fault\<close>

lemma tcp_transmit_ctl:
  assumes "w_tcp w s = Some tsk" and "others_ok (w_others w)" and "net_inv (w_net w)"
  shows "\<exists>skb r skb' n. tcp_set_flags f (tcp_alloc_skb 0 0) = Some skb \<and>
    tcp_transmit_skb s skb seq w = Some (r, skb', w\<lparr>w_net := n\<rparr>) \<and> net_inv n"
proof -
  obtain skb where skb: "tcp_set_flags f (tcp_alloc_skb 0 0) = Some skb" "tcp_ready 5 skb"
    using tcp_ctl_skb by blast
  with tcp_transmit_total [OF assms(1) skb(2) assms(2,3)] show ?thesis by blast
qed

lemma tcp_send_ack_total:
  assumes "can_send w s tsk"
  shows "\<exists>r n. tcp_send_ack s w = Some (r, w\<lparr>w_net := n\<rparr>) \<and> net_inv n"
proof (cases "tsk_state tsk = TCP_CLOSE")
  case True
  then have "tcp_send_ack s w = Some (Rc 0, w\<lparr>w_net := w_net w\<rparr>)"
    using assms by (simp add: tcp_send_ack_def can_send_def)
  then show ?thesis using assms by (metis can_send_def)
next
  case False
  obtain skb r skb' n where t: "tcp_set_flags TCP_ACK (tcp_alloc_skb 0 0) = Some skb"
    "tcp_transmit_skb s skb (snd_nxt (tsk_tcb tsk)) w = Some (r, skb', w\<lparr>w_net := n\<rparr>)" "net_inv n"
    using tcp_transmit_ctl [of w s tsk] assms unfolding can_send_def by blast
  then have "tcp_send_ack s w = Some (r, w\<lparr>w_net := n\<rparr>)"
    using False assms by (simp add: tcp_send_ack_def can_send_def)
  with t(3) show ?thesis by blast
qed

lemma tcp_send_reset_total:
  assumes "can_send w s tsk"
  shows "\<exists>r n. tcp_send_reset s w = Some (r,
      put_tsk s (on_tcb (\<lambda>tcb. tcb\<lparr>snd_una := snd_nxt tcb\<rparr>) tsk) (w\<lparr>w_net := n\<rparr>)) \<and> net_inv n"
proof -
  let ?t = "on_tcb (\<lambda>tcb. tcb\<lparr>snd_una := snd_nxt tcb\<rparr>) tsk"
  obtain skb r skb' n where t: "tcp_set_flags TCP_RST (tcp_alloc_skb 0 0) = Some skb"
    "tcp_transmit_skb s skb (snd_nxt (tsk_tcb tsk)) (put_tsk s ?t w) = Some (r, skb', (put_tsk s ?t w)\<lparr>w_net := n\<rparr>)"
    "net_inv n"
    using tcp_transmit_ctl [of "put_tsk s ?t w" s ?t TCP_RST "snd_nxt (tsk_tcb tsk)"] assms
    by (auto simp: can_send_def)
  then have "tcp_send_reset s w = Some (r, put_tsk s ?t (w\<lparr>w_net := n\<rparr>))"
    using assms by (simp add: tcp_send_reset_def can_send_def put_tsk_def)
  with t(3) show ?thesis by blast
qed

lemma tcp_stop_delack_timer_ok:
  assumes "w_tcp w s = Some tsk" and "timers_live (w_timers w) tsk"
  shows "\<exists>ts. tcp_stop_delack_timer s w = Some (put_tsk s (tsk\<lparr>tsk_delack := None\<rparr>) (w\<lparr>w_timers := ts\<rparr>)) \<and>
    timers_live ts (tsk\<lparr>tsk_delack := None\<rparr>) \<and> tick ts = tick (w_timers w)"
proof -
  obtain ts where ts: "timer_cancel (tsk_delack tsk) (w_timers w) = Some ts" "timers_live ts tsk"
    "tick ts = tick (w_timers w)"
    using timer_cancel_live [OF assms(2)] by blast
  then show ?thesis
    using assms(1) by (auto simp: tcp_stop_delack_timer_def timers_live_def)
qed

lemma tcp_stop_retransmission_timer_ok:
  assumes "w_tcp w s = Some tsk" and "timers_live (w_timers w) tsk"
  shows "\<exists>ts. tcp_stop_retransmission_timer s w =
      Some (put_tsk s (tsk\<lparr>tsk_retransmit := None\<rparr>) (w\<lparr>w_timers := ts\<rparr>)) \<and>
    timers_live ts (tsk\<lparr>tsk_retransmit := None\<rparr>) \<and> tick ts = tick (w_timers w)"
proof -
  obtain ts where ts: "timer_cancel (tsk_retransmit tsk) (w_timers w) = Some ts" "timers_live ts tsk"
    "tick ts = tick (w_timers w)"
    using timer_cancel_live [OF assms(2)] by blast
  then show ?thesis
    using assms(1) by (auto simp: tcp_stop_retransmission_timer_def timers_live_def)
qed

end
