(* ===== verification/Tcp_Data.thy ===== *)
theory Tcp_Data
  imports Tcp_Output
begin

text \<open>
  \<open>tcp_data.c\<close>: the receive queue, the queue of segments that arrived out of order, and reading
  from them.

  A received packet keeps its headers at fixed offsets; \<open>skb_payload\<close> and \<open>skb_dlen\<close> delimit the
  data still to be read.
\<close>

section \<open>Out-of-order segments\<close>

text \<open>
  The loop of \<open>tcp_data_insert_ordered\<close>, at position \<open>i\<close> with the elements \<open>rest\<close> still to be
  visited.  The result says where the packet goes: \<open>Inl None\<close> at the tail, \<open>Inl (Some i)\<close> right
  behind the element \<open>i\<close> (\<open>skb_queue_add\<close> calls \<open>list_add\<close> with that element), \<open>Inr ()\<close> nowhere.
\<close>

fun ofo_position :: "sk_buff \<Rightarrow> nat \<Rightarrow> sk_buff list \<Rightarrow> nat option + unit" where
  "ofo_position skb i [] = Inl None"
| "ofo_position skb i (next # rest) =
     (if skb_seq skb < skb_seq next
      then if skb_end_seq skb > skb_seq next then ofo_position skb (i + 1) rest
        else Inl (Some i)
      else if skb_seq skb = skb_seq next then Inr ()
      else ofo_position skb (i + 1) rest)"

definition tcp_data_insert_ordered :: "sk_buff_head \<Rightarrow> sk_buff \<Rightarrow> (sk_buff \<times> sk_buff_head) option" where
  "tcp_data_insert_ordered queue skb =
     (case ofo_position skb 0 (q_items queue) of
        Inr _ \<Rightarrow> Some (skb, queue)
      | Inl p \<Rightarrow> do {
          let skb = skb\<lparr>skb_refcnt := skb_refcnt skb + 1\<rparr>;
          q \<leftarrow> (case p of Some i \<Rightarrow> Some (skb_queue_add queue skb i) | None \<Rightarrow> skb_queue_tail queue skb);
          Some (skb, q)
        })"

text \<open>
  \<open>tcp_consume_ofo_queue\<close>: while the head of the out-of-order queue is the next expected
  segment, move it to the receive queue.
\<close>

function tcp_consume_ofo_queue :: "tcp_sock \<Rightarrow> tcp_sock option" where
  "tcp_consume_ofo_queue tsk =
     (if skb_queue_empty (tsk_ofo_queue tsk) then Some tsk
      else case q_items (tsk_ofo_queue tsk) of
          [] \<Rightarrow> None
        | skb # rest \<Rightarrow>
            if rcv_nxt (tsk_tcb tsk) = skb_seq skb
            then do {
              rq \<leftarrow> skb_queue_tail (sk_receive_queue (tsk_sk tsk)) skb;
              tcp_consume_ofo_queue
                (on_sk (\<lambda>sk. sk\<lparr>sk_receive_queue := rq\<rparr>)
                  (on_tcb (\<lambda>tcb. tcb\<lparr>rcv_nxt := rcv_nxt tcb + skb_dlen skb\<rparr>)
                    (tsk\<lparr>tsk_ofo_queue := (tsk_ofo_queue tsk)\<lparr>q_items := rest,
                      qlen := qlen (tsk_ofo_queue tsk) - 1\<rparr>\<rparr>)))
            }
            else Some tsk)"
  by pat_completeness auto
termination
  by (relation "measure (\<lambda>tsk. unat (qlen (tsk_ofo_queue tsk)))") (auto dest: qlen_dec)

declare tcp_consume_ofo_queue.simps [simp del]

section \<open>Arrival\<close>

text \<open>
  The end of the in-sequence branch of \<open>tcp_data_queue\<close>: an ack at once when the segment is
  pushed or is the second full-sized one, the delayed-ack timer otherwise.
\<close>

definition tcp_data_ack :: "sid \<Rightarrow> tcphdr \<Rightarrow> sk_buff \<Rightarrow> world \<Rightarrow> world option" where
  "tcp_data_ack s th skb w = do {
     tsk \<leftarrow> w_tcp w s;
     let full = (skb_dlen skb = ucast (tsk_rmss tsk));
     let tsk = (if \<not> th_psh th \<and> full then tsk\<lparr>tsk_delacks := tsk_delacks tsk + 1\<rparr> else tsk);
     (if th_psh th \<or> full \<and> tsk_delacks tsk > 1
      then do {
        (r, w) \<leftarrow> tcp_send_ack s (put_tsk s (tsk\<lparr>tsk_delacks := 0\<rparr>) w);
        Some w
      }
      else do {
        let (t, w) = world_timer_add 200 Send_delack s w;
        Some (put_tsk s (tsk\<lparr>tsk_delack := Some t\<rparr>) w)
      })
   }"

text \<open>
  \<open>tcp_data_queue\<close>.  The result is the fate of the packet after the call: \<open>None\<close> when it was
  freed.  The caller goes on using the packet.
\<close>

definition tcp_data_queue ::
    "sid \<Rightarrow> tcphdr \<Rightarrow> sk_buff \<Rightarrow> world \<Rightarrow> (int \<times> sk_buff option \<times> world) option" where
  "tcp_data_queue s th skb w = do {
     tsk \<leftarrow> w_tcp w s;
     (if rcv_wnd (tsk_tcb tsk) = 0 then Some (-1, free_skb skb, w)
      else if skb_seq skb = rcv_nxt (tsk_tcb tsk)
      then do {
        let tsk = on_tcb (\<lambda>tcb. tcb\<lparr>rcv_nxt := rcv_nxt tcb + skb_dlen skb\<rparr>) tsk;
        let skb = skb\<lparr>skb_refcnt := skb_refcnt skb + 1\<rparr>;
        rq \<leftarrow> skb_queue_tail (sk_receive_queue (tsk_sk tsk)) skb;
        let tsk = on_sk (\<lambda>sk. sk\<lparr>sk_receive_queue := rq\<rparr>) tsk;
        tsk \<leftarrow> tcp_consume_ofo_queue tsk;
        w \<leftarrow> tcp_stop_delack_timer s (put_tsk s tsk w);
        w \<leftarrow> tcp_data_ack s th skb w;
        Some (0, Some skb, w)
      }
      else do {
        (skb, q) \<leftarrow> tcp_data_insert_ordered (tsk_ofo_queue tsk) skb;
        (r, w) \<leftarrow> tcp_send_ack s (put_tsk s (tsk\<lparr>tsk_ofo_queue := q\<rparr>) w);
        Some (0, Some skb, w)
      })
   }"

section \<open>Reading\<close>

text \<open>
  \<open>tcp_data_dequeue\<close>: \<open>out\<close> is what was copied to the user so far (\<open>rlen\<close> is its length),
  \<open>userlen\<close> the size of the user's buffer.  The sum \<open>rlen + skb->dlen\<close> is 32-bit and can wrap,
  in which case the whole of \<open>dlen\<close> is copied: behind the user's buffer, a fault.
\<close>

partial_function (option) tcp_dequeue_loop ::
    "u32 \<Rightarrow> bytes \<Rightarrow> tcp_sock \<Rightarrow> (bytes \<times> tcp_sock) option" where
  "tcp_dequeue_loop userlen out tsk =
     (let q = sk_receive_queue (tsk_sk tsk); rlen = (word_of_nat (length out) :: u32) in
      if \<not> skb_queue_empty q \<and> rlen < userlen
      then (case q_items q of
          [] \<Rightarrow> None
        | skb # rest \<Rightarrow>
            let dlen = (if rlen + skb_dlen skb > userlen then userlen - rlen else skb_dlen skb) in
            Option.bind (load_bytes (skb_buf skb) (skb_payload skb) (unat dlen)) (\<lambda>d.
            if unat userlen < length out + unat dlen then None
            else
              let skb = skb\<lparr>skb_dlen := skb_dlen skb - dlen, skb_payload := skb_payload skb + unat dlen\<rparr> in
              if skb_dlen skb = 0
              then Option.bind (load8 (skb_buf skb) (tcp_hdr skb + 13)) (\<lambda>v.
                let tsk = (if v AND TCP_PSH \<noteq> 0 then tsk\<lparr>tsk_flags := tsk_flags tsk OR TCP_PSH\<rparr> else tsk) in
                tcp_dequeue_loop userlen (out @ d)
                  (on_sk (\<lambda>sk. sk\<lparr>sk_receive_queue := q\<lparr>q_items := rest, qlen := qlen q - 1\<rparr>\<rparr>) tsk))
              else tcp_dequeue_loop userlen (out @ d)
                  (on_sk (\<lambda>sk. sk\<lparr>sk_receive_queue := q\<lparr>q_items := skb # rest\<rparr>\<rparr>) tsk)))
      else Some (out, tsk))"

definition tcp_data_dequeue :: "sid \<Rightarrow> u32 \<Rightarrow> world \<Rightarrow> (bytes \<times> world) option" where
  "tcp_data_dequeue s userlen w = do {
     tsk \<leftarrow> w_tcp w s;
     (out, tsk) \<leftarrow> tcp_dequeue_loop userlen [] tsk;
     Some (out, put_tsk s tsk w)
   }"

section \<open>The receive queue as a byte stream\<close>

text \<open>The data a received packet still holds, and what makes the packet safe to read.\<close>

definition rx_data :: "sk_buff \<Rightarrow> bytes" where
  "rx_data skb = take (unat (skb_dlen skb)) (drop (skb_payload skb) (skb_buf skb))"

definition rx_ok :: "sk_buff \<Rightarrow> bool" where
  "rx_ok skb \<longleftrightarrow> skb_payload skb + unat (skb_dlen skb) \<le> length (skb_buf skb) \<and>
     54 \<le> length (skb_buf skb) \<and> unat (skb_dlen skb) < 65536"

abbreviation rx_items :: "tcp_sock \<Rightarrow> sk_buff list" where
  "rx_items tsk \<equiv> q_items (sk_receive_queue (tsk_sk tsk))"

definition rx_stream :: "tcp_sock \<Rightarrow> bytes" where
  "rx_stream tsk = concat (map rx_data (rx_items tsk))"

definition rx_inv :: "tcp_sock \<Rightarrow> bool" where
  "rx_inv tsk \<longleftrightarrow> queue_inv (sk_receive_queue (tsk_sk tsk)) \<and> (\<forall>skb\<in>set (rx_items tsk). rx_ok skb)"

lemma length_rx_data: "rx_ok skb \<Longrightarrow> length (rx_data skb) = unat (skb_dlen skb)"
  by (auto simp: rx_data_def rx_ok_def min_def)

lemma rx_inv_unfold:
  "rx_inv tsk \<Longrightarrow> skb_queue_empty (sk_receive_queue (tsk_sk tsk)) \<longleftrightarrow> rx_items tsk = []"
  by (simp add: rx_inv_def queue_inv_empty)

text \<open>One step of the reading loop: the first packet of the queue.\<close>

lemma dequeue_step_len:
  assumes "length out < unat userlen" and "unat userlen < 2 ^ 31" and "rx_ok skb"
  shows "(word_of_nat (length out) :: u32) < userlen"
    and "(if word_of_nat (length out) + skb_dlen skb > userlen then userlen - word_of_nat (length out)
          else skb_dlen skb) = word_of_nat (min (unat (skb_dlen skb)) (unat userlen - length out))"
proof -
  let ?r = "word_of_nat (length out) :: u32"
  have r: "unat ?r = length out" using assms by (simp add: unsigned_of_nat take_bit_nat_eq_self)
  show "?r < userlen" using assms r by (simp add: word_less_nat_alt)
  have "unat (?r + skb_dlen skb) = length out + unat (skb_dlen skb)"
    using assms r by (simp add: unat_word_ariths rx_ok_def)
  then have gt: "?r + skb_dlen skb > userlen \<longleftrightarrow> unat userlen < length out + unat (skb_dlen skb)"
    by (simp add: word_less_nat_alt)
  have "unat (userlen - ?r) = unat userlen - length out"
    using assms r by (subst unat_sub) (auto simp: word_le_nat_alt)
  then have "userlen - ?r = word_of_nat (unat userlen - length out)"
    by (metis of_nat_unat ucast_id)
  then show "(if ?r + skb_dlen skb > userlen then userlen - ?r else skb_dlen skb) =
      word_of_nat (min (unat (skb_dlen skb)) (unat userlen - length out))"
    using assms(1) by (auto simp: gt min_def)
qed

text \<open>A packet of which \<open>k\<close> bytes were read.\<close>

definition rx_advance :: "nat \<Rightarrow> sk_buff \<Rightarrow> sk_buff" where
  "rx_advance k skb = skb\<lparr>skb_dlen := skb_dlen skb - word_of_nat k, skb_payload := skb_payload skb + k\<rparr>"

lemma rx_advance_props:
  assumes "rx_ok skb" and "k \<le> unat (skb_dlen skb)"
  shows "unat (skb_dlen (rx_advance k skb)) = unat (skb_dlen skb) - k"
    and "rx_ok (rx_advance k skb)" and "rx_data (rx_advance k skb) = drop k (rx_data skb)"
proof -
  have k: "unat (word_of_nat k :: u32) = k"
    using assms by (simp add: rx_ok_def unsigned_of_nat take_bit_nat_eq_self)
  show d: "unat (skb_dlen (rx_advance k skb)) = unat (skb_dlen skb) - k"
    using assms(2) k by (simp add: rx_advance_def) (subst unat_sub, auto simp: word_le_nat_alt)
  show "rx_ok (rx_advance k skb)"
    using assms d by (auto simp: rx_ok_def rx_advance_def)
  show "rx_data (rx_advance k skb) = drop k (rx_data skb)"
    using d by (simp add: rx_data_def drop_take) (simp add: rx_advance_def add.commute)
qed

lemma tcp_dequeue_step:
  assumes "rx_items tsk = skb # rest" and "rx_inv tsk" and "length out < unat userlen"
    and "unat userlen < 2 ^ 31" and k: "k = min (unat (skb_dlen skb)) (unat userlen - length out)"
  shows "\<exists>f. tcp_dequeue_loop userlen out tsk =
    (let q = sk_receive_queue (tsk_sk tsk) in
     if unat (skb_dlen skb) = k
     then tcp_dequeue_loop userlen (out @ rx_data skb)
       (on_sk (\<lambda>sk. sk\<lparr>sk_receive_queue := q\<lparr>q_items := rest, qlen := qlen q - 1\<rparr>\<rparr>) (tsk\<lparr>tsk_flags := f\<rparr>))
     else tcp_dequeue_loop userlen (out @ take k (rx_data skb))
       (on_sk (\<lambda>sk. sk\<lparr>sk_receive_queue := q\<lparr>q_items := rx_advance k skb # rest\<rparr>\<rparr>) tsk))"
proof -
  let ?q = "sk_receive_queue (tsk_sk tsk)"
  have ok: "rx_ok skb" using assms(1,2) by (simp add: rx_inv_def)
  note len = dequeue_step_len [OF assms(3,4) ok, folded k]
  have kle: "k \<le> unat (skb_dlen skb)" "\<not> unat userlen < length out + k"
    using k assms(3) by auto
  have ku: "unat (word_of_nat k :: u32) = k"
    using ok kle(1) by (simp add: rx_ok_def unsigned_of_nat take_bit_nat_eq_self)
  have ne: "\<not> skb_queue_empty ?q" using rx_inv_unfold [OF assms(2)] assms(1) by simp
  have ld: "load_bytes (skb_buf skb) (skb_payload skb) k = Some (take k (rx_data skb))"
    using ok kle(1) by (simp add: load_bytes_def rx_ok_def rx_data_def)
  have adv: "skb\<lparr>skb_dlen := skb_dlen skb - word_of_nat k, skb_payload := skb_payload skb + k\<rparr> =
      rx_advance k skb"
    by (simp add: rx_advance_def)
  have z: "skb_dlen (rx_advance k skb) = 0 \<longleftrightarrow> unat (skb_dlen skb) = k"
    using rx_advance_props(1) [OF ok kle(1)] kle(1)
      unsigned_eq_0_iff [of "skb_dlen (rx_advance k skb)", where ?'a = nat] by auto
  have psh: "load8 (skb_buf (rx_advance k skb)) (tcp_hdr (rx_advance k skb) + 13) = Some (skb_buf skb ! 47)"
    using ok by (simp add: rx_advance_def tcp_hdr_def skb_head_def rx_ok_def)
  define f where "f = (if skb_buf skb ! 47 AND TCP_PSH \<noteq> 0 then tsk_flags tsk OR TCP_PSH else tsk_flags tsk)"
  have "tcp_dequeue_loop userlen out tsk =
     (if unat (skb_dlen skb) = k
     then tcp_dequeue_loop userlen (out @ take k (rx_data skb))
       (on_sk (\<lambda>sk. sk\<lparr>sk_receive_queue := ?q\<lparr>q_items := rest, qlen := qlen ?q - 1\<rparr>\<rparr>) (tsk\<lparr>tsk_flags := f\<rparr>))
     else tcp_dequeue_loop userlen (out @ take k (rx_data skb))
       (on_sk (\<lambda>sk. sk\<lparr>sk_receive_queue := ?q\<lparr>q_items := rx_advance k skb # rest\<rparr>\<rparr>) tsk))"
    using len(1) ne kle(2)
    by (subst tcp_dequeue_loop.simps) (simp add: Let_def assms(1) len(2) ku ld adv z psh f_def)
  moreover have "unat (skb_dlen skb) = k \<Longrightarrow> take k (rx_data skb) = rx_data skb"
    using length_rx_data [OF ok] by simp
  ultimately show ?thesis by (auto simp: Let_def)
qed

lemma rx_stream_on_sk:
  "rx_stream (on_sk (\<lambda>sk. sk\<lparr>sk_receive_queue := q\<rparr>) tsk) = concat (map rx_data (q_items q))"
  by (simp add: rx_stream_def)

text \<open>
  Reading takes the next bytes of the stream, as many as there are and as the user asked for,
  and leaves the rest; it never faults.
\<close>

lemma tcp_dequeue_stream:
  assumes "rx_inv tsk" and "length out \<le> unat userlen" and "unat userlen < 2 ^ 31"
  shows "\<exists>f q. tcp_dequeue_loop userlen out tsk =
      Some (out @ take (unat userlen - length out) (rx_stream tsk),
        on_sk (\<lambda>sk. sk\<lparr>sk_receive_queue := q\<rparr>) (tsk\<lparr>tsk_flags := f\<rparr>)) \<and>
    rx_inv (on_sk (\<lambda>sk. sk\<lparr>sk_receive_queue := q\<rparr>) (tsk\<lparr>tsk_flags := f\<rparr>)) \<and>
    concat (map rx_data (q_items q)) = drop (unat userlen - length out) (rx_stream tsk) \<and>
    length (q_items q) \<le> length (rx_items tsk)"
  using assms
proof (induction "rx_items tsk" arbitrary: tsk out)
  case Nil
  have "skb_queue_empty (sk_receive_queue (tsk_sk tsk))"
    using rx_inv_unfold [OF Nil.prems(1)] Nil.hyps by simp
  then have "tcp_dequeue_loop userlen out tsk = Some (out, tsk)"
    by (subst tcp_dequeue_loop.simps) simp
  moreover have "tsk = on_sk (\<lambda>sk. sk\<lparr>sk_receive_queue := sk_receive_queue (tsk_sk tsk)\<rparr>) (tsk\<lparr>tsk_flags := tsk_flags tsk\<rparr>)"
    by (simp add: on_sk_def)
  moreover have "rx_stream tsk = []" using Nil.hyps by (simp add: rx_stream_def)
  ultimately show ?case using Nil by (intro exI [of _ "tsk_flags tsk"] exI [of _ "sk_receive_queue (tsk_sk tsk)"]) auto
next
  case (Cons skb rest)
  let ?q = "sk_receive_queue (tsk_sk tsk)"
  show ?case
  proof (cases "length out < unat userlen")
    case False
    then have eq: "length out = unat userlen" using Cons.prems(2) by simp
    then have "\<not> (word_of_nat (length out) :: u32) < userlen" by (simp add: eq)
    then have "tcp_dequeue_loop userlen out tsk = Some (out, tsk)"
      by (subst tcp_dequeue_loop.simps) (simp add: Let_def)
    moreover have "tsk = on_sk (\<lambda>sk. sk\<lparr>sk_receive_queue := ?q\<rparr>) (tsk\<lparr>tsk_flags := tsk_flags tsk\<rparr>)"
      by (simp add: on_sk_def)
    ultimately show ?thesis
      using Cons.prems(1) eq by (intro exI [of _ "tsk_flags tsk"] exI [of _ ?q]) (auto simp: rx_stream_def)
  next
    case True
    define k where "k = min (unat (skb_dlen skb)) (unat userlen - length out)"
    have items: "rx_items tsk = skb # rest" using Cons.hyps(2) by simp
    have ok: "rx_ok skb" and qi: "queue_inv ?q" and oks: "\<forall>skb\<in>set rest. rx_ok skb"
      using Cons.prems(1) items by (simp_all add: rx_inv_def)
    have stream: "rx_stream tsk = rx_data skb @ concat (map rx_data rest)"
      using items by (simp add: rx_stream_def)
    note dl = length_rx_data [OF ok]
    obtain f where step: "tcp_dequeue_loop userlen out tsk =
       (if unat (skb_dlen skb) = k
       then tcp_dequeue_loop userlen (out @ rx_data skb)
         (on_sk (\<lambda>sk. sk\<lparr>sk_receive_queue := ?q\<lparr>q_items := rest, qlen := qlen ?q - 1\<rparr>\<rparr>) (tsk\<lparr>tsk_flags := f\<rparr>))
       else tcp_dequeue_loop userlen (out @ take k (rx_data skb))
         (on_sk (\<lambda>sk. sk\<lparr>sk_receive_queue := ?q\<lparr>q_items := rx_advance k skb # rest\<rparr>\<rparr>) tsk))"
      using tcp_dequeue_step [OF items Cons.prems(1) True Cons.prems(3) k_def] unfolding Let_def by blast
    show ?thesis
    proof (cases "unat (skb_dlen skb) = k")
      case whole: True
      let ?t = "on_sk (\<lambda>sk. sk\<lparr>sk_receive_queue := ?q\<lparr>q_items := rest, qlen := qlen ?q - 1\<rparr>\<rparr>) (tsk\<lparr>tsk_flags := f\<rparr>)"
      have inv: "rx_inv ?t" using queue_inv_tl [OF qi items] oks by (simp add: rx_inv_def)
      have "unat (skb_dlen skb) \<le> unat userlen - length out" using whole unfolding k_def by linarith
      then have le: "length (out @ rx_data skb) \<le> unat userlen" using True dl by simp
      obtain f' q' where ih: "tcp_dequeue_loop userlen (out @ rx_data skb) ?t =
          Some ((out @ rx_data skb) @ take (unat userlen - length (out @ rx_data skb)) (rx_stream ?t),
            on_sk (\<lambda>sk. sk\<lparr>sk_receive_queue := q'\<rparr>) (?t\<lparr>tsk_flags := f'\<rparr>))"
        "rx_inv (on_sk (\<lambda>sk. sk\<lparr>sk_receive_queue := q'\<rparr>) (?t\<lparr>tsk_flags := f'\<rparr>))"
        "concat (map rx_data (q_items q')) = drop (unat userlen - length (out @ rx_data skb)) (rx_stream ?t)"
        "length (q_items q') \<le> length rest"
        using Cons.hyps(1) [of ?t "out @ rx_data skb"] inv le Cons.prems(3) by auto
      have st: "rx_stream ?t = concat (map rx_data rest)" by (simp add: rx_stream_on_sk)
      have same: "on_sk (\<lambda>sk. sk\<lparr>sk_receive_queue := q'\<rparr>) (?t\<lparr>tsk_flags := f'\<rparr>) =
          on_sk (\<lambda>sk. sk\<lparr>sk_receive_queue := q'\<rparr>) (tsk\<lparr>tsk_flags := f'\<rparr>)"
        by (simp add: on_sk_def)
      have "unat userlen - length out = length (rx_data skb) + (unat userlen - length (out @ rx_data skb))"
        using le by simp
      then show ?thesis
        using step whole ih items unfolding same st stream by (intro exI [of _ f'] exI [of _ q']) simp
    next
      case part: False
      let ?t = "on_sk (\<lambda>sk. sk\<lparr>sk_receive_queue := ?q\<lparr>q_items := rx_advance k skb # rest\<rparr>\<rparr>) tsk"
      have k: "k = unat userlen - length out" "k \<le> unat (skb_dlen skb)" using part by (auto simp: k_def min_def)
      have l: "length (out @ take k (rx_data skb)) = unat userlen" using k True dl by simp
      then have "\<not> (word_of_nat (length (out @ take k (rx_data skb))) :: u32) < userlen"
        by (simp only: l) simp
      then have "tcp_dequeue_loop userlen (out @ take k (rx_data skb)) ?t = Some (out @ take k (rx_data skb), ?t)"
        by (subst tcp_dequeue_loop.simps) (simp add: Let_def)
      then have run: "tcp_dequeue_loop userlen out tsk = Some (out @ take k (rx_data skb), ?t)"
        using step part by simp
      have adv: "rx_ok (rx_advance k skb)" "rx_data (rx_advance k skb) = drop k (rx_data skb)"
        using rx_advance_props [OF ok k(2)] by simp_all
      have "rx_inv ?t" using adv(1) oks qi items by (simp add: rx_inv_def queue_inv_def)
      moreover have "take (unat userlen - length out) (rx_stream tsk) = take k (rx_data skb)"
        "drop (unat userlen - length out) (rx_stream tsk) = drop k (rx_data skb) @ concat (map rx_data rest)"
        using k dl unfolding stream k(1) [symmetric] by simp_all
      ultimately show ?thesis
        using run adv(2) items
        by (intro exI [of _ "tsk_flags tsk"] exI [of _ "?q\<lparr>q_items := rx_advance k skb # rest\<rparr>"]) simp
    qed
  qed
qed

section \<open>Filling holes\<close>

text \<open>The prefix of a queue that continues the stream at \<open>n\<close>, the rest, and where it ends.\<close>

fun contig :: "u32 \<Rightarrow> sk_buff list \<Rightarrow> sk_buff list \<times> sk_buff list \<times> u32" where
  "contig n [] = ([], [], n)"
| "contig n (x # xs) =
     (if n = skb_seq x
      then let (moved, left, n') = contig (n + skb_dlen x) xs in (x # moved, left, n')
      else ([], x # xs, n))"

lemma contig_append: "contig n xs = (moved, left, n') \<Longrightarrow> xs = moved @ left"
  by (induction n xs arbitrary: moved left n' rule: contig.induct)
    (auto simp: Let_def split: if_splits prod.splits)

definition ofo_inv :: "tcp_sock \<Rightarrow> bool" where
  "ofo_inv tsk \<longleftrightarrow> queue_inv (tsk_ofo_queue tsk) \<and> (\<forall>skb\<in>set (q_items (tsk_ofo_queue tsk)). rx_ok skb)"

lemma tcp_consume_ofo_ok:
  assumes "rx_inv tsk" and "ofo_inv tsk"
    and "length (rx_items tsk) + length (q_items (tsk_ofo_queue tsk)) < 2 ^ 32"
    and "contig (rcv_nxt (tsk_tcb tsk)) (q_items (tsk_ofo_queue tsk)) = (moved, left, n')"
  shows "\<exists>rq q. tcp_consume_ofo_queue tsk =
      Some (on_sk (\<lambda>sk. sk\<lparr>sk_receive_queue := rq\<rparr>)
        (on_tcb (\<lambda>tcb. tcb\<lparr>rcv_nxt := n'\<rparr>) (tsk\<lparr>tsk_ofo_queue := q\<rparr>))) \<and>
    queue_inv rq \<and> q_items rq = rx_items tsk @ moved \<and> queue_inv q \<and> q_items q = left"
  using assms
proof (induction "q_items (tsk_ofo_queue tsk)" arbitrary: tsk moved)
  case Nil
  then have "skb_queue_empty (tsk_ofo_queue tsk)" by (simp add: ofo_inv_def queue_inv_empty)
  then have run: "tcp_consume_ofo_queue tsk = Some tsk" by (simp add: tcp_consume_ofo_queue.simps)
  show ?case
    using Nil run by (intro exI [of _ "sk_receive_queue (tsk_sk tsk)"] exI [of _ "tsk_ofo_queue tsk"])
      (auto simp: on_sk_def on_tcb_def rx_inv_def ofo_inv_def)
next
  case (Cons skb rest)
  let ?q = "tsk_ofo_queue tsk"
  have items: "q_items ?q = skb # rest" using Cons.hyps(2) by simp
  have ne: "\<not> skb_queue_empty ?q" using Cons.prems(2) items by (simp add: ofo_inv_def queue_inv_empty)
  show ?case
  proof (cases "rcv_nxt (tsk_tcb tsk) = skb_seq skb")
    case False
    then have run: "tcp_consume_ofo_queue tsk = Some tsk"
      using items ne by (subst tcp_consume_ofo_queue.simps) simp
    show ?thesis
      using Cons.prems run False items
      by (intro exI [of _ "sk_receive_queue (tsk_sk tsk)"] exI [of _ ?q])
        (auto simp: on_sk_def on_tcb_def rx_inv_def ofo_inv_def)
  next
    case True
    let ?t = "on_sk (\<lambda>sk. sk\<lparr>sk_receive_queue := queue_push (sk_receive_queue sk) skb\<rparr>)
                (on_tcb (\<lambda>tcb. tcb\<lparr>rcv_nxt := rcv_nxt tcb + skb_dlen skb\<rparr>)
                  (tsk\<lparr>tsk_ofo_queue := ?q\<lparr>q_items := rest, qlen := qlen ?q - 1\<rparr>\<rparr>))"
    have "q_linked (sk_receive_queue (tsk_sk tsk))" using Cons.prems(1) by (simp add: rx_inv_def queue_inv_linked)
    then have run: "tcp_consume_ofo_queue tsk = tcp_consume_ofo_queue ?t"
      using items ne True by (subst tcp_consume_ofo_queue.simps) (simp add: on_sk_def on_tcb_def)
    obtain mv where mv: "moved = skb # mv"
      "contig (rcv_nxt (tsk_tcb tsk) + skb_dlen skb) rest = (mv, left, n')"
      using Cons.prems(4) items True by (auto simp: Let_def split: prod.splits)
    have "length (rx_items tsk) + 1 < 2 ^ 32" using Cons.prems(3) items by simp
    then have rx: "rx_inv ?t"
      using Cons.prems(1,2) items queue_inv_tail by (auto simp: rx_inv_def ofo_inv_def queue_push_def)
    have ofo: "ofo_inv ?t" using Cons.prems(2) items queue_inv_tl [of ?q] by (auto simp: ofo_inv_def)
    have "\<exists>rq q. tcp_consume_ofo_queue ?t =
        Some (on_sk (\<lambda>sk. sk\<lparr>sk_receive_queue := rq\<rparr>)
          (on_tcb (\<lambda>tcb. tcb\<lparr>rcv_nxt := n'\<rparr>) (?t\<lparr>tsk_ofo_queue := q\<rparr>))) \<and>
      queue_inv rq \<and> q_items rq = rx_items ?t @ mv \<and> queue_inv q \<and> q_items q = left"
      using Cons.prems(3) items mv(2) rx ofo
      by (intro Cons.hyps(1)) (auto simp: queue_push_def on_sk_def on_tcb_def)
    then obtain rq q where ih: "tcp_consume_ofo_queue ?t =
        Some (on_sk (\<lambda>sk. sk\<lparr>sk_receive_queue := rq\<rparr>)
          (on_tcb (\<lambda>tcb. tcb\<lparr>rcv_nxt := n'\<rparr>) (?t\<lparr>tsk_ofo_queue := q\<rparr>)))"
      "queue_inv rq" "q_items rq = rx_items tsk @ skb # mv" "queue_inv q" "q_items q = left"
      by (auto simp: queue_push_def)
    have "on_sk (\<lambda>sk. sk\<lparr>sk_receive_queue := rq\<rparr>)
          (on_tcb (\<lambda>tcb. tcb\<lparr>rcv_nxt := n'\<rparr>) (?t\<lparr>tsk_ofo_queue := q\<rparr>)) =
        on_sk (\<lambda>sk. sk\<lparr>sk_receive_queue := rq\<rparr>)
          (on_tcb (\<lambda>tcb. tcb\<lparr>rcv_nxt := n'\<rparr>) (tsk\<lparr>tsk_ofo_queue := q\<rparr>))"
      by (simp add: on_sk_def on_tcb_def)
    with ih run mv(1) show ?thesis by auto
  qed
qed

section \<open>Arrival of data\<close>

text \<open>What acknowledging leaves of the socket: only its count of pending acks and its timers.\<close>

definition same_stream :: "tcp_sock \<Rightarrow> tcp_sock \<Rightarrow> bool" where
  "same_stream tsk tsk' \<longleftrightarrow> tsk_sk tsk' = tsk_sk tsk \<and> tsk_tcb tsk' = tsk_tcb tsk \<and>
     tsk_ofo_queue tsk' = tsk_ofo_queue tsk \<and> tsk_flags tsk' = tsk_flags tsk \<and>
     tsk_retransmit tsk' = tsk_retransmit tsk \<and> tsk_parent tsk' = tsk_parent tsk"

lemma can_send_net [simp]: "can_send w s tsk \<Longrightarrow> net_inv n \<Longrightarrow> can_send (w\<lparr>w_net := n\<rparr>) s tsk"
  by (simp add: can_send_def)

lemma can_send_put:
  "can_send w s tsk \<Longrightarrow> timers_live (w_timers w) tsk' \<Longrightarrow> q_linked (sk_write_queue (tsk_sk tsk')) \<Longrightarrow>
   can_send (put_tsk s tsk' w) s tsk'"
  by (simp add: can_send_def)

text \<open>The acknowledgment policy never faults and leaves the stream alone.\<close>

lemma tcp_data_ack_ok:
  assumes "can_send w s tsk"
  shows "\<exists>w' tsk'. tcp_data_ack s th skb w = Some w' \<and> can_send w' s tsk' \<and> same_stream tsk tsk' \<and>
    w_links w' = w_links w"
proof -
  let ?full = "skb_dlen skb = ucast (tsk_rmss tsk)"
  define t0 where "t0 = (if \<not> th_psh th \<and> ?full then tsk\<lparr>tsk_delacks := tsk_delacks tsk + 1\<rparr> else tsk)"
  have w: "w_tcp w s = Some tsk" using assms by (simp add: can_send_def)
  have live: "timers_live (w_timers w) t0" and same: "same_stream tsk t0"
    using assms by (auto simp: t0_def can_send_def timers_live_def same_stream_def)
  have unf: "tcp_data_ack s th skb w =
      (if th_psh th \<or> ?full \<and> tsk_delacks t0 > 1
       then Option.bind (tcp_send_ack s (put_tsk s (t0\<lparr>tsk_delacks := 0\<rparr>) w)) (\<lambda>(r, w). Some w)
       else (case world_timer_add 200 Send_delack s w of
               (t, w) \<Rightarrow> Some (put_tsk s (t0\<lparr>tsk_delack := Some t\<rparr>) w)))"
    unfolding tcp_data_ack_def t0_def Let_def w by simp
  show ?thesis
  proof (cases "th_psh th \<or> ?full \<and> tsk_delacks t0 > 1")
    case True
    let ?t = "t0\<lparr>tsk_delacks := 0\<rparr>"
    have c: "can_send (put_tsk s ?t w) s ?t"
      using assms live same by (intro can_send_put [OF assms]) (auto simp: timers_live_def can_send_def same_stream_def)
    then obtain r n where "tcp_send_ack s (put_tsk s ?t w) = Some (r, (put_tsk s ?t w)\<lparr>w_net := n\<rparr>)" "net_inv n"
      using tcp_send_ack_total by blast
    with True c same unf show ?thesis
      by (intro exI [of _ "(put_tsk s ?t w)\<lparr>w_net := n\<rparr>"] exI [of _ ?t]) (simp add: same_stream_def)
  next
    case False
    obtain t ts where t: "timer_add 200 Send_delack s (w_timers w) = (t, ts)"
      by (cases "timer_add 200 Send_delack s (w_timers w)")
    have l: "timers_live ts t0" "timer_get ts t \<noteq> None"
      using timers_live_add [OF live t] by auto
    then have "timers_live ts (t0\<lparr>tsk_delack := Some t\<rparr>)" by (auto simp: timers_live_def)
    moreover have "tcp_data_ack s th skb w = Some (put_tsk s (t0\<lparr>tsk_delack := Some t\<rparr>) (w\<lparr>w_timers := ts\<rparr>))"
      unfolding unf if_not_P [OF False] using t by (simp add: world_timer_add_def)
    ultimately show ?thesis
      using assms same
      by (intro exI [of _ "put_tsk s (t0\<lparr>tsk_delack := Some t\<rparr>) (w\<lparr>w_timers := ts\<rparr>)"]
            exI [of _ "t0\<lparr>tsk_delack := Some t\<rparr>"])
        (simp add: can_send_def same_stream_def)
  qed
qed

text \<open>
  An in-sequence segment extends the stream by its data and by whatever the out-of-order queue
  can add, and \<open>rcv_nxt\<close> moves to the end of it.
\<close>

lemma tcp_data_queue_expected:
  assumes "can_send w s tsk" and "rx_inv tsk" and "ofo_inv tsk" and "rx_ok skb"
    and "length (rx_items tsk) + length (q_items (tsk_ofo_queue tsk)) + 1 < 2 ^ 32"
    and "rcv_wnd (tsk_tcb tsk) \<noteq> 0" and "skb_seq skb = rcv_nxt (tsk_tcb tsk)"
    and "contig (rcv_nxt (tsk_tcb tsk) + skb_dlen skb) (q_items (tsk_ofo_queue tsk)) = (moved, left, n')"
  shows "\<exists>w' tsk'. tcp_data_queue s th skb w = Some (0, Some (skb\<lparr>skb_refcnt := skb_refcnt skb + 1\<rparr>), w') \<and>
    can_send w' s tsk' \<and> rx_inv tsk' \<and> ofo_inv tsk' \<and>
    rx_stream tsk' = rx_stream tsk @ rx_data skb @ concat (map rx_data moved) \<and>
    length (rx_items tsk') = length (rx_items tsk) + 1 + length moved \<and>
    q_items (tsk_ofo_queue tsk') = left \<and>
    tsk_tcb tsk' = (tsk_tcb tsk)\<lparr>rcv_nxt := n'\<rparr> \<and> tsk_state tsk' = tsk_state tsk \<and>
    sk_write_queue (tsk_sk tsk') = sk_write_queue (tsk_sk tsk) \<and> tsk_flags tsk' = tsk_flags tsk \<and>
    tsk_parent tsk' = tsk_parent tsk \<and> tsk_retransmit tsk' = tsk_retransmit tsk \<and>
    w_links w' = w_links w"
proof -
  let ?skb = "skb\<lparr>skb_refcnt := skb_refcnt skb + 1\<rparr>"
  let ?t0 = "on_sk (\<lambda>sk. sk\<lparr>sk_receive_queue := queue_push (sk_receive_queue sk) ?skb\<rparr>)
      (on_tcb (\<lambda>tcb. tcb\<lparr>rcv_nxt := rcv_nxt tcb + skb_dlen skb\<rparr>) tsk)"
  have tsk: "w_tcp w s = Some tsk" "timers_live (w_timers w) tsk" using assms(1) by (simp_all add: can_send_def)
  have skb: "rx_ok ?skb" "rx_data ?skb = rx_data skb" using assms(4) by (simp_all add: rx_ok_def rx_data_def)
  have rx0: "rx_inv ?t0"
    using assms(2,5) skb(1) queue_inv_tail by (auto simp: rx_inv_def queue_push_def)
  obtain rq q where c: "tcp_consume_ofo_queue ?t0 =
      Some (on_sk (\<lambda>sk. sk\<lparr>sk_receive_queue := rq\<rparr>)
        (on_tcb (\<lambda>tcb. tcb\<lparr>rcv_nxt := n'\<rparr>) (?t0\<lparr>tsk_ofo_queue := q\<rparr>)))"
    "queue_inv rq" "q_items rq = rx_items ?t0 @ moved" "queue_inv q" "q_items q = left"
    using tcp_consume_ofo_ok [OF rx0, of moved left n'] assms(3,5,8)
    by (auto simp: ofo_inv_def queue_push_def)
  let ?t1 = "on_sk (\<lambda>sk. sk\<lparr>sk_receive_queue := rq\<rparr>)
        (on_tcb (\<lambda>tcb. tcb\<lparr>rcv_nxt := n'\<rparr>) (?t0\<lparr>tsk_ofo_queue := q\<rparr>))"
  have "timers_live (w_timers w) ?t1" using tsk(2) by (simp add: timers_live_def on_sk_def on_tcb_def)
  then obtain ts where d: "tcp_stop_delack_timer s (put_tsk s ?t1 w) =
      Some (put_tsk s (?t1\<lparr>tsk_delack := None\<rparr>) (w\<lparr>w_timers := ts\<rparr>))" "timers_live ts (?t1\<lparr>tsk_delack := None\<rparr>)"
    using tcp_stop_delack_timer_ok [of "put_tsk s ?t1 w" s ?t1] by (auto simp: put_tsk_def)
  define t2 where "t2 = ?t1\<lparr>tsk_delack := None\<rparr>"
  let ?w2 = "put_tsk s t2 (w\<lparr>w_timers := ts\<rparr>)"
  have c2: "can_send ?w2 s t2" using assms(1) d(2) by (simp add: can_send_def t2_def)
  obtain w' tsk' where a: "tcp_data_ack s th ?skb ?w2 = Some w'" "can_send w' s tsk'"
    "same_stream t2 tsk'" "w_links w' = w_links ?w2"
    using tcp_data_ack_ok [OF c2] by blast
  have "skb_queue_tail (sk_receive_queue (tsk_sk tsk)) ?skb = Some (queue_push (sk_receive_queue (tsk_sk tsk)) ?skb)"
    using assms(2) by (simp add: rx_inv_def queue_inv_linked)
  moreover have "?t0 = on_sk (\<lambda>sk. sk\<lparr>sk_receive_queue := queue_push (sk_receive_queue (tsk_sk tsk)) ?skb\<rparr>)
      (on_tcb (\<lambda>tcb. tcb\<lparr>rcv_nxt := rcv_nxt tcb + skb_dlen skb\<rparr>) tsk)"
    by (simp add: on_sk_def on_tcb_def)
  ultimately have run: "tcp_data_queue s th skb w = Some (0, Some ?skb, w')"
    using assms(6,7) c(1) d(1) a(1) unfolding tcp_data_queue_def Let_def tsk(1) t2_def by simp
  have s: "tsk_sk tsk' = tsk_sk ?t1" "tsk_tcb tsk' = tsk_tcb ?t1" "tsk_ofo_queue tsk' = q"
    "tsk_flags tsk' = tsk_flags tsk" "tsk_parent tsk' = tsk_parent tsk" "tsk_retransmit tsk' = tsk_retransmit tsk"
    using a(3) by (simp_all add: same_stream_def t2_def)
  have split: "q_items (tsk_ofo_queue tsk) = moved @ left" using contig_append [OF assms(8)] .
  have items: "rx_items tsk' = rx_items tsk @ ?skb # moved"
    using s(1) c(3) by (simp add: queue_push_def)
  have rx': "rx_inv tsk'"
    using s(1) c(2) items assms(2,3) skb(1) split unfolding rx_inv_def ofo_inv_def by auto
  have ofo': "ofo_inv tsk'" using s(3) c(4,5) assms(3) split unfolding ofo_inv_def by auto
  have "rx_stream tsk' = rx_stream tsk @ rx_data skb @ concat (map rx_data moved)"
    unfolding rx_stream_def items using skb(2) by simp
  moreover have "length (rx_items tsk') = length (rx_items tsk) + 1 + length moved"
    unfolding items by simp
  ultimately show ?thesis
    using run a(2,4) rx' ofo' s c(5) by (intro exI [of _ w'] exI [of _ tsk']) simp
qed

section \<open>Out-of-order arrival\<close>

lemma ofo_position_bound: "ofo_position skb i xs = Inl (Some j) \<Longrightarrow> i \<le> j \<and> j < i + length xs"
  by (induction skb i xs rule: ofo_position.induct) (auto split: if_splits)

text \<open>Inserting keeps every element, in order, and adds the packet at most once.\<close>

lemma insert_ordered_items:
  assumes "tcp_data_insert_ordered q skb = Some (skb', q')"
  shows "q' = q \<and> skb' = skb \<or>
    skb' = skb\<lparr>skb_refcnt := skb_refcnt skb + 1\<rparr> \<and>
    (\<exists>us vs. q_items q = us @ vs \<and> q_items q' = us @ skb' # vs) \<and> qlen q' = qlen q + 1 \<and> q_linked q' = q_linked q"
proof (cases "ofo_position skb 0 (q_items q)")
  case (Inr u)
  then show ?thesis using assms by (simp add: tcp_data_insert_ordered_def)
next
  case (Inl p)
  show ?thesis
  proof (cases p)
    case None
    then have "q_items q = q_items q @ []" "q_items q' = q_items q @ skb' # []"
      using assms Inl by (auto simp: tcp_data_insert_ordered_def Let_def skb_queue_tail_def queue_push_def split: if_splits)
    then show ?thesis using assms Inl None
      by (auto simp: tcp_data_insert_ordered_def Let_def skb_queue_tail_def queue_push_def split: if_splits)
  next
    case (Some i)
    have r: "skb' = skb\<lparr>skb_refcnt := skb_refcnt skb + 1\<rparr>" "qlen q' = qlen q + 1" "q_linked q' = q_linked q"
      "q_items q' = take (i + 1) (q_items q) @ skb' # drop (i + 1) (q_items q)"
      using assms Inl Some by (auto simp: tcp_data_insert_ordered_def Let_def skb_queue_add_def)
    moreover have "q_items q = take (i + 1) (q_items q) @ drop (i + 1) (q_items q)"
      by (rule append_take_drop_id [symmetric])
    ultimately show ?thesis by blast
  qed
qed

lemma insert_ordered_total:
  assumes "queue_inv q"
  obtains skb' q' where "tcp_data_insert_ordered q skb = Some (skb', q')"
  using assms by (cases "tcp_data_insert_ordered q skb")
    (auto simp: tcp_data_insert_ordered_def queue_inv_def Let_def split: sum.splits option.splits)

lemma insert_ordered_inv:
  assumes "ofo_inv tsk" and "rx_ok skb" and "length (q_items (tsk_ofo_queue tsk)) + 1 < 2 ^ 32"
    and "tcp_data_insert_ordered (tsk_ofo_queue tsk) skb = Some (skb', q)"
  shows "ofo_inv (tsk\<lparr>tsk_ofo_queue := q\<rparr>)"
proof -
  have "rx_ok (skb\<lparr>skb_refcnt := skb_refcnt skb + 1\<rparr>)" using assms(2) by (simp add: rx_ok_def)
  then show ?thesis
    using insert_ordered_items [OF assms(4)] assms(1,3)
    by (auto simp: ofo_inv_def queue_inv_def unat_succ_u32)
qed

text \<open>
  A segment out of sequence is answered by an ack and leaves the stream and \<open>rcv_nxt\<close> as they
  are.
\<close>

lemma tcp_data_queue_unexpected:
  assumes "can_send w s tsk" and "ofo_inv tsk" and "rx_ok skb"
    and "length (q_items (tsk_ofo_queue tsk)) + 1 < 2 ^ 32"
    and "rcv_wnd (tsk_tcb tsk) \<noteq> 0" and "skb_seq skb \<noteq> rcv_nxt (tsk_tcb tsk)"
    and "tcp_data_insert_ordered (tsk_ofo_queue tsk) skb = Some (skb', q)"
  shows "\<exists>w'. tcp_data_queue s th skb w = Some (0, Some skb', w') \<and>
    can_send w' s (tsk\<lparr>tsk_ofo_queue := q\<rparr>) \<and> ofo_inv (tsk\<lparr>tsk_ofo_queue := q\<rparr>) \<and> w_links w' = w_links w"
proof -
  let ?t = "tsk\<lparr>tsk_ofo_queue := q\<rparr>"
  have c: "can_send (put_tsk s ?t w) s ?t"
    using assms(1) by (intro can_send_put [OF assms(1)]) (auto simp: can_send_def timers_live_def)
  then obtain r n where a: "tcp_send_ack s (put_tsk s ?t w) = Some (r, (put_tsk s ?t w)\<lparr>w_net := n\<rparr>)" "net_inv n"
    using tcp_send_ack_total by blast
  have "w_tcp w s = Some tsk" using assms(1) by (simp add: can_send_def)
  then have "tcp_data_queue s th skb w = Some (0, Some skb', (put_tsk s ?t w)\<lparr>w_net := n\<rparr>)"
    using assms(5-7) a(1) by (simp add: tcp_data_queue_def)
  moreover have "ofo_inv ?t" using assms(2,3,4,7) by (rule insert_ordered_inv)
  ultimately show ?thesis using c a(2) by (intro exI [of _ "(put_tsk s ?t w)\<lparr>w_net := n\<rparr>"]) simp
qed

text \<open>
  The queue is not kept in sequence order: a segment that belongs before the only one queued is
  put behind it.
\<close>

lemma insert_behind:
  assumes "q_items q = [x]" and "skb_seq skb < skb_seq x" and "q_linked q"
  shows "\<exists>skb' q'. tcp_data_insert_ordered q skb = Some (skb', q') \<and>
    q_items q' = [x, skb\<lparr>skb_refcnt := skb_refcnt skb + 1\<rparr>]"
  using assms by (simp add: tcp_data_insert_ordered_def Let_def skb_queue_add_def queue_push_def)

end
