(* ===== verification/Tcp_Input.thy ===== *)
theory Tcp_Input
  imports Tcp_Data
begin

text \<open>
  \<open>tcp_input.c\<close> and \<open>tcp_in\<close> of \<open>tcp.c\<close>: the processing of a received segment in every state of
  a connection.

  A handler returns its value, what became of the packet (\<open>None\<close>: freed) and the new state of
  the stack.  The header is passed as a value: \<open>tcp_in\<close> has brought it to host order in the
  buffer, and nothing writes it afterwards.
\<close>

section \<open>Helpers\<close>

definition tcp_drop :: "sk_buff \<Rightarrow> sk_buff option" where
  "tcp_drop skb = free_skb skb"

definition tcp_discard :: "sk_buff \<Rightarrow> sk_buff option" where
  "tcp_discard skb = free_skb skb"

definition tcp_recv_notify :: "sid \<Rightarrow> world \<Rightarrow> world option" where
  "tcp_recv_notify s w = upd_tsk s (on_sk (\<lambda>sk. sk\<lparr>sk_recv_wait := wait_wakeup (sk_recv_wait sk)\<rparr>)) w"

definition tcp_accept_enqueue :: "sid \<Rightarrow> world \<Rightarrow> world option" where
  "tcp_accept_enqueue s w = do {
     e \<leftarrow> list_empty (w_links w) (list_of s);
     h \<leftarrow> (if \<not> e then list_del (w_links w) (list_of s) else Some (w_links w));
     tsk \<leftarrow> w_tcp w s;
     p \<leftarrow> tsk_parent tsk;
     h \<leftarrow> list_add h (list_of s) (accept_queue_of p);
     Some (w\<lparr>w_links := h\<rparr>)
   }"

definition tcp_synrecv_ack :: "sid \<Rightarrow> world \<Rightarrow> (int \<times> world) option" where
  "tcp_synrecv_ack s w = do {
     tsk \<leftarrow> w_tcp w s;
     p \<leftarrow> tsk_parent tsk;
     ptsk \<leftarrow> w_tcp w p;
     (if tsk_state ptsk \<noteq> TCP_LISTEN then Some (-1, w)
      else do {
        w \<leftarrow> tcp_accept_enqueue s w;
        w \<leftarrow> upd_tsk p (\<lambda>t. t\<lparr>tsk_wait := wait_wakeup (tsk_wait t)\<rparr>) w;
        Some (0, w)
      })
   }"

text \<open>
  The loop of \<open>tcp_clean_retransmission_queue\<close>: acknowledged packets leave the write queue.  The
  flag says that the queue ran empty.
\<close>

function clean_loop :: "u32 \<Rightarrow> sk_buff_head \<Rightarrow> (bool \<times> sk_buff_head) option" where
  "clean_loop una q =
     (if skb_queue_empty q then Some (True, q)
      else case q_items q of
          [] \<Rightarrow> None
        | skb # rest \<Rightarrow>
            if skb_end_seq skb \<le> una
            then clean_loop una (q\<lparr>q_items := rest, qlen := qlen q - 1\<rparr>)
            else Some (False, q))"
  by pat_completeness auto
termination
  by (relation "measure (\<lambda>(una, q). unat (qlen q))") (auto dest: qlen_dec)

declare clean_loop.simps [simp del]

definition tcp_clean_retransmission_queue :: "sid \<Rightarrow> u32 \<Rightarrow> world \<Rightarrow> world option" where
  "tcp_clean_retransmission_queue s una w = do {
     tsk \<leftarrow> w_tcp w s;
     (emptied, q) \<leftarrow> clean_loop una (sk_write_queue (tsk_sk tsk));
     let w = put_tsk s (on_sk (\<lambda>sk. sk\<lparr>sk_write_queue := q\<rparr>) tsk) w;
     (if emptied then tcp_stop_retransmission_timer s w else Some w)
   }"

definition tcp_packet_filter :: "tcp_sock \<Rightarrow> tcphdr \<Rightarrow> sk_buff \<Rightarrow> bool" where
  "tcp_packet_filter tsk th skb =
     (let tcb = tsk_tcb tsk in
      if skb_dlen skb > 0 \<and> rcv_wnd tcb = 0 then False
      else if th_seq th < rcv_nxt tcb \<or> th_seq th > rcv_nxt tcb + rcv_wnd tcb then False
      else True)"

section \<open>A segment for a listening socket\<close>

definition tcp_listen_child_sock :: "sid \<Rightarrow> tcphdr \<Rightarrow> u32 \<Rightarrow> u32 \<Rightarrow> world \<Rightarrow> (sid \<times> world) option" where
  "tcp_listen_child_sock s th saddr daddr w = do {
     (c, w) \<leftarrow> tcp_alloc_sock w;
     w \<leftarrow> upd_tsk c (\<lambda>t. on_sk (\<lambda>sk. sk\<lparr>sk_saddr := daddr, sk_daddr := saddr,
            sk_sport := th_dport th, sk_dport := th_sport th\<rparr>) (t\<lparr>tsk_parent := Some s\<rparr>)) w;
     h \<leftarrow> list_add (w_links w) (list_of c) (listen_queue_of s);
     Some (c, w\<lparr>w_links := h\<rparr>)
   }"

definition tcp_handle_listen ::
    "sid \<Rightarrow> sk_buff \<Rightarrow> tcphdr \<Rightarrow> world \<Rightarrow> (rc \<times> sk_buff option \<times> world) option" where
  "tcp_handle_listen s skb th w =
     (if th_rst th then Some (Rc 0, free_skb skb, w)
      else if th_ack th then do {
        (r, w) \<leftarrow> tcp_send_reset s w;
        Some (Rc 0, free_skb skb, w)
      }
      else if \<not> th_syn th then Some (Rc 0, free_skb skb, w)
      else do {
        saddr \<leftarrow> load32 (skb_buf skb) (ip_hdr skb + 12);
        daddr \<leftarrow> load32 (skb_buf skb) (ip_hdr skb + 16);
        (c, w) \<leftarrow> tcp_listen_child_sock s th saddr daddr w;
        w \<leftarrow> tcp_set_state c TCP_SYN_RECEIVED w;
        let (i, w) = tcp_generate_isn w;
        w \<leftarrow> upd_tsk c (on_tcb (\<lambda>tcb. tcb\<lparr>irs := th_seq th, isn := i, snd_nxt := i,
               rcv_nxt := th_seq th + 1\<rparr>)) w;
        (r, w) \<leftarrow> tcp_send_synack c w;
        w \<leftarrow> tcp_established_or_syn_recvd_socks_enqueue c w;
        w \<leftarrow> upd_tsk c (on_tcb (\<lambda>tcb. tcb\<lparr>snd_nxt := isn tcb + 1, snd_una := isn tcb\<rparr>)) w;
        Some (Rc 0, free_skb skb, w)
      })"

section \<open>A segment for a connecting socket\<close>

definition tcp_synsent ::
    "sid \<Rightarrow> sk_buff \<Rightarrow> tcphdr \<Rightarrow> world \<Rightarrow> (rc \<times> sk_buff option \<times> world) option" where
  "tcp_synsent s skb th w = do {
     tsk \<leftarrow> w_tcp w s;
     let tcb = tsk_tcb tsk;
     (if th_ack th \<and> (th_ack_seq th < isn tcb \<or> th_ack_seq th > snd_nxt tcb)
      then Some (Rc 0, tcp_drop skb, w)
      else if th_ack th \<and> (th_ack_seq th < snd_una tcb \<or> th_ack_seq th > snd_nxt tcb)
      then Some (Rc 0, tcp_drop skb, w)
      else if th_rst th then Some (Rc 0, tcp_drop skb, w)
      else if \<not> th_syn th then Some (Rc 0, tcp_drop skb, w)
      else do {
        w \<leftarrow> upd_tsk s (on_tcb (\<lambda>tcb. tcb\<lparr>rcv_nxt := th_seq th + 1, irs := th_seq th\<rparr>)) w;
        w \<leftarrow> (if th_ack th
              then do {
                w \<leftarrow> upd_tsk s (on_tcb (\<lambda>tcb. tcb\<lparr>snd_una := th_ack_seq th\<rparr>)) w;
                tcp_clean_retransmission_queue s (th_ack_seq th) w
              }
              else Some w);
        tsk \<leftarrow> w_tcp w s;
        (if snd_una (tsk_tcb tsk) > isn (tsk_tcb tsk)
         then do {
           w \<leftarrow> tcp_set_state s TCP_ESTABLISHED w;
           w \<leftarrow> upd_tsk s (on_tcb (\<lambda>tcb. tcb\<lparr>snd_una := snd_nxt tcb\<rparr>)) w;
           (r, w) \<leftarrow> tcp_send_ack s w;
           w \<leftarrow> upd_tsk s (\<lambda>tsk. tsk\<lparr>tsk_wait := wait_wakeup (tsk_wait tsk)\<rparr>) w;
           Some (Rc 0, tcp_drop skb, w)
         }
         else do {
           w \<leftarrow> tcp_set_state s TCP_SYN_RECEIVED w;
           w \<leftarrow> upd_tsk s (on_tcb (\<lambda>tcb. tcb\<lparr>snd_una := isn tcb\<rparr>)) w;
           (r, w) \<leftarrow> tcp_send_synack s w;
           Some (Rc 0, tcp_drop skb, w)
         })
      })
   }"

definition tcp_closed ::
    "sid \<Rightarrow> sk_buff \<Rightarrow> tcphdr \<Rightarrow> world \<Rightarrow> (rc \<times> sk_buff option \<times> world) option" where
  "tcp_closed s skb th w =
     (if th_rst th then Some (Rc 0, tcp_discard skb, w)
      else do {
        (r, w) \<leftarrow> tcp_send_reset s w;
        Some (r, free_skb skb, w)
      })"

section \<open>The other states\<close>

text \<open>
  Step 4 of \<open>tcp_process\<close>, the SYN bit.  A connection in \<open>SYN_RECEIVED\<close> that has a parent is
  freed here, and the function goes on.
\<close>

definition tcp_process_syn :: "sid \<Rightarrow> tcphdr \<Rightarrow> world \<Rightarrow> world option" where
  "tcp_process_syn s th w =
     (if th_syn th then do {
        (r, w) \<leftarrow> tcp_send_reset s w;
        tsk \<leftarrow> w_tcp w s;
        (if tsk_state tsk = TCP_SYN_RECEIVED \<and> tsk_parent tsk \<noteq> None
         then do {
           w \<leftarrow> tcp_established_or_syn_recvd_socks_remove s w;
           tcp_free_sock s w
         }
         else Some w)
      }
      else Some w)"

text \<open>Step 5, the ACK bit; the flag says whether processing goes on.\<close>

definition tcp_process_ack :: "sid \<Rightarrow> tcphdr \<Rightarrow> world \<Rightarrow> (bool \<times> world) option" where
  "tcp_process_ack s th w = do {
     tsk \<leftarrow> w_tcp w s;
     let tcb = tsk_tcb tsk;
     (if tsk_state tsk = TCP_SYN_RECEIVED
      then if snd_una tcb \<le> th_ack_seq th \<and> th_ack_seq th \<le> snd_nxt tcb
        then do {
          (r, w) \<leftarrow> tcp_synrecv_ack s w;
          (if r < 0 then Some (False, w)
           else do {
             w \<leftarrow> upd_tsk s (on_tcb (\<lambda>tcb. tcb\<lparr>snd_una := th_ack_seq th\<rparr>)) w;
             w \<leftarrow> tcp_set_state s TCP_ESTABLISHED w;
             Some (True, w)
           })
        }
        else do {
          (r, w) \<leftarrow> tcp_send_reset s w;
          Some (False, w)
        }
      else if tsk_state tsk \<in> {TCP_ESTABLISHED, TCP_FIN_WAIT_1, TCP_FIN_WAIT_2, TCP_CLOSE_WAIT,
        TCP_CLOSING, TCP_LAST_ACK}
      then do {
        w \<leftarrow> (if snd_una tcb < th_ack_seq th \<and> th_ack_seq th \<le> snd_nxt tcb
              then do {
                w \<leftarrow> upd_tsk s (on_tcb (\<lambda>tcb. tcb\<lparr>snd_una := th_ack_seq th\<rparr>)) w;
                tcp_clean_retransmission_queue s (th_ack_seq th) w
              }
              else Some w);
        tsk \<leftarrow> w_tcp w s;
        Some (\<not> (th_ack_seq th > snd_nxt (tsk_tcb tsk)) \<and> \<not> (th_ack_seq th < snd_una (tsk_tcb tsk)), w)
      }
      else Some (True, w))
   }"

text \<open>Step 7, the data.  The packet must still exist when the call returns.\<close>

definition tcp_process_text :: "sid \<Rightarrow> tcphdr \<Rightarrow> sk_buff \<Rightarrow> world \<Rightarrow> (sk_buff \<times> world) option" where
  "tcp_process_text s th skb w = do {
     tsk \<leftarrow> w_tcp w s;
     (if tsk_state tsk \<in> {TCP_ESTABLISHED, TCP_FIN_WAIT_1, TCP_FIN_WAIT_2} \<and> skb_dlen skb > 0
      then do {
        (r, fate, w) \<leftarrow> tcp_data_queue s th skb w;
        w \<leftarrow> tcp_recv_notify s w;
        skb \<leftarrow> fate;
        Some (skb, w)
      }
      else Some (skb, w))
   }"

text \<open>Step 8, the FIN bit.\<close>

definition tcp_process_fin :: "sid \<Rightarrow> tcphdr \<Rightarrow> sk_buff \<Rightarrow> world \<Rightarrow> world option" where
  "tcp_process_fin s th skb w = do {
     tsk \<leftarrow> w_tcp w s;
     (if th_fin th \<and> rcv_nxt (tsk_tcb tsk) - skb_dlen skb = skb_seq skb
      then if tsk_state tsk \<in> {TCP_CLOSE, TCP_LISTEN, TCP_SYN_SENT} then Some w
      else do {
        w \<leftarrow> upd_tsk s (on_tcb (\<lambda>tcb. tcb\<lparr>rcv_nxt := rcv_nxt tcb + 1\<rparr>)) w;
        w \<leftarrow> upd_tsk s (\<lambda>tsk. tsk\<lparr>tsk_flags := tsk_flags tsk OR TCP_FIN\<rparr>) w;
        (r, w) \<leftarrow> tcp_send_ack s w;
        w \<leftarrow> tcp_recv_notify s w;
        tsk \<leftarrow> w_tcp w s;
        (case tsk_state tsk of
           TCP_SYN_RECEIVED \<Rightarrow> do { w \<leftarrow> tcp_set_state s TCP_CLOSE_WAIT w; tcp_recv_notify s w }
         | TCP_ESTABLISHED \<Rightarrow> do { w \<leftarrow> tcp_set_state s TCP_CLOSE_WAIT w; tcp_recv_notify s w }
         | TCP_FIN_WAIT_1 \<Rightarrow> tcp_set_state s TCP_CLOSING w
         | TCP_FIN_WAIT_2 \<Rightarrow> tcp_enter_time_wait s w
         | _ \<Rightarrow> Some w)
      }
      else Some w)
   }"

definition tcp_process ::
    "sid \<Rightarrow> tcphdr \<Rightarrow> sk_buff \<Rightarrow> world \<Rightarrow> (rc \<times> sk_buff option \<times> world) option" where
  "tcp_process s th skb w = do {
     tsk \<leftarrow> w_tcp w s;
     (case tsk_state tsk of
        TCP_CLOSE \<Rightarrow> tcp_closed s skb th w
      | TCP_LISTEN \<Rightarrow> tcp_handle_listen s skb th w
      | TCP_SYN_SENT \<Rightarrow> tcp_synsent s skb th w
      | _ \<Rightarrow>
        (if \<not> tcp_packet_filter tsk th skb
         then do {
           w \<leftarrow> (if \<not> th_rst th then do { (r, w) \<leftarrow> tcp_send_ack s w; Some w } else Some w);
           Some (Rc 0, tcp_drop skb, w)
         }
         else do {
           w \<leftarrow> tcp_process_syn s th w;
           (if \<not> th_ack th then Some (Rc 0, tcp_drop skb, w)
            else do {
              (go, w) \<leftarrow> tcp_process_ack s th w;
              (if \<not> go then Some (Rc 0, tcp_drop skb, w)
               else do {
                 (skb, w) \<leftarrow> tcp_process_text s th skb w;
                 w \<leftarrow> tcp_process_fin s th skb w;
                 Some (Rc 0, free_skb skb, w)
               })
            })
         }))
   }"

section \<open>Entry\<close>

text \<open>
  \<open>tcp_init_segment\<close>: the header to host order, and the extent of the data in the packet.
  \<open>ip_len\<close> and \<open>tcp_hlen\<close> are \<open>int\<close> computations, stored in 32 bits.
\<close>

definition tcp_init_segment :: "sk_buff \<Rightarrow> sk_buff option" where
  "tcp_init_segment skb = do {
     let th = tcp_hdr skb;
     let ih = ip_hdr skb;
     v \<leftarrow> load16 (skb_buf skb) th;
     b \<leftarrow> store16 (skb_buf skb) th (ntohs v);
     v \<leftarrow> load16 b (th + 2);
     b \<leftarrow> store16 b (th + 2) (ntohs v);
     v \<leftarrow> load32 b (th + 4);
     b \<leftarrow> store32 b (th + 4) (ntohl v);
     v \<leftarrow> load32 b (th + 8);
     b \<leftarrow> store32 b (th + 8) (ntohl v);
     v \<leftarrow> load16 b (th + 14);
     b \<leftarrow> store16 b (th + 14) (ntohs v);
     v \<leftarrow> load16 b (th + 16);
     b \<leftarrow> store16 b (th + 16) (ntohs v);
     v \<leftarrow> load16 b (th + 18);
     b \<leftarrow> store16 b (th + 18) (ntohs v);
     seq \<leftarrow> load32 b (th + 4);
     len' \<leftarrow> load16 b (ih + 2);
     vi \<leftarrow> load8 b ih;
     hl \<leftarrow> load8 b (th + 12);
     fl \<leftarrow> load8 b (th + 13);
     let dlen = (word_of_int (int (unat len') - int (unat (lo_nibble vi)) * 4
                   - int (unat (hi_nibble hl)) * 4) :: u32);
     Some (skb\<lparr>skb_buf := b, skb_seq := seq, skb_dlen := dlen,
               skb_len := dlen + of_bool (bit fl 1) + of_bool (bit fl 0),
               skb_end_seq := seq + dlen, skb_payload := th + 20\<rparr>)
   }"

text \<open>The fields of the header in the buffer, in host order.\<close>

definition tcp_host_hdr :: "sk_buff \<Rightarrow> tcphdr option" where
  "tcp_host_hdr skb = do {
     let b = skb_buf skb;
     let th = tcp_hdr skb;
     sp \<leftarrow> load16 b th;
     dp \<leftarrow> load16 b (th + 2);
     sq \<leftarrow> load32 b (th + 4);
     ak \<leftarrow> load32 b (th + 8);
     hl \<leftarrow> load8 b (th + 12);
     fl \<leftarrow> load8 b (th + 13);
     wn \<leftarrow> load16 b (th + 14);
     Some \<lparr>th_sport = sp, th_dport = dp, th_seq = sq, th_ack_seq = ak, th_hl = hi_nibble hl,
       th_flags = fl, th_win = wn\<rparr>
   }"

definition tcp_in :: "sk_buff \<Rightarrow> world \<Rightarrow> (sk_buff option \<times> world) option" where
  "tcp_in skb w = do {
     skb \<leftarrow> tcp_init_segment skb;
     th \<leftarrow> tcp_host_hdr skb;
     saddr \<leftarrow> load32 (skb_buf skb) (ip_hdr skb + 12);
     daddr \<leftarrow> load32 (skb_buf skb) (ip_hdr skb + 16);
     sk \<leftarrow> tcp_lookup_sock w saddr (th_sport th) daddr (th_dport th);
     (case sk of
        None \<Rightarrow> Some (free_skb skb, w)
      | Some s \<Rightarrow> do {
          (r, fate, w) \<leftarrow> tcp_process s th skb w;
          Some (fate, w)
        })
   }"

end
