(* ===== verification/Tcp_Fsm.thy ===== *)
theory Tcp_Fsm
  imports Tcp_Input
begin

text \<open>
  The state machine of a TCP connection: what every operation can do to the states of the
  sockets.  \<open>st w\<close> is the map from sockets to their states; the lemmas of this theory hold for
  every run that returns, in any state of the stack.
\<close>

definition st :: "world \<Rightarrow> sid \<rightharpoonup> tcp_state" where
  "st w s = map_option tsk_state (w_tcp w s)"

lemma st_SomeI: "w_tcp w s = Some tsk \<Longrightarrow> st w s = Some (tsk_state tsk)"
  by (simp add: st_def)

named_theorems st_keeps \<open>operations that leave every state alone\<close>

lemma st_put_tsk: "st (put_tsk s tsk w) = (st w)(s \<mapsto> tsk_state tsk)"
  by (auto simp: st_def)

lemma st_put_same: "w_tcp w s = Some tsk \<Longrightarrow> tsk_state tsk' = tsk_state tsk \<Longrightarrow> st (put_tsk s tsk' w) = st w"
  by (auto simp: st_def)

lemma st_fields [simp]:
  "st (w\<lparr>w_net := n\<rparr>) = st w" "st (w\<lparr>w_timers := ts\<rparr>) = st w" "st (w\<lparr>w_links := h\<rparr>) = st w"
  "st (w\<lparr>w_isn_cnt := i\<rparr>) = st w" "st (w\<lparr>w_sockets := so\<rparr>) = st w" "st (w\<lparr>w_next := x\<rparr>) = st w"
  "st (w\<lparr>w_tcp_port := p\<rparr>) = st w"
  by (simp_all add: st_def fun_eq_iff)

lemma st_upd:
  assumes "upd_tsk s f w = Some w'" and "\<And>tsk. tsk_state (f tsk) = tsk_state tsk"
  shows "st w' = st w"
  using assms by (auto simp: upd_tsk_def st_put_same elim!: bind_SomeE)

lemma st_set_state: "tcp_set_state s x w = Some w' \<Longrightarrow> st w' = (st w)(s \<mapsto> x) \<and> st w s \<noteq> None"
  by (auto simp: tcp_set_state_def upd_tsk_def st_put_tsk st_def elim!: bind_SomeE)

section \<open>Operations that keep every state\<close>

text \<open>Only the link layer moved.\<close>

definition net_only :: "world \<Rightarrow> world \<Rightarrow> bool" where
  "net_only w w' \<longleftrightarrow> w' = w\<lparr>w_net := w_net w'\<rparr>"

lemma net_only_simps [simp]: "net_only w w" "net_only w (w\<lparr>w_net := n\<rparr>)"
  by (simp_all add: net_only_def)

lemma net_onlyE: "net_only w w' \<Longrightarrow> (\<And>n. w' = w\<lparr>w_net := n\<rparr> \<Longrightarrow> P) \<Longrightarrow> P"
  unfolding net_only_def by blast

lemma transmit_frame: "tcp_transmit_skb s skb seq w = Some (r, skb', w') \<Longrightarrow> net_only w w'"
  by (auto simp: tcp_transmit_skb_def Let_def elim!: bind_SomeE)

lemma st_net_only: "net_only w w' \<Longrightarrow> st w' = st w"
  by (auto elim: net_onlyE)

lemma st_transmit [st_keeps]: "tcp_transmit_skb s skb seq w = Some (r, skb', w') \<Longrightarrow> st w' = st w"
  by (rule st_net_only) (rule transmit_frame)

lemma send_ack_frame: "tcp_send_ack s w = Some (r, w') \<Longrightarrow> net_only w w'"
  by (auto simp: tcp_send_ack_def split: if_splits elim!: bind_SomeE dest: transmit_frame)

lemma send_synack_frame: "tcp_send_synack s w = Some (r, w') \<Longrightarrow> net_only w w'"
  by (auto simp: tcp_send_synack_def split: if_splits elim!: bind_SomeE dest: transmit_frame)

lemma st_send_ack [st_keeps]: "tcp_send_ack s w = Some (r, w') \<Longrightarrow> st w' = st w"
  by (rule st_net_only) (rule send_ack_frame)

lemma st_send_synack [st_keeps]: "tcp_send_synack s w = Some (r, w') \<Longrightarrow> st w' = st w"
  by (rule st_net_only) (rule send_synack_frame)

lemma send_reset_frame:
  assumes "tcp_send_reset s w = Some (r, w')"
  shows "\<exists>tsk. w_tcp w s = Some tsk \<and>
    net_only (put_tsk s (on_tcb (\<lambda>tcb. tcb\<lparr>snd_una := snd_nxt tcb\<rparr>) tsk) w) w'"
  using assms by (auto simp: tcp_send_reset_def upd_tsk_def elim!: bind_SomeE dest!: transmit_frame)

lemma st_send_reset [st_keeps]: "tcp_send_reset s w = Some (r, w') \<Longrightarrow> st w' = st w"
  by (drule send_reset_frame) (auto simp: st_put_same dest: st_net_only)

lemma st_timer_ops [st_keeps]:
  "tcp_stop_retransmission_timer s w = Some w' \<Longrightarrow> st w' = st w"
  "tcp_release_retransmission_timer s w = Some w' \<Longrightarrow> st w' = st w"
  "tcp_stop_delack_timer s w = Some w' \<Longrightarrow> st w' = st w"
  "tcp_release_delack_timer s w = Some w' \<Longrightarrow> st w' = st w"
  by (auto simp: tcp_stop_retransmission_timer_def tcp_release_retransmission_timer_def
      tcp_stop_delack_timer_def tcp_release_delack_timer_def st_put_same elim!: bind_SomeE)

lemma st_world_timer_add [st_keeps]: "world_timer_add e h s w = (t, w') \<Longrightarrow> st w' = st w"
  by (auto simp: world_timer_add_def split: prod.splits)

lemma st_clear_timers [st_keeps]: "tcp_clear_timers s w = Some w' \<Longrightarrow> st w' = st w"
  by (auto simp: tcp_clear_timers_def st_keeps elim!: bind_SomeE)

lemma st_reset_timer [st_keeps]: "tcp_reset_retransmission_timer s w = Some w' \<Longrightarrow> st w' = st w"
  by (auto simp: tcp_reset_retransmission_timer_def split: prod.splits if_splits elim!: bind_SomeE
      dest!: st_upd [where f = "\<lambda>tsk. tsk\<lparr>tsk_retransmit := x\<rparr>" for x] st_timer_ops st_world_timer_add)

lemma st_rings [st_keeps]:
  "tcp_established_or_syn_recvd_socks_enqueue s w = Some w' \<Longrightarrow> st w' = st w"
  "tcp_established_or_syn_recvd_socks_remove s w = Some w' \<Longrightarrow> st w' = st w"
  "tcp_connecting_or_listening_socks_enqueue s w = Some w' \<Longrightarrow> st w' = st w"
  "tcp_connecting_or_listening_socks_remove s w = Some w' \<Longrightarrow> st w' = st w"
  by (auto simp: tcp_established_or_syn_recvd_socks_enqueue_def
      tcp_established_or_syn_recvd_socks_remove_def tcp_connecting_or_listening_socks_enqueue_def
      tcp_connecting_or_listening_socks_remove_def elim!: bind_SomeE)

lemma st_recv_notify [st_keeps]: "tcp_recv_notify s w = Some w' \<Longrightarrow> st w' = st w"
  unfolding tcp_recv_notify_def by (erule st_upd) simp

lemma st_accept_enqueue [st_keeps]: "tcp_accept_enqueue s w = Some w' \<Longrightarrow> st w' = st w"
  by (auto simp: tcp_accept_enqueue_def elim!: bind_SomeE)

lemma st_synrecv_ack [st_keeps]: "tcp_synrecv_ack s w = Some (r, w') \<Longrightarrow> st w' = st w"
  by (auto simp: tcp_synrecv_ack_def split: if_splits elim!: bind_SomeE
      dest!: st_accept_enqueue st_upd [where f = "\<lambda>t. t\<lparr>tsk_wait := wait_wakeup (tsk_wait t)\<rparr>"])

lemma st_clean [st_keeps]: "tcp_clean_retransmission_queue s una w = Some w' \<Longrightarrow> st w' = st w"
  by (auto simp: tcp_clean_retransmission_queue_def Let_def st_put_same split: if_splits
      elim!: bind_SomeE dest!: st_timer_ops(1))

lemma state_consume_ofo: "tcp_consume_ofo_queue tsk = Some tsk' \<Longrightarrow> tsk_state tsk' = tsk_state tsk"
proof (induction tsk rule: tcp_consume_ofo_queue.induct)
  case (1 tsk)
  from "1.prems" show ?case
    by (subst (asm) tcp_consume_ofo_queue.simps) (auto split: if_splits list.splits elim!: bind_SomeE dest: "1.IH")
qed

lemma st_data_ack [st_keeps]: "tcp_data_ack s th skb w = Some w' \<Longrightarrow> st w' = st w"
  by (auto simp: tcp_data_ack_def Let_def st_put_same world_timer_add_def split: if_splits prod.splits
      elim!: bind_SomeE dest!: st_send_ack)

lemma st_data_queue [st_keeps]: "tcp_data_queue s th skb w = Some (r, f, w') \<Longrightarrow> st w' = st w"
  by (auto simp: tcp_data_queue_def Let_def split: if_splits prod.splits elim!: bind_SomeE
      dest!: st_send_ack st_data_ack st_timer_ops(3) state_consume_ofo simp: st_put_same)

lemma st_queue_transmit [st_keeps]: "tcp_queue_transmit_skb s skb w = Some (r, w') \<Longrightarrow> st w' = st w"
  by (auto simp: tcp_queue_transmit_skb_def upd_tsk_def st_put_same split: if_splits elim!: bind_SomeE
      dest!: st_reset_timer st_transmit)

lemma st_send_loop [st_keeps]: "tcp_send_loop s buf slen mss w = Some w' \<Longrightarrow> st w' = st w"
proof (rule tcp_send_loop.raw_induct [of "\<lambda>s buf slen mss w w'. st w' = st w"])
  fix loop :: "sid \<Rightarrow> bytes \<Rightarrow> int \<Rightarrow> int \<Rightarrow> world \<Rightarrow> world option" and s buf slen mss w w'
  assume ih: "\<And>s buf slen mss w w'. loop s buf slen mss w = Some w' \<Longrightarrow> st w' = st w"
  assume "(if slen > 0 then
        let dlen = (if slen > mss then mss else slen); slen = slen - dlen in
        Option.bind (skb_push (tcp_alloc_skb 0 (nat dlen)) (nat dlen)) (\<lambda>skb.
        Option.bind (load_bytes buf 0 (nat dlen)) (\<lambda>d.
        Option.bind (store_bytes (skb_buf skb) (skb_data skb) d) (\<lambda>b.
        Option.bind (tcp_set_flags (if slen = 0 then TCP_ACK OR TCP_PSH else TCP_ACK)
           (skb\<lparr>skb_buf := b\<rparr>)) (\<lambda>skb.
        Option.bind (tcp_queue_transmit_skb s skb w) (\<lambda>rw.
          loop s (drop (nat dlen) buf) slen mss (snd rw))))))
      else Some w) = Some w'"
  then show "st w' = st w"
    by (auto simp: Let_def split: if_splits elim!: bind_SomeE dest!: ih st_queue_transmit)
qed

lemma st_retransmit_head [st_keeps]: "tcp_retransmit_head s skb w = Some (skb', w') \<Longrightarrow> st w' = st w"
  by (auto simp: tcp_retransmit_head_def upd_tsk_def st_put_same elim!: bind_SomeE dest!: st_transmit)

lemma st_clear_queues [st_keeps]: "tcp_clear_queues s w = Some w' \<Longrightarrow> st w' = st w"
  by (auto simp: tcp_clear_queues_def st_put_same elim!: bind_SomeE)

section \<open>Operations that change a state\<close>

lemma st_free_sock: "tcp_free_sock s w = Some w' \<Longrightarrow> st w' = (st w)(s := None)"
proof -
  have gone: "st (v\<lparr>w_tcp := (w_tcp u)(s := None)\<rparr>) = (st u)(s := None)" for u v
    by (auto simp: st_def)
  assume "tcp_free_sock s w = Some w'"
  then show ?thesis
    by (auto simp: tcp_free_sock_def gone split: if_splits option.splits elim!: bind_SomeE
        dest!: st_clear_queues st_clear_timers st_set_state)
qed

lemma st_alloc_sock: "tcp_alloc_sock w = Some (c, w') \<Longrightarrow> c = w_next w \<and> st w' = (st w)(c \<mapsto> TCP_CLOSE)"
  by (auto simp: tcp_alloc_sock_def Let_def st_put_tsk tcp_sock_zero_def sock_zero_def elim!: bind_SomeE)

lemma st_done: "tcp_done s w = Some w' \<Longrightarrow> st w' = (st w)(s := None)"
  by (auto simp: tcp_done_def elim!: bind_SomeE dest!: st_rings(2) st_free_sock)

lemma st_listen_child:
  "tcp_listen_child_sock s th sa da w = Some (c, w') \<Longrightarrow> c = w_next w \<and> st w' = (st w)(c \<mapsto> TCP_CLOSE)"
  by (auto simp: tcp_listen_child_sock_def upd_tsk_def st_put_same elim!: bind_SomeE dest!: st_alloc_sock)

lemma st_enter_time_wait: "tcp_enter_time_wait s w = Some w' \<Longrightarrow> st w' = (st w)(s \<mapsto> TCP_TIME_WAIT)"
  by (auto simp: tcp_enter_time_wait_def upd_tsk_def st_put_same world_timer_add_def Let_def
      split: prod.splits elim!: bind_SomeE dest!: st_set_state st_clear_timers)

lemma st_handle_fin_state:
  "tcp_handle_fin_state s w = Some w' \<Longrightarrow>
   st w' = st w \<or> st w s = Some TCP_CLOSE_WAIT \<and> st w' = (st w)(s \<mapsto> TCP_LAST_ACK) \<or>
   st w s = Some TCP_ESTABLISHED \<and> st w' = (st w)(s \<mapsto> TCP_FIN_WAIT_1)"
  by (auto simp: tcp_handle_fin_state_def split: tcp_state.splits elim!: bind_SomeE dest!: st_set_state)
    (simp_all add: st_def)

section \<open>Segments\<close>

text \<open>The transitions a received segment can cause.\<close>

inductive seg_step :: "tcp_state \<Rightarrow> tcp_state \<Rightarrow> bool" where
  stay: "seg_step x x"
| syn_ack: "seg_step TCP_SYN_SENT TCP_ESTABLISHED"
| simultaneous: "seg_step TCP_SYN_SENT TCP_SYN_RECEIVED"
| handshake: "seg_step TCP_SYN_RECEIVED TCP_ESTABLISHED"
| handshake_fin: "seg_step TCP_SYN_RECEIVED TCP_CLOSE_WAIT"
| peer_fin: "seg_step TCP_ESTABLISHED TCP_CLOSE_WAIT"
| both_fin: "seg_step TCP_FIN_WAIT_1 TCP_CLOSING"
| last_fin: "seg_step TCP_FIN_WAIT_2 TCP_TIME_WAIT"

inductive_simps seg_step_simps: "seg_step x y"

lemma fsm_listen:
  "tcp_handle_listen s skb th w = Some (r, f, w') \<Longrightarrow>
   st w' = st w \<or> st w' = (st w)(w_next w \<mapsto> TCP_SYN_RECEIVED)"
  by (auto simp: tcp_handle_listen_def upd_tsk_def st_put_same tcp_generate_isn_def Let_def
      split: if_splits elim!: bind_SomeE
      dest!: st_send_reset st_listen_child st_set_state st_send_synack st_rings(1))

lemma fsm_synsent:
  assumes "tcp_synsent s skb th w = Some (r, f, w')" and "st w s = Some TCP_SYN_SENT"
  shows "\<exists>y. seg_step TCP_SYN_SENT y \<and> st w' = (st w)(s \<mapsto> y)"
proof -
  have same: "(st w)(s \<mapsto> TCP_SYN_SENT) = st w" using assms(2) by auto
  have "st w' = st w \<or> st w' = (st w)(s \<mapsto> TCP_ESTABLISHED) \<or> st w' = (st w)(s \<mapsto> TCP_SYN_RECEIVED)"
    using assms(1)
    by (auto simp: tcp_synsent_def upd_tsk_def st_put_same Let_def split: if_splits elim!: bind_SomeE
        dest!: st_send_ack st_send_synack st_set_state st_clean)
  then show ?thesis using same by (metis seg_step.intros(1-3))
qed

lemma fsm_closed: "tcp_closed s skb th w = Some (r, f, w') \<Longrightarrow> st w' = st w"
  by (auto simp: tcp_closed_def split: if_splits elim!: bind_SomeE dest!: st_send_reset)

lemma fsm_process_syn:
  "tcp_process_syn s th w = Some w' \<Longrightarrow>
   st w' = st w \<or> st w s = Some TCP_SYN_RECEIVED \<and> st w' = (st w)(s := None)"
  by (auto simp: tcp_process_syn_def split: if_splits elim!: bind_SomeE
      dest!: st_rings(2) st_free_sock st_send_reset st_SomeI)

lemma fsm_process_ack:
  assumes "tcp_process_ack s th w = Some (go, w')"
  shows "st w' = st w \<or>
    st w s = Some TCP_SYN_RECEIVED \<and> st w' = (st w)(s \<mapsto> TCP_ESTABLISHED)"
proof -
  obtain tsk where tsk: "w_tcp w s = Some tsk"
    using assms by (auto simp: tcp_process_ack_def elim!: bind_SomeE)
  show ?thesis
  proof (cases "tsk_state tsk = TCP_SYN_RECEIVED")
    case True
    then show ?thesis
      using assms tsk
      by (auto simp: tcp_process_ack_def Let_def upd_tsk_def st_put_same st_def [of _ s]
          split: if_splits elim!: bind_SomeE dest!: st_synrecv_ack st_set_state st_send_reset)
  next
    case False
    then show ?thesis
      using assms tsk
      by (auto simp: tcp_process_ack_def Let_def upd_tsk_def st_put_same split: if_splits
          elim!: bind_SomeE dest!: st_clean)
  qed
qed

lemma fsm_process_text: "tcp_process_text s th skb w = Some (skb', w') \<Longrightarrow> st w' = st w"
  by (auto simp: tcp_process_text_def split: if_splits elim!: bind_SomeE
      dest!: st_data_queue st_recv_notify)

definition fin_next :: "tcp_state \<Rightarrow> tcp_state" where
  "fin_next x = (case x of TCP_SYN_RECEIVED \<Rightarrow> TCP_CLOSE_WAIT | TCP_ESTABLISHED \<Rightarrow> TCP_CLOSE_WAIT
     | TCP_FIN_WAIT_1 \<Rightarrow> TCP_CLOSING | TCP_FIN_WAIT_2 \<Rightarrow> TCP_TIME_WAIT | _ \<Rightarrow> x)"

lemma fsm_process_fin:
  assumes "tcp_process_fin s th skb w = Some w'" and "st w s = Some x"
  shows "st w' = st w \<or> st w' = (st w)(s \<mapsto> fin_next x)"
proof -
  have step: "st w' = (st w1)(s \<mapsto> fin_next x)"
    if "(case tsk_state tsk of
           TCP_SYN_RECEIVED \<Rightarrow> do { w \<leftarrow> tcp_set_state s TCP_CLOSE_WAIT w1; tcp_recv_notify s w }
         | TCP_ESTABLISHED \<Rightarrow> do { w \<leftarrow> tcp_set_state s TCP_CLOSE_WAIT w1; tcp_recv_notify s w }
         | TCP_FIN_WAIT_1 \<Rightarrow> tcp_set_state s TCP_CLOSING w1
         | TCP_FIN_WAIT_2 \<Rightarrow> tcp_enter_time_wait s w1
         | _ \<Rightarrow> Some w1) = Some w'" "w_tcp w1 s = Some tsk" "st w1 s = Some x" for w1 tsk
    using that by (auto simp: fin_next_def st_def [of _ s] split: tcp_state.splits elim!: bind_SomeE
        dest!: st_recv_notify st_set_state st_enter_time_wait)
  from assms show ?thesis
    by (auto simp: tcp_process_fin_def upd_tsk_def st_put_same split: if_splits elim!: bind_SomeE
        dest!: st_send_ack st_recv_notify step)
qed

text \<open>
  What a segment can do to the states: nothing, a legal transition of the socket it is for,
  the release of a half-open connection, or the birth of one.
\<close>

lemma fsm_process:
  assumes "tcp_process s th skb w = Some (r, f, w')" and "st w s = Some x"
  shows "(\<exists>y. seg_step x y \<and> st w' = (st w)(s \<mapsto> y)) \<or>
    x = TCP_SYN_RECEIVED \<and> st w' = (st w)(s := None) \<or>
    x = TCP_LISTEN \<and> st w' = (st w)(w_next w \<mapsto> TCP_SYN_RECEIVED)"
proof -
  obtain tsk where tsk: "w_tcp w s = Some tsk" "tsk_state tsk = x"
    using assms(2) by (auto simp: st_def)
  have same: "(st w)(s \<mapsto> x) = st w" using assms(2) by auto
  then have stay: "st w' = st w \<Longrightarrow> ?thesis" using seg_step.stay by metis
  consider "x = TCP_CLOSE" | "x = TCP_LISTEN" | "x = TCP_SYN_SENT"
    | "x \<notin> {TCP_CLOSE, TCP_LISTEN, TCP_SYN_SENT}" by blast
  then show ?thesis
  proof cases
    case 1
    with assms tsk show ?thesis by (intro stay fsm_closed) (simp add: tcp_process_def)
  next
    case 2
    then have "tcp_handle_listen s skb th w = Some (r, f, w')"
      using assms tsk by (simp add: tcp_process_def)
    then show ?thesis using 2 stay fsm_listen by blast
  next
    case 3
    then show ?thesis using assms tsk fsm_synsent [of s skb th w r f w'] by (auto simp: tcp_process_def)
  next
    case 4
    have run: "(if \<not> tcp_packet_filter tsk th skb
         then do {
           w \<leftarrow> (if \<not> th_rst th then do { (r, w) \<leftarrow> tcp_send_ack s w; Some w } else Some w);
           Some (Rc 0, tcp_drop skb, w)
         }
         else do {
           w \<leftarrow> tcp_process_syn s th w;
           (if \<not> th_ack th then Some (Rc 0, tcp_drop skb, w)
            else do {
              (go, w) \<leftarrow> tcp_process_ack s th w;
              (if \<not> go then Some (Rc 0, tcp_drop skb, w)
               else do {
                 (skb, w) \<leftarrow> tcp_process_text s th skb w;
                 w \<leftarrow> tcp_process_fin s th skb w;
                 Some (Rc 0, free_skb skb, w)
               })
            })
         }) = Some (r, f, w')"
      using assms(1) tsk 4 by (cases x) (simp_all add: tcp_process_def)
    show ?thesis
    proof (cases "tcp_packet_filter tsk th skb")
      case False
      then have "st w' = st w"
        using run by (auto split: if_splits elim!: bind_SomeE dest!: st_send_ack)
      then show ?thesis by (rule stay)
    next
      case True
      with run obtain w1 where w1: "tcp_process_syn s th w = Some w1"
        by (auto elim!: bind_SomeE)
      show ?thesis
      proof (cases "th_ack th")
        case False
        then have "w' = w1" using run True w1 by simp
        then show ?thesis using fsm_process_syn [OF w1] stay assms(2) by auto
      next
        case ack: True
        with run True w1 obtain go w2 where w2: "tcp_process_ack s th w1 = Some (go, w2)"
          by (auto elim!: bind_SomeE)
        have "st w1 s \<noteq> None" using w2 by (auto simp: tcp_process_ack_def st_def elim!: bind_SomeE)
        then have st1: "st w1 = st w" using fsm_process_syn [OF w1] by auto
        define y where "y = (if st w2 = st w then x else TCP_ESTABLISHED)"
        have st2: "st w2 = (st w)(s \<mapsto> y)" and y: "seg_step x y"
            "y = x \<or> x = TCP_SYN_RECEIVED \<and> y = TCP_ESTABLISHED"
          using fsm_process_ack [OF w2] st1 assms(2) same
          by (auto simp: y_def intro: seg_step.intros)
        show ?thesis
        proof (cases go)
          case False
          then have "w' = w2" using run True w1 ack w2 by simp
          then show ?thesis using st2 y by blast
        next
          case go: True
          with run True w1 ack w2 obtain skb3 w3 where w3: "tcp_process_text s th skb w2 = Some (skb3, w3)"
            "tcp_process_fin s th skb3 w3 = Some w'"
            by (auto elim!: bind_SomeE)
          have st3: "st w3 = (st w)(s \<mapsto> y)" using fsm_process_text [OF w3(1)] st2 by simp
          then have "st w' = (st w)(s \<mapsto> y) \<or> st w' = (st w)(s \<mapsto> fin_next y)"
            using fsm_process_fin [OF w3(2), of y] by auto
          moreover have "seg_step x (fin_next y)"
            using y(2) 4 by (auto simp: fin_next_def seg_step_simps split: tcp_state.splits)
          ultimately show ?thesis using y(1) by blast
        qed
      qed
    qed
  qed
qed

end
