(* ===== verification/Tcp_Sock.thy ===== *)
theory Tcp_Sock
  imports Tcp_Fsm
begin

text \<open>
  The operations \<open>tcp_sock.c\<close> offers the socket layer: connect, listen, accept, read, write and
  close, with \<open>tcp_receive\<close> of \<open>tcp_input.c\<close>.

  Three of them sleep.  Their argument \<open>es\<close> is the schedule: what the other threads do to the
  stack, one step after the other, while the caller sleeps.  The caller looks at its wait lock
  after every step, as the loop of \<open>wait_sleep\<close> does.  \<open>Asleep\<close> is the result when the schedule
  ends with the caller still sleeping.
\<close>

type_synonym env = "(world \<Rightarrow> world option) list"

datatype 'a outcome = Returned 'a | Asleep

text \<open>\<open>struct sockaddr_in\<close>: port and address in network order.\<close>

record sockaddr_in =
  sin_port :: u16
  sin_addr :: u32

section \<open>Sleeping\<close>

text \<open>The loop of \<open>wait_sleep\<close>; the result is the rest of the schedule, \<open>None\<close> if it ran out.\<close>

fun await :: "(world \<Rightarrow> bool option) \<Rightarrow> env \<Rightarrow> world \<Rightarrow> (env option \<times> world) option" where
  "await sleeping [] w = do {
     b \<leftarrow> sleeping w;
     Some (if b then None else Some [], w)
   }"
| "await sleeping (e # es) w = do {
     b \<leftarrow> sleeping w;
     (if \<not> b then Some (Some (e # es), w)
      else do { w \<leftarrow> e w; await sleeping es w })
   }"

text \<open>\<open>wait_sleep (&tsk->wait)\<close> and \<open>wait_sleep (&sk->recv_wait)\<close>.\<close>

definition wait_sleep_tsk :: "sid \<Rightarrow> env \<Rightarrow> world \<Rightarrow> (env option \<times> world) option" where
  "wait_sleep_tsk s es w = do {
     w \<leftarrow> upd_tsk s (\<lambda>tsk. tsk\<lparr>tsk_wait := (tsk_wait tsk)\<lparr>wl_sleeping := True\<rparr>\<rparr>) w;
     await (\<lambda>w. do { tsk \<leftarrow> w_tcp w s; Some (wl_sleeping (tsk_wait tsk)) }) es w
   }"

definition wait_sleep_recv :: "sid \<Rightarrow> env \<Rightarrow> world \<Rightarrow> (env option \<times> world) option" where
  "wait_sleep_recv s es w = do {
     w \<leftarrow> upd_tsk s (on_sk (\<lambda>sk. sk\<lparr>sk_recv_wait := (sk_recv_wait sk)\<lparr>wl_sleeping := True\<rparr>\<rparr>)) w;
     await (\<lambda>w. do { tsk \<leftarrow> w_tcp w s; Some (wl_sleeping (sk_recv_wait (tsk_sk tsk))) }) es w
   }"

section \<open>Writing\<close>

definition tcp_write :: "sid \<Rightarrow> bytes \<Rightarrow> u32 \<Rightarrow> world \<Rightarrow> (int \<times> world) option" where
  "tcp_write s buf len' w = do {
     tsk \<leftarrow> w_tcp w s;
     (case tsk_state tsk of
        TCP_ESTABLISHED \<Rightarrow> tcp_send s buf (sint len') w
      | TCP_CLOSE_WAIT \<Rightarrow> tcp_send s buf (sint len') w
      | _ \<Rightarrow> Some (-1, w))
   }"

section \<open>Reading\<close>

text \<open>The loop of \<open>tcp_receive\<close>: \<open>out\<close> is what the user's buffer holds so far.\<close>

partial_function (option) tcp_receive_loop ::
    "sid \<Rightarrow> int \<Rightarrow> bytes \<Rightarrow> env \<Rightarrow> world \<Rightarrow> (bytes outcome \<times> world) option" where
  "tcp_receive_loop s len' out es w =
     (if int (length out) < len' then
        Option.bind (tcp_data_dequeue s (word_of_int (len' - int (length out))) w) (\<lambda>r.
        let out = out @ fst r; w = snd r in
        Option.bind (w_tcp w s) (\<lambda>tsk.
        if tsk_flags tsk AND TCP_PSH \<noteq> 0
        then Some (Returned out, put_tsk s (tsk\<lparr>tsk_flags := tsk_flags tsk AND NOT TCP_PSH\<rparr>) w)
        else if tsk_flags tsk AND TCP_FIN \<noteq> 0 \<or> int (length out) = len'
        then Some (Returned out, w)
        else Option.bind (wait_sleep_recv s es w) (\<lambda>q.
          case fst q of
            None \<Rightarrow> Some (Asleep, snd q)
          | Some es \<Rightarrow> tcp_receive_loop s len' out es (snd q))))
      else Some (Returned out, w))"

text \<open>The \<open>memset\<close> of the buffer takes a negative \<open>len\<close> for a huge size: no result.\<close>

definition tcp_receive :: "sid \<Rightarrow> int \<Rightarrow> env \<Rightarrow> world \<Rightarrow> (bytes outcome \<times> world) option" where
  "tcp_receive s len' es w = (if len' < 0 then None else tcp_receive_loop s len' [] es w)"

text \<open>
  \<open>tcp_read\<close>: the returned \<open>int\<close> with the bytes written to the buffer.
\<close>

definition read_value :: "bytes outcome \<times> world \<Rightarrow> (int \<times> bytes) outcome \<times> world" where
  "read_value r = (case fst r of Returned out \<Rightarrow> Returned (int (length out), out) | Asleep \<Rightarrow> Asleep, snd r)"

definition tcp_read :: "sid \<Rightarrow> u32 \<Rightarrow> env \<Rightarrow> world \<Rightarrow> ((int \<times> bytes) outcome \<times> world) option" where
  "tcp_read s len' es w = do {
     tsk \<leftarrow> w_tcp w s;
     (if tsk_state tsk \<in> {TCP_LISTEN, TCP_SYN_SENT, TCP_SYN_RECEIVED, TCP_ESTABLISHED, TCP_FIN_WAIT_1,
        TCP_FIN_WAIT_2}
      then map_option read_value (tcp_receive s (sint len') es w)
      else if tsk_state tsk = TCP_CLOSE_WAIT
      then if skb_queue_empty (sk_receive_queue (tsk_sk tsk)) \<and> tsk_flags tsk AND TCP_FIN \<noteq> 0
        then Some (Returned (0, []), put_tsk s (tsk\<lparr>tsk_flags := tsk_flags tsk AND NOT TCP_FIN\<rparr>) w)
        else map_option read_value (tcp_receive s (sint len') es w)
      else Some (Returned (-1, []), w))
   }"

section \<open>Closing\<close>

definition tcp_close :: "sid \<Rightarrow> world \<Rightarrow> (int \<times> world) option" where
  "tcp_close s w = do {
     tsk \<leftarrow> w_tcp w s;
     (case tsk_state tsk of
        TCP_LISTEN \<Rightarrow> do {
          w \<leftarrow> tcp_set_state s TCP_CLOSE w;
          w \<leftarrow> tcp_connecting_or_listening_socks_remove s w;
          w \<leftarrow> tcp_free_sock s w;
          Some (0, w)
        }
      | TCP_SYN_SENT \<Rightarrow> do { (r, w) \<leftarrow> tcp_queue_fin s w; w \<leftarrow> tcp_set_state s TCP_FIN_WAIT_1 w; Some (0, w) }
      | TCP_SYN_RECEIVED \<Rightarrow> do { (r, w) \<leftarrow> tcp_queue_fin s w; w \<leftarrow> tcp_set_state s TCP_FIN_WAIT_1 w; Some (0, w) }
      | TCP_ESTABLISHED \<Rightarrow> do { (r, w) \<leftarrow> tcp_queue_fin s w; w \<leftarrow> tcp_set_state s TCP_FIN_WAIT_1 w; Some (0, w) }
      | TCP_CLOSE_WAIT \<Rightarrow> do { (r, w) \<leftarrow> tcp_queue_fin s w; w \<leftarrow> tcp_set_state s TCP_LAST_ACK w; Some (0, w) }
      | _ \<Rightarrow> Some (-1, put_tsk s (on_sk (\<lambda>sk. sk\<lparr>sk_err := - EBADF\<rparr>) tsk) w))
   }"

section \<open>Connecting\<close>

definition tcp_v4_connect :: "sid \<Rightarrow> sockaddr_in \<Rightarrow> env \<Rightarrow> world \<Rightarrow> (int outcome \<times> world) option" where
  "tcp_v4_connect s addr es w = do {
     w \<leftarrow> upd_tsk s (on_sk (\<lambda>sk. sk\<lparr>sk_dport := ntohs (sin_port addr)\<rparr>)) w;
     let (port, w) = tcp_generate_port w;
     sa \<leftarrow> ip_parse stackaddr;
     w \<leftarrow> upd_tsk s (on_sk (\<lambda>sk. sk\<lparr>sk_sport := port, sk_daddr := ntohl (sin_addr addr),
            sk_saddr := sa\<rparr>)) w;
     w \<leftarrow> tcp_connecting_or_listening_socks_enqueue s w;
     (r, w) \<leftarrow> tcp_begin_connect s w;
     (rest, w) \<leftarrow> wait_sleep_tsk s es w;
     (case rest of
        None \<Rightarrow> Some (Asleep, w)
      | Some _ \<Rightarrow> do {
          w \<leftarrow> tcp_connecting_or_listening_socks_remove s w;
          w \<leftarrow> tcp_established_or_syn_recvd_socks_enqueue s w;
          Some (Returned 0, w)
        })
   }"

section \<open>Listening and accepting\<close>

definition tcp_listen :: "sid \<Rightarrow> int \<Rightarrow> world \<Rightarrow> (int \<times> world) option" where
  "tcp_listen s backlog w = do {
     tsk \<leftarrow> w_tcp w s;
     (if sk_sport (tsk_sk tsk) = 0 then Some (-1, w)
      else if tsk_state tsk \<noteq> TCP_CLOSE \<and> tsk_state tsk \<noteq> TCP_LISTEN then Some (-1, w)
      else do {
        w \<leftarrow> tcp_set_state s TCP_LISTEN w;
        w \<leftarrow> tcp_connecting_or_listening_socks_enqueue s w;
        Some (0, w)
      })
   }"

definition tcp_accept_dequeue :: "sid \<Rightarrow> world \<Rightarrow> (sid \<times> world) option" where
  "tcp_accept_dequeue s w = do {
     n \<leftarrow> rd_next (w_links w) (accept_queue_of s);
     h \<leftarrow> list_del (w_links w) n;
     h \<leftarrow> list_init h n;
     Some (sid_at n, w\<lparr>w_links := h\<rparr>)
   }"

partial_function (option) tcp_accept :: "sid \<Rightarrow> env \<Rightarrow> world \<Rightarrow> (sid outcome \<times> world) option" where
  "tcp_accept s es w =
     Option.bind (w_tcp w s) (\<lambda>_.
     Option.bind (list_empty (w_links w) (accept_queue_of s)) (\<lambda>e.
     if e then Option.bind (wait_sleep_tsk s es w) (\<lambda>q.
       case fst q of
         None \<Rightarrow> Some (Asleep, snd q)
       | Some es \<Rightarrow> tcp_accept s es (snd q))
     else Option.bind (tcp_accept_dequeue s w) (\<lambda>r. Some (Returned (fst r), snd r))))"

section \<open>Transitions\<close>

text \<open>The transitions the user can cause.\<close>

inductive user_step :: "tcp_state \<Rightarrow> tcp_state \<Rightarrow> bool" where
  same: "user_step x x"
| listen: "user_step TCP_CLOSE TCP_LISTEN"
| close_active: "x \<in> {TCP_SYN_SENT, TCP_SYN_RECEIVED, TCP_ESTABLISHED} \<Longrightarrow> user_step x TCP_FIN_WAIT_1"
| close_passive: "user_step TCP_CLOSE_WAIT TCP_LAST_ACK"

lemma st_queue_fin [st_keeps]: "tcp_queue_fin s w = Some (r, w') \<Longrightarrow> st w' = st w"
  by (auto simp: tcp_queue_fin_def upd_tsk_def st_put_same elim!: bind_SomeE dest!: st_queue_transmit)

lemma fsm_write: "tcp_write s buf n w = Some (r, w') \<Longrightarrow> st w' = st w"
  by (auto simp: tcp_write_def tcp_send_def split: tcp_state.splits elim!: bind_SomeE dest!: st_send_loop)

lemma user_stay: "st w s = Some x \<Longrightarrow> st w' = st w \<Longrightarrow> \<exists>y. user_step x y \<and> st w' = (st w)(s \<mapsto> y)"
  using user_step.same by (metis fun_upd_triv)

lemma fsm_listen_op:
  assumes "tcp_listen s b w = Some (r, w')" and "st w s = Some x"
  shows "\<exists>y. user_step x y \<and> st w' = (st w)(s \<mapsto> y)"
proof -
  have "st w' = st w \<or> x \<in> {TCP_CLOSE, TCP_LISTEN} \<and> st w' = (st w)(s \<mapsto> TCP_LISTEN)"
    using assms by (auto simp: tcp_listen_def st_def [of _ s] split: if_splits elim!: bind_SomeE
        dest!: st_set_state st_rings(3))
  then show ?thesis using user_stay [OF assms(2)] user_step.intros(1,2) by blast
qed

lemma fsm_close:
  assumes "tcp_close s w = Some (r, w')" and "st w s = Some x"
  shows "(\<exists>y. user_step x y \<and> st w' = (st w)(s \<mapsto> y)) \<or> x = TCP_LISTEN \<and> st w' = (st w)(s := None)"
proof -
  obtain tsk where tsk: "w_tcp w s = Some tsk" "tsk_state tsk = x" using assms(2) by (auto simp: st_def)
  consider "x = TCP_LISTEN" | "x \<in> {TCP_SYN_SENT, TCP_SYN_RECEIVED, TCP_ESTABLISHED}"
    | "x = TCP_CLOSE_WAIT" | "x \<in> {TCP_CLOSE, TCP_CLOSING, TCP_LAST_ACK, TCP_TIME_WAIT, TCP_FIN_WAIT_1, TCP_FIN_WAIT_2}"
    by (cases x) auto
  then show ?thesis
  proof cases
    case 1
    then have "st w' = (st w)(s := None)"
      using assms(1) tsk by (auto simp: tcp_close_def elim!: bind_SomeE
          dest!: st_set_state st_rings(4) st_free_sock)
    with 1 show ?thesis by blast
  next
    case 2
    then have "st w' = (st w)(s \<mapsto> TCP_FIN_WAIT_1)"
      using assms(1) tsk by (auto simp: tcp_close_def elim!: bind_SomeE dest!: st_set_state st_queue_fin)
    with 2 show ?thesis by (blast intro: user_step.intros)
  next
    case 3
    then have "st w' = (st w)(s \<mapsto> TCP_LAST_ACK)"
      using assms(1) tsk by (auto simp: tcp_close_def elim!: bind_SomeE dest!: st_set_state st_queue_fin)
    with 3 show ?thesis by (blast intro: user_step.intros)
  next
    case 4
    then have "st w' = st w"
      using assms(1) tsk by (auto simp: tcp_close_def st_put_same)
    then show ?thesis using user_stay [OF assms(2)] by blast
  qed
qed

lemma st_send_syn:
  "tcp_send_syn s w = Some (r, w') \<Longrightarrow> st w' = st w \<or> st w' = (st w)(s \<mapsto> TCP_SYN_SENT)"
  by (auto simp: tcp_send_syn_def Let_def split: if_splits prod.splits elim!: bind_SomeE
      dest!: st_queue_transmit st_set_state)

lemma st_begin_connect:
  "tcp_begin_connect s w = Some (r, w') \<Longrightarrow> st w' = st w \<or> st w' = (st w)(s \<mapsto> TCP_SYN_SENT)"
  by (auto simp: tcp_begin_connect_def upd_tsk_def st_put_same tcp_generate_isn_def Let_def
      elim!: bind_SomeE dest!: st_send_syn)

section \<open>Schedules\<close>

text \<open>
  Whatever holds before a sleep and is kept by every step of the schedule holds after it.
\<close>

lemma await_keeps:
  assumes "await sleeping es w = Some (rest, w')" and "I w"
    and "\<And>e w w'. e \<in> set es \<Longrightarrow> I w \<Longrightarrow> e w = Some w' \<Longrightarrow> I w'"
  shows "I w' \<and> (\<forall>es'. rest = Some es' \<longrightarrow> set es' \<subseteq> set es)"
  using assms
proof (induction sleeping es w rule: await.induct)
  case (1 sleeping w)
  then show ?case by (auto elim!: bind_SomeE split: if_splits)
next
  case (2 sleeping e es w)
  from "2.prems"(1) obtain b where b: "sleeping w = Some b" by (auto elim!: bind_SomeE)
  show ?case
  proof (cases b)
    case False
    then show ?thesis using 2 b by auto
  next
    case True
    with "2.prems"(1) b obtain w1 where w1: "e w = Some w1" "await sleeping es w1 = Some (rest, w')"
      by (auto elim!: bind_SomeE)
    have "I w1" by (rule "2.prems"(3) [of e w]) (use "2.prems"(2) w1(1) in simp_all)
    then have "I w' \<and> (\<forall>es'. rest = Some es' \<longrightarrow> set es' \<subseteq> set es)"
      using "2.IH" [OF b _ w1(1) w1(2)] True "2.prems"(3) by auto
    then show ?thesis by auto
  qed
qed

text \<open>
  A wake-up that comes before the sleep is lost: \<open>wait_sleep\<close> sets the flag again, and with no
  further wake-up the caller stays asleep whatever the state of the connection.
\<close>

lemma wait_sleep_forgets:
  assumes "w_tcp w s = Some tsk"
  shows "\<exists>w'. wait_sleep_tsk s [] w = Some (None, w')"
  using assms by (simp add: wait_sleep_tsk_def)

end
