(* ===== verification/Tcp_Open.thy ===== *)
theory Tcp_Open
  imports Tcp_Sock
begin

text \<open>
  Opening a connection: what the handlers of theory \<open>Tcp_Input\<close> do with the segments of the
  three-way handshake, on the connecting side and on the listening side, and what happens to the
  write queue when an acknowledgment arrives.
\<close>

section \<open>Control segments on the wire\<close>

text \<open>
  \<open>n'\<close> is \<open>n\<close> with one more frame written: a segment without data of the connection \<open>tsk\<close>,
  with sequence number \<open>seq\<close> and flags \<open>f\<close>.
\<close>

definition emits :: "bytes \<Rightarrow> tcp_sock \<Rightarrow> u32 \<Rightarrow> u8 \<Rightarrow> net \<Rightarrow> net \<Rightarrow> bool" where
  "emits mac tsk seq f n n' \<longleftrightarrow>
     (\<exists>pkt sgm. n' = tun_write (eth_frame mac (nd_hwaddr (net_dev n)) ETH_P_IP pkt) n \<and>
        ip_datagram (net_dev n) (sk_daddr (tsk_sk tsk)) IP_TCP sgm pkt \<and>
        tcp_segment tsk seq 5 f [] sgm)"

lemma emits_net_inv: "emits mac tsk seq f n n' \<Longrightarrow> net_inv n \<Longrightarrow> net_inv n'"
  by (auto simp: emits_def)

lemma emits_cong:
  assumes "emits mac tsk seq f n n'" and "rcv_nxt (tsk_tcb tsk') = rcv_nxt (tsk_tcb tsk)"
    and "rcv_wnd (tsk_tcb tsk') = rcv_wnd (tsk_tcb tsk)"
    and "sk_daddr (tsk_sk tsk') = sk_daddr (tsk_sk tsk)" and "sk_saddr (tsk_sk tsk') = sk_saddr (tsk_sk tsk)"
    and "sk_dport (tsk_sk tsk') = sk_dport (tsk_sk tsk)" and "sk_sport (tsk_sk tsk') = sk_sport (tsk_sk tsk)"
  shows "emits mac tsk' seq f n n'"
  using assms by (simp add: emits_def tcp_segment_def tcp_header_for_def)

lemma tcp_transmit_ctl_sent:
  assumes "w_tcp w s = Some tsk" and "net_inv (w_net w)" and "arp_get_hwaddr (w_net w) gateway = Some mac"
  shows "\<exists>skb skb' n. tcp_set_flags f (tcp_alloc_skb 0 0) = Some skb \<and>
    tcp_transmit_skb s skb seq w = Some (Indet, skb', w\<lparr>w_net := n\<rparr>) \<and> emits mac tsk seq f (w_net w) n"
proof -
  obtain skb where skb: "tcp_set_flags f (tcp_alloc_skb 0 0) = Some skb" "tcp_ready 5 skb"
    "skb_protocol skb = ucast IP_TCP" "skb_buf skb ! 47 = f" "skb_len skb = 0"
    using tcp_ctl_skb by blast
  have rest: "take (unat (skb_len skb) + 4 * 5 - 20) (drop 54 (skb_buf skb)) = []"
    using skb(5) by simp
  show ?thesis
    using tcp_transmit_sent [OF assms(1) skb(2,3) assms(2,3), of seq] skb(1)
    unfolding skb(4) rest emits_def by blast
qed

lemma tcp_send_ack_sent:
  assumes "w_tcp w s = Some tsk" and "net_inv (w_net w)" and "arp_get_hwaddr (w_net w) gateway = Some mac"
    and "tsk_state tsk \<noteq> TCP_CLOSE"
  shows "\<exists>n. tcp_send_ack s w = Some (Indet, w\<lparr>w_net := n\<rparr>) \<and>
    emits mac tsk (snd_nxt (tsk_tcb tsk)) TCP_ACK (w_net w) n"
  using tcp_transmit_ctl_sent [OF assms(1-3), of TCP_ACK "snd_nxt (tsk_tcb tsk)"] assms(1,4)
  by (auto simp: tcp_send_ack_def)

lemma tcp_send_synack_sent:
  assumes "w_tcp w s = Some tsk" and "net_inv (w_net w)" and "arp_get_hwaddr (w_net w) gateway = Some mac"
    and "tsk_state tsk = TCP_SYN_RECEIVED"
  shows "\<exists>n. tcp_send_synack s w = Some (Indet, w\<lparr>w_net := n\<rparr>) \<and>
    emits mac tsk (snd_nxt (tsk_tcb tsk)) (TCP_SYN OR TCP_ACK) (w_net w) n"
  using tcp_transmit_ctl_sent [OF assms(1-3), of "TCP_SYN OR TCP_ACK" "snd_nxt (tsk_tcb tsk)"] assms(1,4)
  by (auto simp: tcp_send_synack_def)

section \<open>Acknowledged packets leave the write queue\<close>

lemma clean_loop_dropWhile:
  assumes "queue_inv q"
  shows "\<exists>q'. clean_loop una q = Some (q_items q' = [], q') \<and> queue_inv q' \<and>
    q_items q' = dropWhile (\<lambda>skb. skb_end_seq skb \<le> una) (q_items q)"
  using assms
proof (induction una q rule: clean_loop.induct)
  case (1 una q)
  show ?case
  proof (cases "q_items q")
    case Nil
    with 1(2) show ?thesis by (subst clean_loop.simps) (simp add: queue_inv_empty)
  next
    case (Cons skb rest)
    with 1(2) have ne: "\<not> skb_queue_empty q" by (simp add: queue_inv_empty)
    show ?thesis
    proof (cases "skb_end_seq skb \<le> una")
      case True
      have "queue_inv (q\<lparr>q_items := rest, qlen := qlen q - 1\<rparr>)" using 1(2) Cons by (rule queue_inv_tl)
      with 1(1) [OF ne Cons True] Cons ne True show ?thesis by (subst clean_loop.simps) simp
    next
      case False
      with Cons ne 1(2) show ?thesis by (subst clean_loop.simps) simp
    qed
  qed
qed

text \<open>
  The queue is cut down to what is not acknowledged.  When nothing is left, the retransmission
  timer is cancelled.
\<close>

lemma tcp_clean_ok:
  assumes "can_send w s tsk" and "queue_inv (sk_write_queue (tsk_sk tsk))"
  shows "\<exists>q rt ts. tcp_clean_retransmission_queue s una w =
      Some (put_tsk s ((on_sk (\<lambda>sk. sk\<lparr>sk_write_queue := q\<rparr>) tsk)\<lparr>tsk_retransmit := rt\<rparr>) (w\<lparr>w_timers := ts\<rparr>)) \<and>
    queue_inv q \<and>
    q_items q = dropWhile (\<lambda>skb. skb_end_seq skb \<le> una) (q_items (sk_write_queue (tsk_sk tsk))) \<and>
    rt = (if q_items q = [] then None else tsk_retransmit tsk) \<and>
    timers_live ts ((on_sk (\<lambda>sk. sk\<lparr>sk_write_queue := q\<rparr>) tsk)\<lparr>tsk_retransmit := rt\<rparr>) \<and>
    (q_items q = [] \<longrightarrow> (\<forall>t x. tsk_retransmit tsk = Some t \<longrightarrow> timer_get ts t = Some x \<longrightarrow> tm_cancelled x))"
proof -
  have w: "w_tcp w s = Some tsk" "timers_live (w_timers w) tsk" using assms(1) by (simp_all add: can_send_def)
  obtain q where q: "clean_loop una (sk_write_queue (tsk_sk tsk)) = Some (q_items q = [], q)" "queue_inv q"
    "q_items q = dropWhile (\<lambda>skb. skb_end_seq skb \<le> una) (q_items (sk_write_queue (tsk_sk tsk)))"
    using clean_loop_dropWhile [OF assms(2)] by blast
  let ?t = "on_sk (\<lambda>sk. sk\<lparr>sk_write_queue := q\<rparr>) tsk"
  have live: "timers_live (w_timers w) ?t" using w(2) by (simp add: timers_live_def)
  show ?thesis
  proof (cases "q_items q = []")
    case True
    obtain ts where ts: "timer_cancel (tsk_retransmit tsk) (w_timers w) = Some ts" "timers_live ts ?t"
      using timer_cancel_live [OF live, of "tsk_retransmit tsk"] by auto
    have "tcp_clean_retransmission_queue s una w =
        Some (put_tsk s (?t\<lparr>tsk_retransmit := None\<rparr>) (w\<lparr>w_timers := ts\<rparr>))"
      using w(1) q(1) True ts(1)
      by (simp add: tcp_clean_retransmission_queue_def tcp_stop_retransmission_timer_def put_tsk_def)
    moreover have "tm_cancelled x" if "tsk_retransmit tsk = Some t" "timer_get ts t = Some x" for t x
      using ts(1) that by (auto simp: timer_cancel_def timer_get_set elim!: bind_SomeE)
    ultimately show ?thesis using q(2,3) ts(2) True by (intro exI) (auto simp: timers_live_def)
  next
    case False
    have "tcp_clean_retransmission_queue s una w =
        Some (put_tsk s (?t\<lparr>tsk_retransmit := tsk_retransmit tsk\<rparr>) (w\<lparr>w_timers := w_timers w\<rparr>))"
      using w(1) q(1) False by (simp add: tcp_clean_retransmission_queue_def on_sk_def)
    then show ?thesis
      using q(2,3) live False
      by (intro exI [of _ q] exI [of _ "tsk_retransmit tsk"] exI [of _ "w_timers w"])
        (auto simp: timers_live_def)
  qed
qed

section \<open>The connecting side\<close>

text \<open>
  The answer to our SYN: the connection is established, the SYN leaves the write queue, an ack
  goes out and the caller of \<open>connect\<close> is woken.
\<close>

lemma tcp_synsent_ok:
  assumes cs: "can_send w s tsk" and st: "tsk_state tsk = TCP_SYN_SENT"
    and mac: "arp_get_hwaddr (w_net w) gateway = Some mac"
    and q: "queue_inv (sk_write_queue (tsk_sk tsk))"
      "\<forall>skb\<in>set (q_items (sk_write_queue (tsk_sk tsk))). skb_end_seq skb = isn (tsk_tcb tsk)"
    and th: "th_syn th" "th_ack th" "\<not> th_rst th" "th_ack_seq th = isn (tsk_tcb tsk) + 1"
    and una: "snd_una (tsk_tcb tsk) = isn (tsk_tcb tsk)" "snd_nxt (tsk_tcb tsk) = isn (tsk_tcb tsk) + 1"
      "isn (tsk_tcb tsk) < isn (tsk_tcb tsk) + 1"
  shows "\<exists>tsk' ts n. tcp_synsent s skb th w =
      Some (Rc 0, tcp_drop skb, put_tsk s tsk' (w\<lparr>w_timers := ts, w_net := n\<rparr>)) \<and>
    can_send (put_tsk s tsk' (w\<lparr>w_timers := ts, w_net := n\<rparr>)) s tsk' \<and>
    tsk_sk tsk' = (tsk_sk tsk)\<lparr>sk_state := TCP_ESTABLISHED, sk_write_queue := skb_queue_init\<rparr> \<and>
    tsk_tcb tsk' = (tsk_tcb tsk)\<lparr>rcv_nxt := th_seq th + 1, irs := th_seq th,
      snd_una := isn (tsk_tcb tsk) + 1\<rparr> \<and>
    tsk_retransmit tsk' = None \<and> \<not> wl_sleeping (tsk_wait tsk') \<and> tsk_ofo_queue tsk' = tsk_ofo_queue tsk \<and>
    emits mac tsk' (isn (tsk_tcb tsk) + 1) TCP_ACK (w_net w) n"
proof -
  let ?i = "isn (tsk_tcb tsk)"
  have w: "w_tcp w s = Some tsk" using cs by (simp add: can_send_def)
  define t1 where "t1 = on_tcb (\<lambda>tcb. tcb\<lparr>rcv_nxt := th_seq th + 1, irs := th_seq th, snd_una := ?i + 1\<rparr>) tsk"
  have c1: "can_send (put_tsk s t1 w) s t1"
    using cs by (simp add: can_send_def t1_def timers_live_def)
  have q1: "queue_inv (sk_write_queue (tsk_sk t1))" using q(1) by (simp add: t1_def)
  obtain q' rt ts where cl: "tcp_clean_retransmission_queue s (?i + 1) (put_tsk s t1 w) =
      Some (put_tsk s ((on_sk (\<lambda>sk. sk\<lparr>sk_write_queue := q'\<rparr>) t1)\<lparr>tsk_retransmit := rt\<rparr>) ((put_tsk s t1 w)\<lparr>w_timers := ts\<rparr>))"
    "queue_inv q'"
    "q_items q' = dropWhile (\<lambda>skb. skb_end_seq skb \<le> ?i + 1) (q_items (sk_write_queue (tsk_sk t1)))"
    "rt = (if q_items q' = [] then None else tsk_retransmit t1)"
    "timers_live ts ((on_sk (\<lambda>sk. sk\<lparr>sk_write_queue := q'\<rparr>) t1)\<lparr>tsk_retransmit := rt\<rparr>)"
    using tcp_clean_ok [OF c1 q1, of "?i + 1"] by blast
  have "q_items q' = []"
    unfolding cl(3) t1_def using q(2) una(3) by (auto simp: dropWhile_eq_Nil_conv)
  then have q': "q' = skb_queue_init" and rt: "rt = None"
    using cl(2,4) by (auto simp: queue_inv_def skb_queue_init_def unsigned_eq_0_iff)
  define t2 where "t2 = (on_sk (\<lambda>sk. sk\<lparr>sk_write_queue := q', sk_state := TCP_ESTABLISHED\<rparr>) t1)\<lparr>tsk_retransmit := rt\<rparr>"
  let ?w2 = "put_tsk s t2 (w\<lparr>w_timers := ts\<rparr>)"
  have n2: "net_inv (w_net ?w2)" "arp_get_hwaddr (w_net ?w2) gateway = Some mac" "w_tcp ?w2 s = Some t2"
    using cs mac by (simp_all add: can_send_def)
  obtain n where a: "tcp_send_ack s ?w2 = Some (Indet, ?w2\<lparr>w_net := n\<rparr>)"
    "emits mac t2 (snd_nxt (tsk_tcb t2)) TCP_ACK (w_net ?w2) n"
    using tcp_send_ack_sent [OF n2(3,1,2)] by (auto simp: t2_def)
  let ?t = "t2\<lparr>tsk_wait := wait_wakeup (tsk_wait t2)\<rparr>"
  have fin: "tsk_sk ?t = (tsk_sk tsk)\<lparr>sk_state := TCP_ESTABLISHED, sk_write_queue := skb_queue_init\<rparr>"
    "tsk_tcb ?t = (tsk_tcb tsk)\<lparr>rcv_nxt := th_seq th + 1, irs := th_seq th, snd_una := ?i + 1\<rparr>"
    "tsk_retransmit ?t = None" "\<not> wl_sleeping (tsk_wait ?t)" "tsk_ofo_queue ?t = tsk_ofo_queue tsk"
    by (simp_all add: t2_def t1_def q' rt wait_wakeup_def)
  have "snd_nxt (tsk_tcb t2) = ?i + 1" "w_net ?w2 = w_net w" using una(2) by (simp_all add: t2_def t1_def)
  then have "emits mac t2 (?i + 1) TCP_ACK (w_net w) n" using a(2) by simp
  then have "emits mac ?t (?i + 1) TCP_ACK (w_net w) n" by (rule emits_cong) simp_all
  moreover have "can_send (put_tsk s ?t (w\<lparr>w_timers := ts, w_net := n\<rparr>)) s ?t"
    using cs cl(5) emits_net_inv [OF a(2)] by (simp add: can_send_def timers_live_def t2_def q')
  moreover have "tcp_synsent s skb th w =
      Some (Rc 0, tcp_drop skb, put_tsk s ?t (w\<lparr>w_timers := ts, w_net := n\<rparr>))"
  proof -
    let ?a = "th_ack_seq th"
    have g: "\<not> ?a < isn (tsk_tcb tsk)" "\<not> snd_nxt (tsk_tcb tsk) < ?a" "\<not> ?a < snd_una (tsk_tcb tsk)"
      using th(4) una by (simp_all add: less_imp_le not_less)
    have t1: "on_tcb (\<lambda>tcb. tcb\<lparr>snd_una := ?a\<rparr>)
        (on_tcb (\<lambda>tcb. tcb\<lparr>rcv_nxt := th_seq th + 1, irs := th_seq th\<rparr>) tsk) = t1"
      by (simp add: t1_def on_tcb_def th(4))
    have t2: "on_tcb (\<lambda>tcb. tcb\<lparr>snd_una := snd_nxt tcb\<rparr>)
        (on_sk (\<lambda>sk. sk\<lparr>sk_state := TCP_ESTABLISHED\<rparr>)
          ((on_sk (\<lambda>sk. sk\<lparr>sk_write_queue := q'\<rparr>) t1)\<lparr>tsk_retransmit := rt\<rparr>)) = t2"
      by (simp add: t2_def t1_def on_tcb_def on_sk_def una(2))
    have isn: "isn (tsk_tcb t1) < snd_una (tsk_tcb t1)" using una(3) by (simp add: t1_def)
    have ww: "(put_tsk s t1 w)\<lparr>w_timers := ts\<rparr> = put_tsk s t1 (w\<lparr>w_timers := ts\<rparr>)"
      "?w2\<lparr>w_net := n\<rparr> = put_tsk s t2 (w\<lparr>w_timers := ts, w_net := n\<rparr>)"
      by (simp_all add: put_tsk_def)
    show ?thesis
      unfolding tcp_synsent_def Let_def
      using w th(1-3) g cl(1) [folded th(4)] a(1) isn by (simp add: t1 t2 ww tcp_set_state_def)
  qed
  ultimately show ?thesis using fin by blast
qed

section \<open>The listening side\<close>

text \<open>Nodes of different kinds, or of different sockets, are at different addresses.\<close>

lemma node_simps [simp]:
  "list_of s = list_of t \<longleftrightarrow> s = t" "list_of s \<noteq> link_of t" "link_of t \<noteq> list_of s"
  "list_of s \<noteq> listen_queue_of t" "list_of s \<noteq> accept_queue_of t"
  "listen_queue_of t \<noteq> list_of s" "accept_queue_of t \<noteq> list_of s"
  "link_of s \<noteq> listen_queue_of t" "link_of s \<noteq> accept_queue_of t"
  "listen_queue_of t \<noteq> link_of s" "accept_queue_of t \<noteq> link_of s"
  "listen_queue_of s \<noteq> accept_queue_of t" "accept_queue_of s \<noteq> listen_queue_of t"
  "list_of s \<noteq> 0" "listen_queue_of s \<noteq> 0" "accept_queue_of s \<noteq> 0" "0 < list_of s"
  "list_of s \<noteq> Suc 0" "listen_queue_of s \<noteq> Suc 0" "accept_queue_of s \<noteq> Suc 0"
  "list_of s \<noteq> 2" "listen_queue_of s \<noteq> 2" "accept_queue_of s \<noteq> 2"
  "Suc 0 \<noteq> list_of s" "Suc 0 \<noteq> listen_queue_of s" "Suc 0 \<noteq> accept_queue_of s"
  "2 \<noteq> list_of s" "2 \<noteq> listen_queue_of s" "2 \<noteq> accept_queue_of s"
  by (simp_all add: link_of_def list_of_def listen_queue_of_def accept_queue_of_def) presburger+

lemma list_of_in_image [simp]: "list_of s \<in> list_of ` S \<longleftrightarrow> s \<in> S"
  by (auto simp: image_iff)

definition nodes :: "sid \<Rightarrow> addr set" where
  "nodes s = {link_of s, list_of s, listen_queue_of s, accept_queue_of s}"

text \<open>
  A listening socket \<open>p\<close> and its two queues: \<open>ls\<close> are the half-open connections, \<open>acc\<close> the
  established ones nobody has accepted.
\<close>

definition backlog :: "world \<Rightarrow> sid \<Rightarrow> sid list \<Rightarrow> sid list \<Rightarrow> bool" where
  "backlog w p ls acc \<longleftrightarrow> dlist (w_links w) (listen_queue_of p) (map list_of ls) \<and>
     dlist (w_links w) (accept_queue_of p) (map list_of acc) \<and> set ls \<inter> set acc = {}"

definition listening :: "world \<Rightarrow> sid list \<Rightarrow> sid list \<Rightarrow> sid \<Rightarrow> sid list \<Rightarrow> sid list \<Rightarrow> bool" where
  "listening w cs es p ls acc \<longleftrightarrow> tables w cs es \<and> backlog w p ls acc \<and>
     dom (w_tcp w) \<subseteq> {..<w_next w} \<and> p \<in> dom (w_tcp w) \<and> set ls \<union> set acc \<subseteq> dom (w_tcp w)"

lemma listening_fresh:
  assumes "listening w cs es p ls acc"
  shows "w_next w \<notin> set cs" "w_next w \<notin> set es" "w_next w \<notin> set ls" "w_next w \<notin> set acc" "w_next w \<noteq> p"
proof -
  have "w_next w \<notin> dom (w_tcp w)" using assms by (auto simp: listening_def)
  then show "w_next w \<notin> set cs" "w_next w \<notin> set es" "w_next w \<notin> set ls" "w_next w \<notin> set acc" "w_next w \<noteq> p"
    using assms unfolding listening_def tables_def by blast+
qed

lemma clear_nodes_agree: "agree (- nodes s) h (clear_nodes s h)"
  by (auto simp: agree_def clear_nodes_def nodes_def link_of_def list_of_def listen_queue_of_def
      accept_queue_of_def)

lemma tcp_alloc_sock_ok:
  "\<exists>h. tcp_alloc_sock w = Some (w_next w,
      put_tsk (w_next w) tcp_sock_zero (w\<lparr>w_next := w_next w + 1, w_links := h\<rparr>)) \<and>
    agree (- nodes (w_next w)) (w_links w) h"
proof -
  let ?c = "w_next w" and ?h = "clear_nodes (w_next w) (w_links w)"
  obtain h1 where h1: "list_init ?h (accept_queue_of ?c) = Some h1"
    using dlist_init [of "accept_queue_of ?c"] by auto
  obtain h2 where h2: "list_init h1 (listen_queue_of ?c) = Some h2"
    using dlist_init [of "listen_queue_of ?c"] by auto
  have "agree (- nodes ?c) (w_links w) h2"
  proof (rule agree_trans [OF clear_nodes_agree agree_trans])
    show "agree (- nodes ?c) ?h h1"
      by (rule agree_subset [OF list_init_agree [OF h1]]) (simp add: nodes_def)
    show "agree (- nodes ?c) h1 h2"
      by (rule agree_subset [OF list_init_agree [OF h2]]) (simp add: nodes_def)
  qed
  moreover have "tcp_alloc_sock w = Some (?c,
      put_tsk ?c tcp_sock_zero (w\<lparr>w_next := ?c + 1, w_links := h2\<rparr>))"
    using h1 h2 by (simp add: tcp_alloc_sock_def Let_def put_tsk_def)
  ultimately show ?thesis by blast
qed

lemma tables_agree:
  assumes "tables w cs es" and "agree (- A) (w_links w) h"
    and "A \<inter> (insert CL_HEAD (insert ES_HEAD (link_of ` (set cs \<union> set es)))) = {}"
    and "dom (w_tcp w) \<subseteq> dom (w_tcp w')" and "w_links w' = h"
  shows "tables w' cs es"
proof -
  have "agree (set (CL_HEAD # map link_of cs)) (w_links w) h" "agree (set (ES_HEAD # map link_of es)) (w_links w) h"
    by (rule agree_subset [OF assms(2)], use assms(3) in auto)+
  moreover have "set cs \<union> set es \<subseteq> dom (w_tcp w')"
    using assms(1,4) unfolding tables_def by blast
  ultimately show ?thesis
    using assms(1,5) by (auto simp: tables_def ring_holds_def intro: dlist_agree)
qed

lemma backlog_agree:
  assumes "backlog w p ls acc" and "agree (- A) (w_links w) h"
    and "A \<inter> (insert (listen_queue_of p) (insert (accept_queue_of p) (list_of ` (set ls \<union> set acc)))) = {}"
    and "w_links w' = h"
  shows "backlog w' p ls acc"
proof -
  have "agree (set (listen_queue_of p # map list_of ls)) (w_links w) h"
    "agree (set (accept_queue_of p # map list_of acc)) (w_links w) h"
    by (rule agree_subset [OF assms(2)], use assms(3) in auto)+
  then show ?thesis using assms(1,4) by (auto simp: backlog_def dlist_agree)
qed

text \<open>The child of a listening socket: allocated, addressed and put on the listen queue.\<close>

definition child_of :: "sid \<Rightarrow> tcphdr \<Rightarrow> u32 \<Rightarrow> u32 \<Rightarrow> tcp_sock" where
  "child_of p th saddr daddr =
     on_sk (\<lambda>sk. sk\<lparr>sk_saddr := daddr, sk_daddr := saddr, sk_sport := th_dport th, sk_dport := th_sport th\<rparr>)
       (tcp_sock_zero\<lparr>tsk_parent := Some p\<rparr>)"

lemma listen_child_ok:
  assumes "listening w cs es p ls acc"
  shows "\<exists>h. tcp_listen_child_sock p th saddr daddr w = Some (w_next w,
      put_tsk (w_next w) (child_of p th saddr daddr) (w\<lparr>w_next := w_next w + 1, w_links := h\<rparr>)) \<and>
    listening (put_tsk (w_next w) (child_of p th saddr daddr) (w\<lparr>w_next := w_next w + 1, w_links := h\<rparr>))
      cs es p (w_next w # ls) acc"
proof -
  let ?c = "w_next w"
  have t: "tables w cs es" and b: "backlog w p ls acc" and dom: "dom (w_tcp w) \<subseteq> {..<?c}"
    and p: "p \<in> dom (w_tcp w)" and q: "set ls \<union> set acc \<subseteq> dom (w_tcp w)"
    using assms by (auto simp: listening_def)
  note fresh = listening_fresh [OF assms]
  obtain h where h: "tcp_alloc_sock w = Some (?c, put_tsk ?c tcp_sock_zero (w\<lparr>w_next := ?c + 1, w_links := h\<rparr>))"
    "agree (- nodes ?c) (w_links w) h"
    using tcp_alloc_sock_ok by blast
  let ?w1 = "put_tsk ?c (child_of p th saddr daddr) (w\<lparr>w_next := ?c + 1, w_links := h\<rparr>)"
  have t1: "tables ?w1 cs es"
    by (rule tables_agree [OF t h(2)]) (use fresh in \<open>auto simp: nodes_def\<close>)
  have b1: "backlog ?w1 p ls acc"
  proof (rule backlog_agree [OF b h(2)])
    show "nodes ?c \<inter> insert (listen_queue_of p) (insert (accept_queue_of p) (list_of ` (set ls \<union> set acc))) = {}"
      using fresh by (auto simp: nodes_def listen_queue_of_def accept_queue_of_def list_of_def link_of_def) presburger+
  qed simp
  have d1: "dlist h (listen_queue_of p) (map list_of ls)" using b1 by (simp add: backlog_def)
  obtain h2 where h2: "list_add h (list_of ?c) (listen_queue_of p) = Some h2"
    "dlist h2 (listen_queue_of p) (list_of ?c # map list_of ls)"
    using dlist_add [OF d1, of "list_of ?c"] fresh by auto
  have a2: "agree (- set (list_of ?c # listen_queue_of p # map list_of ls)) h h2"
    using d1 h2(1) by (rule list_add_agree)
  let ?w2 = "put_tsk ?c (child_of p th saddr daddr) (w\<lparr>w_next := ?c + 1, w_links := h2\<rparr>)"
  have t2: "tables ?w2 cs es"
    by (rule tables_agree [OF t1, of _ h2]) (use a2 in auto)
  have "dlist h2 (accept_queue_of p) (map list_of acc)"
  proof (rule dlist_agree)
    show "dlist h (accept_queue_of p) (map list_of acc)" using b1 by (simp add: backlog_def)
    show "agree (set (accept_queue_of p # map list_of acc)) h h2"
      by (rule agree_subset [OF a2]) (use b fresh in \<open>auto simp: backlog_def\<close>)
  qed
  then have "backlog ?w2 p (?c # ls) acc" using h2(2) b fresh by (auto simp: backlog_def)
  then have "listening ?w2 cs es p (?c # ls) acc"
    using t2 dom p q by (auto simp: listening_def)
  moreover have "tcp_listen_child_sock p th saddr daddr w = Some (?c, ?w2)"
    using h(1) h2(1) by (simp add: tcp_listen_child_sock_def child_of_def put_tsk_def)
  ultimately show ?thesis by blast
qed

text \<open>
  A SYN for a listening socket: a half-open connection is born, addressed to the sender, findable
  by the four-tuple, and its SYN-ACK is on the wire.  Its receive window stays zero.
\<close>

definition half_open :: "sid \<Rightarrow> tcphdr \<Rightarrow> u32 \<Rightarrow> u32 \<Rightarrow> u32 \<Rightarrow> tcp_sock" where
  "half_open p th saddr daddr i =
     on_sk (\<lambda>sk. sk\<lparr>sk_state := TCP_SYN_RECEIVED\<rparr>)
       (on_tcb (\<lambda>tcb. tcb\<lparr>irs := th_seq th, isn := i, snd_nxt := i + 1, snd_una := i,
          rcv_nxt := th_seq th + 1\<rparr>) (child_of p th saddr daddr))"

lemma tcp_handle_listen_ok:
  assumes l: "listening w cs es p ls acc" and th: "th_syn th" "\<not> th_ack th" "\<not> th_rst th"
    and net: "net_inv (w_net w)" "arp_get_hwaddr (w_net w) gateway = Some mac"
    and ip: "load32 (skb_buf skb) (ip_hdr skb + 12) = Some saddr"
      "load32 (skb_buf skb) (ip_hdr skb + 16) = Some daddr"
  shows "\<exists>w' n h. tcp_handle_listen p skb th w = Some (Rc 0, free_skb skb, w') \<and>
    w' = put_tsk (w_next w) (half_open p th saddr daddr (w_isns w (w_isn_cnt w)))
      (w\<lparr>w_next := w_next w + 1, w_links := h, w_isn_cnt := w_isn_cnt w + 1, w_net := n\<rparr>) \<and>
    listening w' cs (es @ [w_next w]) p (w_next w # ls) acc \<and>
    emits mac (half_open p th saddr daddr (w_isns w (w_isn_cnt w))) (w_isns w (w_isn_cnt w))
      (TCP_SYN OR TCP_ACK) (w_net w) n"
proof -
  let ?c = "w_next w" and ?i = "w_isns w (w_isn_cnt w)"
  let ?ch = "child_of p th saddr daddr" and ?ho = "half_open p th saddr daddr ?i"
  obtain h where h: "tcp_listen_child_sock p th saddr daddr w =
      Some (?c, put_tsk ?c ?ch (w\<lparr>w_next := ?c + 1, w_links := h\<rparr>))"
    "listening (put_tsk ?c ?ch (w\<lparr>w_next := ?c + 1, w_links := h\<rparr>)) cs es p (?c # ls) acc"
    using listen_child_ok [OF l] by blast
  define t1 where "t1 = on_tcb (\<lambda>tcb. tcb\<lparr>irs := th_seq th, isn := ?i, snd_nxt := ?i, rcv_nxt := th_seq th + 1\<rparr>)
      (on_sk (\<lambda>sk. sk\<lparr>sk_state := TCP_SYN_RECEIVED\<rparr>) ?ch)"
  define w1 where "w1 = put_tsk ?c t1 (w\<lparr>w_next := ?c + 1, w_links := h, w_isn_cnt := w_isn_cnt w + 1\<rparr>)"
  have w1: "w_tcp w1 ?c = Some t1" "w_net w1 = w_net w" "w_links w1 = h" "dom (w_tcp w1) = insert ?c (dom (w_tcp w))"
    by (simp_all add: w1_def)
  have st1: "tsk_state t1 = TCP_SYN_RECEIVED" "snd_nxt (tsk_tcb t1) = ?i" by (simp_all add: t1_def)
  obtain n where n: "tcp_send_synack ?c w1 = Some (Indet, w1\<lparr>w_net := n\<rparr>)"
    "emits mac t1 ?i (TCP_SYN OR TCP_ACK) (w_net w) n"
    using tcp_send_synack_sent [OF w1(1), of mac] net w1(2) st1 by auto
  have l1: "listening (w1\<lparr>w_net := n\<rparr>) cs es p (?c # ls) acc"
    using h(2) by (simp add: listening_def tables_def backlog_def ring_holds_def w1_def)
  have nd: "?c \<notin> set (cs @ es)" using listening_fresh [OF l] by simp
  have tb: "tables (w1\<lparr>w_net := n\<rparr>) cs es" and dm: "?c \<in> dom (w_tcp (w1\<lparr>w_net := n\<rparr>))"
    using l1 w1(4) by (simp_all add: listening_def)
  obtain h2 where h2: "tcp_established_or_syn_recvd_socks_enqueue ?c (w1\<lparr>w_net := n\<rparr>) =
      Some (w1\<lparr>w_net := n, w_links := h2\<rparr>)" "tables (w1\<lparr>w_net := n, w_links := h2\<rparr>) cs (es @ [?c])"
    using tables_es_enqueue [OF tb nd dm] by auto
  have "list_add_tail h (link_of ?c) ES_HEAD = Some h2"
    using h2(1) w1(3) by (auto simp: tcp_established_or_syn_recvd_socks_enqueue_def elim!: bind_SomeE
        dest!: arg_cong [where f = w_links])
  moreover have "dlist h ES_HEAD (map link_of es)"
    using tb w1(3) by (simp add: tables_def ring_holds_def)
  ultimately have ag: "agree (- set (link_of ?c # ES_HEAD # map link_of es)) h h2"
    using list_add_tail_agree by blast
  let ?w' = "put_tsk ?c ?ho (w\<lparr>w_next := ?c + 1, w_links := h2, w_isn_cnt := w_isn_cnt w + 1, w_net := n\<rparr>)"
  have b1: "backlog (w1\<lparr>w_net := n\<rparr>) p (?c # ls) acc" using l1 by (simp add: listening_def)
  have ag1: "agree (- set (link_of ?c # ES_HEAD # map link_of es)) (w_links (w1\<lparr>w_net := n\<rparr>)) h2"
    using ag w1(3) by simp
  have "backlog ?w' p (?c # ls) acc"
    by (rule backlog_agree [OF b1 ag1]) auto
  then have "listening ?w' cs (es @ [?c]) p (?c # ls) acc"
    using h2(2) l1 by (simp add: listening_def tables_def ring_holds_def w1_def)
  moreover have "emits mac ?ho ?i (TCP_SYN OR TCP_ACK) (w_net w) n"
    using n(2) by (rule emits_cong) (simp_all add: t1_def half_open_def)
  moreover have "tcp_handle_listen p skb th w = Some (Rc 0, free_skb skb, ?w')"
  proof -
    have t2: "on_tcb (\<lambda>tcb. tcb\<lparr>snd_nxt := isn tcb + 1, snd_una := isn tcb\<rparr>) t1 = ?ho"
      by (simp add: t1_def half_open_def on_tcb_def on_sk_def)
    have e: "put_tsk ?c t1 ((put_tsk ?c (on_sk (\<lambda>sk. sk\<lparr>sk_state := TCP_SYN_RECEIVED\<rparr>) ?ch)
        (w\<lparr>w_next := Suc ?c, w_links := h\<rparr>))\<lparr>w_isn_cnt := Suc (w_isn_cnt w)\<rparr>) = w1"
      by (simp add: w1_def put_tsk_def)
    have f: "put_tsk ?c ?ho (w1\<lparr>w_net := n, w_links := h2\<rparr>) = ?w'" by (simp add: w1_def put_tsk_def del: Suc_eq_plus1)
    show ?thesis
      unfolding tcp_handle_listen_def
      using th ip h(1) n(1) h2(1) w1(1)
      by (simp add: tcp_set_state_def tcp_generate_isn_def e t1_def [symmetric] t2 f [simplified])
  qed
  ultimately show ?thesis by blast
qed

text \<open>
  The accept queue: an established connection moves from the listen queue to the head of the
  accept queue.
\<close>

lemma tcp_accept_enqueue_ok:
  assumes b: "backlog w p (us @ c # vs) acc" and c: "w_tcp w c = Some tsk" "tsk_parent tsk = Some p"
  shows "\<exists>h. tcp_accept_enqueue c w = Some (w\<lparr>w_links := h\<rparr>) \<and>
    backlog (w\<lparr>w_links := h\<rparr>) p (us @ vs) (c # acc) \<and>
    agree (- (insert (listen_queue_of p) (insert (accept_queue_of p) (list_of ` set (us @ c # vs @ acc)))))
      (w_links w) h"
proof -
  have dl: "dlist (w_links w) (listen_queue_of p) (map list_of us @ list_of c # map list_of vs)"
    and da: "dlist (w_links w) (accept_queue_of p) (map list_of acc)"
    and dj: "set (us @ c # vs) \<inter> set acc = {}"
    using b by (auto simp: backlog_def)
  have dist: "distinct (us @ c # vs)"
    using dl by (auto simp: dlist_def distinct_map inj_on_def)
  have nx: "nxt (w_links w) (list_of c) \<in> set (listen_queue_of p # map list_of vs)"
    by (rule dlist_neighbours(2) [OF dl])
  have e: "list_empty (w_links w) (list_of c) = Some False"
    using nx dist by (auto simp: list_empty_def rd_next_def)
  obtain h1 where h1: "list_del (w_links w) (list_of c) = Some h1"
    "dlist h1 (listen_queue_of p) (map list_of (us @ vs))"
    using dlist_del [OF dl] by auto
  have a1: "agree (- set (listen_queue_of p # map list_of us @ map list_of vs)) (w_links w) h1"
    using dl h1(1) by (rule list_del_agree)
  have da1: "dlist h1 (accept_queue_of p) (map list_of acc)"
    by (rule dlist_agree [OF da], rule agree_subset [OF a1]) (use dj in auto)
  obtain h2 where h2: "list_add h1 (list_of c) (accept_queue_of p) = Some h2"
    "dlist h2 (accept_queue_of p) (map list_of (c # acc))"
    using dlist_add [OF da1, of "list_of c"] dj by auto
  have a2: "agree (- set (list_of c # accept_queue_of p # map list_of acc)) h1 h2"
    using da1 h2(1) by (rule list_add_agree)
  have "dlist h2 (listen_queue_of p) (map list_of (us @ vs))"
    by (rule dlist_agree [OF h1(2)], rule agree_subset [OF a2]) (use dj dist in auto)
  then have "backlog (w\<lparr>w_links := h2\<rparr>) p (us @ vs) (c # acc)"
    using h2(2) dj dist by (auto simp: backlog_def)
  moreover have "agree (- (insert (listen_queue_of p) (insert (accept_queue_of p)
      (list_of ` set (us @ c # vs @ acc))))) (w_links w) h2"
    by (rule agree_trans [OF agree_subset [OF a1] agree_subset [OF a2]]) auto
  moreover have "tcp_accept_enqueue c w = Some (w\<lparr>w_links := h2\<rparr>)"
    using e h1(1) h2(1) c by (simp add: tcp_accept_enqueue_def)
  ultimately show ?thesis by blast
qed

text \<open>
  The third segment of the handshake: the connection is established, waits at the head of the
  accept queue of its parent, and whoever sleeps in \<open>accept\<close> is woken.
\<close>

lemma tcp_handshake_ack_ok:
  assumes l: "listening w cs es p (us @ c # vs) acc"
    and c: "w_tcp w c = Some tsk" "tsk_state tsk = TCP_SYN_RECEIVED" "tsk_parent tsk = Some p"
    and p: "w_tcp w p = Some ptsk" "tsk_state ptsk = TCP_LISTEN"
    and th: "th_ack th" "\<not> th_syn th" "\<not> th_fin th" "th_seq th = rcv_nxt (tsk_tcb tsk)"
      "snd_una (tsk_tcb tsk) \<le> th_ack_seq th" "th_ack_seq th \<le> snd_nxt (tsk_tcb tsk)"
    and skb: "skb_dlen skb = 0" and wrap: "rcv_nxt (tsk_tcb tsk) \<le> rcv_nxt (tsk_tcb tsk) + rcv_wnd (tsk_tcb tsk)"
  shows "\<exists>w' h. tcp_process c th skb w = Some (Rc 0, free_skb skb, w') \<and>
    w' = put_tsk c (on_sk (\<lambda>sk. sk\<lparr>sk_state := TCP_ESTABLISHED\<rparr>)
           (on_tcb (\<lambda>tcb. tcb\<lparr>snd_una := th_ack_seq th\<rparr>) tsk))
         (put_tsk p (ptsk\<lparr>tsk_wait := wait_wakeup (tsk_wait ptsk)\<rparr>) (w\<lparr>w_links := h\<rparr>)) \<and>
    listening w' cs es p (us @ vs) (c # acc)"
proof -
  let ?t = "on_sk (\<lambda>sk. sk\<lparr>sk_state := TCP_ESTABLISHED\<rparr>)
      (on_tcb (\<lambda>tcb. tcb\<lparr>snd_una := th_ack_seq th\<rparr>) tsk)"
  let ?p = "ptsk\<lparr>tsk_wait := wait_wakeup (tsk_wait ptsk)\<rparr>"
  have pc: "p \<noteq> c" using c p by auto
  have b: "backlog w p (us @ c # vs) acc" and tb: "tables w cs es" using l by (simp_all add: listening_def)
  obtain h where h: "tcp_accept_enqueue c w = Some (w\<lparr>w_links := h\<rparr>)"
    "backlog (w\<lparr>w_links := h\<rparr>) p (us @ vs) (c # acc)"
    "agree (- (insert (listen_queue_of p) (insert (accept_queue_of p) (list_of ` set (us @ c # vs @ acc)))))
      (w_links w) h"
    using tcp_accept_enqueue_ok [OF b c(1,3)] by blast
  let ?w = "put_tsk c ?t (put_tsk p ?p (w\<lparr>w_links := h\<rparr>))"
  have "tables ?w cs es"
    by (rule tables_agree [OF tb h(3)]) auto
  moreover have "backlog ?w p (us @ vs) (c # acc)" using h(2) by (simp add: backlog_def)
  moreover have "dom (w_tcp ?w) = dom (w_tcp w)" using c(1) p(1) by auto
  ultimately have "listening ?w cs es p (us @ vs) (c # acc)"
    using l by (simp add: listening_def)
  moreover have "tcp_process c th skb w = Some (Rc 0, free_skb skb, ?w)"
  proof -
    have f: "tcp_packet_filter tsk th skb"
      using th(4) skb wrap by (simp add: tcp_packet_filter_def not_less)
    have sr: "tcp_synrecv_ack c w = Some (0, put_tsk p ?p (w\<lparr>w_links := h\<rparr>))"
      using c p h(1) by (simp add: tcp_synrecv_ack_def)
    have ak: "tcp_process_ack c th w = Some (True, ?w)"
      using c th(5,6) sr pc by (simp add: tcp_process_ack_def tcp_set_state_def)
    have tx: "tcp_process_text c th skb ?w = Some (skb, ?w)"
      using skb by (simp add: tcp_process_text_def)
    have fi: "tcp_process_fin c th skb ?w = Some ?w"
      using th(3) by (simp add: tcp_process_fin_def)
    have sy: "tcp_process_syn c th w = Some w" using th(2) by (simp add: tcp_process_syn_def)
    show ?thesis unfolding tcp_process_def using c f th(1) ak tx fi sy by simp
  qed
  ultimately show ?thesis by blast
qed

text \<open>\<open>accept\<close> on a non-empty queue returns the connection at its head, without sleeping.\<close>

lemma tcp_accept_ok:
  assumes l: "listening w cs es p ls (c # acc)"
  shows "\<exists>h. tcp_accept p env w = Some (Returned c, w\<lparr>w_links := h\<rparr>) \<and>
    listening (w\<lparr>w_links := h\<rparr>) cs es p ls acc"
proof -
  have dl: "dlist (w_links w) (listen_queue_of p) (map list_of ls)"
    and da: "dlist (w_links w) (accept_queue_of p) ([] @ list_of c # map list_of acc)"
    and dj: "set ls \<inter> set (c # acc) = {}" and tb: "tables w cs es" and p: "p \<in> dom (w_tcp w)"
    using l by (auto simp: listening_def backlog_def)
  have nx: "rd_next (w_links w) (accept_queue_of p) = Some (list_of c)"
    using da by (simp add: rd_next_def dlist_def)
  obtain h where h: "list_del_init (w_links w) (list_of c) = Some h" "dlist h (accept_queue_of p) (map list_of acc)"
    using dlist_del_init [OF da] by auto
  have ag: "agree (- set (accept_queue_of p # [] @ list_of c # map list_of acc)) (w_links w) h"
    using da h(1) by (rule list_del_init_agree)
  have "dlist h (listen_queue_of p) (map list_of ls)"
    by (rule dlist_agree [OF dl], rule agree_subset [OF ag]) (use dj in auto)
  then have "backlog (w\<lparr>w_links := h\<rparr>) p ls acc" using h(2) dj by (auto simp: backlog_def)
  moreover have "tables (w\<lparr>w_links := h\<rparr>) cs es"
    by (rule tables_agree [OF tb ag]) auto
  ultimately have "listening (w\<lparr>w_links := h\<rparr>) cs es p ls acc" using l by (simp add: listening_def)
  moreover have "list_empty (w_links w) (accept_queue_of p) = Some False"
    using dlist_empty [OF da] by simp
  then have "tcp_accept p env w = Some (Returned c, w\<lparr>w_links := h\<rparr>)"
    using p nx h(1) by (subst tcp_accept.simps)
      (auto simp: tcp_accept_dequeue_def list_del_init_eq Option.bind_assoc split: if_splits
        elim!: bind_SomeE)
  ultimately show ?thesis by blast
qed

end
