(* ===== verification/Udp.thy ===== *)
theory Udp
  imports Tcp_Open
begin

text \<open>
  \<open>udp.c\<close> and \<open>udp_sock.c\<close>: the ring of UDP sockets, ports, sending and receiving datagrams.

  The conventions are those of the TCP theories: \<open>None\<close> is a fault (memory that is not there
  was touched, or a walk of a broken ring does not end), and a call that sleeps takes a
  schedule of what the other threads do meanwhile.
\<close>

abbreviation UDP_HDR_LEN :: nat where "UDP_HDR_LEN \<equiv> 8"
abbreviation UDP_MAX_BUFSZ :: nat where "UDP_MAX_BUFSZ \<equiv> 0xFFFF - UDP_HDR_LEN"

definition udp_hdr :: "sk_buff \<Rightarrow> nat" where
  "udp_hdr skb = skb_head skb + ETH_HDR_LEN + IP_HDR_LEN"

section \<open>Access to a UDP socket\<close>

definition put_usk :: "sid \<Rightarrow> udp_sock \<Rightarrow> world \<Rightarrow> world" where
  "put_usk s usk w = w\<lparr>w_udp := (w_udp w)(s \<mapsto> usk)\<rparr>"

definition upd_usk :: "sid \<Rightarrow> (udp_sock \<Rightarrow> udp_sock) \<Rightarrow> world \<Rightarrow> world option" where
  "upd_usk s f w = do {
     usk \<leftarrow> w_udp w s;
     Some (put_usk s (f usk) w)
   }"

lemma upd_usk_Some [simp]: "w_udp w s = Some usk \<Longrightarrow> upd_usk s f w = Some (put_usk s (f usk) w)"
  by (simp add: upd_usk_def)

lemma put_usk_simps [simp]:
  "w_udp (put_usk s usk w) = (w_udp w)(s \<mapsto> usk)" "w_net (put_usk s usk w) = w_net w"
  "w_others (put_usk s usk w) = w_others w" "w_timers (put_usk s usk w) = w_timers w"
  "w_links (put_usk s usk w) = w_links w" "w_tcp (put_usk s usk w) = w_tcp w"
  "w_next (put_usk s usk w) = w_next w" "w_udp_port (put_usk s usk w) = w_udp_port w"
  "w_udp_amount (put_usk s usk w) = w_udp_amount w" "w_sockets (put_usk s usk w) = w_sockets w"
  by (simp_all add: put_usk_def)

lemma put_usk_put_usk [simp]: "put_usk s a (put_usk s b w) = put_usk s a w"
  by (simp add: put_usk_def)

section \<open>The ring of UDP sockets\<close>

definition udp_socks_enqueue :: "sid \<Rightarrow> world \<Rightarrow> world option" where
  "udp_socks_enqueue s w = do {
     h \<leftarrow> list_add_tail (w_links w) (link_of s) UDP_HEAD;
     Some (w\<lparr>w_links := h, w_udp_amount := w_udp_amount w + 1\<rparr>)
   }"

definition udp_socks_remove :: "sid \<Rightarrow> world \<Rightarrow> world option" where
  "udp_socks_remove s w = do {
     h \<leftarrow> list_del_init (w_links w) (link_of s);
     Some (w\<lparr>w_links := h, w_udp_amount := w_udp_amount w - 1\<rparr>)
   }"

definition udp_sk_in_socks :: "sid \<Rightarrow> world \<Rightarrow> bool option" where
  "udp_sk_in_socks s w = do {
     n \<leftarrow> rd_next (w_links w) (link_of s);
     Some (n = link_of s)
   }"

definition udp_lookup_sock :: "world \<Rightarrow> u16 \<Rightarrow> sid option option" where
  "udp_lookup_sock w dport =
     ring_find (w_links w) UDP_HEAD (\<lambda>s. do {
       usk \<leftarrow> w_udp w s;
       Some (sk_sport usk = dport)
     })"

definition udp_port_used :: "world \<Rightarrow> u16 \<Rightarrow> bool option" where
  "udp_port_used w pt = do {
     r \<leftarrow> ring_find (w_links w) UDP_HEAD (\<lambda>s. do {
       usk \<leftarrow> w_udp w s;
       Some (sk_sport usk = pt)
     });
     Some (r \<noteq> None)
   }"

section \<open>Creation, ports, closing\<close>

definition udp_generate_port :: "world \<Rightarrow> u16 \<times> world" where
  "udp_generate_port w =
     (let port = w_udp_port w + 1
      in (word_of_int (port + c_rem (timer_get_tick (w_timers w)) 10000), w\<lparr>w_udp_port := port\<rparr>))"

definition udp_alloc_sock :: "world \<Rightarrow> sid \<times> world" where
  "udp_alloc_sock w =
     (let s = w_next w
      in (s, put_usk s (sock_zero UDP_UNCONNECTED)
               (w\<lparr>w_next := s + 1, w_links := clear_nodes s (w_links w)\<rparr>)))"

definition udp_free_sock :: "sid \<Rightarrow> world \<Rightarrow> world option" where
  "udp_free_sock s w = do {
     usk \<leftarrow> w_udp w s;
     Some (w\<lparr>w_udp := (w_udp w)(s := None), w_links := clear_nodes s (w_links w)\<rparr>)
   }"

definition udp_close :: "sid \<Rightarrow> world \<Rightarrow> (int \<times> world) option" where
  "udp_close s w = do {
     w \<leftarrow> udp_socks_remove s w;
     w \<leftarrow> udp_free_sock s w;
     Some (0, w)
   }"

text \<open>\<open>udp_set_sport\<close> sets the port, and returns -1 on every path.\<close>

definition udp_set_sport :: "sid \<Rightarrow> u16 \<Rightarrow> world \<Rightarrow> (int \<times> world) option" where
  "udp_set_sport s sport w =
     (if sport = 0 then Some (-1, w)
      else do {
        used \<leftarrow> udp_port_used w sport;
        (if used then Some (-1, w)
         else do {
           w \<leftarrow> upd_usk s (\<lambda>sk. sk\<lparr>sk_sport := sport\<rparr>) w;
           Some (-1, w)
         })
      })"

definition udp_bind :: "sid \<Rightarrow> sockaddr_in \<Rightarrow> world \<Rightarrow> (int \<times> world) option" where
  "udp_bind s addr w = do {
     sk \<leftarrow> w_udp w s;
     (if sk_saddr sk \<noteq> 0 then Some (-1, w)
      else do {
        (err, w) \<leftarrow> udp_set_sport s (ntohs (sin_port addr)) w;
        (if err < 0 then Some (-1, w)
         else do {
           w \<leftarrow> upd_usk s (\<lambda>sk. sk\<lparr>sk_saddr := ntohl (sin_addr addr)\<rparr>) w;
           w \<leftarrow> udp_socks_enqueue s w;
           Some (0, w)
         })
      })
   }"

definition udp_recv_notify :: "sid \<Rightarrow> world \<Rightarrow> world option" where
  "udp_recv_notify s w = upd_usk s (\<lambda>sk. sk\<lparr>sk_recv_wait := wait_wakeup (sk_recv_wait sk)\<rparr>) w"

section \<open>Connecting\<close>

text \<open>The loop of \<open>udp_clean_up_receive_queue\<close>: the packets are freed one after the other.\<close>

function udp_clean_up_receive_queue :: "sk_buff_head \<Rightarrow> sk_buff_head option" where
  "udp_clean_up_receive_queue q =
     (if skb_queue_empty q then Some q
      else case q_items q of
          [] \<Rightarrow> None
        | skb # rest \<Rightarrow> udp_clean_up_receive_queue (q\<lparr>q_items := rest, qlen := qlen q - 1\<rparr>))"
  by pat_completeness auto
termination
  by (relation "measure (\<lambda>q. unat (qlen q))") (auto dest: qlen_dec)

declare udp_clean_up_receive_queue.simps [simp del]

text \<open>
  \<open>parse_ipv4_string\<close>.  \<open>sscanf\<close> with \<open>%hhu\<close> skips white space, takes an optional sign and
  digits, and keeps the low byte of the number (of \<open>ULONG_MAX\<close> if it is too big); a field it
  cannot read leaves its byte uninitialised, which is no value here.
\<close>

definition is_space :: "char \<Rightarrow> bool" where
  "is_space c \<longleftrightarrow> (of_char c :: nat) \<in> {9, 10, 11, 12, 13, 32}"

fun scan_digits :: "string \<Rightarrow> nat \<Rightarrow> nat \<times> string" where
  "scan_digits [] n = (n, [])"
| "scan_digits (c # cs) n =
     (if is_digit c then scan_digits cs (10 * n + ((of_char c :: nat) - 48)) else (n, c # cs))"

definition scan_sign :: "string \<Rightarrow> bool \<times> string" where
  "scan_sign s =
     (case s of
        [] \<Rightarrow> (False, s)
      | c # cs \<Rightarrow> if c = CHR ''-'' then (True, cs) else if c = CHR ''+'' then (False, cs) else (False, s))"

definition scan_hhu :: "string \<Rightarrow> (u8 \<times> string) option" where
  "scan_hhu s =
     (let (neg, s) = scan_sign (dropWhile is_space s) in
      case s of
        [] \<Rightarrow> None
      | c # cs \<Rightarrow>
          if is_digit c
          then (let (n, rest) = scan_digits s 0 in
                Some (word_of_int (if n \<ge> 2 ^ 64 then -1 else if neg then - int n else int n), rest))
          else None)"

definition scan_dot :: "string \<Rightarrow> string option" where
  "scan_dot s = (case s of [] \<Rightarrow> None | c # cs \<Rightarrow> if c = CHR ''.'' then Some cs else None)"

definition parse_ipv4_string :: "string \<Rightarrow> u32 option" where
  "parse_ipv4_string addr = do {
     (a3, r) \<leftarrow> scan_hhu addr;
     r \<leftarrow> scan_dot r;
     (a2, r) \<leftarrow> scan_hhu r;
     r \<leftarrow> scan_dot r;
     (a1, r) \<leftarrow> scan_hhu r;
     r \<leftarrow> scan_dot r;
     (a0, r) \<leftarrow> scan_hhu r;
     Some (ucast a0 OR push_bit 8 (ucast a1) OR push_bit 16 (ucast a2) OR push_bit 24 (ucast a3))
   }"

definition udp_connect :: "sid \<Rightarrow> sockaddr_in \<Rightarrow> world \<Rightarrow> (int \<times> world) option" where
  "udp_connect s addr w = do {
     sk \<leftarrow> w_udp w s;
     w \<leftarrow> (if sk_state sk = UDP_CONNECTED
           then do {
             q \<leftarrow> udp_clean_up_receive_queue (sk_receive_queue sk);
             upd_usk s (\<lambda>sk. sk\<lparr>sk_receive_queue := q\<rparr>) w
           }
           else Some w);
     let in_socks = (sk_saddr sk \<noteq> 0);
     sa \<leftarrow> parse_ipv4_string stackaddr;
     let (port, w) = udp_generate_port w;
     w \<leftarrow> upd_usk s (\<lambda>sk. sk\<lparr>sk_dport := ntohs (sin_port addr), sk_daddr := ntohl (sin_addr addr),
            sk_saddr := sa, sk_sport := port, sk_state := UDP_CONNECTED\<rparr>) w;
     (if \<not> in_socks then do { w \<leftarrow> udp_socks_enqueue s w; Some (0, w) } else Some (0, w))
   }"

section \<open>Sending\<close>

text \<open>\<open>reserved\<close> is an \<open>int\<close> that becomes the 32-bit size of the allocation.\<close>

definition udp_alloc_skb :: "u32 \<Rightarrow> sk_buff" where
  "udp_alloc_skb size' =
     (let reserved = unat (42 + size');
          skb = skb_reserve (alloc_skb reserved) reserved
      in skb\<lparr>skb_protocol := ucast IP_UDP, skb_dlen := size'\<rparr>)"

definition udp_checksum :: "sk_buff \<Rightarrow> u32 \<Rightarrow> u32 \<Rightarrow> u16 option" where
  "udp_checksum skb saddr daddr =
     tcp_udp_checksum saddr daddr IP_UDP (skb_buf skb) (skb_data skb) (ucast (skb_len skb))"

definition udp_send :: "sid \<Rightarrow> bytes \<Rightarrow> u32 \<Rightarrow> world \<Rightarrow> (rc \<times> world) option" where
  "udp_send s buf len' w = do {
     sk \<leftarrow> w_udp w s;
     skb \<leftarrow> skb_push (udp_alloc_skb len') (unat len');
     d \<leftarrow> load_bytes buf 0 (unat len');
     b \<leftarrow> store_bytes (skb_buf skb) (skb_data skb) d;
     skb \<leftarrow> skb_push (skb\<lparr>skb_buf := b\<rparr>) UDP_HDR_LEN;
     let uh = udp_hdr skb;
     b \<leftarrow> store16 (skb_buf skb) uh (sk_sport sk);
     b \<leftarrow> store16 b (uh + 2) (sk_dport sk);
     b \<leftarrow> store16 b (uh + 4) (ucast (skb_len skb));
     v \<leftarrow> load16 b uh;
     b \<leftarrow> store16 b uh (htons v);
     v \<leftarrow> load16 b (uh + 2);
     b \<leftarrow> store16 b (uh + 2) (htons v);
     v \<leftarrow> load16 b (uh + 4);
     b \<leftarrow> store16 b (uh + 4) (htons v);
     c \<leftarrow> udp_checksum (skb\<lparr>skb_buf := b\<rparr>) (htonl (sk_saddr sk)) (htonl (sk_daddr sk));
     b \<leftarrow> store16 b (uh + 6) c;
     (r, skb, n) \<leftarrow> ip_output (w_others w) (sk_daddr sk) (skb\<lparr>skb_buf := b\<rparr>) (w_net w);
     Some (r, w\<lparr>w_net := n\<rparr>)
   }"

definition udp_write :: "sid \<Rightarrow> bytes \<Rightarrow> u32 \<Rightarrow> world \<Rightarrow> (rc \<times> world) option" where
  "udp_write s buf len' w =
     (if unat len' > UDP_MAX_BUFSZ then Some (Rc (-1), w) else udp_send s buf len' w)"

text \<open>\<open>addr = None\<close> is the NULL address.\<close>

definition udp_sendto :: "sid \<Rightarrow> bytes \<Rightarrow> u32 \<Rightarrow> sockaddr_in option \<Rightarrow> world \<Rightarrow> (rc \<times> world) option" where
  "udp_sendto s buf size' addr w = do {
     sk \<leftarrow> w_udp w s;
     (case addr of
        None \<Rightarrow> if sk_state sk = UDP_CONNECTED then udp_send s buf size' w else Some (Rc (-1), w)
      | Some a \<Rightarrow>
          if sk_state sk = UDP_UNCONNECTED
          then do {
            let (port, w) = udp_generate_port w;
            sa \<leftarrow> ip_parse stackaddr;
            w \<leftarrow> upd_usk s (\<lambda>sk. sk\<lparr>sk_daddr := ntohl (sin_addr a), sk_dport := ntohs (sin_port a),
                   sk_sport := port, sk_saddr := sa\<rparr>) w;
            linked \<leftarrow> udp_sk_in_socks s w;
            w \<leftarrow> (if \<not> linked
                  then do {
                    h \<leftarrow> list_add_tail (w_links w) (link_of s) UDP_HEAD;
                    Some (w\<lparr>w_links := h\<rparr>)
                  }
                  else Some w);
            udp_send s buf size' w
          }
          else Some (Rc (-1), w))
   }"

section \<open>Receiving\<close>

definition udp_init_segment :: "sk_buff \<Rightarrow> sk_buff option" where
  "udp_init_segment skb = do {
     let uh = udp_hdr skb;
     v \<leftarrow> load16 (skb_buf skb) uh;
     b \<leftarrow> store16 (skb_buf skb) uh (htons v);
     v \<leftarrow> load16 b (uh + 2);
     b \<leftarrow> store16 b (uh + 2) (htons v);
     v \<leftarrow> load16 b (uh + 4);
     b \<leftarrow> store16 b (uh + 4) (htons v);
     v \<leftarrow> load16 b (uh + 6);
     b \<leftarrow> store16 b (uh + 6) (htons v);
     l \<leftarrow> load16 b (uh + 4);
     Some (skb\<lparr>skb_buf := b, skb_payload := uh + UDP_HDR_LEN, skb_dlen := ucast l - 8\<rparr>)
   }"

text \<open>The packet is freed or queued; in both cases the caller does not touch it again.\<close>

definition udp_in :: "sk_buff \<Rightarrow> world \<Rightarrow> world option" where
  "udp_in skb w = do {
     skb \<leftarrow> udp_init_segment skb;
     dport \<leftarrow> load16 (skb_buf skb) (udp_hdr skb + 2);
     sk \<leftarrow> udp_lookup_sock w dport;
     (case sk of
        None \<Rightarrow> Some w
      | Some s \<Rightarrow> do {
          usk \<leftarrow> w_udp w s;
          q \<leftarrow> skb_queue_tail (sk_receive_queue usk) skb;
          w \<leftarrow> upd_usk s (\<lambda>sk. sk\<lparr>sk_receive_queue := q\<rparr>) w;
          udp_recv_notify s w
        })
   }"

definition udp_data_enqueue :: "sid \<Rightarrow> sk_buff \<Rightarrow> world \<Rightarrow> (int \<times> world) option" where
  "udp_data_enqueue s skb w = do {
     usk \<leftarrow> w_udp w s;
     q \<leftarrow> skb_queue_tail (sk_receive_queue usk) skb;
     w \<leftarrow> upd_usk s (\<lambda>sk. sk\<lparr>sk_receive_queue := q\<rparr>) w;
     Some (0, w)
   }"

text \<open>
  What a read stores: the bytes and the sender's address, the latter only if a datagram was
  taken out.
\<close>

record received =
  rv_rc :: int
  rv_bytes :: bytes
  rv_from :: "sockaddr_in option"

definition udp_data_dequeue :: "sid \<Rightarrow> u32 \<Rightarrow> world \<Rightarrow> (received \<times> world) option" where
  "udp_data_dequeue s userlen w = do {
     sk \<leftarrow> w_udp w s;
     (if skb_queue_empty (sk_receive_queue sk)
      then Some (\<lparr>rv_rc = -1, rv_bytes = [], rv_from = None\<rparr>, w)
      else do {
        (skb, q) \<leftarrow> skb_dequeue (sk_receive_queue sk);
        let rlen = (if skb_dlen skb > userlen then userlen else skb_dlen skb);
        d \<leftarrow> load_bytes (skb_buf skb) (skb_payload skb) (unat rlen);
        port \<leftarrow> load16 (skb_buf skb) (udp_hdr skb);
        sa \<leftarrow> load32 (skb_buf skb) (ip_hdr skb + 12);
        Some (\<lparr>rv_rc = (if rlen = 0 then -1 else sint rlen), rv_bytes = d,
                rv_from = Some \<lparr>sin_port = htons port, sin_addr = htonl sa\<rparr>\<rparr>,
              put_usk s (sk\<lparr>sk_receive_queue := q\<rparr>) w)
      })
   }"

text \<open>\<open>wait_sleep (&sk->recv_wait)\<close> of a UDP socket.\<close>

definition wait_sleep_usk :: "sid \<Rightarrow> env \<Rightarrow> world \<Rightarrow> (env option \<times> world) option" where
  "wait_sleep_usk s es w = do {
     w \<leftarrow> upd_usk s (\<lambda>sk. sk\<lparr>sk_recv_wait := (sk_recv_wait sk)\<lparr>wl_sleeping := True\<rparr>\<rparr>) w;
     await (\<lambda>w. do { sk \<leftarrow> w_udp w s; Some (wl_sleeping (sk_recv_wait sk)) }) es w
   }"

text \<open>The loop of \<open>udp_read\<close> and \<open>udp_recvfrom\<close>.\<close>

partial_function (option) udp_recv_loop ::
    "sid \<Rightarrow> u32 \<Rightarrow> env \<Rightarrow> world \<Rightarrow> (received outcome \<times> world) option" where
  "udp_recv_loop s len' es w =
     Option.bind (udp_data_dequeue s len' w) (\<lambda>r.
       if rv_rc (fst r) \<noteq> -1 then Some (Returned (fst r), snd r)
       else Option.bind (wait_sleep_usk s es (snd r)) (\<lambda>q.
         case fst q of
           None \<Rightarrow> Some (Asleep, snd q)
         | Some es \<Rightarrow> udp_recv_loop s len' es (snd q)))"

definition udp_recvfrom :: "sid \<Rightarrow> u32 \<Rightarrow> env \<Rightarrow> world \<Rightarrow> (received outcome \<times> world) option" where
  "udp_recvfrom s len' es w = udp_recv_loop s len' es w"

definition drop_from :: "received outcome \<Rightarrow> received outcome" where
  "drop_from r = (case r of Returned x \<Rightarrow> Returned (x\<lparr>rv_from := None\<rparr>) | Asleep \<Rightarrow> Asleep)"

definition udp_read :: "sid \<Rightarrow> u32 \<Rightarrow> env \<Rightarrow> world \<Rightarrow> (received outcome \<times> world) option" where
  "udp_read s len' es w = map_option (\<lambda>r. (drop_from (fst r), snd r)) (udp_recv_loop s len' es w)"

section \<open>Laws of the ring\<close>

definition udp_table :: "world \<Rightarrow> sid list \<Rightarrow> bool" where
  "udp_table w us \<longleftrightarrow> ring_holds UDP_HEAD w us \<and> set us \<subseteq> dom (w_udp w)"

definition udp_bound :: "world \<Rightarrow> u16 \<Rightarrow> sid \<Rightarrow> bool" where
  "udp_bound w port s \<longleftrightarrow> (case w_udp w s of None \<Rightarrow> False | Some sk \<Rightarrow> sk_sport sk = port)"

lemma udp_table_boot [simp]: "udp_table (world_boot oth isns) []"
  by (simp add: udp_table_def ring_holds_def dlist_def world_boot_def links_boot_def)

lemma udp_lookup_sock_table:
  assumes "udp_table w us"
  shows "udp_lookup_sock w port = Some (find_first (udp_bound w port) us)"
proof -
  have "\<exists>sk. w_udp w s = Some sk" if "s \<in> set us" for s
    using assms that by (auto simp: udp_table_def)
  then show ?thesis
    unfolding udp_lookup_sock_def
    using assms by (intro ring_holds_scan) (auto simp: udp_table_def udp_bound_def)
qed

lemma udp_port_used_table:
  assumes "udp_table w us"
  shows "udp_port_used w port = Some (\<exists>s\<in>set us. udp_bound w port s)"
proof -
  have "udp_port_used w port = Option.bind (udp_lookup_sock w port) (\<lambda>r. Some (r \<noteq> None))"
    by (simp add: udp_port_used_def udp_lookup_sock_def)
  also have "\<dots> = Some (find_first (udp_bound w port) us \<noteq> None)"
    by (simp add: udp_lookup_sock_table [OF assms])
  also have "(find_first (udp_bound w port) us \<noteq> None) = (\<exists>s\<in>set us. udp_bound w port s)"
    by (metis find_first_None)
  finally show ?thesis .
qed

lemma udp_socks_enqueue_ok:
  assumes "udp_table w us" and "s \<notin> set us" and "s \<in> dom (w_udp w)"
  shows "\<exists>h. udp_socks_enqueue s w = Some (w\<lparr>w_links := h, w_udp_amount := w_udp_amount w + 1\<rparr>) \<and>
    udp_table (w\<lparr>w_links := h, w_udp_amount := w_udp_amount w + 1\<rparr>) (us @ [s])"
  using ring_holds_enq [of UDP_HEAD w us s] assms
  by (auto simp: udp_table_def udp_socks_enqueue_def ring_holds_def)

text \<open>
  Closing a UDP socket of the table takes it off the table and frees it, and the count of
  sockets goes down by one.
\<close>

lemma udp_close_ok:
  assumes "udp_table w (us @ s # vs)"
  shows "\<exists>w'. udp_close s w = Some (0, w') \<and> udp_table w' (us @ vs) \<and> w_udp w' = (w_udp w)(s := None) \<and>
    w_udp_amount w' = w_udp_amount w - 1"
proof -
  have d: "dlist (w_links w) UDP_HEAD (map link_of us @ link_of s # map link_of vs)"
    and dom: "set (us @ s # vs) \<subseteq> dom (w_udp w)"
    using assms by (auto simp: udp_table_def ring_holds_def)
  obtain h where h: "list_del_init (w_links w) (link_of s) = Some h"
    "dlist h UDP_HEAD (map link_of (us @ vs))"
    using dlist_del_init [OF d] by auto
  have s: "s \<notin> set (us @ vs)" using d by (auto simp: dlist_def)
  obtain sk where sk: "w_udp w s = Some sk" using dom by auto
  have "agree (set (UDP_HEAD # map link_of (us @ vs))) h (clear_nodes s h)"
    by (rule agree_subset [OF clear_nodes_agree])
      (use s in \<open>auto simp: nodes_def link_of_def list_of_def listen_queue_of_def accept_queue_of_def, presburger+\<close>)
  then have "dlist (clear_nodes s h) UDP_HEAD (map link_of (us @ vs))" using h(2) dlist_agree by blast
  then show ?thesis
    using h(1) sk dom s
    by (auto simp: udp_close_def udp_socks_remove_def udp_free_sock_def udp_table_def ring_holds_def)
qed

text \<open>
  C37.  Binding a UDP socket never succeeds: \<open>udp_set_sport\<close> reports an error even when it has set
  the port.  The socket is not linked, so nothing can be received on that port.
\<close>

theorem udp_bind_fails:
  assumes "udp_table w us" and "w_udp w s = Some sk"
  shows "\<exists>w'. udp_bind s addr w = Some (-1, w') \<and> w_links w' = w_links w \<and>
    (w' = w \<or> w' = put_usk s (sk\<lparr>sk_sport := ntohs (sin_port addr)\<rparr>) w)"
  using assms udp_port_used_table [OF assms(1), of "ntohs (sin_port addr)"]
  by (auto simp: udp_bind_def udp_set_sport_def)

section \<open>Sending\<close>

text \<open>\<open>dg\<close> is a UDP datagram of the socket \<open>sk\<close> that carries \<open>d\<close>; its checksum verifies.\<close>

definition udp_datagram :: "udp_sock \<Rightarrow> bytes \<Rightarrow> bytes \<Rightarrow> bool" where
  "udp_datagram sk d dg \<longleftrightarrow> length dg = 8 + length d \<and> drop 8 dg = d \<and>
     ntohs (get16 dg 0) = sk_sport sk \<and> ntohs (get16 dg 2) = sk_dport sk \<and>
     ntohs (get16 dg 4) = word_of_nat (8 + length d) \<and>
     tcp_udp_checksum (htonl (sk_saddr sk)) (htonl (sk_daddr sk)) IP_UDP dg 0 (word_of_nat (length dg)) = Some 0"

lemma udp_send_built:
  assumes sk: "w_udp w s = Some sk" and n: "n \<le> length buf" "n + 28 < 65536"
  obtains skb where
    "udp_send s buf (word_of_nat n) w =
       Option.bind (ip_output (w_others w) (sk_daddr sk) skb (w_net w))
         (\<lambda>(r, skb, n). Some (r, w\<lparr>w_net := n\<rparr>))"
    and "out_ready skb" and "skb_protocol skb = ucast IP_UDP" and "udp_datagram sk (take n buf) (skb_bytes skb)"
proof -
  let ?d = "take n buf"
  have u: "unat (word_of_nat n :: u32) = n" "unat (42 + word_of_nat n :: u32) = 42 + n"
      "unat (word_of_nat n + 8 :: u32) = n + 8"
    using n(2) by (simp_all add: unsigned_of_nat take_bit_nat_eq_self unat_word_ariths)
  have l16: "(ucast (word_of_nat n + 8 :: u32) :: u16) = word_of_nat (8 + n)"
    by (metis u(3) add.commute of_nat_unat)
  define b0 where "b0 = put_bytes (replicate (42 + n) (0 :: u8)) 42 ?d"
  have len0: "length b0 = 42 + n" and z: "get16 b0 40 = 0" and d0: "drop 42 b0 = ?d"
    using n(1) by (simp_all add: b0_def put_bytes_def get16_def nth_append le16_def)
  define b1 where "b1 = put16 (put16 (put16 (put16 (put16 (put16 b0 34 (sk_sport sk)) 36 (sk_dport sk))
      38 (word_of_nat (8 + n))) 34 (htons (sk_sport sk))) 36 (htons (sk_dport sk))) 38 (htons (word_of_nat (8 + n)))"
  have len1: "length b1 = 42 + n" by (simp add: b1_def len0)
  have z1: "get16 b1 (34 + 6) = 0" unfolding b1_def using len0 z by (simp add: mem_simps)
  have r1: "34 + (8 + n) \<le> length b1" and r2: "6 + 1 < 8 + n" and r3: "8 + n < 65536"
    using len1 n(2) by auto
  obtain c where
    c: "tcp_udp_checksum (htonl (sk_saddr sk)) (htonl (sk_daddr sk)) IP_UDP b1 34 (word_of_nat (8 + n)) = Some c"
      "tcp_udp_checksum (htonl (sk_saddr sk)) (htonl (sk_daddr sk)) IP_UDP (put16 b1 40 c) 34
         (word_of_nat (8 + n)) = Some 0"
    using tcp_udp_checksum_fills [OF _ r2 r1 z1 r3, of "htonl (sk_saddr sk)" "htonl (sk_daddr sk)" IP_UDP]
    by auto
  let ?b = "put16 b1 40 c"
  have "drop 42 ?b = ?d"
    using d0 unfolding b1_def put16_def by (simp add: drop_update_cancel)
  then have d: "drop 8 (drop 34 ?b) = ?d" by simp
  have h: "get16 ?b 34 = htons (sk_sport sk)" "get16 ?b 36 = htons (sk_dport sk)"
      "get16 ?b 38 = htons (word_of_nat (8 + n))"
    unfolding b1_def using len0 by (simp_all add: mem_simps)
  define skb where "skb = (udp_alloc_skb (word_of_nat n))\<lparr>skb_data := 34, skb_len := word_of_nat n + 8, skb_buf := ?b\<rparr>"
  have bytes: "skb_bytes skb = drop 34 ?b"
    using len1 u(3) by (simp add: skb_bytes_def skb_def)
  have rg: "get16 (drop 34 ?b) j = get16 ?b (34 + j)" if "j < 8" for j
    using len1 that by (simp add: get16_def)
  have "udp_datagram sk ?d (drop 34 ?b)"
    unfolding udp_datagram_def
  proof (intro conjI)
    show "length (drop 34 ?b) = 8 + length ?d" using len1 n(1) by simp
    show "drop 8 (drop 34 ?b) = ?d" by (rule d)
    show "ntohs (get16 (drop 34 ?b) 0) = sk_sport sk" "ntohs (get16 (drop 34 ?b) 2) = sk_dport sk"
      using h by (simp_all add: rg)
    show "ntohs (get16 (drop 34 ?b) 4) = word_of_nat (8 + length ?d)"
      using h n(1) by (simp add: rg)
    show "tcp_udp_checksum (htonl (sk_saddr sk)) (htonl (sk_daddr sk)) IP_UDP (drop 34 ?b) 0
        (word_of_nat (length (drop 34 ?b))) = Some 0"
      using c(2) len1 n(2) tcp_udp_checksum_range [of 34 "8 + n" ?b] by simp
  qed
  moreover have "out_ready skb" using len1 u(3) n(2) by (simp add: out_ready_def skb_def)
  moreover have "skb_protocol skb = ucast IP_UDP" by (simp add: skb_def udp_alloc_skb_def Let_def)
  moreover have "udp_send s buf (word_of_nat n) w =
       Option.bind (ip_output (w_others w) (sk_daddr sk) skb (w_net w))
         (\<lambda>(r, skb, n). Some (r, w\<lparr>w_net := n\<rparr>))"
  proof -
    have al: "skb_data (alloc_skb k) = 0" "skb_len (alloc_skb k) = 0" for k
      by (simp_all add: alloc_skb_def)
    show ?thesis
      using sk n c(1) len0 l16 unfolding b1_def skb_def
      by (simp add: udp_send_def udp_alloc_skb_def Let_def skb_push_def skb_reserve_def u udp_hdr_def
          skb_head_def al b0_def [symmetric] mem_simps udp_checksum_def)
  qed
  ultimately show ?thesis using that bytes by metis
qed

text \<open>Sending never faults, and with the gateway resolved the datagram is on the wire.\<close>

lemma udp_send_total:
  assumes "w_udp w s = Some sk" and "n \<le> length buf" and "n + 28 < 65536"
    and "others_ok (w_others w)" and "net_inv (w_net w)"
  shows "\<exists>r n'. udp_send s buf (word_of_nat n) w = Some (r, w\<lparr>w_net := n'\<rparr>) \<and> net_inv n'"
proof -
  obtain skb where skb: "udp_send s buf (word_of_nat n) w =
       Option.bind (ip_output (w_others w) (sk_daddr sk) skb (w_net w))
         (\<lambda>(r, skb, n). Some (r, w\<lparr>w_net := n\<rparr>))" "out_ready skb"
    using udp_send_built [OF assms(1-3)] by metis
  then show ?thesis using ip_output_total [OF assms(4,5) skb(2), of "sk_daddr sk"] by auto
qed

lemma udp_send_sent:
  assumes "w_udp w s = Some sk" and "n \<le> length buf" and "n + 28 < 65536"
    and "net_inv (w_net w)" and "arp_get_hwaddr (w_net w) gateway = Some mac"
  shows "\<exists>pkt dg. udp_send s buf (word_of_nat n) w = Some (Indet, w\<lparr>w_net :=
      tun_write (eth_frame mac (nd_hwaddr (net_dev (w_net w))) ETH_P_IP pkt) (w_net w)\<rparr>) \<and>
    ip_datagram (net_dev (w_net w)) (sk_daddr sk) IP_UDP dg pkt \<and> udp_datagram sk (take n buf) dg"
proof -
  obtain skb where skb: "udp_send s buf (word_of_nat n) w =
       Option.bind (ip_output (w_others w) (sk_daddr sk) skb (w_net w))
         (\<lambda>(r, skb, n). Some (r, w\<lparr>w_net := n\<rparr>))" "out_ready skb"
    "skb_protocol skb = ucast IP_UDP" "udp_datagram sk (take n buf) (skb_bytes skb)"
    using udp_send_built [OF assms(1-3)] by metis
  obtain skb' pkt where o: "ip_output (w_others w) (sk_daddr sk) skb (w_net w) =
      Some (Indet, skb', tun_write (eth_frame mac (nd_hwaddr (net_dev (w_net w))) ETH_P_IP pkt) (w_net w))"
    "ip_datagram (net_dev (w_net w)) (sk_daddr sk) (ucast (skb_protocol skb)) (skb_bytes skb) pkt"
    using ip_output_sent [OF assms(4) skb(2) assms(5)] by blast
  show ?thesis using skb(1,3,4) o by auto
qed

section \<open>Receiving\<close>

text \<open>\<open>skb\<close> is a datagram on a receive queue: it carries \<open>d\<close> and was sent from \<open>a\<close>.\<close>

definition udp_carries :: "sk_buff \<Rightarrow> bytes \<Rightarrow> sockaddr_in \<Rightarrow> bool" where
  "udp_carries skb d a \<longleftrightarrow> unat (skb_dlen skb) = length d \<and> skb_payload skb = 42 \<and>
     42 + length d \<le> length (skb_buf skb) \<and> take (length d) (drop 42 (skb_buf skb)) = d \<and>
     length d < 65536 \<and> get16 (skb_buf skb) 34 = ntohs (sin_port a) \<and>
     get32 (skb_buf skb) 26 = ntohl (sin_addr a)"

text \<open>
  A packet as \<open>ip_rcv\<close> hands it over, with a UDP length that is honest: \<open>d\<close> is the data.
\<close>

definition udp_arrived :: "sk_buff \<Rightarrow> bytes \<Rightarrow> bool" where
  "udp_arrived skb d \<longleftrightarrow> length d + 8 < 65536 \<and> 42 + length d \<le> length (skb_buf skb) \<and>
     ntohs (get16 (skb_buf skb) 38) = word_of_nat (8 + length d) \<and>
     take (length d) (drop 42 (skb_buf skb)) = d"

lemma udp_init_segment_ok:
  assumes "udp_arrived skb d"
  shows "\<exists>skb'. udp_init_segment skb = Some skb' \<and> skb_buf skb' ! 0 = skb_buf skb ! 0 \<and>
    load16 (skb_buf skb') (udp_hdr skb' + 2) = Some (ntohs (get16 (skb_buf skb) 36)) \<and>
    udp_carries skb' d \<lparr>sin_port = get16 (skb_buf skb) 34, sin_addr = ntohl (get32 (skb_buf skb) 26)\<rparr>"
proof -
  let ?b = "skb_buf skb"
  have len: "42 \<le> length ?b" and d: "length d + 8 < 65536" using assms by (auto simp: udp_arrived_def)
  define b where "b = put16 (put16 (put16 (put16 ?b 34 (htons (get16 ?b 34))) 36 (htons (get16 ?b 36)))
      38 (htons (get16 ?b 38))) 40 (htons (get16 ?b 40))"
  have blen: "length b = length ?b" by (simp add: b_def)
  have "drop 42 b = drop 42 ?b" unfolding b_def put16_def by (simp add: drop_update_cancel)
  then have pay: "take (length d) (drop 42 b) = d" using assms by (simp add: udp_arrived_def)
  have l: "unat (ucast (word_of_nat (8 + length d) :: u16) - 8 :: u32) = length d"
  proof -
    have "unat (ucast (word_of_nat (8 + length d) :: u16) :: u32) = 8 + length d"
      using d unat_len16 [of "8 + length d"]
      by (simp add: unsigned_ucast_eq take_bit_nat_eq_self del: of_nat_add)
    then have "(ucast (word_of_nat (8 + length d) :: u16) :: u32) = word_of_nat (8 + length d)"
      by (metis of_nat_unat ucast_id)
    then show ?thesis using d by (simp add: unsigned_of_nat take_bit_nat_eq_self)
  qed
  have v: "get16 b 34 = htons (get16 ?b 34)" "get16 b 36 = htons (get16 ?b 36)" "get16 b 38 = htons (get16 ?b 38)"
      "get32 b 26 = get32 ?b 26" "b ! 0 = ?b ! 0"
    unfolding b_def using len by (simp_all add: mem_simps)
  let ?s = "skb\<lparr>skb_buf := b, skb_payload := 42, skb_dlen := ucast (get16 b 38) - 8\<rparr>"
  have "udp_init_segment skb = Some ?s"
    using len by (simp add: udp_init_segment_def udp_hdr_def skb_head_def Let_def mem_simps b_def)
  moreover have "udp_carries ?s d \<lparr>sin_port = get16 ?b 34, sin_addr = ntohl (get32 ?b 26)\<rparr>"
    using assms pay l v blen d unfolding udp_carries_def udp_arrived_def by auto
  moreover have "load16 b 36 = Some (ntohs (get16 ?b 36))" using v blen len by simp
  ultimately show ?thesis using v(5) by (intro exI [of _ ?s]) (simp add: udp_hdr_def skb_head_def)
qed

text \<open>
  An arriving datagram goes to the first socket bound to its port, at the end of the queue, and
  wakes the reader; a datagram nobody is bound for changes nothing.
\<close>

lemma udp_in_delivers:
  assumes "udp_arrived skb d" and "udp_table w us"
    and "find_first (udp_bound w (ntohs (get16 (skb_buf skb) 36))) us = Some s" and "w_udp w s = Some sk"
    and "q_linked (sk_receive_queue sk)"
  shows "\<exists>skb'. udp_in skb w = Some (put_usk s (sk\<lparr>sk_receive_queue := queue_push (sk_receive_queue sk) skb',
      sk_recv_wait := wait_wakeup (sk_recv_wait sk)\<rparr>) w) \<and>
    udp_carries skb' d \<lparr>sin_port = get16 (skb_buf skb) 34, sin_addr = ntohl (get32 (skb_buf skb) 26)\<rparr>"
proof -
  obtain skb' where skb': "udp_init_segment skb = Some skb'"
    "load16 (skb_buf skb') (udp_hdr skb' + 2) = Some (ntohs (get16 (skb_buf skb) 36))"
    "udp_carries skb' d \<lparr>sin_port = get16 (skb_buf skb) 34, sin_addr = ntohl (get32 (skb_buf skb) 26)\<rparr>"
    using udp_init_segment_ok [OF assms(1)] by blast
  have "udp_lookup_sock w (ntohs (get16 (skb_buf skb) 36)) = Some (Some s)"
    using udp_lookup_sock_table [OF assms(2)] assms(3) by simp
  then show ?thesis
    using skb' assms(4,5) by (auto simp: udp_in_def udp_recv_notify_def)
qed

lemma udp_in_unbound:
  assumes "udp_arrived skb d" and "udp_table w us"
    and "\<forall>s\<in>set us. \<not> udp_bound w (ntohs (get16 (skb_buf skb) 36)) s"
  shows "udp_in skb w = Some w"
proof -
  have "find_first (udp_bound w (ntohs (get16 (skb_buf skb) 36))) us = None"
    using assms(3) by (simp add: find_first_None)
  then show ?thesis
    using udp_init_segment_ok [OF assms(1)] udp_lookup_sock_table [OF assms(2)]
    by (auto simp: udp_in_def)
qed

text \<open>
  Reading takes the first datagram out, whole; what does not fit the buffer is lost, and so is
  a datagram without data: the result is -1, which the callers take for \<open>nothing there\<close>.
\<close>

lemma udp_data_dequeue_ok:
  assumes sk: "w_udp w s = Some sk" and q: "queue_inv (sk_receive_queue sk)"
    and it: "q_items (sk_receive_queue sk) = skb # rest" and c: "udp_carries skb d a"
  shows "\<exists>q'. udp_data_dequeue s n w =
      Some (\<lparr>rv_rc = (if take (unat n) d = [] then -1 else int (length (take (unat n) d))),
              rv_bytes = take (unat n) d, rv_from = Some a\<rparr>, put_usk s (sk\<lparr>sk_receive_queue := q'\<rparr>) w) \<and>
    queue_inv q' \<and> q_items q' = rest"
proof -
  let ?q = "sk_receive_queue sk"
  define r where "r = (if skb_dlen skb > n then n else skb_dlen skb)"
  let ?t = "take (unat n) d"
  have e: "\<not> skb_queue_empty ?q" using q it by (simp add: queue_inv_empty)
  obtain q' where q': "skb_dequeue ?q = Some (skb, q')" "q_items q' = rest" "queue_inv q'"
    using q it queue_inv_tl [OF q it] by (auto simp: skb_dequeue_def)
  have d: "take (length d) (drop 42 (skb_buf skb)) = d" "42 + length d \<le> length (skb_buf skb)" "length d < 65536"
    "skb_payload skb = 42"
    using c by (simp_all add: udp_carries_def)
  have r: "unat r = length ?t"
    using c by (auto simp: udp_carries_def word_less_nat_alt r_def)
  have t: "take (length ?t) (drop 42 (skb_buf skb)) = ?t"
    by (metis d(1) length_take min.commute take_take)
  have z: "r = 0 \<longleftrightarrow> ?t = []"
    by (metis r length_0_conv unsigned_eq_0_iff)
  have "uint r = int (length ?t)" using r by (metis uint_nat)
  then have si: "sint r = int (length ?t)"
    using d(3) unfolding sint_uint by (simp add: signed_take_bit_int_eq_self)
  have "length ?t + 42 \<le> length (skb_buf skb)" using d(2) by simp
  then have ld: "load_bytes (skb_buf skb) 42 (unat r) = Some ?t"
    unfolding r load_bytes_def t by simp
  have a: "load16 (skb_buf skb) 34 = Some (ntohs (sin_port a))" "load32 (skb_buf skb) 26 = Some (ntohl (sin_addr a))"
    using c by (simp_all add: udp_carries_def)
  have "udp_data_dequeue s n w =
      Some (\<lparr>rv_rc = (if ?t = [] then -1 else int (length ?t)),
              rv_bytes = ?t, rv_from = Some a\<rparr>, put_usk s (sk\<lparr>sk_receive_queue := q'\<rparr>) w)"
    unfolding udp_data_dequeue_def Let_def z [symmetric] si [symmetric]
    by (simp add: sk e q'(1) r_def [symmetric] d(4) ld a udp_hdr_def ip_hdr_def skb_head_def)
  then show ?thesis using q'(2,3) by blast
qed

lemma udp_recv_ready:
  assumes "w_udp w s = Some sk" and "queue_inv (sk_receive_queue sk)"
    and "q_items (sk_receive_queue sk) = skb # rest" and "udp_carries skb d a" and "take (unat n) d \<noteq> []"
  shows "\<exists>q'. udp_recvfrom s n es w =
      Some (Returned \<lparr>rv_rc = int (length (take (unat n) d)), rv_bytes = take (unat n) d, rv_from = Some a\<rparr>,
        put_usk s (sk\<lparr>sk_receive_queue := q'\<rparr>) w) \<and> queue_inv q' \<and> q_items q' = rest"
  using udp_data_dequeue_ok [OF assms(1-4), of n] assms(5)
  by (auto simp: udp_recvfrom_def udp_recv_loop.simps [of s n es w])

lemma udp_recv_empty_queue:
  assumes "w_udp w s = Some sk" and "queue_inv (sk_receive_queue sk)" and "q_items (sk_receive_queue sk) = []"
  shows "udp_data_dequeue s n w = Some (\<lparr>rv_rc = -1, rv_bytes = [], rv_from = None\<rparr>, w)"
  using assms by (simp add: udp_data_dequeue_def queue_inv_empty)

text \<open>
  A reader that found nothing sleeps; the next datagram for its port wakes it and is what it
  returns.
\<close>

lemma udp_recv_wakes:
  assumes sk: "w_udp w s = Some sk" "queue_inv (sk_receive_queue sk)" "q_items (sk_receive_queue sk) = []"
    and arr: "udp_arrived skb d" "take (unat n) d \<noteq> []" and tb: "udp_table w us"
    and hit: "find_first (udp_bound w (ntohs (get16 (skb_buf skb) 36))) us = Some s"
  shows "\<exists>w'. udp_recvfrom s n [udp_in skb] w =
      Some (Returned \<lparr>rv_rc = int (length (take (unat n) d)), rv_bytes = take (unat n) d,
        rv_from = Some \<lparr>sin_port = get16 (skb_buf skb) 34, sin_addr = ntohl (get32 (skb_buf skb) 26)\<rparr>\<rparr>, w')"
proof -
  let ?z = "sk\<lparr>sk_recv_wait := (sk_recv_wait sk)\<lparr>wl_sleeping := True\<rparr>\<rparr>"
  let ?w = "put_usk s ?z w"
  have bd: "udp_bound ?w = udp_bound w" using sk(1) by (intro ext) (simp add: udp_bound_def)
  have tb': "udp_table ?w us" using tb by (auto simp: udp_table_def ring_holds_def)
  obtain skb' where i: "udp_in skb ?w = Some (put_usk s (?z\<lparr>sk_receive_queue := queue_push (sk_receive_queue ?z) skb',
      sk_recv_wait := wait_wakeup (sk_recv_wait ?z)\<rparr>) ?w)"
    "udp_carries skb' d \<lparr>sin_port = get16 (skb_buf skb) 34, sin_addr = ntohl (get32 (skb_buf skb) 26)\<rparr>"
    using udp_in_delivers [OF arr(1) tb', of s ?z] hit queue_inv_linked [OF sk(2)] unfolding bd by auto
  let ?y = "?z\<lparr>sk_receive_queue := queue_push (sk_receive_queue sk) skb', sk_recv_wait := wait_wakeup (sk_recv_wait ?z)\<rparr>"
  have q: "queue_inv (queue_push (sk_receive_queue sk) skb')"
    "q_items (queue_push (sk_receive_queue sk) skb') = [skb']"
    using sk queue_inv_tail [OF sk(2)] by (simp_all add: queue_push_def)
  have sl: "wait_sleep_usk s [udp_in skb] w = Some (Some [], put_usk s ?y w)"
    using sk(1) i(1) by (simp add: wait_sleep_usk_def wait_wakeup_def)
  obtain q' where "udp_recvfrom s n [] (put_usk s ?y w) =
      Some (Returned \<lparr>rv_rc = int (length (take (unat n) d)), rv_bytes = take (unat n) d,
        rv_from = Some \<lparr>sin_port = get16 (skb_buf skb) 34, sin_addr = ntohl (get32 (skb_buf skb) 26)\<rparr>\<rparr>,
        put_usk s (?y\<lparr>sk_receive_queue := q'\<rparr>) (put_usk s ?y w))"
    using udp_recv_ready [of "put_usk s ?y w" s ?y skb' "[]" d _ n "[]"] q i(2) arr(2) by auto
  then show ?thesis
    using udp_recv_empty_queue [OF sk, of n] sl
    by (subst udp_recvfrom_def) (simp add: udp_recv_loop.simps [of s n _ w] udp_recvfrom_def)
qed

text \<open>
  A datagram without data is taken off the queue, and the reader goes back to sleep.
\<close>

lemma udp_empty_swallowed:
  assumes "w_udp w s = Some sk" and "queue_inv (sk_receive_queue sk)"
    and "q_items (sk_receive_queue sk) = [skb]" and "udp_carries skb [] a"
  shows "\<exists>w' sk'. udp_recvfrom s n [] w = Some (Asleep, w') \<and> w_udp w' s = Some sk' \<and>
    q_items (sk_receive_queue sk') = []"
proof -
  obtain q' where "udp_data_dequeue s n w = Some (\<lparr>rv_rc = -1, rv_bytes = [], rv_from = Some a\<rparr>,
      put_usk s (sk\<lparr>sk_receive_queue := q'\<rparr>) w)" "q_items q' = []"
    using udp_data_dequeue_ok [OF assms, of n] by auto
  then show ?thesis
    by (simp add: udp_recvfrom_def udp_recv_loop.simps [of s n "[]" w] wait_sleep_usk_def)
qed

section \<open>Sending twice from an unconnected socket\<close>

text \<open>
  \<open>udp_sk_in_socks\<close> answers the opposite of what it is asked, so the second \<open>sendto\<close> links the
  socket a second time.  When it is closed afterwards, the ring still leads to it: every lookup
  touches freed memory.
\<close>

lemma udp_sendto_links:
  assumes sk: "w_udp w s = Some sk" "sk_state sk = UDP_UNCONNECTED"
    and nx: "nxt (w_links w) (link_of s) \<noteq> link_of s"
    and add: "list_add_tail (w_links w) (link_of s) UDP_HEAD = Some h"
    and n: "n \<le> length buf" "n + 28 < 65536" and net: "others_ok (w_others w)" "net_inv (w_net w)"
  shows "\<exists>r w' sk'. udp_sendto s buf (word_of_nat n) (Some a) w = Some (r, w') \<and> w_links w' = h \<and>
    w_udp w' s = Some sk' \<and> sk_state sk' = UDP_UNCONNECTED \<and> w_others w' = w_others w \<and> net_inv (w_net w')"
proof -
  obtain port w1 where pw: "udp_generate_port w = (port, w1)" "w1 = w\<lparr>w_udp_port := w_udp_port w + 1\<rparr>"
    by (simp add: udp_generate_port_def Let_def)
  let ?sk = "sk\<lparr>sk_daddr := ntohl (sin_addr a), sk_dport := ntohs (sin_port a), sk_sport := port,
      sk_saddr := 0x0A000104\<rparr>"
  let ?w = "(put_usk s ?sk w1)\<lparr>w_links := h\<rparr>"
  have "w_udp ?w s = Some ?sk" "others_ok (w_others ?w)" "net_inv (w_net ?w)"
    using net pw(2) by simp_all
  then obtain r n' where r: "udp_send s buf (word_of_nat n) ?w = Some (r, ?w\<lparr>w_net := n'\<rparr>)" "net_inv n'"
    using udp_send_total [of ?w s ?sk n buf] n by blast
  have "udp_sendto s buf (word_of_nat n) (Some a) w = Some (r, ?w\<lparr>w_net := n'\<rparr>)"
    using sk pw nx add r(1)
    by (simp add: udp_sendto_def udp_sk_in_socks_def rd_next_def stackaddr_def ip_parse_stack)
  then show ?thesis using r(2) sk(2) pw(2) by (intro exI [of _ r] exI [of _ "?w\<lparr>w_net := n'\<rparr>"] exI [of _ ?sk]) simp
qed

text \<open>
  C36.  An unconnected UDP socket that sends twice is linked twice, because \<open>udp_sk_in_socks\<close>
  answers the wrong way round; after \<open>udp_close\<close> the walk over the table reads freed memory.
\<close>

theorem udp_sendto_twice:
  assumes sk: "w_udp w s = Some sk" "sk_state sk = UDP_UNCONNECTED"
    and fresh: "nxt (w_links w) (link_of s) = 0" and tb: "udp_table w []"
    and n: "n \<le> length buf" "n + 28 < 65536" and net: "others_ok (w_others w)" "net_inv (w_net w)"
  shows "\<exists>r1 w1 r2 w2 w3. udp_sendto s buf (word_of_nat n) (Some a) w = Some (r1, w1) \<and>
    udp_sendto s buf (word_of_nat n) (Some a) w1 = Some (r2, w2) \<and> udp_close s w2 = Some (0, w3) \<and>
    (\<forall>port. udp_lookup_sock w3 port = None)"
proof -
  have d0: "dlist (w_links w) UDP_HEAD []" using tb by (simp add: udp_table_def ring_holds_def)
  obtain h1 where h1: "list_add_tail (w_links w) (link_of s) UDP_HEAD = Some h1" "dlist h1 UDP_HEAD [link_of s]"
    using dlist_add_tail [OF d0, of "link_of s"] by auto
  obtain h2 h3 where h2: "list_add_tail h1 (link_of s) UDP_HEAD = Some h2"
    and h3: "list_del_init h2 (link_of s) = Some h3" "nxt h3 UDP_HEAD = link_of s"
    using double_add_tail [of UDP_HEAD "link_of s" h1] h1(2) by auto
  obtain r1 w1 sk1 where w1: "udp_sendto s buf (word_of_nat n) (Some a) w = Some (r1, w1)" "w_links w1 = h1"
    "w_udp w1 s = Some sk1" "sk_state sk1 = UDP_UNCONNECTED" "w_others w1 = w_others w" "net_inv (w_net w1)"
    using udp_sendto_links [OF sk _ h1(1) n net, of a] fresh by auto
  have nx1: "nxt (w_links w1) (link_of s) \<noteq> link_of s" using h1(2) w1(2) by (simp add: dlist_def)
  have add2: "list_add_tail (w_links w1) (link_of s) UDP_HEAD = Some h2" using h2 w1(2) by simp
  have oth: "others_ok (w_others w1)" using net(1) w1(5) by simp
  obtain r2 w2 sk2 where w2: "udp_sendto s buf (word_of_nat n) (Some a) w1 = Some (r2, w2)" "w_links w2 = h2"
    "w_udp w2 s = Some sk2"
    using udp_sendto_links [OF w1(3,4) nx1 add2 n oth w1(6)] by blast
  let ?w3 = "w2\<lparr>w_udp_amount := w_udp_amount w2 - 1, w_udp := (w_udp w2)(s := None), w_links := clear_nodes s h3\<rparr>"
  have "udp_close s w2 = Some (0, ?w3)"
    using h3(1) w2(2,3) by (simp add: udp_close_def udp_socks_remove_def udp_free_sock_def)
  moreover have "udp_lookup_sock ?w3 port = None" for port
  proof -
    have "nxt (clear_nodes s h3) UDP_HEAD = link_of s" using h3(2) by (simp add: clear_nodes_def)
    then show ?thesis
      by (simp add: udp_lookup_sock_def ring_find_def rd_next_def ring_scan.simps)
  qed
  ultimately show ?thesis using w1(1) w2(1) by blast
qed

section \<open>Two parsers of addresses\<close>

text \<open>Wherever \<open>ip_parse\<close> accepts a string, \<open>parse_ipv4_string\<close> returns the same address.\<close>

lemma split_on_intercalate:
  "split_on c s = y # ys \<Longrightarrow>
   s = y @ concat (map (\<lambda>z. c # z) ys) \<and> (\<forall>z\<in>set (y # ys). c \<notin> set z)"
proof (induction s arbitrary: y ys)
  case (Cons x xs)
  obtain z zs where z: "split_on c xs = z # zs" by (cases "split_on c xs") (cases xs; auto split: if_splits list.splits)+
  have "z @ concat (map (\<lambda>z. c # z) zs) = xs" "\<forall>z\<in>set (z # zs). c \<notin> set z"
    using Cons.IH [OF z] by simp_all
  moreover have "if x = c then y = [] \<and> ys = z # zs else y = x # z \<and> ys = zs"
    using Cons.prems z by (auto split: if_splits)
  ultimately show ?case by (cases "x = c") auto
qed auto

lemma scan_digits_app:
  assumes "list_all is_digit ds" and "rest = [] \<or> \<not> is_digit (hd rest)"
  shows "scan_digits (ds @ rest) n = (foldl (\<lambda>n c. 10 * n + ((of_char c :: nat) - 48)) n ds, rest)"
  using assms
proof (induction ds arbitrary: n)
  case Nil
  then show ?case by (cases rest) auto
qed simp

lemma octet_scan:
  assumes "octet ds = Some v" and "rest = [] \<or> \<not> is_digit (hd rest)"
  shows "scan_hhu (ds @ rest) = Some (v, rest)"
proof -
  have ds: "ds \<noteq> []" "list_all is_digit ds" "octet_value ds \<le> 255" "v = word_of_nat (octet_value ds)"
    using assms(1) by (auto simp: octet_def split: if_splits)
  obtain c cs where c: "ds = c # cs" "is_digit c" using ds(1,2) by (cases ds) auto
  have "\<not> is_space c" "c \<noteq> CHR ''-''" "c \<noteq> CHR ''+''"
    using c(2) by (auto simp: is_digit_def is_space_def)
  then have s: "scan_sign (dropWhile is_space (ds @ rest)) = (False, ds @ rest)"
    using c(1) by (simp add: scan_sign_def)
  have "scan_digits (ds @ rest) 0 = (octet_value ds, rest)"
    using scan_digits_app [OF ds(2) assms(2)] by (simp add: octet_value_def)
  then have "scan_digits (c # cs @ rest) 0 = (octet_value ds, rest)" using c(1) by simp
  then show ?thesis using s c ds(3,4) by (simp add: scan_hhu_def del: scan_digits.simps)
qed

lemma ucast_le16: "(ucast (le16 a b) :: u32) = ucast a OR push_bit 8 (ucast b)"
  unfolding le16_def by (rule bit_word_eqI) (auto simp: bit_simps dest: bit_imp_le_length)

lemma le32_or:
  "le32 (le16 a b) (le16 c d) = ucast a OR push_bit 8 (ucast b) OR push_bit 16 (ucast c) OR push_bit 24 (ucast d)"
  by (simp add: le32_def ucast_le16 push_bit_or or.assoc)

text \<open>
  C23.  The two parsers of dotted addresses agree: what \<open>ip_parse\<close> accepts, \<open>parse_ipv4_string\<close>
  turns into the same number.
\<close>

theorem parse_agrees:
  assumes "ip_parse addr = Some v"
  shows "parse_ipv4_string addr = Some v"
proof -
  obtain a b c d a' b' c' d' where sp: "split_on (CHR ''.'') addr = [a, b, c, d]"
    and o: "octet a = Some a'" "octet b = Some b'" "octet c = Some c'" "octet d = Some d'"
    and v: "v = ntohl (le32 (le16 a' b') (le16 c' d'))"
    using assms by (auto simp: ip_parse_def inet_pton_def split: list.splits elim!: bind_SomeE)
  have addr: "addr = a @ CHR ''.'' # b @ CHR ''.'' # c @ CHR ''.'' # d"
    using split_on_intercalate [OF sp] by simp
  have nd: "\<not> is_digit (CHR ''.'')" by (simp add: is_digit_def)
  have "ntohl (le32 (le16 a' b') (le16 c' d')) = le32 (le16 d' c') (le16 b' a')"
    by (simp add: bswap32_def bswap16_def)
  then show ?thesis
    using octet_scan [OF o(1), of "CHR ''.'' # b @ CHR ''.'' # c @ CHR ''.'' # d"]
      octet_scan [OF o(2), of "CHR ''.'' # c @ CHR ''.'' # d"] octet_scan [OF o(3), of "CHR ''.'' # d"]
      octet_scan [OF o(4), of "[]"] nd v
    by (simp add: parse_ipv4_string_def addr scan_dot_def le32_or)
qed

end
