(* ===== verification/Ip_Input.thy ===== *)
theory Ip_Input
  imports Icmp Udp
begin

text \<open>
  The receiving path: \<open>netdev_rx_loop\<close> and \<open>netdev_receive\<close> of \<open>netdev.c\<close>, and \<open>ip_input.c\<close>,
  down to the handlers of ARP, ICMP, TCP and UDP.

  The packet belongs to the handler: what it leaves of the buffer is not looked at again, so
  only the new state of the stack is returned.  \<open>tv\<close> is the wall clock the ICMP timestamp reads.
\<close>

abbreviation BUFLEN :: nat where "BUFLEN \<equiv> 1600"

section \<open>IP\<close>

text \<open>\<open>ip_init_pkt\<close>: four fields of the header at \<open>a\<close> to host order, in place.\<close>

definition ip_init_pkt :: "bytes \<Rightarrow> nat \<Rightarrow> bytes option" where
  "ip_init_pkt b a = do {
     v \<leftarrow> load32 b (a + 12);
     b \<leftarrow> store32 b (a + 12) (ntohl v);
     v \<leftarrow> load32 b (a + 16);
     b \<leftarrow> store32 b (a + 16) (ntohl v);
     v \<leftarrow> load16 b (a + 2);
     b \<leftarrow> store16 b (a + 2) (ntohs v);
     v \<leftarrow> load16 b (a + 4);
     store16 b (a + 4) (ntohs v)
   }"

definition ip_pkt_for_us :: "bytes \<Rightarrow> nat \<Rightarrow> bool option" where
  "ip_pkt_for_us b a = do {
     daddr \<leftarrow> load32 b (a + 16);
     sa \<leftarrow> ip_parse stackaddr;
     Some (daddr = sa)
   }"

definition ip_rcv :: "clock \<Rightarrow> sk_buff \<Rightarrow> world \<Rightarrow> world option" where
  "ip_rcv tv skb w = do {
     let ih = ip_hdr skb;
     vi \<leftarrow> load8 (skb_buf skb) ih;
     (if hi_nibble vi \<noteq> IPV4 then Some w
      else if lo_nibble vi < 5 then Some w
      else do {
        ttl \<leftarrow> load8 (skb_buf skb) (ih + 8);
        (if ttl = 0 then Some w
         else do {
           csum \<leftarrow> checksum (skb_buf skb) ih (int (unat (lo_nibble vi)) * 4) 0;
           (if csum \<noteq> 0 then Some w
            else do {
              b \<leftarrow> ip_init_pkt (skb_buf skb) ih;
              let skb = skb\<lparr>skb_buf := b\<rparr>;
              for_us \<leftarrow> ip_pkt_for_us b ih;
              proto \<leftarrow> load8 b (ih + 9);
              (if \<not> for_us then Some w
               else if proto = ICMPV4
               then do { (fate, n) \<leftarrow> icmpv4_incoming (w_others w) tv skb (w_net w); Some (w\<lparr>w_net := n\<rparr>) }
               else if proto = IP_TCP then do { (fate, w) \<leftarrow> tcp_in skb w; Some w }
               else if proto = IP_UDP then udp_in skb w
               else Some w)
            })
         })
      })
   }"

section \<open>The device\<close>

definition netdev_receive :: "clock \<Rightarrow> sk_buff \<Rightarrow> world \<Rightarrow> world option" where
  "netdev_receive tv skb w = do {
     (ethertype, skb) \<leftarrow> eth_hdr skb;
     (if ethertype = ETH_P_ARP
      then do { (fate, n) \<leftarrow> arp_rcv skb (w_net w); Some (w\<lparr>w_net := n\<rparr>) }
      else if ethertype = ETH_P_IP then ip_rcv tv skb w
      else Some w)
   }"

text \<open>
  One round of \<open>netdev_rx_loop\<close>: \<open>tun_read\<close> puts at most \<open>BUFLEN\<close> bytes of a frame into a fresh
  buffer.
\<close>

definition rx_skb :: "bytes \<Rightarrow> sk_buff" where
  "rx_skb frame = (alloc_skb BUFLEN)\<lparr>skb_buf := put_bytes (replicate BUFLEN 0) 0 (take BUFLEN frame)\<rparr>"

definition netdev_rx_loop_step :: "clock \<Rightarrow> bytes \<Rightarrow> world \<Rightarrow> world option" where
  "netdev_rx_loop_step tv frame w = netdev_receive tv (rx_skb frame) w"

text \<open>The loop itself, over the frames the device delivers.\<close>

primrec netdev_rx_loop :: "clock \<Rightarrow> bytes list \<Rightarrow> world \<Rightarrow> world option" where
  "netdev_rx_loop tv [] w = Some w"
| "netdev_rx_loop tv (f # fs) w = Option.bind (netdev_rx_loop_step tv f w) (netdev_rx_loop tv fs)"

section \<open>Frames sent by a stack of this kind\<close>

lemma rx_skb_buf:
  "length frame \<le> BUFLEN \<Longrightarrow> skb_buf (rx_skb frame) = frame @ replicate (BUFLEN - length frame) 0"
  by (simp add: rx_skb_def put_bytes_def)

text \<open>
  What the transport layer gets to see of a datagram: the header in host order in front of the
  payload.
\<close>

definition ip_delivered :: "sk_buff \<Rightarrow> u32 \<Rightarrow> u32 \<Rightarrow> bytes \<Rightarrow> bool" where
  "ip_delivered skb saddr daddr payload \<longleftrightarrow>
     skb_data skb = 0 \<and> skb_len skb = 0 \<and> skb_refcnt skb = 0 \<and> length (skb_buf skb) = BUFLEN \<and>
     lo_nibble (skb_buf skb ! 14) = 5 \<and> get16 (skb_buf skb) 16 = word_of_nat (length payload + 20) \<and>
     get32 (skb_buf skb) 26 = saddr \<and> get32 (skb_buf skb) 30 = daddr \<and>
     take (length payload) (drop 34 (skb_buf skb)) = payload"

text \<open>The dispatch on the protocol number.\<close>

definition ip_dispatch :: "clock \<Rightarrow> u8 \<Rightarrow> sk_buff \<Rightarrow> world \<Rightarrow> world option" where
  "ip_dispatch tv proto skb w =
     (if proto = ICMPV4
      then do { (fate, n) \<leftarrow> icmpv4_incoming (w_others w) tv skb (w_net w); Some (w\<lparr>w_net := n\<rparr>) }
      else if proto = IP_TCP then do { (fate, w) \<leftarrow> tcp_in skb w; Some w }
      else if proto = IP_UDP then udp_in skb w
      else Some w)"

lemma get_shift:
  "i + j + 1 < length b \<Longrightarrow> get16 (drop i b) j = get16 b (i + j)"
  "i + j + 3 < length b \<Longrightarrow> get32 (drop i b) j = get32 b (i + j)"
  by (simp_all add: get16_def get32_def add.assoc)

text \<open>
  A datagram that \<open>ip_rcv\<close> takes: a header of 20 bytes whose checksum verifies, with a lifetime that is not
  over and the length of the datagram.  Type of service, identification, flags and fragment
  offset are not looked at.
\<close>

definition ip_packet :: "u32 \<Rightarrow> u32 \<Rightarrow> u8 \<Rightarrow> bytes \<Rightarrow> bytes \<Rightarrow> bool" where
  "ip_packet saddr daddr proto payload pkt \<longleftrightarrow>
     length pkt = length payload + 20 \<and> drop 20 pkt = payload \<and> checksum pkt 0 20 0 = Some 0 \<and>
     (let h = ip_view pkt 0 in
      ih_version h = 4 \<and> ih_ihl h = 5 \<and> ih_len h = word_of_nat (length payload + 20) \<and> ih_ttl h \<noteq> 0 \<and>
      ih_proto h = proto \<and> ih_saddr h = saddr \<and> ih_daddr h = daddr)"

lemma ip_datagram_packet: "ip_datagram dev daddr proto payload pkt \<Longrightarrow> ip_packet (nd_addr dev) daddr proto payload pkt"
  unfolding ip_datagram_def ip_header_ok_def ip_packet_def Let_def
  by (elim conjE exE) (simp add: ip_header_for_def)

text \<open>Bytes behind the datagram, with which a short frame is filled up, do not matter.\<close>

lemma netdev_receive_packet:
  assumes mac: "length dmac = 6" "length smac = 6"
    and pkt: "ip_packet saddr daddr proto payload pkt" and fit: "length payload + length pad + 34 \<le> BUFLEN"
  shows "if daddr = 0x0A000104
    then \<exists>skb. netdev_rx_loop_step tv (eth_frame dmac smac ETH_P_IP (pkt @ pad)) = ip_dispatch tv proto skb \<and>
      ip_delivered skb saddr daddr payload
    else netdev_rx_loop_step tv (eth_frame dmac smac ETH_P_IP (pkt @ pad)) = Some"
proof -
  let ?f = "eth_frame dmac smac ETH_P_IP (pkt @ pad)"
  define b where "b = skb_buf (rx_skb ?f)"
  have lp: "length pkt = length payload + 20" and pl: "drop 20 pkt = payload"
    using pkt by (simp_all add: ip_packet_def)
  have cs: "checksum pkt 0 20 0 = Some 0" using pkt by (simp add: ip_packet_def)
  let ?z = "replicate (BUFLEN - length ?f) 0"
  have lf: "length ?f = length payload + length pad + 34" using mac lp by (simp add: eth_frame_def)
  have bf: "b = (dmac @ smac @ [hi8 ETH_P_IP, lo8 ETH_P_IP]) @ pkt @ pad @ ?z"
    using rx_skb_buf [of ?f] lf fit by (simp add: b_def eth_frame_def)
  have lb: "length b = BUFLEN" using bf lf fit mac lp by simp
  have et: "get16 b 12 = htons ETH_P_IP"
    using mac unfolding bf by (simp add: get16_def nth_append bswap16_def)
  define b1 where "b1 = put16 b 12 ETH_P_IP"
  have lb1: "length b1 = BUFLEN" by (simp add: b1_def lb)
  have "drop 14 b1 = drop 14 b" unfolding b1_def put16_def by (simp add: drop_update_cancel)
  then have d14: "drop 14 b1 = pkt @ pad @ ?z" using bf mac by simp
  then have pk: "take (length pkt) (drop 14 b1) = pkt" by simp
  have v1: "ip_view b1 14 = ip_view pkt 0"
    using ip_view_range [of 14 "length pkt" b1] pk lp lb1 fit by simp
  have c1: "checksum b1 14 20 0 = Some 0"
    using checksum_range [of 14 20 b1 0 20 0] checksum_range [of 0 20 pkt 0 20 0] cs lb1 d14 lp by simp
  have nib: "hi_nibble (b1 ! 14) = 4" "lo_nibble (b1 ! 14) = 5" "b1 ! 22 \<noteq> 0" "b1 ! 23 = proto"
      "ntohs (get16 b1 16) = word_of_nat (length payload + 20)"
      "ntohl (get32 b1 26) = saddr" "ntohl (get32 b1 30) = daddr"
    using v1 pkt by (simp_all add: ip_view_def ip_packet_def Let_def)
  define b2 where "b2 = put16 (put16 (put32 (put32 b1 26 (saddr)) 30 daddr) 16
      (word_of_nat (length payload + 20))) 18 (ntohs (get16 b1 18))"
  have ini: "ip_init_pkt b1 14 = Some b2"
    using lb1 nib(5-7) by (simp add: ip_init_pkt_def b2_def mem_simps)
  have lb2: "length b2 = BUFLEN" by (simp add: b2_def lb1)
  have f2: "get32 b2 26 = saddr" "get32 b2 30 = daddr" "get16 b2 16 = word_of_nat (length payload + 20)"
      "b2 ! 14 = b1 ! 14" "b2 ! 23 = proto"
    unfolding b2_def using lb1 nib(4) by (simp_all add: mem_simps)
  have "drop 34 b2 = drop 34 b1" unfolding b2_def put16_def put32_def by (simp add: drop_update_cancel)
  also have "drop 34 b1 = drop 20 (drop 14 b1)" by simp
  finally have pay: "take (length payload) (drop 34 b2) = payload" using d14 pl lp by simp
  define skb where "skb = (alloc_skb BUFLEN)\<lparr>skb_buf := b2\<rparr>"
  have del: "ip_delivered skb (saddr) daddr payload"
    using lb2 f2 nib(2) pay by (simp add: ip_delivered_def skb_def alloc_skb_def)
  have us: "ip_pkt_for_us b2 14 = Some (daddr = 0x0A000104)"
    using lb2 f2(2) by (simp add: ip_pkt_for_us_def stackaddr_def ip_parse_stack)
  have eh: "eth_hdr (rx_skb ?f) = Some (ETH_P_IP, (alloc_skb BUFLEN)\<lparr>skb_buf := b1\<rparr>)"
    using lb et by (simp add: eth_hdr_def skb_head_def b_def [symmetric] b1_def) (simp add: rx_skb_def)
  have "netdev_rx_loop_step tv ?f = (\<lambda>w. if daddr = 0x0A000104 then ip_dispatch tv proto skb w else Some w)"
  proof
    fix w
    have "netdev_rx_loop_step tv ?f w = ip_rcv tv ((alloc_skb BUFLEN)\<lparr>skb_buf := b1\<rparr>) w"
      using eh by (simp add: netdev_rx_loop_step_def netdev_receive_def)
    then show "netdev_rx_loop_step tv ?f w = (if daddr = 0x0A000104 then ip_dispatch tv proto skb w else Some w)"
      using lb1 lb2 nib c1 ini us f2(5)
      by (simp add: ip_rcv_def ip_hdr_def skb_head_def Let_def ip_dispatch_def skb_def)
  qed
  then show ?thesis using del by auto
qed

text \<open>The datagrams of a stack of this kind are such datagrams.\<close>

lemma netdev_receive_datagram:
  assumes "length dmac = 6" and "length smac = 6" and "ip_datagram dev daddr proto payload pkt"
    and "length payload + 34 \<le> BUFLEN"
  shows "if daddr = 0x0A000104
    then \<exists>skb. netdev_rx_loop_step tv (eth_frame dmac smac ETH_P_IP pkt) = ip_dispatch tv proto skb \<and>
      ip_delivered skb (nd_addr dev) daddr payload
    else netdev_rx_loop_step tv (eth_frame dmac smac ETH_P_IP pkt) = Some"
  using netdev_receive_packet [OF assms(1,2) ip_datagram_packet [OF assms(3)], of "[]" tv] assms(4)
  unfolding append_Nil2 by simp

end
