(* ===== verification/Delivery.thy ===== *)
theory Delivery
  imports Ip_Input
begin

text \<open>
  From one stack to the next: what a stack of this kind puts on the wire, another one delivers.
  Echo requests, UDP datagrams and TCP segments, from the sender's call to the receiver's
  queues.
\<close>

section \<open>The payload of a delivered datagram\<close>

lemma delivered_bytes:
  assumes "ip_delivered skb sa da p"
  shows "i + 1 < length p \<Longrightarrow> get16 (skb_buf skb) (34 + i) = get16 p i"
    and "i + 3 < length p \<Longrightarrow> get32 (skb_buf skb) (34 + i) = get32 p i"
    and "i < length p \<Longrightarrow> skb_buf skb ! (34 + i) = p ! i"
    and "k + m \<le> length p \<Longrightarrow> take m (drop (34 + k) (skb_buf skb)) = take m (drop k p)"
    and "length p + 34 \<le> length (skb_buf skb)"
proof -
  have p: "take (length p) (drop 34 (skb_buf skb)) = p" and len: "length (skb_buf skb) = BUFLEN"
    using assms by (simp_all add: ip_delivered_def)
  have "length (take (length p) (drop 34 (skb_buf skb))) = length p" using p by simp
  then show l: "length p + 34 \<le> length (skb_buf skb)" using len by simp
  have n: "skb_buf skb ! (34 + j) = p ! j" if "j < length p" for j
  proof -
    have "p ! j = take (length p) (drop 34 (skb_buf skb)) ! j" using p by simp
    then show ?thesis using that l by simp
  qed
  then show "i < length p \<Longrightarrow> skb_buf skb ! (34 + i) = p ! i" by simp
  show "i + 1 < length p \<Longrightarrow> get16 (skb_buf skb) (34 + i) = get16 p i"
    using n [of i] n [of "i + 1"] by (simp add: get16_def add.assoc)
  show "i + 3 < length p \<Longrightarrow> get32 (skb_buf skb) (34 + i) = get32 p i"
    using n [of i] n [of "i + 1"] n [of "i + 2"] n [of "i + 3"] by (simp add: get32_def get16_def add.assoc numeral_3_eq_3)
  show "k + m \<le> length p \<Longrightarrow> take m (drop (34 + k) (skb_buf skb)) = take m (drop k p)"
  proof -
    assume "k + m \<le> length p"
    then have "take m (drop k (take (length p) (drop 34 (skb_buf skb)))) = take m (drop k (drop 34 (skb_buf skb)))"
      by (simp add: drop_take)
    then show ?thesis unfolding p by (simp add: add.commute)
  qed
qed

section \<open>Echo\<close>

lemma echo_delivered:
  assumes "ip_delivered skb sa da req" and "4 \<le> length req" and "length req + 20 < 65536"
  shows "icmp_delivered skb (length req)" and "take (length req) (drop 34 (skb_buf skb)) = req"
  using assms delivered_bytes(5) [OF assms(1)]
  by (simp_all add: icmp_delivered_def ip_delivered_def unat_len16 del: of_nat_add)

text \<open>
  C9.  Ping: an echo request that arrives on the device, in any datagram without options that is for
  this host and still alive, whatever its flags, lifetime and type of service, is answered, on the
  device, by a datagram to its sender that carries the request with type 0 and a correct checksum.
\<close>

theorem echo_answered:
  assumes "length dmac = 6" and "length smac = 6" and "ip_packet saddr 0x0A000104 ICMPV4 req pkt"
    and "length req + length pad + 34 \<le> BUFLEN" and "4 \<le> length req" and "req ! 0 = ICMP_V4_ECHO"
    and "net_inv (w_net w)" and "arp_get_hwaddr (w_net w) gateway = Some mac"
  shows "\<exists>pkt' msg. netdev_rx_loop_step tv (eth_frame dmac smac ETH_P_IP (pkt @ pad)) w =
      Some (w\<lparr>w_net := tun_write (eth_frame mac (nd_hwaddr (net_dev (w_net w))) ETH_P_IP pkt') (w_net w)\<rparr>) \<and>
    ip_datagram (net_dev (w_net w)) saddr ICMPV4 msg pkt' \<and> echo_reply_to req msg"
proof -
  obtain skb where skb: "netdev_rx_loop_step tv (eth_frame dmac smac ETH_P_IP (pkt @ pad)) w = ip_dispatch tv ICMPV4 skb w"
    "ip_delivered skb saddr 0x0A000104 req"
    using netdev_receive_packet [OF assms(1-4), of tv] by auto
  have e: "icmp_delivered skb (length req)" "take (length req) (drop 34 (skb_buf skb)) = req"
    using echo_delivered [OF skb(2)] assms(4,5) by auto
  have ty: "skb_buf skb ! 34 = ICMP_V4_ECHO" "34 < length (skb_buf skb)"
    using delivered_bytes(3) [OF skb(2), of 0] delivered_bytes(5) [OF skb(2)] assms(5,6)
    by (cases req; simp)+
  have sa: "get32 (skb_buf skb) 26 = saddr" using skb(2) by (simp add: ip_delivered_def)
  obtain pkt' msg where r: "icmpv4_reply (w_others w) skb (w_net w) =
      Some (None, tun_write (eth_frame mac (nd_hwaddr (net_dev (w_net w))) ETH_P_IP pkt') (w_net w))"
    "ip_datagram (net_dev (w_net w)) saddr ICMPV4 msg pkt'" "echo_reply_to req msg"
    using icmpv4_reply_sends [OF assms(7,8) e(1), of "w_others w"] unfolding e(2) sa by auto
  then show ?thesis
    using skb(1) ty by (auto simp: ip_dispatch_def icmpv4_incoming_def ip_hdr_def skb_head_def)
qed

section \<open>Address resolution\<close>

lemma length_arp_encode: "length (ap_smac m) = 6 \<Longrightarrow> length (ap_dmac m) = 6 \<Longrightarrow> length (arp_encode m) = 28"
  by (simp add: arp_encode_def)

text \<open>The message an ARP frame carries is the one \<open>arp_rcv\<close> acts on.\<close>

lemma netdev_receive_arp:
  assumes mac: "length dmac = 6" "length smac = 6" and m: "length (ap_smac m) = 6" "length (ap_dmac m) = 6"
    and n: "dev_ok (net_dev (w_net w))" "arp_inv (net_arp (w_net w))"
  shows "\<exists>n'. netdev_rx_loop_step tv (eth_frame dmac smac ETH_P_ARP (arp_encode m)) w = Some (w\<lparr>w_net := n'\<rparr>) \<and>
    arp_get_hwaddr n' = arp_table_after m (nd_addr (net_dev (w_net w))) (arp_get_hwaddr (w_net w)) \<and>
    net_tx n' = net_tx (w_net w) @ (if arp_answers m (w_net w) then
      [eth_frame (ap_smac m) (nd_hwaddr (net_dev (w_net w))) ETH_P_ARP (arp_encode (arp_reply_msg (net_dev (w_net w)) m))]
      else [])"
proof -
  let ?f = "eth_frame dmac smac ETH_P_ARP (arp_encode m)"
  have lf: "length ?f = 42" using mac m by (simp add: eth_frame_def length_arp_encode)
  define b where "b = skb_buf (rx_skb ?f)"
  have b: "b = (dmac @ smac @ [hi8 ETH_P_ARP, lo8 ETH_P_ARP]) @ arp_encode m @ replicate (BUFLEN - 42) 0"
    using rx_skb_buf [of ?f] lf by (simp add: b_def eth_frame_def)
  have lb: "length b = BUFLEN" unfolding b using mac m by (simp add: length_arp_encode)
  have et: "get16 b 12 = htons ETH_P_ARP"
    using mac unfolding b by (simp add: get16_def nth_append bswap16_def)
  define skb where "skb = (alloc_skb BUFLEN)\<lparr>skb_buf := put16 b 12 ETH_P_ARP\<rparr>"
  have eh: "eth_hdr (rx_skb ?f) = Some (ETH_P_ARP, skb)"
    using lb et by (simp add: eth_hdr_def skb_head_def b_def [symmetric] skb_def) (simp add: rx_skb_def)
  have "drop 14 (skb_buf skb) = drop 14 b" by (simp add: skb_def put16_def drop_update_cancel)
  then have "take 28 (drop 14 (skb_buf skb)) = arp_encode m"
    using mac m unfolding b by (simp add: length_arp_encode)
  then have enc: "arp_encode m = arp_encode (arp_view (skb_buf skb) 14)"
    using arp_encode_view [of 14 "skb_buf skb"] lb by (simp add: skb_def)
  have "m = arp_view (arp_encode m) 0" using m by (simp add: arp_view_encode)
  also have "\<dots> = arp_view (skb_buf skb) 14"
    unfolding enc by (rule arp_view_encode) (use lb in \<open>simp_all add: arp_view_def skb_def\<close>)
  finally have view: "m = arp_view (skb_buf skb) 14" .
  have ok: "skb_data skb = 0" "skb_len skb = 0" "skb_refcnt skb < 1" "42 \<le> length (skb_buf skb)"
    using lb by (simp_all add: skb_def alloc_skb_def)
  have hw: "arp_get_hwaddr k = arp_lookup (net_arp k)" for k by (simp add: fun_eq_iff arp_get_hwaddr_lookup)
  show ?thesis
    using arp_rcv_effect [OF n(1) ok view] arp_lookup_after(1) [OF n(2) m(1)] eh
    by (auto simp: netdev_rx_loop_step_def netdev_receive_def hw)
qed

text \<open>
  C24.  Address resolution, from question to answer: the request that one machine broadcasts for the address of
  another is answered by it, and once the answer has been received the first machine has the hardware address it
  asked for.  The second machine has learned that of the first on the way.
\<close>

theorem arp_resolves:
  assumes a: "dev_ok da" "da = net_dev (w_net wa)" "arp_inv (net_arp (w_net wa))"
    and b: "dev_ok db" "db = net_dev (w_net wb)" "arp_inv (net_arp (w_net wb))"
  shows "\<exists>request n reply wb' wa'.
    arp_request (nd_addr da) (nd_addr db) da (w_net wa) = Some (Indet, n) \<and> net_tx n = net_tx (w_net wa) @ [request] \<and>
    netdev_rx_loop_step tv request wb = Some wb' \<and> net_tx (w_net wb') = net_tx (w_net wb) @ [reply] \<and>
    arp_get_hwaddr (w_net wb') (nd_addr da) = Some (nd_hwaddr da) \<and>
    netdev_rx_loop_step tv reply (wa\<lparr>w_net := n\<rparr>) = Some wa' \<and>
    arp_get_hwaddr (w_net wa') (nd_addr db) = Some (nd_hwaddr db)"
proof -
  let ?req = "arp_request_msg da (nd_addr da) (nd_addr db)"
  let ?rep = "arp_reply_msg db ?req"
  let ?request = "eth_frame broadcast_hw (nd_hwaddr da) ETH_P_ARP (arp_encode ?req)"
  let ?reply = "eth_frame (nd_hwaddr da) (nd_hwaddr db) ETH_P_ARP (arp_encode ?rep)"
  let ?n = "tun_write ?request (w_net wa)"
  have mac: "length (nd_hwaddr da) = 6" "length (nd_hwaddr db) = 6" using a(1) b(1) by (simp_all add: dev_ok_def)
  have r: "arp_request (nd_addr da) (nd_addr db) da (w_net wa) = Some (Indet, ?n)" by (rule arp_request_frame [OF a(1)])
  obtain nb where nb: "netdev_rx_loop_step tv ?request wb = Some (wb\<lparr>w_net := nb\<rparr>)"
    "arp_get_hwaddr nb = arp_table_after ?req (nd_addr db) (arp_get_hwaddr (w_net wb))"
    "net_tx nb = net_tx (w_net wb) @ [?reply]"
    using netdev_receive_arp [of broadcast_hw "nd_hwaddr da" ?req wb tv] mac b by (auto simp: arp_request_msg_def arp_answers_def)
  obtain na where na: "netdev_rx_loop_step tv ?reply (wa\<lparr>w_net := ?n\<rparr>) = Some (wa\<lparr>w_net := na\<rparr>)"
    "arp_get_hwaddr na = arp_table_after ?rep (nd_addr da) (arp_get_hwaddr ?n)"
    using netdev_receive_arp [of "nd_hwaddr da" "nd_hwaddr db" ?rep "wa\<lparr>w_net := ?n\<rparr>" tv] mac a
    by (auto simp: arp_request_msg_def arp_reply_msg_def tun_write_def)
  have "arp_get_hwaddr nb (nd_addr da) = Some (nd_hwaddr da)" "arp_get_hwaddr na (nd_addr db) = Some (nd_hwaddr db)"
    by (simp_all add: nb(2) na(2) arp_table_after_def arp_request_msg_def arp_reply_msg_def)
  then show ?thesis using r nb(1,3) na(1) by (intro exI [of _ ?request] exI [of _ ?n] exI) (auto simp: tun_write_def)
qed

section \<open>UDP\<close>

lemma udp_delivered:
  assumes "ip_delivered skb sa da dg" and "udp_datagram usk d dg"
  shows "udp_arrived skb d" and "ntohs (get16 (skb_buf skb) 36) = sk_dport usk"
    and "get16 (skb_buf skb) 34 = htons (sk_sport usk)" and "get32 (skb_buf skb) 26 = sa"
proof -
  note b = delivered_bytes [OF assms(1)]
  have dg: "length dg = 8 + length d" "drop 8 dg = d" "ntohs (get16 dg 0) = sk_sport usk"
    "ntohs (get16 dg 2) = sk_dport usk" "ntohs (get16 dg 4) = word_of_nat (8 + length d)"
    using assms(2) by (simp_all add: udp_datagram_def)
  have len: "length (skb_buf skb) = BUFLEN" using assms(1) by (simp add: ip_delivered_def)
  have "take (length d) (drop (34 + 8) (skb_buf skb)) = d"
    using b(4) [of 8 "length d"] dg(1,2) by simp
  then show "udp_arrived skb d"
    using b(1) [of 4] b(5) dg(1,5) len by (simp add: udp_arrived_def)
  show "ntohs (get16 (skb_buf skb) 36) = sk_dport usk" using b(1) [of 2] dg(1,4) by simp
  have "get16 (skb_buf skb) 34 = get16 dg 0" using b(1) [of 0] dg(1) by simp
  then show "get16 (skb_buf skb) 34 = htons (sk_sport usk)" by (metis dg(3) bswap16_bswap16)
  show "get32 (skb_buf skb) 26 = sa" using assms(1) by (simp add: ip_delivered_def)
qed

text \<open>
  C8.  What one stack sends as a UDP datagram, a reader that sleeps on another stack returns: the
  same bytes, with the sender's port and address.
\<close>

theorem udp_transfer:
  assumes snd: "w_udp w1 s1 = Some sk1" "net_inv (w_net w1)" "arp_get_hwaddr (w_net w1) gateway = Some mac"
      "sk_daddr sk1 = 0x0A000104"
    and d: "d \<noteq> []" "length d + 42 \<le> BUFLEN"
    and rcv: "udp_table w2 us" "find_first (udp_bound w2 (sk_dport sk1)) us = Some s2" "w_udp w2 s2 = Some sk2"
      "queue_inv (sk_receive_queue sk2)" "q_items (sk_receive_queue sk2) = []" "length d \<le> unat n"
  shows "\<exists>frame w2'. udp_send s1 d (word_of_nat (length d)) w1 =
      Some (Indet, w1\<lparr>w_net := tun_write frame (w_net w1)\<rparr>) \<and>
    udp_recvfrom s2 n [netdev_rx_loop_step tv frame] w2 =
      Some (Returned \<lparr>rv_rc = int (length d), rv_bytes = d,
        rv_from = Some \<lparr>sin_port = htons (sk_sport sk1), sin_addr = htonl (nd_addr (net_dev (w_net w1)))\<rparr>\<rparr>, w2')"
proof -
  let ?dev = "net_dev (w_net w1)"
  have len: "length d + 28 < 65536" using d(2) by simp
  obtain pkt dg where o: "udp_send s1 d (word_of_nat (length d)) w1 = Some (Indet, w1\<lparr>w_net :=
      tun_write (eth_frame mac (nd_hwaddr ?dev) ETH_P_IP pkt) (w_net w1)\<rparr>)"
    "ip_datagram ?dev 0x0A000104 IP_UDP dg pkt" "udp_datagram sk1 d dg"
    using udp_send_sent [OF snd(1) order_refl len snd(2,3)] snd(4) by auto
  let ?f = "eth_frame mac (nd_hwaddr ?dev) ETH_P_IP pkt"
  have macs: "length mac = 6" "length (nd_hwaddr ?dev) = 6"
    using snd(2,3) net_inv_dev [OF snd(2)] by (auto simp: dev_ok_def net_inv_def intro: arp_get_hwaddr_length)
  have "length dg = 8 + length d" using o(3) by (simp add: udp_datagram_def)
  then have fit: "length dg + 34 \<le> BUFLEN" using d(2) by simp
  obtain skb where skb: "netdev_rx_loop_step tv ?f = udp_in skb" "ip_delivered skb (nd_addr ?dev) 0x0A000104 dg"
    using netdev_receive_datagram [OF macs o(2) fit, of tv] by (auto simp: ip_dispatch_def fun_eq_iff)
  note ud = udp_delivered [OF skb(2) o(3)]
  have tk: "take (unat n) d = d" using rcv(6) by simp
  have "\<exists>w2'. udp_recvfrom s2 n [udp_in skb] w2 = Some (Returned \<lparr>rv_rc = int (length d), rv_bytes = d,
        rv_from = Some \<lparr>sin_port = htons (sk_sport sk1), sin_addr = htonl (nd_addr ?dev)\<rparr>\<rparr>, w2')"
    using udp_recv_wakes [OF rcv(3-5) ud(1) _ rcv(1), of n] rcv(2) d(1) unfolding ud(2-4) tk by simp
  then show ?thesis using o(1) skb(1) by auto
qed

end
