(* ===== verification/Tcp_Transfer.thy ===== *)
theory Tcp_Transfer
  imports Delivery
begin

text \<open>
  A TCP connection between two stacks of this kind: what \<open>tcp_send\<close> is given on one side is
  what the receive queue holds on the other.
\<close>

section \<open>Addresses of connections\<close>

text \<open>
  Lookups depend on the rings and on the addresses of the sockets; processing data changes
  neither.
\<close>

definition ends :: "world \<Rightarrow> sid \<Rightarrow> (nat \<rightharpoonup> socket) \<times> (u32 \<times> u16 \<times> u32 \<times> u16) option" where
  "ends w s = (w_sockets w, map_option (\<lambda>tsk. (sk_saddr (tsk_sk tsk), sk_sport (tsk_sk tsk), sk_daddr (tsk_sk tsk),
     sk_dport (tsk_sk tsk))) (w_tcp w s))"

text \<open>The rings, the sockets of the applications and the addresses are the same.\<close>

definition unmoved :: "world \<Rightarrow> world \<Rightarrow> bool" where
  "unmoved w w' \<longleftrightarrow> ends w' = ends w \<and> w_links w' = w_links w"

lemma unmoved_refl [simp]: "unmoved w w"
  by (simp add: unmoved_def)

lemma unmoved_trans: "unmoved u v \<Longrightarrow> unmoved v w \<Longrightarrow> unmoved u w"
  by (simp add: unmoved_def)

lemma unmoved_sockets: "unmoved w w' \<Longrightarrow> w_sockets w' = w_sockets w"
  by (auto simp: unmoved_def ends_def fun_eq_iff)

definition same_ends :: "tcp_sock \<Rightarrow> tcp_sock \<Rightarrow> bool" where
  "same_ends t t' \<longleftrightarrow> sk_saddr (tsk_sk t') = sk_saddr (tsk_sk t) \<and> sk_sport (tsk_sk t') = sk_sport (tsk_sk t) \<and>
     sk_daddr (tsk_sk t') = sk_daddr (tsk_sk t) \<and> sk_dport (tsk_sk t') = sk_dport (tsk_sk t)"

lemma ends_put: "w_tcp w s = Some t \<Longrightarrow> same_ends t t' \<Longrightarrow> ends (put_tsk s t' w) = ends w"
  by (auto simp: ends_def same_ends_def)

lemma ends_fields [simp]:
  "ends (w\<lparr>w_net := n\<rparr>) = ends w" "ends (w\<lparr>w_timers := ts\<rparr>) = ends w" "ends (w\<lparr>w_links := h\<rparr>) = ends w"
  by (simp_all add: ends_def fun_eq_iff)

lemma ends_lookup:
  assumes "ends w' = ends w" and "w_links w' = w_links w" and "tables w cs es"
  shows "tables w' cs es" and "conn_match w' = conn_match w"
proof -
  have "w_tcp w' x = None \<longleftrightarrow> w_tcp w x = None" for x
    using fun_cong [OF assms(1), of x] by (auto simp: ends_def)
  then have d: "dom (w_tcp w') = dom (w_tcp w)" by (auto simp: dom_def)
  then show "tables w' cs es" using assms(2,3) by (simp add: tables_def ring_holds_def)
  have "conn_match w' a b c d s \<longleftrightarrow> snd (ends w' s) = Some (a, b, c, d)" for a b c d s
    by (auto simp: conn_match_def ends_def split: option.splits)
  moreover have "conn_match w a b c d s \<longleftrightarrow> snd (ends w s) = Some (a, b, c, d)" for a b c d s
    by (auto simp: conn_match_def ends_def split: option.splits)
  ultimately show "conn_match w' = conn_match w" using assms(1) by (intro ext) simp
qed

lemma ends_send_ack: "tcp_send_ack s w = Some (r, w') \<Longrightarrow> ends w' = ends w"
  by (auto dest!: send_ack_frame elim!: net_onlyE)

lemma same_ends_refl [simp]:
  "same_ends t (t\<lparr>tsk_delack := x\<rparr>)" "same_ends t (t\<lparr>tsk_retransmit := x\<rparr>)" "same_ends t (t\<lparr>tsk_delacks := y\<rparr>)"
  "same_ends t (t\<lparr>tsk_delacks := y, tsk_delack := x\<rparr>)" "same_ends t (t\<lparr>tsk_ofo_queue := q\<rparr>)"
  "same_ends t (on_tcb f t)" "same_ends t t" "same_ends t (on_sk (\<lambda>sk. sk\<lparr>sk_recv_wait := z\<rparr>) t)"
  by (simp_all add: same_ends_def)

lemma ends_put_same:
  "w_tcp w s = Some t \<Longrightarrow> sk_saddr (tsk_sk t') = sk_saddr (tsk_sk t) \<Longrightarrow> sk_sport (tsk_sk t') = sk_sport (tsk_sk t) \<Longrightarrow>
     sk_daddr (tsk_sk t') = sk_daddr (tsk_sk t) \<Longrightarrow> sk_dport (tsk_sk t') = sk_dport (tsk_sk t) \<Longrightarrow>
     ends (put_tsk s t' w) = ends w"
  by (rule ends_put) (simp_all add: same_ends_def)

lemma ends_timers:
  "tcp_stop_delack_timer s w = Some w' \<Longrightarrow> ends w' = ends w"
  "tcp_stop_retransmission_timer s w = Some w' \<Longrightarrow> ends w' = ends w"
  by (auto simp: tcp_stop_delack_timer_def tcp_stop_retransmission_timer_def ends_put_same elim!: bind_SomeE)

lemma ends_recv_notify: "tcp_recv_notify s w = Some w' \<Longrightarrow> ends w' = ends w"
  by (auto simp: tcp_recv_notify_def upd_tsk_def ends_put_same elim!: bind_SomeE)

lemma ends_clean: "tcp_clean_retransmission_queue s una w = Some w' \<Longrightarrow> ends w' = ends w"
  by (auto simp: tcp_clean_retransmission_queue_def Let_def ends_put_same split: if_splits elim!: bind_SomeE
      dest!: ends_timers)

lemma ends_consume: "tcp_consume_ofo_queue t = Some t' \<Longrightarrow> same_ends t t'"
proof (induction t rule: tcp_consume_ofo_queue.induct)
  case (1 t)
  show ?case
    using 1(2) by (subst (asm) tcp_consume_ofo_queue.simps)
      (auto split: if_splits list.splits elim!: bind_SomeE dest: 1(1) simp: same_ends_def)
qed

lemma ends_data_ack:
  assumes "tcp_data_ack s th skb w = Some w'"
  shows "ends w' = ends w"
  using assms
  by (auto simp: tcp_data_ack_def Let_def world_timer_add_def ends_put_same split: if_splits prod.splits
      elim!: bind_SomeE dest!: ends_send_ack)

lemma ends_data_queue:
  assumes "tcp_data_queue s th skb w = Some (r, f, w')"
  shows "ends w' = ends w"
  using assms
  by (auto simp: tcp_data_queue_def Let_def same_ends_def ends_put_same split: if_splits prod.splits
      elim!: bind_SomeE dest!: ends_send_ack ends_data_ack ends_timers ends_consume)

section \<open>A delivered segment\<close>

text \<open>
  \<open>tcp_init_segment\<close> on a segment with \<open>k\<close> words of header: the extent of the data leaves the
  options out, its beginning does not.
\<close>

lemma tcp_delivered:
  assumes "ip_delivered skb sa da sgm" and "tcp_segment tsk seq k fl d sgm" and "length sgm + 34 \<le> BUFLEN"
    and "5 \<le> k" and "k \<le> 15" and "4 * k - 20 \<le> length d"
  shows "\<exists>skb'. tcp_init_segment skb = Some skb' \<and> tcp_host_hdr skb' = Some (tcp_header_for tsk seq k fl) \<and>
    rx_ok skb' \<and> rx_data skb' = take (length d - (4 * k - 20)) d \<and>
    skb_dlen skb' = word_of_nat (length d - (4 * k - 20)) \<and> skb_seq skb' = seq \<and>
    get32 (skb_buf skb') 26 = sa \<and> get32 (skb_buf skb') 30 = da \<and> length (skb_buf skb') = BUFLEN"
proof -
  let ?b = "skb_buf skb" and ?n = "length d - (4 * k - 20)"
  note b = delivered_bytes [OF assms(1)]
  have sgm: "length sgm = 20 + length d" "drop 20 sgm = d" "tcp_view sgm 0 = tcp_header_for tsk seq k fl"
    using assms(2) by (auto simp: tcp_segment_def)
  have ip: "length ?b = BUFLEN" "lo_nibble (?b ! 14) = 5" "get16 ?b 16 = word_of_nat (length sgm + 20)"
    "get32 ?b 26 = sa" "get32 ?b 30 = da"
    using assms(1) by (simp_all add: ip_delivered_def)
  have view: "tcp_view ?b 34 = tcp_header_for tsk seq k fl"
    using b(1) [of 0] b(1) [of 2] b(1) [of 14] b(2) [of 4] b(2) [of 8] b(3) [of 12] b(3) [of 13] sgm(1,3)
    by (simp add: tcp_view_def numeral_2_eq_2)
  define c where "c = put16 (put16 (put16 (put32 (put32 (put16 (put16 ?b 34 (ntohs (get16 ?b 34)))
      36 (ntohs (get16 ?b 36))) 38 (ntohl (get32 ?b 38))) 42 (ntohl (get32 ?b 42)))
      48 (ntohs (get16 ?b 48))) 50 (ntohs (get16 ?b 50))) 52 (ntohs (get16 ?b 52))"
  have lc: "length c = BUFLEN" by (simp add: c_def ip(1))
  have c: "get16 c 34 = ntohs (get16 ?b 34)" "get16 c 36 = ntohs (get16 ?b 36)" "get32 c 38 = ntohl (get32 ?b 38)"
    "get32 c 42 = ntohl (get32 ?b 42)" "c ! 46 = ?b ! 46" "c ! 47 = ?b ! 47" "get16 c 48 = ntohs (get16 ?b 48)"
    "get16 c 16 = get16 ?b 16" "c ! 14 = ?b ! 14" "get32 c 26 = get32 ?b 26" "get32 c 30 = get32 ?b 30"
    unfolding c_def using ip(1) by (simp_all add: mem_simps)
  have "drop 54 c = drop 54 ?b" unfolding c_def put16_def put32_def by (simp add: drop_update_cancel)
  then have pay: "take ?n (drop 54 c) = take ?n d"
    using b(4) [of 20 ?n] sgm(1,2) by simp
  have small: "length sgm + 20 < 65536" using assms(3) by simp
  have hl: "hi_nibble (?b ! 46) = word_of_nat k" and fl: "?b ! 47 = fl" and sq: "ntohl (get32 ?b 38) = seq"
    using view by (simp_all add: tcp_view_def tcp_header_for_def)
  have "(word_of_int (int (unat (get16 ?b 16)) - int (unat (lo_nibble (?b ! 14))) * 4
      - int (unat (hi_nibble (?b ! 46))) * 4) :: u32) = word_of_int (int (length sgm + 20) - 20 - int k * 4)"
    unfolding ip hl unat_len16 [OF small] unat_nibble [OF assms(5)] by simp
  also have "int (length sgm + 20) - 20 - int k * 4 = int ?n" using sgm(1) assms(4,6) by simp
  finally have dlen: "ucast (get16 ?b 16) - ucast (lo_nibble (?b ! 14)) * 4 - ucast (hi_nibble (?b ! 46)) * 4 =
      (word_of_nat ?n :: u32)" by simp
  let ?s = "skb\<lparr>skb_buf := c, skb_seq := seq, skb_dlen := word_of_nat ?n,
      skb_len := word_of_nat ?n + of_bool (bit fl 1) + of_bool (bit fl 0),
      skb_end_seq := seq + word_of_nat ?n, skb_payload := 54\<rparr>"
  have "tcp_init_segment skb = Some ?s"
    using ip(1) sq fl
    by (simp add: tcp_init_segment_def tcp_hdr_def ip_hdr_def skb_head_def Let_def mem_simps c_def dlen)
  moreover have "tcp_host_hdr ?s = Some (tcp_header_for tsk seq k fl)"
    using lc c view by (simp add: tcp_host_hdr_def tcp_hdr_def skb_head_def Let_def tcp_view_def)
  moreover have "unat (word_of_nat ?n :: u32) = ?n"
    using sgm(1) assms(3) by (simp add: unsigned_of_nat take_bit_nat_eq_self)
  then have "rx_ok ?s \<and> rx_data ?s = take ?n d"
    using lc pay sgm(1) assms(3) by (auto simp: rx_ok_def rx_data_def intro: le_trans [OF diff_le_self] le_less_trans [OF diff_le_self])
  ultimately show ?thesis using c(10,11) ip(4,5) lc by (intro exI [of _ ?s]) simp
qed

section \<open>A connection that receives\<close>

text \<open>
  An established connection \<open>tsk\<close> of socket \<open>s\<close>, to be found under its addresses; \<open>n\<close> more packets fit
  its queues.
\<close>

definition connected :: "world \<Rightarrow> sid list \<Rightarrow> sid list \<Rightarrow> sid \<Rightarrow> nat \<Rightarrow> tcp_sock \<Rightarrow> bool" where
  "connected w cs es s n tsk \<longleftrightarrow> can_send w s tsk \<and> tables w cs es \<and>
     find_first (conn_match w (sk_saddr (tsk_sk tsk)) (sk_sport (tsk_sk tsk)) (sk_daddr (tsk_sk tsk))
       (sk_dport (tsk_sk tsk))) es = Some s \<and>
     tsk_state tsk = TCP_ESTABLISHED \<and> rx_inv tsk \<and> ofo_inv tsk \<and> queue_inv (sk_write_queue (tsk_sk tsk)) \<and>
     length (rx_items tsk) + length (q_items (tsk_ofo_queue tsk)) + n < 2 ^ 32"

lemma connected_kept:
  assumes "connected w cs es s n tsk" and "unmoved w w'"
    and "can_send w' s tsk'" and "tsk_state tsk' = TCP_ESTABLISHED" and "rx_inv tsk'" and "ofo_inv tsk'"
    and "queue_inv (sk_write_queue (tsk_sk tsk'))"
    and "length (rx_items tsk') + length (q_items (tsk_ofo_queue tsk')) + m < 2 ^ 32"
  shows "connected w' cs es s m tsk'" and "same_ends tsk tsk'"
proof -
  have u: "ends w' = ends w" "w_links w' = w_links w" using assms(2) by (simp_all add: unmoved_def)
  have t: "w_tcp w s = Some tsk" "w_tcp w' s = Some tsk'" using assms(1,3) by (auto simp: connected_def can_send_def)
  then show e: "same_ends tsk tsk'" using fun_cong [OF u(1), of s] by (simp add: ends_def same_ends_def)
  have "tables w cs es" using assms(1) by (simp add: connected_def)
  note l = ends_lookup [OF u this]
  show "connected w' cs es s m tsk'"
    using assms l e by (simp add: connected_def same_ends_def)
qed

text \<open>The same with nothing out of order.\<close>

definition receiving :: "world \<Rightarrow> sid list \<Rightarrow> sid list \<Rightarrow> sid \<Rightarrow> nat \<Rightarrow> tcp_sock \<Rightarrow> bool" where
  "receiving w cs es s n tsk \<longleftrightarrow> can_send w s tsk \<and> tables w cs es \<and>
     find_first (conn_match w (sk_saddr (tsk_sk tsk)) (sk_sport (tsk_sk tsk)) (sk_daddr (tsk_sk tsk))
       (sk_dport (tsk_sk tsk))) es = Some s \<and>
     tsk_state tsk = TCP_ESTABLISHED \<and> rx_inv tsk \<and> ofo_inv tsk \<and> q_items (tsk_ofo_queue tsk) = [] \<and>
     queue_inv (sk_write_queue (tsk_sk tsk)) \<and> length (rx_items tsk) + n < 2 ^ 32"

lemma receiving_connected:
  "receiving w cs es s n tsk \<longleftrightarrow> connected w cs es s n tsk \<and> q_items (tsk_ofo_queue tsk) = []"
  by (auto simp: receiving_def connected_def)

lemma receiving_kept:
  assumes "receiving w cs es s n tsk" and "ends w' = ends w" and "w_links w' = w_links w"
    and "can_send w' s tsk'" and "tsk_state tsk' = TCP_ESTABLISHED" and "rx_inv tsk'" and "ofo_inv tsk'"
    and "q_items (tsk_ofo_queue tsk') = []" and "queue_inv (sk_write_queue (tsk_sk tsk'))"
    and "length (rx_items tsk') + m < 2 ^ 32"
  shows "receiving w' cs es s m tsk'" and "same_ends tsk tsk'"
  using connected_kept [of w cs es s n tsk w' tsk' m] assms by (simp_all add: receiving_connected unmoved_def)

text \<open>
  The acknowledgment of a segment in \<open>ESTABLISHED\<close>: what it newly confirms leaves the write queue; a
  number outside of what was sent, or older than what was confirmed, ends the processing.
\<close>

lemma tcp_process_ack_connected:
  assumes r: "connected w cs es s n tsk"
    and una: "una = (if snd_una (tsk_tcb tsk) < th_ack_seq th \<and> th_ack_seq th \<le> snd_nxt (tsk_tcb tsk)
      then th_ack_seq th else snd_una (tsk_tcb tsk))"
  shows "\<exists>w' tsk'. tcp_process_ack s th w = Some (th_ack_seq th \<le> snd_nxt (tsk_tcb tsk) \<and> una \<le> th_ack_seq th, w') \<and>
    connected w' cs es s n tsk' \<and> same_ends tsk tsk' \<and> unmoved w w' \<and>
    tsk_tcb tsk' = (tsk_tcb tsk)\<lparr>snd_una := una\<rparr> \<and> rx_items tsk' = rx_items tsk \<and>
    q_items (tsk_ofo_queue tsk') = q_items (tsk_ofo_queue tsk)"
proof -
  have cs: "can_send w s tsk" and t: "w_tcp w s = Some tsk" "tsk_state tsk = TCP_ESTABLISHED"
    and q: "queue_inv (sk_write_queue (tsk_sk tsk))"
    using r by (auto simp: connected_def can_send_def)
  show ?thesis
  proof (cases "snd_una (tsk_tcb tsk) < th_ack_seq th \<and> th_ack_seq th \<le> snd_nxt (tsk_tcb tsk)")
    case False
    then have "tcp_process_ack s th w = Some (th_ack_seq th \<le> snd_nxt (tsk_tcb tsk) \<and> una \<le> th_ack_seq th, w)"
      "(tsk_tcb tsk)\<lparr>snd_una := una\<rparr> = tsk_tcb tsk"
      using t una by (auto simp: tcp_process_ack_def Let_def not_less)
    then show ?thesis using r by (intro exI [of _ w] exI [of _ tsk]) simp
  next
    case True
    let ?t = "on_tcb (\<lambda>tcb. tcb\<lparr>snd_una := th_ack_seq th\<rparr>) tsk"
    have c: "can_send (put_tsk s ?t w) s ?t"
      using cs by (intro can_send_put [OF cs]) (auto simp: can_send_def timers_live_def on_tcb_def)
    have qi: "queue_inv (sk_write_queue (tsk_sk ?t))" using q by simp
    obtain q' rt ts where u: "tcp_clean_retransmission_queue s (th_ack_seq th) (put_tsk s ?t w) =
        Some (put_tsk s ((on_sk (\<lambda>sk. sk\<lparr>sk_write_queue := q'\<rparr>) ?t)\<lparr>tsk_retransmit := rt\<rparr>)
          ((put_tsk s ?t w)\<lparr>w_timers := ts\<rparr>))" "queue_inv q'"
        "timers_live ts ((on_sk (\<lambda>sk. sk\<lparr>sk_write_queue := q'\<rparr>) ?t)\<lparr>tsk_retransmit := rt\<rparr>)"
      using tcp_clean_ok [OF c qi, of "th_ack_seq th"] by blast
    let ?t' = "(on_sk (\<lambda>sk. sk\<lparr>sk_write_queue := q'\<rparr>) ?t)\<lparr>tsk_retransmit := rt\<rparr>"
    let ?w' = "put_tsk s ?t' ((put_tsk s ?t w)\<lparr>w_timers := ts\<rparr>)"
    have run: "tcp_process_ack s th w = Some (th_ack_seq th \<le> snd_nxt (tsk_tcb tsk) \<and> una \<le> th_ack_seq th, ?w')"
      using t True una u(1) by (simp add: tcp_process_ack_def Let_def upd_tsk_def not_less)
    have u': "unmoved w ?w'" using t by (simp add: unmoved_def ends_put_same)
    have "can_send ?w' s ?t'" using cs u(3) queue_inv_linked [OF u(2)] by (simp add: can_send_def)
    then have "connected ?w' cs es s n ?t' \<and> same_ends tsk ?t'"
      using r t u(2) by (intro conjI connected_kept [OF r u']) (auto simp: connected_def rx_inv_def ofo_inv_def)
    then show ?thesis using run u' True una by (intro exI [of _ ?w'] exI [of _ ?t']) simp
  qed
qed

lemma tcp_process_ack_established:
  assumes r: "receiving w cs es s n tsk"
    and a: "snd_una (tsk_tcb tsk) \<le> th_ack_seq th" "th_ack_seq th \<le> snd_nxt (tsk_tcb tsk)"
  shows "\<exists>w' tsk'. tcp_process_ack s th w = Some (True, w') \<and> receiving w' cs es s n tsk' \<and>
    same_ends tsk tsk' \<and> unmoved w w' \<and>
    tsk_tcb tsk' = (tsk_tcb tsk)\<lparr>snd_una := th_ack_seq th\<rparr> \<and> rx_items tsk' = rx_items tsk"
proof -
  have "(if snd_una (tsk_tcb tsk) < th_ack_seq th \<and> th_ack_seq th \<le> snd_nxt (tsk_tcb tsk)
      then th_ack_seq th else snd_una (tsk_tcb tsk)) = th_ack_seq th" using a by auto
  then show ?thesis
    using tcp_process_ack_connected [of w cs es s n tsk "th_ack_seq th" th] r a by (auto simp: receiving_connected)
qed

text \<open>
  A segment with data, in sequence and inside the window: its data ends up at the end of the
  stream, \<open>rcv_nxt\<close> moves past it, and the reader is awake.
\<close>

lemma tcp_process_data:
  assumes r: "receiving w cs es s (Suc n) tsk"
    and th: "th_ack th" "\<not> th_syn th" "\<not> th_fin th" "th_seq th = rcv_nxt (tsk_tcb tsk)"
      "snd_una (tsk_tcb tsk) \<le> th_ack_seq th" "th_ack_seq th \<le> snd_nxt (tsk_tcb tsk)"
    and skb: "rx_ok skb" "skb_dlen skb \<noteq> 0" "skb_seq skb = th_seq th"
    and wnd: "rcv_wnd (tsk_tcb tsk) \<noteq> 0"
      "rcv_nxt (tsk_tcb tsk) \<le> rcv_nxt (tsk_tcb tsk) + rcv_wnd (tsk_tcb tsk)"
  shows "\<exists>fate w' tsk'. tcp_process s th skb w = Some (Rc 0, fate, w') \<and> receiving w' cs es s n tsk' \<and>
    same_ends tsk tsk' \<and> unmoved w w' \<and> rx_stream tsk' = rx_stream tsk @ rx_data skb \<and>
    tsk_tcb tsk' = (tsk_tcb tsk)\<lparr>snd_una := th_ack_seq th, rcv_nxt := rcv_nxt (tsk_tcb tsk) + skb_dlen skb\<rparr> \<and>
    \<not> wl_sleeping (sk_recv_wait (tsk_sk tsk'))"
proof -
  obtain w1 t1 where a: "tcp_process_ack s th w = Some (True, w1)" "receiving w1 cs es s (Suc n) t1"
    "same_ends tsk t1" "tsk_tcb t1 = (tsk_tcb tsk)\<lparr>snd_una := th_ack_seq th\<rparr>" "rx_items t1 = rx_items tsk"
    "unmoved w w1"
    using tcp_process_ack_established [OF r th(5,6)] by blast
  have t: "w_tcp w s = Some tsk" "tsk_state tsk = TCP_ESTABLISHED"
    using r by (auto simp: receiving_def can_send_def)
  have t1: "can_send w1 s t1" "rx_inv t1" "ofo_inv t1" "q_items (tsk_ofo_queue t1) = []" "w_tcp w1 s = Some t1"
    "tsk_state t1 = TCP_ESTABLISHED" "length (rx_items t1) + Suc n < 2 ^ 32"
    "queue_inv (sk_write_queue (tsk_sk t1))"
    using a(2) by (auto simp: receiving_def can_send_def)
  have room: "length (rx_items t1) + length (q_items (tsk_ofo_queue t1)) + 1 < 2 ^ 32" using t1(4,7) by simp
  have nx: "rcv_wnd (tsk_tcb t1) \<noteq> 0" "skb_seq skb = rcv_nxt (tsk_tcb t1)"
    "contig (rcv_nxt (tsk_tcb t1) + skb_dlen skb) (q_items (tsk_ofo_queue t1)) =
       ([], [], rcv_nxt (tsk_tcb t1) + skb_dlen skb)"
    using a(4) wnd(1) skb(3) th(4) t1(4) by simp_all
  let ?skb = "skb\<lparr>skb_refcnt := skb_refcnt skb + 1\<rparr>"
  obtain w2 t2 where q: "tcp_data_queue s th skb w1 = Some (0, Some ?skb, w2)" "can_send w2 s t2" "rx_inv t2"
    "ofo_inv t2" "rx_stream t2 = rx_stream t1 @ rx_data skb" "length (rx_items t2) = length (rx_items t1) + 1"
    "q_items (tsk_ofo_queue t2) = []"
    "tsk_tcb t2 = (tsk_tcb t1)\<lparr>rcv_nxt := rcv_nxt (tsk_tcb t1) + skb_dlen skb\<rparr>" "tsk_state t2 = TCP_ESTABLISHED"
    "sk_write_queue (tsk_sk t2) = sk_write_queue (tsk_sk t1)" "w_links w2 = w_links w1"
    using tcp_data_queue_expected [OF t1(1-3) skb(1) room nx, of th] t1(6) by auto
  let ?t3 = "on_sk (\<lambda>sk. sk\<lparr>sk_recv_wait := wait_wakeup (sk_recv_wait sk)\<rparr>) t2"
  let ?w3 = "put_tsk s ?t3 w2"
  have t2: "w_tcp w2 s = Some t2" using q(2) by (simp add: can_send_def)
  have e3: "ends ?w3 = ends w1" using ends_data_queue [OF q(1)] t2 by (simp add: ends_put_same)
  have "can_send ?w3 s ?t3"
    using q(2) by (intro can_send_put [OF q(2)]) (auto simp: can_send_def timers_live_def)
  with e3 have r3: "receiving ?w3 cs es s n ?t3" "same_ends t1 ?t3"
    using receiving_kept [OF a(2), of ?w3 ?t3 n] q(3,4,6,7,9,10,11) t1(7,8) by (auto simp: rx_inv_def ofo_inv_def)
  have tx: "tcp_process_text s th skb w1 = Some (?skb, ?w3)"
    using t1(5,6) q(1) skb(2) t2
    by (simp add: tcp_process_text_def tcp_recv_notify_def upd_tsk_def word_gt_0)
  have fi: "tcp_process_fin s th ?skb ?w3 = Some ?w3" using th(3) by (simp add: tcp_process_fin_def)
  have "tcp_packet_filter tsk th skb"
    using th(4) wnd by (simp add: tcp_packet_filter_def Let_def not_less)
  then have run: "tcp_process s th skb w = Some (Rc 0, free_skb ?skb, ?w3)"
    using t a(1) th(1,2) tx fi by (simp add: tcp_process_def tcp_process_syn_def)
  have "rx_stream ?t3 = rx_stream tsk @ rx_data skb" using q(5) a(5) by (simp add: rx_stream_def)
  moreover have "unmoved w ?w3" using a(6) e3 q(11) by (simp add: unmoved_def)
  moreover have "same_ends tsk ?t3" using a(3) r3(2) by (simp add: same_ends_def)
  moreover have "\<not> wl_sleeping (sk_recv_wait (tsk_sk ?t3))" by (simp add: wait_wakeup_def)
  ultimately show ?thesis
    using run r3(1) q(8) a(4) th(4) by (intro exI [of _ "free_skb ?skb"] exI [of _ ?w3] exI [of _ ?t3]) simp
qed

section \<open>Two stacks\<close>

text \<open>The two ends of a connection: \<open>t1\<close> on the stack with device \<open>dev\<close>, \<open>t2\<close> on the other.\<close>

definition peers :: "netdev \<Rightarrow> tcp_sock \<Rightarrow> tcp_sock \<Rightarrow> bool" where
  "peers dev t1 t2 \<longleftrightarrow> sk_daddr (tsk_sk t1) = 0x0A000104 \<and> sk_saddr (tsk_sk t2) = 0x0A000104 \<and>
     sk_daddr (tsk_sk t2) = nd_addr dev \<and> sk_dport (tsk_sk t2) = sk_sport (tsk_sk t1) \<and>
     sk_sport (tsk_sk t2) = sk_dport (tsk_sk t1)"

lemma peers_same: "peers dev t1 t2 \<Longrightarrow> same_ends t2 t2' \<Longrightarrow> peers dev t1 t2'"
  by (simp add: peers_def same_ends_def)

lemma tcp_frame_received:
  assumes r: "receiving w cs es s (Suc n) t2" and p: "peers dev t1 t2"
    and mac: "length dmac = 6" "length smac = 6"
    and pkt: "ip_datagram dev 0x0A000104 IP_TCP sgm pkt" "tcp_segment t1 (rcv_nxt (tsk_tcb t2)) 5 fl d sgm"
    and d: "d \<noteq> []" "length d + 54 \<le> BUFLEN"
    and fl: "bit fl 4" "\<not> bit fl 1" "\<not> bit fl 0"
    and ack: "snd_una (tsk_tcb t2) \<le> rcv_nxt (tsk_tcb t1)" "rcv_nxt (tsk_tcb t1) \<le> snd_nxt (tsk_tcb t2)"
    and wnd: "rcv_wnd (tsk_tcb t2) \<noteq> 0"
      "rcv_nxt (tsk_tcb t2) \<le> rcv_nxt (tsk_tcb t2) + rcv_wnd (tsk_tcb t2)"
  shows "\<exists>w' t2'. netdev_rx_loop_step tv (eth_frame dmac smac ETH_P_IP pkt) w = Some w' \<and>
    receiving w' cs es s n t2' \<and> same_ends t2 t2' \<and> unmoved w w' \<and> rx_stream t2' = rx_stream t2 @ d \<and>
    tsk_tcb t2' = (tsk_tcb t2)\<lparr>snd_una := rcv_nxt (tsk_tcb t1),
      rcv_nxt := rcv_nxt (tsk_tcb t2) + word_of_nat (length d)\<rparr> \<and>
    \<not> wl_sleeping (sk_recv_wait (tsk_sk t2'))"
proof -
  have len: "length sgm = 20 + length d" using pkt(2) by (auto simp: tcp_segment_def)
  then have fit: "length sgm + 34 \<le> BUFLEN" using d(2) by simp
  obtain skb where skb: "netdev_rx_loop_step tv (eth_frame dmac smac ETH_P_IP pkt) = ip_dispatch tv IP_TCP skb"
    "ip_delivered skb (nd_addr dev) 0x0A000104 sgm"
    using netdev_receive_datagram [OF mac pkt(1) fit, of tv] by auto
  let ?th = "tcp_header_for t1 (rcv_nxt (tsk_tcb t2)) 5 fl"
  obtain skb' where s': "tcp_init_segment skb = Some skb'" "tcp_host_hdr skb' = Some ?th" "rx_ok skb'"
    "rx_data skb' = d" "skb_dlen skb' = word_of_nat (length d)" "skb_seq skb' = rcv_nxt (tsk_tcb t2)"
    "get32 (skb_buf skb') 26 = nd_addr dev" "get32 (skb_buf skb') 30 = 0x0A000104" "length (skb_buf skb') = BUFLEN"
    using tcp_delivered [OF skb(2) pkt(2) fit] by auto
  have "skb_dlen skb' \<noteq> 0"
  proof
    assume "skb_dlen skb' = 0"
    then have "rx_data skb' = []" by (simp add: rx_data_def)
    then show False using s'(4) d(1) by simp
  qed
  moreover have "th_ack ?th" "\<not> th_syn ?th" "\<not> th_fin ?th" "th_seq ?th = rcv_nxt (tsk_tcb t2)"
    "th_ack_seq ?th = rcv_nxt (tsk_tcb t1)"
    using fl by (simp_all add: th_ack_def th_syn_def th_fin_def tcp_header_for_def)
  ultimately obtain fate w' t2' where r': "tcp_process s ?th skb' w = Some (Rc 0, fate, w')"
    "receiving w' cs es s n t2'" "same_ends t2 t2'" "rx_stream t2' = rx_stream t2 @ d"
    "tsk_tcb t2' = (tsk_tcb t2)\<lparr>snd_una := rcv_nxt (tsk_tcb t1),
      rcv_nxt := rcv_nxt (tsk_tcb t2) + word_of_nat (length d)\<rparr>"
    "\<not> wl_sleeping (sk_recv_wait (tsk_sk t2'))" "unmoved w w'"
    using tcp_process_data [OF r, of ?th skb'] s'(3-6) ack wnd by auto
  have "tables w cs es" using r by (simp add: receiving_def)
  then have "tcp_lookup_sock w (nd_addr dev) (sk_sport (tsk_sk t1)) 0x0A000104 (sk_dport (tsk_sk t1)) = Some (Some s)"
    using r p by (auto simp: tcp_lookup_sock_tables receiving_def peers_def)
  then have "tcp_in skb w = Some (fate, w')"
    using s' r'(1) by (simp add: tcp_in_def ip_hdr_def skb_head_def) (simp add: tcp_header_for_def)
  then show ?thesis using skb(1) r'(2-7) by (auto simp: ip_dispatch_def)
qed

text \<open>The frames of a whole write, one after the other.\<close>

lemma tcp_frames_received:
  assumes "on_wire t1 dev (rcv_nxt (tsk_tcb t2)) cs pkts" and "receiving w cl es s (n + length cs) t2"
    and "peers dev t1 t2" and mac: "length dmac = 6" "length smac = 6"
    and cs: "\<forall>c\<in>set cs. c \<noteq> [] \<and> length c + 54 \<le> BUFLEN"
    and "snd_una (tsk_tcb t2) \<le> rcv_nxt (tsk_tcb t1)" and "rcv_nxt (tsk_tcb t1) \<le> snd_nxt (tsk_tcb t2)"
    and "rcv_wnd (tsk_tcb t2) \<noteq> 0"
    and "unat (rcv_nxt (tsk_tcb t2)) + length (concat cs) + unat (rcv_wnd (tsk_tcb t2)) < 2 ^ 32"
  shows "\<exists>w' t2'. netdev_rx_loop tv (map (eth_frame dmac smac ETH_P_IP) pkts) w = Some w' \<and>
    receiving w' cl es s n t2' \<and> unmoved w w' \<and> rx_stream t2' = rx_stream t2 @ concat cs \<and>
    rcv_nxt (tsk_tcb t2') = rcv_nxt (tsk_tcb t2) + word_of_nat (length (concat cs)) \<and>
    (wl_sleeping (sk_recv_wait (tsk_sk t2')) \<longrightarrow> cs = [] \<and> wl_sleeping (sk_recv_wait (tsk_sk t2)))"
  using assms
proof (induction cs arbitrary: t2 w pkts)
  case Nil
  then show ?case by (intro exI [of _ w] exI [of _ t2]) simp
next
  case (Cons c cs)
  let ?t = "tsk_tcb t2" and ?fl = "if cs = [] then TCP_ACK OR TCP_PSH else TCP_ACK"
  obtain pkt rest sgm where o: "pkts = pkt # rest" "ip_datagram dev 0x0A000104 IP_TCP sgm pkt"
    "tcp_segment t1 (rcv_nxt ?t) 5 ?fl c sgm" "on_wire t1 dev (rcv_nxt ?t + word_of_nat (length c)) cs rest"
    using Cons.prems(1,3) by (auto simp: peers_def)
  have r: "receiving w cl es s (Suc (n + length cs)) t2" using Cons.prems(2) by simp
  have c: "c \<noteq> []" "length c + 54 \<le> BUFLEN" using Cons.prems(6) by auto
  have fl: "bit ?fl 4" "\<not> bit ?fl 1" "\<not> bit ?fl 0" by auto
  have wrap: "rcv_nxt ?t \<le> rcv_nxt ?t + rcv_wnd ?t"
    using Cons.prems(10) by (simp add: word_le_nat_alt unat_word_ariths)
  obtain w1 t2' where s1: "netdev_rx_loop_step tv (eth_frame dmac smac ETH_P_IP pkt) w = Some w1"
    "receiving w1 cl es s (n + length cs) t2'" "same_ends t2 t2'" "rx_stream t2' = rx_stream t2 @ c"
    "tsk_tcb t2' = ?t\<lparr>snd_una := rcv_nxt (tsk_tcb t1), rcv_nxt := rcv_nxt ?t + word_of_nat (length c)\<rparr>"
    "\<not> wl_sleeping (sk_recv_wait (tsk_sk t2'))" "unmoved w w1"
    using tcp_frame_received [OF r Cons.prems(3) mac o(2,3) c fl Cons.prems(7-9) wrap, of tv] by blast
  have nx: "unat (rcv_nxt (tsk_tcb t2')) = unat (rcv_nxt ?t) + length c"
    using Cons.prems(10) s1(5) by (simp add: unat_word_ariths unsigned_of_nat take_bit_nat_eq_self)
  have "\<exists>w' t2''. netdev_rx_loop tv (map (eth_frame dmac smac ETH_P_IP) rest) w1 = Some w' \<and>
    receiving w' cl es s n t2'' \<and> unmoved w1 w' \<and> rx_stream t2'' = rx_stream t2' @ concat cs \<and>
    rcv_nxt (tsk_tcb t2'') = rcv_nxt (tsk_tcb t2') + word_of_nat (length (concat cs)) \<and>
    (wl_sleeping (sk_recv_wait (tsk_sk t2'')) \<longrightarrow> cs = [] \<and> wl_sleeping (sk_recv_wait (tsk_sk t2')))"
    using o(4) s1(2,5) peers_same [OF Cons.prems(3) s1(3)] Cons.prems(6-10) nx
    by (intro Cons.IH mac) simp_all
  then show ?case
    using o(1) s1 by (auto simp: add.assoc intro: unmoved_trans)
qed

text \<open>Reading as many bytes as the stream holds.\<close>

lemma tcp_read_all:
  assumes r: "receiving w cs es s n tsk" and len: "unat k = length (rx_stream tsk)" "length (rx_stream tsk) < 2 ^ 31"
  shows "\<exists>w'. tcp_read s k env w = Some (Returned (int (length (rx_stream tsk)), rx_stream tsk), w')"
proof -
  have t: "w_tcp w s = Some tsk" "tsk_state tsk = TCP_ESTABLISHED" "rx_inv tsk"
    using r by (auto simp: receiving_def can_send_def)
  have k: "sint k = int (unat k)" using len by (simp add: sint_small)
  show ?thesis
  proof (cases "unat k = 0")
    case True
    then show ?thesis
      using t k len by (simp add: tcp_read_def tcp_receive_def tcp_receive_loop.simps read_value_def)
  next
    case False
    obtain f q where d: "tcp_dequeue_loop k [] tsk = Some (rx_stream tsk, on_sk (\<lambda>sk. sk\<lparr>sk_receive_queue := q\<rparr>)
        (tsk\<lparr>tsk_flags := f\<rparr>))"
      using tcp_dequeue_stream [OF t(3), of "[]" k] len by auto
    moreover have "word_of_nat (length (rx_stream tsk)) = k" using len(1) by (metis of_nat_unat ucast_id)
    ultimately have "tcp_data_dequeue s (word_of_nat (length (rx_stream tsk))) w = Some (rx_stream tsk, put_tsk s (on_sk (\<lambda>sk. sk\<lparr>sk_receive_queue := q\<rparr>)
        (tsk\<lparr>tsk_flags := f\<rparr>)) w)"
      using t by (simp add: tcp_data_dequeue_def)
    then show ?thesis
      using t k len False
      by (simp add: tcp_read_def tcp_receive_def tcp_receive_loop.simps [of s _ "[]"] read_value_def Let_def)
  qed
qed

lemma tcp_transfer_ok:
  assumes snd: "can_send w1 s1 t1" "tsk_state t1 = TCP_ESTABLISHED" "arp_get_hwaddr (w_net w1) gateway = Some mac"
      "0 < tsk_smss t1" "tsk_smss t1 \<le> 1460"
    and rcv: "receiving w2 cs es s2 (length buf) t2" "rx_items t2 = []"
    and conn: "peers (net_dev (w_net w1)) t1 t2" "snd_nxt (tsk_tcb t1) = rcv_nxt (tsk_tcb t2)"
      "snd_una (tsk_tcb t2) \<le> rcv_nxt (tsk_tcb t1)" "rcv_nxt (tsk_tcb t1) \<le> snd_nxt (tsk_tcb t2)"
    and wnd: "rcv_wnd (tsk_tcb t2) \<noteq> 0" "length buf < 2 ^ 31"
      "unat (rcv_nxt (tsk_tcb t2)) + length buf + unat (rcv_wnd (tsk_tcb t2)) < 2 ^ 32"
  shows "\<exists>w1' frames w2' w2''. tcp_write s1 buf (word_of_nat (length buf)) w1 = Some (int (length buf), w1') \<and>
    net_tx (w_net w1') = net_tx (w_net w1) @ frames \<and> netdev_rx_loop tv frames w2 = Some w2' \<and> unmoved w2 w2' \<and>
    tcp_read s2 (word_of_nat (length buf)) env w2' = Some (Returned (int (length buf), buf), w2'')"
proof -
  let ?m = "unat (tsk_smss t1)" and ?d = "net_dev (w_net w1)"
  have m: "0 < ?m" "?m \<le> 1460" using snd(4,5) by (auto simp: word_less_nat_alt word_le_nat_alt)
  have t1: "w_tcp w1 s1 = Some t1" "net_inv (w_net w1)" using snd(1) by (auto simp: can_send_def)
  obtain w1' pkts where o: "tcp_send_loop s1 buf (int (length buf)) (int ?m) w1 = Some w1'"
    "net_tx (w_net w1') = net_tx (w_net w1) @ map (eth_frame mac (nd_hwaddr ?d) ETH_P_IP) pkts"
    "on_wire t1 ?d (snd_nxt (tsk_tcb t1)) (chunks ?m buf) pkts"
    using tcp_send_loop_sent [OF snd(1,3) m(1), of buf] m(2) by auto
  have k: "unat (word_of_nat (length buf) :: u32) = length buf"
    using wnd(2) by (simp add: unsigned_of_nat take_bit_nat_eq_self)
  then have "sint (word_of_nat (length buf) :: u32) = int (length buf)"
    using wnd(2) by (simp add: sint_small)
  then have wr: "tcp_write s1 buf (word_of_nat (length buf)) w1 = Some (int (length buf), w1')"
    using t1(1) snd(2) o(1) by (simp add: tcp_write_def tcp_send_def)
  have mac: "length mac = 6" "length (nd_hwaddr ?d) = 6"
    using t1(2) snd(3) net_inv_dev [OF t1(2)] by (auto simp: dev_ok_def net_inv_def intro: arp_get_hwaddr_length)
  have ch: "\<forall>c\<in>set (chunks ?m buf). c \<noteq> [] \<and> length c + 54 \<le> BUFLEN" "concat (chunks ?m buf) = buf"
    using chunks_bound [of _ ?m buf] chunks_concat [OF m(1)] m(2) by fastforce+
  have "length (chunks ?m buf) \<le> length buf" using chunks_few by blast
  then have r: "receiving w2 cs es s2 (0 + length (chunks ?m buf)) t2"
    using rcv(1) by (auto simp: receiving_def)
  have wire: "on_wire t1 ?d (rcv_nxt (tsk_tcb t2)) (chunks ?m buf) pkts" using o(3) conn(2) by simp
  obtain w2' t2' where d: "netdev_rx_loop tv (map (eth_frame mac (nd_hwaddr ?d) ETH_P_IP) pkts) w2 = Some w2'"
    "receiving w2' cs es s2 0 t2'" "rx_stream t2' = buf" "unmoved w2 w2'"
    using tcp_frames_received [OF wire r conn(1) mac ch(1) conn(3,4) wnd(1), of tv] wnd(3) ch(2) rcv(2)
    by (auto simp: rx_stream_def)
  have "\<exists>w2''. tcp_read s2 (word_of_nat (length buf)) env w2' = Some (Returned (int (length buf), buf), w2'')"
    using tcp_read_all [OF d(2), of "word_of_nat (length buf)" env] d(3) k wnd(2) by simp
  then show ?thesis using wr o(2) d(1,4) by blast
qed

text \<open>
  C4.  What one stack writes to an established connection, the reader on the other stack reads: all
  of it, in order.
\<close>

theorem tcp_transfer:
  assumes snd: "can_send w1 s1 t1" "tsk_state t1 = TCP_ESTABLISHED" "arp_get_hwaddr (w_net w1) gateway = Some mac"
      "0 < tsk_smss t1" "tsk_smss t1 \<le> 1460"
    and rcv: "receiving w2 cs es s2 (length buf) t2" "rx_items t2 = []"
    and conn: "peers (net_dev (w_net w1)) t1 t2" "snd_nxt (tsk_tcb t1) = rcv_nxt (tsk_tcb t2)"
      "snd_una (tsk_tcb t2) \<le> rcv_nxt (tsk_tcb t1)" "rcv_nxt (tsk_tcb t1) \<le> snd_nxt (tsk_tcb t2)"
    and wnd: "rcv_wnd (tsk_tcb t2) \<noteq> 0" "length buf < 2 ^ 31"
      "unat (rcv_nxt (tsk_tcb t2)) + length buf + unat (rcv_wnd (tsk_tcb t2)) < 2 ^ 32"
  shows "\<exists>w1' frames w2' w2''. tcp_write s1 buf (word_of_nat (length buf)) w1 = Some (int (length buf), w1') \<and>
    net_tx (w_net w1') = net_tx (w_net w1) @ frames \<and> netdev_rx_loop tv frames w2 = Some w2' \<and>
    tcp_read s2 (word_of_nat (length buf)) env w2' = Some (Returned (int (length buf), buf), w2'')"
  using tcp_transfer_ok [OF assms, of tv env] by blast

end
