(* ===== verification/Stack.thy ===== *)
theory Stack
  imports Delivery
begin

text \<open>
  The running stack: the pass over the timers (\<open>timers_tick\<close> and \<open>timers_start\<close> of
  \<open>timer.c\<close>), and the threads of \<open>main.c\<close> as one relation on states, whose steps are a received
  frame, a tick of the clock and a call of the user into the transport layer.
\<close>

section \<open>Ticks\<close>

definition run_handler :: "handler \<Rightarrow> sid \<Rightarrow> world \<Rightarrow> world option" where
  "run_handler h s w =
     (case h of
        Connect_rto \<Rightarrow> tcp_connect_rto s w
      | Retransmission_timeout \<Rightarrow> tcp_retransmission_timeout s w
      | Send_delack \<Rightarrow> tcp_send_delack s w
      | Linger \<Rightarrow> tcp_linger s w)"

text \<open>\<open>item->next\<close> in the ring of timers; \<open>None\<close> is the head.\<close>

fun next_timer :: "(tid \<times> timer) list \<Rightarrow> tid \<Rightarrow> tid option" where
  "next_timer [] t = None"
| "next_timer (x # xs) t =
     (if fst x = t then (case xs of [] \<Rightarrow> None | y # ys \<Rightarrow> Some (fst y)) else next_timer xs t)"

text \<open>
  The body of the loop.  The successor was read before the handler ran (\<open>list_for_each_safe\<close>);
  \<open>busy\<close> says for which timers \<open>timer_free\<close> finds the lock taken.
\<close>

definition timer_visit :: "(tid \<Rightarrow> bool) \<Rightarrow> tid \<Rightarrow> world \<Rightarrow> world option" where
  "timer_visit busy t w = do {
     x \<leftarrow> timer_get (w_timers w) t;
     w \<leftarrow> (if timer_due (tick (w_timers w)) x
           then run_handler (tm_handler x) (tm_arg x)
                  (w\<lparr>w_timers := timer_set (w_timers w) t (x\<lparr>tm_cancelled := True\<rparr>)\<rparr>)
           else Some w);
     x \<leftarrow> timer_get (w_timers w) t;
     Some (if tm_cancelled x \<and> tm_refcnt x = 0
           then w\<lparr>w_timers := timer_free (busy t) t (w_timers w)\<rparr> else w)
   }"

partial_function (option) timers_loop :: "(tid \<Rightarrow> bool) \<Rightarrow> tid option \<Rightarrow> world \<Rightarrow> world option" where
  "timers_loop busy item w =
     (case item of
        None \<Rightarrow> Some w
      | Some t \<Rightarrow> Option.bind (timer_visit busy t w)
          (timers_loop busy (next_timer (tms (w_timers w)) t)))"

definition first_timer :: "(tid \<times> timer) list \<Rightarrow> tid option" where
  "first_timer xs = (case xs of [] \<Rightarrow> None | x # _ \<Rightarrow> Some (fst x))"

definition timers_tick :: "(tid \<Rightarrow> bool) \<Rightarrow> world \<Rightarrow> world option" where
  "timers_tick busy w = timers_loop busy (first_timer (tms (w_timers w))) w"

text \<open>One round of \<open>timers_start\<close> (\<open>socket_debug\<close> only prints).\<close>

definition timers_start_step :: "(tid \<Rightarrow> bool) \<Rightarrow> world \<Rightarrow> world option" where
  "timers_start_step busy w =
     timers_tick busy (w\<lparr>w_timers := (w_timers w)\<lparr>tick := tick (w_timers w) + 1\<rparr>\<rparr>)"

section \<open>A pass in which nothing is due\<close>

definition idle_kept :: "(tid \<Rightarrow> bool) \<Rightarrow> tid \<times> timer \<Rightarrow> bool" where
  "idle_kept busy x \<longleftrightarrow> busy (fst x) \<or> \<not> tm_cancelled (snd x) \<or> tm_refcnt (snd x) \<noteq> 0"

lemma first_timer_simps [simp]: "first_timer [] = None" "first_timer (x # xs) = Some (fst x)"
  by (simp_all add: first_timer_def)

lemma timers_loop_None [simp]: "timers_loop busy None w = Some w"
  by (subst timers_loop.simps) simp

lemma next_timer_mid: "t \<notin> fst ` set xs \<Longrightarrow> next_timer (xs @ (t, x) # ys) t = first_timer ys"
  by (induction xs) (auto split: list.splits)

lemma without_timer: "t \<notin> fst ` set xs \<Longrightarrow> filter (\<lambda>(k, y). k \<noteq> t) xs = xs"
  by (force simp: filter_id_conv)

lemma timer_get_mid: "tms ts = xs @ (t, x) # ys \<Longrightarrow> t \<notin> fst ` set xs \<Longrightarrow> timer_get ts t = Some x"
  by (auto simp: timer_get_def map_add_Some_iff map_of_eq_None_iff)

text \<open>The pass walks over timers that are not due, and may free them.\<close>

lemma timers_loop_skip:
  assumes "tms (w_timers w) = xs @ ys @ zs" and "timers_inv (w_timers w)"
    and "\<forall>x\<in>set ys. \<not> timer_due (tick (w_timers w)) (snd x)"
  shows "timers_loop busy (first_timer (ys @ zs)) w =
    timers_loop busy (first_timer zs) (w\<lparr>w_timers := (w_timers w)\<lparr>tms := xs @ filter (idle_kept busy) ys @ zs\<rparr>\<rparr>)"
  using assms
proof (induction ys arbitrary: xs w)
  case Nil
  then have "w\<lparr>w_timers := (w_timers w)\<lparr>tms := xs @ zs\<rparr>\<rparr> = w" by simp
  then show ?case by simp
next
  case (Cons y ys)
  obtain t x where y: "y = (t, x)" by (cases y)
  let ?ts = "w_timers w"
  have at: "tms ?ts = xs @ (t, x) # ys @ zs" using Cons.prems(1) y by simp
  have fresh: "t \<notin> fst ` set xs" "t \<notin> fst ` set (ys @ zs)"
    using Cons.prems(1,2) y by (auto simp: timers_inv_def)
  have nd: "\<not> timer_due (tick ?ts) x" using Cons.prems(3) y by simp
  let ?keep = "idle_kept busy y"
  let ?w = "if ?keep then w else w\<lparr>w_timers := ?ts\<lparr>tms := xs @ ys @ zs\<rparr>\<rparr>"
  have "filter (\<lambda>(k, y). k \<noteq> t) (tms ?ts) = xs @ ys @ zs"
    using without_timer [OF fresh(1)] without_timer [OF fresh(2)] at by simp
  then have visit: "timer_visit busy t w = Some ?w"
    using timer_get_mid [OF at fresh(1)] nd y by (auto simp: timer_visit_def idle_kept_def timer_free_def)
  have "timers_loop busy (Some t) w = timers_loop busy (first_timer (ys @ zs)) ?w"
    using visit next_timer_mid [OF fresh(1), of x "ys @ zs"] at by (subst timers_loop.simps) simp
  also have "\<dots> = timers_loop busy (first_timer zs) (?w\<lparr>w_timers := (w_timers ?w)\<lparr>tms :=
      (if ?keep then xs @ [y] else xs) @ filter (idle_kept busy) ys @ zs\<rparr>\<rparr>)"
    using Cons.prems y by (intro Cons.IH) (auto simp: timers_inv_def)
  finally show ?case using y by (auto simp: Cons.prems(1))
qed

text \<open>
  When no timer is due, a tick releases the timers that are cancelled and unreferenced, and
  does nothing else.
\<close>

lemma timers_tick_idle:
  assumes "timers_inv (w_timers w)" and "\<forall>x\<in>set (tms (w_timers w)). \<not> timer_due (tick (w_timers w)) (snd x)"
  shows "timers_tick busy w = Some (w\<lparr>w_timers := (w_timers w)\<lparr>tms := filter (idle_kept busy) (tms (w_timers w))\<rparr>\<rparr>)"
  using timers_loop_skip [of w "[]" "tms (w_timers w)" "[]"] assms by (simp add: timers_tick_def)

section \<open>Retransmission\<close>

text \<open>What the timeout leaves of the socket.\<close>

definition resent :: "tcp_sock \<Rightarrow> sk_buff \<Rightarrow> tid \<Rightarrow> tcp_sock" where
  "resent tsk skb t = (on_sk (\<lambda>sk. sk\<lparr>sk_write_queue := (sk_write_queue sk)\<lparr>q_items :=
     skb # tl (q_items (sk_write_queue sk))\<rparr>\<rparr>) tsk)\<lparr>tsk_retransmit := Some t\<rparr>"

lemma tcp_retransmission_resends:
  assumes cs: "can_send w s tsk" and mac: "arp_get_hwaddr (w_net w) gateway = Some mac"
    and q: "queue_inv (sk_write_queue (tsk_sk tsk))" "q_items (sk_write_queue (tsk_sk tsk)) = skb # rest"
    and skb: "resendable k skb" "\<not> bit (skb_buf skb ! 47) 0"
    and t: "tsk_retransmit tsk = Some t" "timer_get (w_timers w) t = Some x"
  shows "\<exists>skb' pkt sgm. tcp_retransmission_timeout s w =
      Some (put_tsk s (resent tsk skb' (next_tid (w_timers w))) (w\<lparr>w_net :=
          tun_write (eth_frame mac (nd_hwaddr (net_dev (w_net w))) ETH_P_IP pkt) (w_net w),
        w_timers := snd (timer_add 500 Retransmission_timeout s
          (timer_set (w_timers w) t (x\<lparr>tm_refcnt := tm_refcnt x - 1\<rparr>)))\<rparr>)) \<and>
    tcp_sent tsk k skb skb' \<and> ip_datagram (net_dev (w_net w)) (sk_daddr (tsk_sk tsk)) IP_TCP sgm pkt \<and>
    tcp_segment tsk (snd_una (tsk_tcb tsk)) k (skb_buf skb ! 47) (drop 54 (skb_buf skb)) sgm"
proof -
  let ?t1 = "tsk\<lparr>tsk_retransmit := None\<rparr>" and ?ts1 = "timer_set (w_timers w) t (x\<lparr>tm_refcnt := tm_refcnt x - 1\<rparr>)"
  let ?w1 = "put_tsk s ?t1 (w\<lparr>w_timers := ?ts1\<rparr>)"
  let ?skb = "skb\<lparr>skb_data := 34 + 4 * k, skb_len := skb_dlen skb\<rparr>"
  have w: "w_tcp w s = Some tsk" "net_inv (w_net w)" using cs by (auto simp: can_send_def)
  have rel: "tcp_release_retransmission_timer s w = Some ?w1"
    using w(1) t by (simp add: tcp_release_retransmission_timer_def timer_release_def)
  have pk: "skb_peek (sk_write_queue (tsk_sk tsk)) = Some (Some skb)"
    using queue_inv_peek [OF q(1)] q(2) by simp
  have len: "length (skb_buf skb) = 34 + 4 * k + unat (skb_dlen skb)" using skb(1) by (simp add: resendable_def)
  then have rs: "skb_reset_header skb = Some ?skb" by (simp add: skb_reset_header_def)
  have ready: "tcp_ready k ?skb" "skb_protocol ?skb = ucast IP_TCP"
    using skb(1) by (auto simp: tcp_ready_def resendable_def)
  have "take (unat (skb_len ?skb) + 4 * k - 20) (drop 54 (skb_buf ?skb)) = drop 54 (skb_buf skb)"
    using len by simp
  moreover obtain skb' pkt sgm where tr: "tcp_transmit_skb s ?skb (snd_una (tsk_tcb ?t1)) ?w1 =
      Some (Indet, skb', ?w1\<lparr>w_net :=
        tun_write (eth_frame mac (nd_hwaddr (net_dev (w_net ?w1))) ETH_P_IP pkt) (w_net ?w1)\<rparr>)"
    "tcp_sent ?t1 k ?skb skb'" "ip_datagram (net_dev (w_net ?w1)) (sk_daddr (tsk_sk ?t1)) IP_TCP sgm pkt"
    "tcp_segment ?t1 (snd_una (tsk_tcb ?t1)) k (skb_buf ?skb ! 47)
      (take (unat (skb_len ?skb) + 4 * k - 20) (drop 54 (skb_buf ?skb))) sgm"
    using tcp_transmit_sent [of ?w1 s ?t1 k ?skb mac "snd_una (tsk_tcb ?t1)"] ready w(2) mac by auto
  ultimately have sg: "tcp_segment tsk (snd_una (tsk_tcb tsk)) k (skb_buf skb ! 47) (drop 54 (skb_buf skb)) sgm"
    by (simp add: tcp_segment_def tcp_header_for_def)
  have sent: "tcp_sent tsk k skb skb'" using tr(2) by (simp add: tcp_sent_def)
  then have fl: "load8 (skb_buf skb') (tcp_hdr skb' + 13) = Some (skb_buf skb ! 47)"
    using len skb(1) by (simp add: tcp_sent_def tcp_hdr_def skb_head_def resendable_def)
  have "(skb_buf skb ! 47) AND TCP_FIN = 0" using skb(2) by (simp add: and_one_eq odd_iff_mod_2_eq_one bit_0)
  then have "tcp_retransmission_timeout s w =
      Some (put_tsk s (resent tsk skb' (next_tid (w_timers w))) (w\<lparr>w_net :=
          tun_write (eth_frame mac (nd_hwaddr (net_dev (w_net w))) ETH_P_IP pkt) (w_net w),
        w_timers := snd (timer_add 500 Retransmission_timeout s ?ts1)\<rparr>))"
    using rel pk rs tr(1) fl w(1)
    by (simp add: tcp_retransmission_timeout_def tcp_retransmit_head_def world_timer_add_def timer_add_def
        Let_def resent_def put_tsk_def on_sk_def)
  then show ?thesis using sent tr(3) sg by (intro exI [of _ skb'] exI [of _ pkt] exI [of _ sgm]) simp
qed

text \<open>
  C16.  The tick at which the retransmission timer is due: the head of the write queue is on the
  wire again, with the sequence number \<open>snd_una\<close>, the timer that fired is gone, and the
  connection holds a fresh one that is due 500 ticks later.
\<close>

theorem retransmission_timer_fires:
  assumes cs: "can_send w s tsk" and mac: "arp_get_hwaddr (w_net w) gateway = Some mac"
    and q: "queue_inv (sk_write_queue (tsk_sk tsk))" "q_items (sk_write_queue (tsk_sk tsk)) = skb # rest"
    and skb: "resendable k skb" "\<not> bit (skb_buf skb ! 47) 0"
    and t: "tsk_retransmit tsk = Some t" "timer_get (w_timers w) t = Some x" "timer_due (tick (w_timers w)) x"
      "tm_handler x = Retransmission_timeout" "tm_arg x = s" "tm_refcnt x = 1"
  shows "\<exists>w' pkt sgm tsk' t'. timer_visit (\<lambda>_. False) t w = Some w' \<and>
    net_tx (w_net w') = net_tx (w_net w) @ [eth_frame mac (nd_hwaddr (net_dev (w_net w))) ETH_P_IP pkt] \<and>
    ip_datagram (net_dev (w_net w)) (sk_daddr (tsk_sk tsk)) IP_TCP sgm pkt \<and>
    tcp_segment tsk (snd_una (tsk_tcb tsk)) k (skb_buf skb ! 47) (drop 54 (skb_buf skb)) sgm \<and>
    w_tcp w' s = Some tsk' \<and> tsk_retransmit tsk' = Some t' \<and> t' \<noteq> t \<and> timer_get (w_timers w') t = None \<and>
    timer_get (w_timers w') t' = Some \<lparr>tm_refcnt = 1, tm_expires = tick (w_timers w) + 500, tm_cancelled = False,
      tm_handler = Retransmission_timeout, tm_arg = s\<rparr>"
proof -
  let ?ts = "w_timers w" and ?x = "x\<lparr>tm_cancelled := True\<rparr>"
  let ?tsa = "timer_set ?ts t ?x" and ?wa = "w\<lparr>w_timers := timer_set ?ts t ?x\<rparr>"
  have inv: "timers_inv ?ts" using cs by (simp add: can_send_def timers_live_def)
  have c0: "can_send ?wa s tsk" using cs t(2) by (auto simp: can_send_def timers_live_set)
  have g0: "timer_get (w_timers ?wa) t = Some ?x" using t(2) by (simp add: timer_get_set)
  obtain skb' pkt sgm where r: "tcp_retransmission_timeout s ?wa =
      Some (put_tsk s (resent tsk skb' (next_tid ?tsa)) (?wa\<lparr>w_net :=
          tun_write (eth_frame mac (nd_hwaddr (net_dev (w_net w))) ETH_P_IP pkt) (w_net w),
        w_timers := snd (timer_add 500 Retransmission_timeout s
          (timer_set ?tsa t (?x\<lparr>tm_refcnt := tm_refcnt ?x - 1\<rparr>)))\<rparr>))"
    "ip_datagram (net_dev (w_net w)) (sk_daddr (tsk_sk tsk)) IP_TCP sgm pkt"
    "tcp_segment tsk (snd_una (tsk_tcb tsk)) k (skb_buf skb ! 47) (drop 54 (skb_buf skb)) sgm"
    using tcp_retransmission_resends [OF c0 _ q skb t(1) g0, of mac] mac by auto
  let ?tsb = "timer_set ?tsa t (?x\<lparr>tm_refcnt := 0\<rparr>)"
  let ?tsc = "snd (timer_add 500 Retransmission_timeout s ?tsb)"
  let ?n = "tun_write (eth_frame mac (nd_hwaddr (net_dev (w_net w))) ETH_P_IP pkt) (w_net w)"
  have fresh: "next_tid ?ts \<noteq> t" using t(2) timer_get_fresh [OF inv] by auto
  have get2: "timer_get ?tsc u = (if u = next_tid ?ts then Some \<lparr>tm_refcnt = 1, tm_expires = tick ?ts + 500,
      tm_cancelled = False, tm_handler = Retransmission_timeout, tm_arg = s\<rparr> else timer_get ?tsb u)" for u
    using timer_get_add [of ?tsb 500 Retransmission_timeout s "next_tid ?ts" ?tsc u] inv
    by (simp add: timers_inv_set timer_add_def Let_def)
  then have get_t: "timer_get ?tsc t = Some (?x\<lparr>tm_refcnt := 0\<rparr>)"
    using fresh t(2) by (simp add: timer_get_set)
  let ?w = "put_tsk s (resent tsk skb' (next_tid ?ts)) (w\<lparr>w_net := ?n, w_timers := timer_free False t ?tsc\<rparr>)"
  have run: "timer_visit (\<lambda>_. False) t w = Some ?w"
    using t r(1) get_t by (simp add: timer_visit_def run_handler_def put_tsk_def)
  have "map_of (filter (\<lambda>(k, y). k \<noteq> t) l) u = (if u = t then None else map_of l u)"
    for l :: "(tid \<times> timer) list" and u by (induction l) auto
  then have free: "timer_get (timer_free False t ts) u = (if u = t then None else timer_get ts u)" for ts u
    by (simp add: timer_get_def timer_free_def)
  show ?thesis
    using run r(2,3) get2 fresh
    by (intro exI [of _ ?w] exI [of _ pkt] exI [of _ sgm] exI [of _ "resent tsk skb' (next_tid ?ts)"]
        exI [of _ "next_tid ?ts"]) (simp add: tun_write_def resent_def free)
qed

section \<open>What the operations do to the states of connections\<close>

lemma st_of_tcp: "w_tcp w' = w_tcp w \<Longrightarrow> st w' = st w"
  by (simp add: st_def fun_eq_iff)

lemma st_put_usk [simp]: "st (put_usk s usk w) = st w"
  by (rule st_of_tcp) simp

text \<open>UDP, ICMP and ARP leave them alone.\<close>

lemma st_udp_in: "udp_in skb w = Some w' \<Longrightarrow> st w' = st w"
  by (rule st_of_tcp) (auto simp: udp_in_def udp_recv_notify_def upd_usk_def split: option.splits elim!: bind_SomeE)

lemma tcp_udp_send: "udp_send s buf n w = Some (r, w') \<Longrightarrow> w_tcp w' = w_tcp w"
  by (auto simp: udp_send_def Let_def elim!: bind_SomeE)

lemmas st_udp_send = st_of_tcp [OF tcp_udp_send]

lemma st_udp_sendto: "udp_sendto s buf n a w = Some (r, w') \<Longrightarrow> st w' = st w"
  by (rule st_of_tcp) (auto simp: udp_sendto_def udp_generate_port_def upd_usk_def Let_def
      split: option.splits if_splits elim!: bind_SomeE dest!: tcp_udp_send)

lemma st_udp_write: "udp_write s buf n w = Some (r, w') \<Longrightarrow> st w' = st w"
  by (auto simp: udp_write_def split: if_splits dest: st_udp_send)

lemma st_udp_ops:
  "udp_bind s a w = Some (r, w') \<Longrightarrow> st w' = st w"
  "udp_connect s a w = Some (r, w') \<Longrightarrow> st w' = st w"
  "udp_close s w = Some (r, w') \<Longrightarrow> st w' = st w"
  "st (snd (udp_alloc_sock w)) = st w"
  "udp_data_dequeue s n w = Some (x, w') \<Longrightarrow> st w' = st w"
  by (rule st_of_tcp, auto simp: udp_bind_def udp_set_sport_def udp_socks_enqueue_def upd_usk_def udp_connect_def
      udp_generate_port_def udp_close_def udp_socks_remove_def udp_free_sock_def udp_alloc_sock_def Let_def
      udp_data_dequeue_def split: if_splits elim!: bind_SomeE)+

text \<open>A segment, through \<open>tcp_in\<close>.\<close>

lemma fsm_tcp_in:
  assumes "tcp_in skb w = Some (fate, w')"
  shows "st w' = st w \<or> (\<exists>s x. st w s = Some x \<and> ((\<exists>y. seg_step x y \<and> st w' = (st w)(s \<mapsto> y)) \<or>
    x = TCP_SYN_RECEIVED \<and> st w' = (st w)(s := None) \<or>
    x = TCP_LISTEN \<and> st w' = (st w)(w_next w \<mapsto> TCP_SYN_RECEIVED)))"
proof -
  have "w' = w \<or> (\<exists>s th skb r f. tcp_process s th skb w = Some (r, f, w'))"
    using assms by (auto simp: tcp_in_def split: option.splits elim!: bind_SomeE)
  then show ?thesis
  proof (elim disjE exE)
    fix s th skb r f
    assume run: "tcp_process s th skb w = Some (r, f, w')"
    then obtain x where "st w s = Some x" by (auto simp: tcp_process_def st_def elim!: bind_SomeE)
    with fsm_process [OF run this] show ?thesis by blast
  qed simp
qed

text \<open>The handlers of the timers.\<close>

lemma fsm_handler:
  assumes "run_handler h s w = Some w'"
  shows "st w' = st w \<or> st w' = (st w)(s := None) \<or>
    (\<exists>x y. st w s = Some x \<and> user_step x y \<and> st w' = (st w)(s \<mapsto> y))"
proof (cases h)
  case Connect_rto
  then show ?thesis
    using assms by (auto simp: run_handler_def tcp_connect_rto_def upd_tsk_def st_put_same split: if_splits option.splits
        elim!: bind_SomeE dest!: st_timer_ops st_free_sock st_retransmit_head st_reset_timer)
next
  case Retransmission_timeout
  then have "st w' = st w \<or> st w s = Some TCP_CLOSE_WAIT \<and> st w' = (st w)(s \<mapsto> TCP_LAST_ACK) \<or>
     st w s = Some TCP_ESTABLISHED \<and> st w' = (st w)(s \<mapsto> TCP_FIN_WAIT_1)"
    using assms
    by (auto simp: run_handler_def tcp_retransmission_timeout_def tcp_notify_user_def upd_tsk_def st_put_same
        world_timer_add_def Let_def split: if_splits option.splits tcp_state.splits prod.splits
        elim!: bind_SomeE dest!: st_timer_ops st_retransmit_head st_handle_fin_state)
  then show ?thesis by (auto intro: user_step.intros)
next
  case Send_delack
  then show ?thesis
    using assms by (auto simp: run_handler_def tcp_send_delack_def upd_tsk_def st_put_same elim!: bind_SomeE
        dest!: st_timer_ops st_send_ack)
next
  case Linger
  then show ?thesis
    using assms by (auto simp: run_handler_def tcp_linger_def st_put_same elim!: bind_SomeE dest!: st_done)
qed

lemma dequeue_state: "tcp_dequeue_loop n out tsk = Some r \<Longrightarrow> tsk_state (snd r) = tsk_state tsk"
proof (rule tcp_dequeue_loop.raw_induct [of "\<lambda>n out tsk r. tsk_state (snd r) = tsk_state tsk"])
  fix f :: "u32 \<Rightarrow> bytes \<Rightarrow> tcp_sock \<Rightarrow> (bytes \<times> tcp_sock) option" and userlen out tsk r
  assume ih: "\<And>n out tsk r. f n out tsk = Some r \<Longrightarrow> tsk_state (snd r) = tsk_state tsk"
  assume "(let q = sk_receive_queue (tsk_sk tsk); rlen = (word_of_nat (length out) :: u32) in
      if \<not> skb_queue_empty q \<and> rlen < userlen
      then (case q_items q of
          [] \<Rightarrow> None
        | skb # rest \<Rightarrow>
            let dlen = (if rlen + skb_dlen skb > userlen then userlen - rlen else skb_dlen skb) in
            Option.bind (load_bytes (skb_buf skb) (skb_payload skb) (unat dlen)) (\<lambda>d.
            if unat userlen < length out + unat dlen then None
            else
              let skb = skb\<lparr>skb_dlen := skb_dlen skb - dlen, skb_payload := skb_payload skb + unat dlen\<rparr> in
              if skb_dlen skb = 0
              then Option.bind (load8 (skb_buf skb) (tcp_hdr skb + 13)) (\<lambda>v.
                let tsk = (if v AND TCP_PSH \<noteq> 0 then tsk\<lparr>tsk_flags := tsk_flags tsk OR TCP_PSH\<rparr> else tsk) in
                f userlen (out @ d)
                  (on_sk (\<lambda>sk. sk\<lparr>sk_receive_queue := q\<lparr>q_items := rest, qlen := qlen q - 1\<rparr>\<rparr>) tsk))
              else f userlen (out @ d)
                  (on_sk (\<lambda>sk. sk\<lparr>sk_receive_queue := q\<lparr>q_items := skb # rest\<rparr>\<rparr>) tsk)))
      else Some (out, tsk)) = Some r"
  then show "tsk_state (snd r) = tsk_state tsk"
    by (auto simp: Let_def split: if_splits list.splits elim!: bind_SomeE dest!: ih)
qed

section \<open>Runs\<close>

text \<open>
  A run of the stack: frames arrive, the clock ticks, and users call the operations of the
  transport layer.  While a call sleeps, other runs of the stack go on; the steps of its
  schedule are such runs.
\<close>

definition runs :: "(world \<Rightarrow> world \<Rightarrow> bool) \<Rightarrow> env \<Rightarrow> bool" where
  "runs R es \<longleftrightarrow> (\<forall>e\<in>set es. \<forall>v v'. e v = Some v' \<longrightarrow> R v v')"

lemma runs_mono [mono]: "(\<And>v v'. R v v' \<longrightarrow> R' v v') \<Longrightarrow> runs R es \<longrightarrow> runs R' es"
  by (auto simp: runs_def)

inductive stack_run :: "world \<Rightarrow> world \<Rightarrow> bool" where
  idle: "stack_run w w"
| seq: "stack_run w w1 \<Longrightarrow> stack_run w1 w' \<Longrightarrow> stack_run w w'"
| rx: "netdev_rx_loop_step tv frame w = Some w' \<Longrightarrow> stack_run w w'"
| tick: "timers_start_step busy w = Some w' \<Longrightarrow> stack_run w w'"
| tcp_alloc: "tcp_alloc_sock w = Some (s, w') \<Longrightarrow> stack_run w w'"
| tcp_bind: "tcp_set_sport s port w = Some (r, w') \<Longrightarrow> stack_run w w'"
| tcp_connect: "tcp_v4_connect s addr es w = Some (x, w') \<Longrightarrow> runs stack_run es \<Longrightarrow> stack_run w w'"
| tcp_listen: "tcp_listen s n w = Some (r, w') \<Longrightarrow> stack_run w w'"
| tcp_accept: "tcp_accept s es w = Some (x, w') \<Longrightarrow> runs stack_run es \<Longrightarrow> stack_run w w'"
| tcp_write: "tcp_write s buf n w = Some (r, w') \<Longrightarrow> stack_run w w'"
| tcp_read: "tcp_read s n es w = Some (y, w') \<Longrightarrow> runs stack_run es \<Longrightarrow> stack_run w w'"
| tcp_close: "tcp_close s w = Some (r, w') \<Longrightarrow> stack_run w w'"
| udp_alloc: "udp_alloc_sock w = (s, w') \<Longrightarrow> stack_run w w'"
| udp_bind: "udp_bind s addr w = Some (r, w') \<Longrightarrow> stack_run w w'"
| udp_connect: "udp_connect s addr w = Some (r, w') \<Longrightarrow> stack_run w w'"
| udp_write: "udp_write s buf n w = Some (z, w') \<Longrightarrow> stack_run w w'"
| udp_sendto: "udp_sendto s buf n a w = Some (z, w') \<Longrightarrow> stack_run w w'"
| udp_recv: "udp_recvfrom s n es w = Some (v, w') \<Longrightarrow> runs stack_run es \<Longrightarrow> stack_run w w'"
| udp_close: "udp_close s w = Some (r, w') \<Longrightarrow> stack_run w w'"

lemma await_condition: "await sleeping es w = Some (rest, w') \<Longrightarrow> sleeping w' \<noteq> None"
  by (induction sleeping es w rule: await.induct) (auto split: if_splits elim!: bind_SomeE)

lemma wait_sleep_tsk_live: "wait_sleep_tsk s es w = Some (rest, w') \<Longrightarrow> w_tcp w' s \<noteq> None"
  by (auto simp: wait_sleep_tsk_def elim!: bind_SomeE dest!: await_condition)

text \<open>
  A relation between states that every step of the stack lies in.  The laws are about the calls
  that do not sleep; under them the calls that sleep lie in it, and so does every run.
\<close>

locale run_relation =
  fixes K :: "world \<Rightarrow> world \<Rightarrow> bool"
  assumes refl: "K w w" and trans: "K u v \<Longrightarrow> K v w \<Longrightarrow> K u w"
    and tsk_kept: "w_tcp w s = Some tsk \<Longrightarrow> tsk_state tsk' = tsk_state tsk \<Longrightarrow> K w (put_tsk s tsk' w)"
    and usk_kept: "w_udp w s = Some usk \<Longrightarrow> K w (put_usk s usk' w)"
    and port_kept: "K w (w\<lparr>w_tcp_port := p\<rparr>)"
    and cl_enqueue: "w_tcp w s = Some tsk \<Longrightarrow> tcp_connecting_or_listening_socks_enqueue s w = Some w' \<Longrightarrow> K w w'"
    and cl_remove: "w_tcp w s = Some tsk \<Longrightarrow> tcp_connecting_or_listening_socks_remove s w = Some w' \<Longrightarrow> K w w'"
    and es_enqueue: "w_tcp w s = Some tsk \<Longrightarrow> tcp_established_or_syn_recvd_socks_enqueue s w = Some w' \<Longrightarrow> K w w'"
    and dequeue: "w_tcp w s = Some tsk \<Longrightarrow> tcp_accept_dequeue s w = Some (x1, w') \<Longrightarrow> K w w'"
    and clock_kept: "K w (w\<lparr>w_timers := (w_timers w)\<lparr>tick := now\<rparr>\<rparr>)"
    and arp: "arp_rcv skb (w_net w) = Some (gone, nt) \<Longrightarrow> K w (w\<lparr>w_net := nt\<rparr>)"
    and icmp: "icmpv4_incoming (w_others w) tv skb (w_net w) = Some (fate, nt) \<Longrightarrow> K w (w\<lparr>w_net := nt\<rparr>)"
    and tcp_in: "tcp_in skb w = Some (fate, w') \<Longrightarrow> K w w'"
    and udp_in: "udp_in skb w = Some w' \<Longrightarrow> K w w'"
    and visit: "timer_visit busy t w = Some w' \<Longrightarrow> K w w'"
    and begin_connect: "tcp_begin_connect s w = Some (r, w') \<Longrightarrow> K w w'"
    and tcp_alloc: "tcp_alloc_sock w = Some (s, w') \<Longrightarrow> K w w'"
    and tcp_listen: "tcp_listen s n w = Some (x, w') \<Longrightarrow> K w w'"
    and tcp_write: "tcp_write s buf m w = Some (x, w') \<Longrightarrow> K w w'"
    and tcp_close: "tcp_close s w = Some (x, w') \<Longrightarrow> K w w'"
    and udp_alloc: "udp_alloc_sock w = (s, w') \<Longrightarrow> K w w'"
    and udp_bind: "udp_bind s addr w = Some (x, w') \<Longrightarrow> K w w'"
    and udp_connect: "udp_connect s addr w = Some (x, w') \<Longrightarrow> K w w'"
    and udp_write: "udp_write s buf m w = Some (r, w') \<Longrightarrow> K w w'"
    and udp_sendto: "udp_sendto s buf m a w = Some (r, w') \<Longrightarrow> K w w'"
    and udp_close: "udp_close s w = Some (x, w') \<Longrightarrow> K w w'"
begin

lemmas kept_simps [simp] = refl tsk_kept usk_kept port_kept clock_kept

lemma upd_tsk_kept: "upd_tsk s f w = Some w' \<Longrightarrow> (\<And>t. tsk_state (f t) = tsk_state t) \<Longrightarrow> K w w'"
  by (auto simp: upd_tsk_def intro: tsk_kept elim!: bind_SomeE)

lemma await_kept:
  assumes "await sleeping es w = Some (rest, w')" and "runs K es"
  shows "K w w' \<and> (\<forall>es'. rest = Some es' \<longrightarrow> runs K es')"
proof -
  have "K w v \<Longrightarrow> e v = Some v' \<Longrightarrow> K w v'" if "e \<in> set es" for e v v'
    using assms(2) that unfolding runs_def by (blast intro: trans)
  then have "K w w' \<and> (\<forall>es'. rest = Some es' \<longrightarrow> set es' \<subseteq> set es)"
    using await_keeps [where I = "K w", OF assms(1) refl] by blast
  then show ?thesis using assms(2) unfolding runs_def by blast
qed

lemma wait_sleep_kept:
  assumes "wait_sleep_tsk s es w = Some (rest, w') \<or> wait_sleep_recv s es w = Some (rest, w') \<or>
      wait_sleep_usk s es w = Some (rest, w')" and "runs K es"
  shows "K w w' \<and> (\<forall>es'. rest = Some es' \<longrightarrow> runs K es')"
proof -
  obtain sleeping w1 where "await sleeping es w1 = Some (rest, w')" "K w w1"
    using assms(1)
    by (auto simp: wait_sleep_tsk_def wait_sleep_recv_def wait_sleep_usk_def upd_usk_def elim!: bind_SomeE
        dest!: upd_tsk_kept intro: usk_kept)
  then show ?thesis using await_kept assms(2) trans by blast
qed

lemma tcp_connect_kept:
  assumes "tcp_v4_connect s addr es w = Some (x, w')" and "runs K es"
  shows "K w w'"
proof -
  from assms(1) obtain w1 w2 w3 w4 w5 r rest w6 port sa where
    s: "upd_tsk s (on_sk (\<lambda>sk. sk\<lparr>sk_dport := ntohs (sin_port addr)\<rparr>)) w = Some w1" "tcp_generate_port w1 = (port, w2)"
    "upd_tsk s (on_sk (\<lambda>sk. sk\<lparr>sk_sport := port, sk_daddr := ntohl (sin_addr addr), sk_saddr := sa\<rparr>)) w2 = Some w3"
    "tcp_connecting_or_listening_socks_enqueue s w3 = Some w4" "tcp_begin_connect s w4 = Some (r, w5)"
    "wait_sleep_tsk s es w5 = Some (rest, w6)" and
    "w' = w6 \<or> (\<exists>v. tcp_connecting_or_listening_socks_remove s w6 = Some v \<and>
       tcp_established_or_syn_recvd_socks_enqueue s v = Some w')"
    by (auto simp: tcp_v4_connect_def Let_def split: option.splits prod.splits elim!: bind_SomeE)
  moreover from s(6) have live: "w_tcp w6 s \<noteq> None" by (rule wait_sleep_tsk_live)
  moreover have "w_tcp v = w_tcp w6" if "tcp_connecting_or_listening_socks_remove s w6 = Some v" for v
    using that by (auto simp: tcp_connecting_or_listening_socks_remove_def elim!: bind_SomeE)
  ultimately have fin: "K w6 w'" by (metis refl trans cl_remove es_enqueue not_None_eq)
  have "K w w1" using s(1) by (rule upd_tsk_kept) simp
  moreover have "K w1 w2" using s(2) by (auto simp: tcp_generate_port_def Let_def)
  moreover have "K w2 w3" using s(3) by (rule upd_tsk_kept) simp
  moreover have "K w3 w4" using cl_enqueue [OF _ s(4)] s(3) by (auto simp: upd_tsk_def elim!: bind_SomeE)
  moreover have "K w4 w5" using s(5) by (rule begin_connect)
  moreover have "K w5 w6" using wait_sleep_kept [OF disjI1 [OF s(6)] assms(2)] by blast
  ultimately show ?thesis using fin by (blast intro: trans)
qed

lemma tcp_accept_kept:
  assumes "tcp_accept s es w = Some r" and "runs K es"
  shows "K w (snd r)"
proof -
  have "runs K es \<longrightarrow> K w (snd r)"
  proof (rule tcp_accept.raw_induct [of "\<lambda>s es w r. runs K es \<longrightarrow> K w (snd r)", OF _ assms(1)])
    fix f :: "sid \<Rightarrow> env \<Rightarrow> world \<Rightarrow> (sid outcome \<times> world) option" and s es w r
    assume ih: "\<And>s es w r. f s es w = Some r \<Longrightarrow> runs K es \<longrightarrow> K w (snd r)"
    assume run: "Option.bind (w_tcp w s) (\<lambda>_.
     Option.bind (list_empty (w_links w) (accept_queue_of s)) (\<lambda>e.
     if e then Option.bind (wait_sleep_tsk s es w) (\<lambda>q.
       case fst q of
         None \<Rightarrow> Some (Asleep, snd q)
       | Some es \<Rightarrow> f s es (snd q))
     else Option.bind (tcp_accept_dequeue s w) (\<lambda>r. Some (Returned (fst r), snd r)))) = Some r"
    then consider b where "wait_sleep_tsk s es w = Some (None, b)" "r = (Asleep, b)"
      | es' b where "wait_sleep_tsk s es w = Some (Some es', b)" "f s es' b = Some r"
      | "K w (snd r)"
      using dequeue [of w s] by (auto split: if_splits option.splits elim!: bind_SomeE)
    then show "runs K es \<longrightarrow> K w (snd r)"
      by cases (auto dest: wait_sleep_kept [OF disjI1] ih intro: trans)
  qed
  then show ?thesis using assms(2) by blast
qed

lemma dequeue_kept: "tcp_data_dequeue s n w = Some (out, w') \<Longrightarrow> K w w'"
  by (auto simp: tcp_data_dequeue_def elim!: bind_SomeE dest!: dequeue_state intro: tsk_kept)

lemma tcp_receive_kept:
  assumes "tcp_receive_loop s n out es w = Some r" and "runs K es"
  shows "K w (snd r)"
proof -
  have "runs K es \<longrightarrow> K w (snd r)"
  proof (rule tcp_receive_loop.raw_induct [of "\<lambda>s n out es w r. runs K es \<longrightarrow> K w (snd r)", OF _ assms(1)])
    fix f :: "sid \<Rightarrow> int \<Rightarrow> bytes \<Rightarrow> env \<Rightarrow> world \<Rightarrow> (bytes outcome \<times> world) option" and s n out es w r
    assume ih: "\<And>s n out es w r. f s n out es w = Some r \<Longrightarrow> runs K es \<longrightarrow> K w (snd r)"
    assume run: "(if int (length out) < n then
        Option.bind (tcp_data_dequeue s (word_of_int (n - int (length out))) w) (\<lambda>r.
        let out = out @ fst r; w = snd r in
        Option.bind (w_tcp w s) (\<lambda>tsk.
        if tsk_flags tsk AND TCP_PSH \<noteq> 0
        then Some (Returned out, put_tsk s (tsk\<lparr>tsk_flags := tsk_flags tsk AND NOT TCP_PSH\<rparr>) w)
        else if tsk_flags tsk AND TCP_FIN \<noteq> 0 \<or> int (length out) = n
        then Some (Returned out, w)
        else Option.bind (wait_sleep_recv s es w) (\<lambda>q.
          case fst q of
            None \<Rightarrow> Some (Asleep, snd q)
          | Some es \<Rightarrow> f s n out es (snd q))))
      else Some (Returned out, w)) = Some r"
    then consider "snd r = w" | d w1 where "tcp_data_dequeue s (word_of_int (n - int (length out))) w = Some (d, w1)"
        "K w1 (snd r)"
      | d w1 b where "tcp_data_dequeue s (word_of_int (n - int (length out))) w = Some (d, w1)"
        "wait_sleep_recv s es w1 = Some (None, b)" "r = (Asleep, b)"
      | d w1 es' b where "tcp_data_dequeue s (word_of_int (n - int (length out))) w = Some (d, w1)"
        "wait_sleep_recv s es w1 = Some (Some es', b)" "f s n (out @ d) es' b = Some r"
      by (auto simp: Let_def split: if_splits option.splits elim!: bind_SomeE intro: refl tsk_kept)
    then show "runs K es \<longrightarrow> K w (snd r)"
      by cases (auto dest!: wait_sleep_kept [OF disjI2 [OF disjI1]] ih dequeue_kept intro: trans refl)
  qed
  then show ?thesis using assms(2) by blast
qed

lemma tcp_read_kept: "tcp_read s n es w = Some (x, w') \<Longrightarrow> runs K es \<Longrightarrow> K w w'"
  by (auto simp: tcp_read_def tcp_receive_def read_value_def split: if_splits elim!: bind_SomeE
      dest!: tcp_receive_kept intro: refl tsk_kept)

lemma udp_dequeue_kept: "udp_data_dequeue s n w = Some (x, w') \<Longrightarrow> K w w'"
  by (auto simp: udp_data_dequeue_def Let_def split: if_splits elim!: bind_SomeE intro: refl usk_kept)

lemma udp_recv_kept:
  assumes "udp_recv_loop s n es w = Some r" and "runs K es"
  shows "K w (snd r)"
proof -
  have "runs K es \<longrightarrow> K w (snd r)"
  proof (rule udp_recv_loop.raw_induct [of "\<lambda>s n es w r. runs K es \<longrightarrow> K w (snd r)", OF _ assms(1)])
    fix f :: "sid \<Rightarrow> u32 \<Rightarrow> env \<Rightarrow> world \<Rightarrow> (received outcome \<times> world) option" and s n es w r
    assume ih: "\<And>s n es w r. f s n es w = Some r \<Longrightarrow> runs K es \<longrightarrow> K w (snd r)"
    assume run: "Option.bind (udp_data_dequeue s n w) (\<lambda>r.
       if rv_rc (fst r) \<noteq> -1 then Some (Returned (fst r), snd r)
       else Option.bind (wait_sleep_usk s es (snd r)) (\<lambda>q.
         case fst q of
           None \<Rightarrow> Some (Asleep, snd q)
         | Some es \<Rightarrow> f s n es (snd q))) = Some r"
    then obtain d w1 where d: "udp_data_dequeue s n w = Some (d, w1)" by (auto elim!: bind_SomeE)
    then have w1: "K w w1" by (rule udp_dequeue_kept)
    from run d consider "snd r = w1" | b where "wait_sleep_usk s es w1 = Some (None, b)" "r = (Asleep, b)"
      | es' b where "wait_sleep_usk s es w1 = Some (Some es', b)" "f s n es' b = Some r"
      by (auto split: if_splits option.splits elim!: bind_SomeE)
    then show "runs K es \<longrightarrow> K w (snd r)"
      using w1 by cases (auto dest!: wait_sleep_kept [OF disjI2 [OF disjI2]] ih intro: trans)
  qed
  then show ?thesis using assms(2) by blast
qed

lemma tick_kept: "timers_start_step busy w = Some w' \<Longrightarrow> K w w'"
proof -
  have "timers_loop busy item v = Some v' \<Longrightarrow> K v v'" for item v v'
    by (erule timers_loop.raw_induct [of "\<lambda>busy item v v'. K v v'", rotated])
      (auto split: option.splits elim!: bind_SomeE dest!: visit intro: refl trans)
  then show "timers_start_step busy w = Some w' \<Longrightarrow> K w w'"
    unfolding timers_start_step_def timers_tick_def by (simp add: Let_def) (blast intro: trans clock_kept)
qed

lemma rx_kept: "netdev_rx_loop_step tv frame w = Some w' \<Longrightarrow> K w w'"
  by (auto simp: netdev_rx_loop_step_def netdev_receive_def ip_rcv_def Let_def split: if_splits elim!: bind_SomeE
      dest!: arp icmp tcp_in udp_in)

lemma run_kept: "stack_run w w' \<Longrightarrow> K w w'"
proof (induction rule: stack_run.induct)
  case (tcp_connect s addr es w x w')
  then show ?case using tcp_connect_kept [of s addr es w x w'] by (simp add: runs_def)
next
  case (tcp_accept s es w x w')
  then show ?case using tcp_accept_kept [of s es w "(x, w')"] by (simp add: runs_def)
next
  case (tcp_read s n es w y w')
  then show ?case using tcp_read_kept [of s n es w y w'] by (simp add: runs_def)
next
  case (udp_recv s n es w v w')
  then show ?case using udp_recv_kept [of s n es w "(v, w')"] by (simp add: runs_def udp_recvfrom_def)
next
  case (tcp_bind s port w r w')
  then show ?case
    by (auto simp: tcp_set_sport_def split: if_splits elim!: bind_SomeE dest!: upd_tsk_kept intro: refl)
qed (blast intro: refl trans rx_kept tick_kept tcp_alloc tcp_listen tcp_write tcp_close udp_alloc udp_bind udp_connect
    udp_write udp_sendto udp_close)+

end

text \<open>
  A property of the states of connections that every single change keeps is one that every run
  keeps.
\<close>

locale state_invariant =
  fixes I :: "world \<Rightarrow> bool"
  assumes same: "I v \<Longrightarrow> st v' = st v \<Longrightarrow> I v'"
    and gone: "I v \<Longrightarrow> st v' = (st v)(s := None) \<Longrightarrow> I v'"
    and born: "I v \<Longrightarrow> st v' = (st v)(s \<mapsto> x) \<Longrightarrow> x \<in> {TCP_CLOSE, TCP_SYN_SENT, TCP_SYN_RECEIVED} \<Longrightarrow> I v'"
    and segment: "I v \<Longrightarrow> st v s = Some x \<Longrightarrow> seg_step x y \<Longrightarrow> st v' = (st v)(s \<mapsto> y) \<Longrightarrow> I v'"
    and user: "I v \<Longrightarrow> st v s = Some x \<Longrightarrow> user_step x y \<Longrightarrow> st v' = (st v)(s \<mapsto> y) \<Longrightarrow> I v'"
begin

definition keeps :: "world \<Rightarrow> world \<Rightarrow> bool" where
  "keeps v v' \<longleftrightarrow> (I v \<longrightarrow> I v')"

lemma keeps_same: "st v' = st v \<Longrightarrow> keeps v v'"
  using same by (auto simp: keeps_def)

lemma I_cong: "st v' = st v \<Longrightarrow> I v' = I v"
  using same by metis

lemma keeps_fields [simp]:
  "keeps v v" "keeps (v\<lparr>w_timers := ts\<rparr>) u = keeps v u" "keeps u (v\<lparr>w_timers := ts\<rparr>) = keeps u v"
  "keeps u (v\<lparr>w_net := n\<rparr>) = keeps u v"
  using I_cong [of "v\<lparr>w_timers := ts\<rparr>" v] I_cong [of "v\<lparr>w_net := n\<rparr>" v] by (simp_all add: keeps_def)

lemma handler_kept: "run_handler h s w = Some w' \<Longrightarrow> keeps w w'"
  using fsm_handler [of h s w w'] same gone user unfolding keeps_def by metis

lemma timer_visit_kept: "timer_visit busy t w = Some w' \<Longrightarrow> keeps w w'"
  by (auto simp: timer_visit_def split: if_splits elim!: bind_SomeE dest!: handler_kept)

lemma tcp_in_kept: "tcp_in skb w = Some (fate, w') \<Longrightarrow> keeps w w'"
  using fsm_tcp_in [of skb w fate w'] same gone segment born unfolding keeps_def by blast

lemma tcp_listen_kept: "tcp_listen s n w = Some (r, w') \<Longrightarrow> keeps w w'"
proof -
  assume a: "tcp_listen s n w = Some (r, w')"
  then obtain x where "st w s = Some x" by (auto simp: tcp_listen_def st_def elim!: bind_SomeE)
  with a show ?thesis using fsm_listen_op user unfolding keeps_def by blast
qed

lemma tcp_close_kept: "tcp_close s w = Some (r, w') \<Longrightarrow> keeps w w'"
proof -
  assume a: "tcp_close s w = Some (r, w')"
  then obtain x where "st w s = Some x" by (auto simp: tcp_close_def st_def elim!: bind_SomeE)
  with a show ?thesis using fsm_close user gone unfolding keeps_def by blast
qed

lemma begin_connect_kept: "tcp_begin_connect s w = Some (r, w') \<Longrightarrow> keeps w w'"
  using st_begin_connect [of s w r w'] same born unfolding keeps_def by blast

lemma tcp_alloc_kept: "tcp_alloc_sock w = Some (s, w') \<Longrightarrow> keeps w w'"
  using st_alloc_sock born unfolding keeps_def by blast

end

lemma st_accept_dequeue: "tcp_accept_dequeue s w = Some (c, w') \<Longrightarrow> st w' = st w"
  by (auto simp: tcp_accept_dequeue_def elim!: bind_SomeE)

sublocale state_invariant \<subseteq> run: run_relation keeps
proof unfold_locales
  fix u v w :: world
  show "keeps u v \<Longrightarrow> keeps v w \<Longrightarrow> keeps u w" by (simp add: keeps_def)
  show "keeps v w" if "udp_alloc_sock v = (s, w)" for s
    using st_udp_ops(4) [of v] that by (auto intro: keeps_same)
qed (auto intro: keeps_same st_put_same timer_visit_kept tcp_in_kept tcp_listen_kept tcp_close_kept
    begin_connect_kept tcp_alloc_kept fsm_write st_rings st_accept_dequeue st_udp_in st_udp_ops st_udp_write st_udp_sendto)

section \<open>States no connection gets into\<close>

text \<open>
  No segment moves a connection from \<open>FIN_WAIT_1\<close> to \<open>FIN_WAIT_2\<close>, so neither this state nor
  \<open>TIME_WAIT\<close> behind it is ever reached.
\<close>

definition never_waits :: "world \<Rightarrow> bool" where
  "never_waits w \<longleftrightarrow> (\<forall>s. st w s \<noteq> Some TCP_FIN_WAIT_2 \<and> st w s \<noteq> Some TCP_TIME_WAIT)"

interpretation waits: state_invariant never_waits
proof
  fix v v' :: world and s x y
  show "never_waits v'" if "never_waits v" "st v s = Some x" "seg_step x y" "st v' = (st v)(s \<mapsto> y)"
    using that by (auto simp: never_waits_def seg_step_simps split: if_splits)
  show "never_waits v'" if "never_waits v" "st v s = Some x" "user_step x y" "st v' = (st v)(s \<mapsto> y)"
    using that(3) that(1,2,4) by cases (auto simp: never_waits_def)
qed (auto simp: never_waits_def split: if_splits)


end
