(* ===== verification/Inet.thy ===== *)
theory Inet
  imports Stack
begin

text \<open>
  \<open>inet.c\<close> and \<open>sk_alloc\<close> of \<open>sock.c\<close>: the operations of the address family, which reach the
  transport protocol of a socket through its table \<open>sk->ops\<close>.

  A call through \<open>sock->sk\<close> needs a \<open>struct sock\<close> that exists; which table its \<open>ops\<close> points to
  is which of the two maps holds it.  A call through an entry of the table that is not set is
  \<open>None\<close>.
\<close>

section \<open>Tables of operations\<close>

datatype net_ops = Tcp_ops | Udp_ops

abbreviation SOCK_STREAM :: int where "SOCK_STREAM \<equiv> 1"
abbreviation SOCK_DGRAM :: int where "SOCK_DGRAM \<equiv> 2"

definition inet_ops :: "(net_ops \<times> int) list" where
  "inet_ops = [(Tcp_ops, SOCK_STREAM), (Udp_ops, SOCK_DGRAM)]"

text \<open>\<open>sock->sk\<close>, to be dereferenced.\<close>

definition sk_of :: "nat \<Rightarrow> world \<Rightarrow> sid option" where
  "sk_of so w = do {
     x \<leftarrow> w_sockets w so;
     (case so_sk x of Sk s \<Rightarrow> Some s | _ \<Rightarrow> None)
   }"

definition ops_of :: "sid \<Rightarrow> world \<Rightarrow> net_ops option" where
  "ops_of s w = (if w_tcp w s \<noteq> None then Some Tcp_ops else if w_udp w s \<noteq> None then Some Udp_ops else None)"

definition sport_of :: "sid \<Rightarrow> world \<Rightarrow> u16 option" where
  "sport_of s w =
     (case w_tcp w s of
        Some tsk \<Rightarrow> Some (sk_sport (tsk_sk tsk))
      | None \<Rightarrow> map_option sk_sport (w_udp w s))"

definition put_so :: "nat \<Rightarrow> socket \<Rightarrow> world \<Rightarrow> world" where
  "put_so so x w = w\<lparr>w_sockets := (w_sockets w)(so \<mapsto> x)\<rparr>"

section \<open>Creation\<close>

definition sk_alloc :: "net_ops \<Rightarrow> world \<Rightarrow> (sid \<times> world) option" where
  "sk_alloc ops w =
     (case ops of
        Tcp_ops \<Rightarrow> tcp_alloc_sock w
      | Udp_ops \<Rightarrow> Some (udp_alloc_sock w))"

definition inet_create :: "nat \<Rightarrow> int \<Rightarrow> world \<Rightarrow> (int \<times> world) option" where
  "inet_create so protocol w = do {
     x \<leftarrow> w_sockets w so;
     type \<leftarrow> so_type x;
     (case find_first (\<lambda>t. snd t AND type \<noteq> 0) inet_ops of
        None \<Rightarrow> Some (1, w)
      | Some t \<Rightarrow> do {
          (s, w) \<leftarrow> sk_alloc (fst t) w;
          w \<leftarrow> (case fst t of
                 Tcp_ops \<Rightarrow> upd_tsk s (on_sk (\<lambda>sk. sk_init_with_socket so (sk\<lparr>sk_protocol := protocol\<rparr>))) w
               | Udp_ops \<Rightarrow> upd_usk s (\<lambda>sk. sk_init_with_socket so (sk\<lparr>sk_protocol := protocol\<rparr>)) w);
          Some (0, put_so so (x\<lparr>so_ops := True, so_sk := Sk s\<rparr>) w)
        })
   }"

section \<open>Connecting, reading, writing\<close>

text \<open>A result that the caller has without sleeping.\<close>

definition at_once :: "(int \<times> world) \<Rightarrow> (int outcome \<times> world)" where
  "at_once r = (Returned (fst r), snd r)"

definition inet_connect :: "nat \<Rightarrow> sockaddr_in \<Rightarrow> env \<Rightarrow> world \<Rightarrow> (int outcome \<times> world) option" where
  "inet_connect so addr es w = do {
     s \<leftarrow> sk_of so w;
     sport \<leftarrow> sport_of s w;
     (if sport \<noteq> 0 then Some (Returned (-1), w)
      else do {
        ops \<leftarrow> ops_of s w;
        (case ops of
           Tcp_ops \<Rightarrow> tcp_v4_connect s addr es w
         | Udp_ops \<Rightarrow> map_option at_once (udp_connect s addr w))
      })
   }"

definition inet_write :: "nat \<Rightarrow> bytes \<Rightarrow> int \<Rightarrow> world \<Rightarrow> (rc \<times> world) option" where
  "inet_write so buf len' w = do {
     s \<leftarrow> sk_of so w;
     ops \<leftarrow> ops_of s w;
     (case ops of
        Tcp_ops \<Rightarrow> do { (r, w) \<leftarrow> tcp_write s buf (word_of_int len') w; Some (Rc r, w) }
      | Udp_ops \<Rightarrow> udp_write s buf (word_of_int len') w)
   }"

text \<open>What a read returns and stores in the buffer.\<close>

definition read_part :: "received outcome \<Rightarrow> (int \<times> bytes) outcome" where
  "read_part r = (case r of Returned x \<Rightarrow> Returned (rv_rc x, rv_bytes x) | Asleep \<Rightarrow> Asleep)"

definition inet_read :: "nat \<Rightarrow> int \<Rightarrow> env \<Rightarrow> world \<Rightarrow> ((int \<times> bytes) outcome \<times> world) option" where
  "inet_read so len' es w = do {
     s \<leftarrow> sk_of so w;
     ops \<leftarrow> ops_of s w;
     (case ops of
        Tcp_ops \<Rightarrow> tcp_read s (word_of_int len') es w
      | Udp_ops \<Rightarrow> do { (r, w) \<leftarrow> udp_read s (word_of_int len') es w; Some (read_part r, w) })
   }"

text \<open>\<open>size_t len\<close> is passed on as \<open>uint\<close>.  \<open>tcp_ops\<close> has neither entry.\<close>

definition inet_sendto :: "nat \<Rightarrow> bytes \<Rightarrow> int \<Rightarrow> sockaddr_in option \<Rightarrow> world \<Rightarrow> (rc \<times> world) option" where
  "inet_sendto so buf len' saddr w = do {
     s \<leftarrow> sk_of so w;
     ops \<leftarrow> ops_of s w;
     (case ops of
        Tcp_ops \<Rightarrow> None
      | Udp_ops \<Rightarrow> udp_sendto s buf (word_of_int len') saddr w)
   }"

definition inet_recvfrom :: "nat \<Rightarrow> int \<Rightarrow> env \<Rightarrow> world \<Rightarrow> (received outcome \<times> world) option" where
  "inet_recvfrom so len' es w = do {
     s \<leftarrow> sk_of so w;
     ops \<leftarrow> ops_of s w;
     (case ops of
        Tcp_ops \<Rightarrow> None
      | Udp_ops \<Rightarrow> udp_recvfrom s (word_of_int len') es w)
   }"

section \<open>Closing\<close>

text \<open>\<open>pthread_mutex_lock\<close> on \<open>sk->lock\<close>: a second lock by the same thread does not return.\<close>

definition lock_sk :: "sid \<Rightarrow> world \<Rightarrow> world option" where
  "lock_sk s w =
     (case w_tcp w s of
        Some tsk \<Rightarrow> if sk_lock (tsk_sk tsk) then None else upd_tsk s (on_sk (\<lambda>sk. sk\<lparr>sk_lock := True\<rparr>)) w
      | None \<Rightarrow> do {
          usk \<leftarrow> w_udp w s;
          (if sk_lock usk then None else upd_usk s (\<lambda>sk. sk\<lparr>sk_lock := True\<rparr>) w)
        })"

text \<open>\<open>err = sk->err; pthread_mutex_unlock (&sk->lock)\<close>: the structure must still be there.\<close>

definition err_unlock :: "sid \<Rightarrow> world \<Rightarrow> (int \<times> world) option" where
  "err_unlock s w =
     (case w_tcp w s of
        Some tsk \<Rightarrow> Some (sk_err (tsk_sk tsk), put_tsk s (on_sk (\<lambda>sk. sk\<lparr>sk_lock := False\<rparr>) tsk) w)
      | None \<Rightarrow> do {
          usk \<leftarrow> w_udp w s;
          Some (sk_err usk, put_usk s (usk\<lparr>sk_lock := False\<rparr>) w)
        })"

definition inet_close :: "nat \<Rightarrow> world \<Rightarrow> (int \<times> world) option" where
  "inet_close so w = do {
     s \<leftarrow> sk_of so w;
     w \<leftarrow> lock_sk s w;
     ops \<leftarrow> ops_of s w;
     (r, w) \<leftarrow> (case ops of Tcp_ops \<Rightarrow> tcp_close s w | Udp_ops \<Rightarrow> udp_close s w);
     err_unlock s w
   }"

text \<open>\<open>free (sock->sk)\<close> after \<open>sk_free\<close>; the structure stays on whatever ring it is on.\<close>

definition inet_free :: "nat \<Rightarrow> world \<Rightarrow> (int \<times> world) option" where
  "inet_free so w = do {
     s \<leftarrow> sk_of so w;
     (case w_tcp w s of
        Some tsk \<Rightarrow> do {
          sk \<leftarrow> sk_free (tsk_sk tsk);
          Some (0, w\<lparr>w_tcp := (w_tcp w)(s := None), w_links := clear_nodes s (w_links w)\<rparr>)
        }
      | None \<Rightarrow> do {
          usk \<leftarrow> w_udp w s;
          sk \<leftarrow> sk_free usk;
          Some (0, w\<lparr>w_udp := (w_udp w)(s := None), w_links := clear_nodes s (w_links w)\<rparr>)
        })
   }"

section \<open>Binding, listening, accepting\<close>

definition inet_bind :: "nat \<Rightarrow> sockaddr_in \<Rightarrow> world \<Rightarrow> (int \<times> world) option" where
  "inet_bind so addr w = do {
     s \<leftarrow> sk_of so w;
     sport \<leftarrow> sport_of s w;
     let bindaddr = ntohl (sin_addr addr);
     let bindport = ntohs (sin_port addr);
     (if sport \<noteq> 0 then Some (-1, w)
      else if \<not> local_ipaddress (w_net w) bindaddr then Some (-1, w)
      else do {
        ops \<leftarrow> ops_of s w;
        (case ops of
           Udp_ops \<Rightarrow> udp_bind s addr w
         | Tcp_ops \<Rightarrow> do {
             w \<leftarrow> upd_tsk s (on_sk (\<lambda>sk. sk\<lparr>sk_saddr := bindaddr\<rparr>)) w;
             (err, w) \<leftarrow> tcp_set_sport s bindport w;
             (if err < 0
              then do { w \<leftarrow> upd_tsk s (on_sk (\<lambda>sk. sk\<lparr>sk_saddr := 0\<rparr>)) w; Some (err, w) }
              else do { w \<leftarrow> upd_tsk s (on_sk (\<lambda>sk. sk\<lparr>sk_dport := 0, sk_daddr := 0\<rparr>)) w; Some (0, w) })
           })
      })
   }"

definition inet_listen :: "nat \<Rightarrow> int \<Rightarrow> world \<Rightarrow> (int \<times> world) option" where
  "inet_listen so n w = do {
     x \<leftarrow> w_sockets w so;
     type \<leftarrow> so_type x;
     (if type \<noteq> SOCK_STREAM then Some (-1, w)
      else do {
        s \<leftarrow> sk_of so w;
        ops \<leftarrow> ops_of s w;
        (case ops of Tcp_ops \<Rightarrow> tcp_listen s n w | Udp_ops \<Rightarrow> None)
      })
   }"

text \<open>
  \<open>inet_accept\<close>: the peer's address goes to the caller, the new \<open>struct socket\<close> gets the
  connection, whose queues are initialised.
\<close>

definition inet_accept ::
    "nat \<Rightarrow> nat \<Rightarrow> env \<Rightarrow> world \<Rightarrow> ((int \<times> sockaddr_in option) outcome \<times> world) option" where
  "inet_accept so newso es w = do {
     x \<leftarrow> w_sockets w so;
     (case so_sk x of
        Unset \<Rightarrow> None
      | Null \<Rightarrow> Some (Returned (-1, None), w)
      | Sk s \<Rightarrow> do {
          sport \<leftarrow> sport_of s w;
          (if sport = 0 then Some (Returned (-1, None), w)
           else do {
             ops \<leftarrow> ops_of s w;
             (case ops of
                Udp_ops \<Rightarrow> None
              | Tcp_ops \<Rightarrow> do {
                  (r, w) \<leftarrow> tcp_accept s es w;
                  (case r of
                     Asleep \<Rightarrow> Some (Asleep, w)
                   | Returned c \<Rightarrow> do {
                       tsk \<leftarrow> w_tcp w c;
                       y \<leftarrow> w_sockets w newso;
                       let w = put_tsk c (on_sk (sk_init_with_socket newso) tsk) w;
                       Some (Returned (0, Some \<lparr>sin_port = htons (sk_dport (tsk_sk tsk)),
                               sin_addr = htonl (sk_daddr (tsk_sk tsk))\<rparr>),
                             put_so newso (y\<lparr>so_sk := Sk c\<rparr>) w)
                     })
                })
           })
        })
   }"

section \<open>A fresh socket\<close>

lemma put_so_simps [simp]:
  "w_sockets (put_so so x w) = (w_sockets w)(so \<mapsto> x)" "w_net (put_so so x w) = w_net w"
  "w_links (put_so so x w) = w_links w" "w_tcp (put_so so x w) = w_tcp w" "w_udp (put_so so x w) = w_udp w"
  "w_next (put_so so x w) = w_next w" "w_fd (put_so so x w) = w_fd w" "w_others (put_so so x w) = w_others w"
  "w_timers (put_so so x w) = w_timers w" "w_socket_count (put_so so x w) = w_socket_count w"
  by (simp_all add: put_so_def)

text \<open>What \<open>inet_create\<close> makes of a \<open>struct socket\<close> of one of the two types.\<close>

lemma inet_create_ok:
  assumes "w_sockets w so = Some x" and "so_type x = Some t" and "t \<in> {SOCK_STREAM, SOCK_DGRAM}"
  shows "\<exists>w'. inet_create so protocol w = Some (0, w') \<and> w_next w' = w_next w + 1 \<and> w_fd w' = w_fd w \<and>
    w_sockets w' = (w_sockets w)(so \<mapsto> x\<lparr>so_ops := True, so_sk := Sk (w_next w)\<rparr>) \<and>
    agree (- nodes (w_next w)) (w_links w) (w_links w') \<and>
    (if t = SOCK_STREAM
     then w_tcp w' = (w_tcp w)(w_next w \<mapsto> on_sk (\<lambda>sk. sk_init_with_socket so (sk\<lparr>sk_protocol := protocol\<rparr>))
         tcp_sock_zero) \<and> w_udp w' = w_udp w
     else w_udp w' = (w_udp w)(w_next w \<mapsto> sk_init_with_socket so ((sock_zero UDP_UNCONNECTED)\<lparr>sk_protocol := protocol\<rparr>)) \<and>
         w_tcp w' = w_tcp w)"
proof (cases "t = SOCK_STREAM")
  case True
  then have f: "find_first (\<lambda>t'. snd t' AND t \<noteq> 0) inet_ops = Some (Tcp_ops, SOCK_STREAM)"
    by (simp add: inet_ops_def)
  obtain h where h: "tcp_alloc_sock w = Some (w_next w,
      put_tsk (w_next w) tcp_sock_zero (w\<lparr>w_next := w_next w + 1, w_links := h\<rparr>))"
    "agree (- nodes (w_next w)) (w_links w) h"
    using tcp_alloc_sock_ok by blast
  then show ?thesis
    using assms(1,2) f True by (simp add: inet_create_def sk_alloc_def put_tsk_def upd_tsk_def)
next
  case False
  then have f: "find_first (\<lambda>t'. snd t' AND t \<noteq> 0) inet_ops = Some (Udp_ops, SOCK_DGRAM)"
    using assms(3) by (simp add: inet_ops_def)
  then show ?thesis
    using assms(1,2) f False
    by (simp add: inet_create_def sk_alloc_def udp_alloc_sock_def Let_def clear_nodes_agree put_usk_def upd_usk_def)
qed

end
