(* ===== verification/Socket.thy ===== *)
theory Socket
  imports Inet
begin

text \<open>
  \<open>socket.c\<close>: the table of \<open>struct socket\<close>s, found by process and descriptor, and the calls a
  process makes on them.
\<close>

section \<open>The table\<close>

definition socket_sockets_enqueue :: "nat \<Rightarrow> world \<Rightarrow> world option" where
  "socket_sockets_enqueue so w = do {
     h \<leftarrow> list_add_tail (w_links w) (link_of so) SO_HEAD;
     Some (w\<lparr>w_links := h, w_socket_count := w_socket_count w + 1\<rparr>)
   }"

definition socket_sockets_remove :: "nat \<Rightarrow> world \<Rightarrow> world option" where
  "socket_sockets_remove so w = do {
     h \<leftarrow> list_del_init (w_links w) (link_of so);
     Some (w\<lparr>w_links := h, w_socket_count := w_socket_count w - 1\<rparr>)
   }"

text \<open>The memory is not cleared: \<open>type\<close> and \<open>sk\<close> are not set.\<close>

abbreviation O_RDWR :: int where "O_RDWR \<equiv> 2"

definition alloc_socket :: "int \<Rightarrow> world \<Rightarrow> (nat \<times> world) option" where
  "alloc_socket pid w = do {
     let so = w_next w;
     h \<leftarrow> list_init (clear_nodes so (w_links w)) (link_of so);
     Some (so, put_so so \<lparr>so_fd = w_fd w, so_pid = pid, so_type = None, so_flags = O_RDWR, so_sk = Unset,
                          so_ops = False\<rparr>
                 (w\<lparr>w_next := so + 1, w_links := h, w_fd := w_fd w + 1\<rparr>))
   }"

text \<open>
  \<open>free_socket\<close>; \<open>sock->sk->sock = NULL\<close> writes to the \<open>struct sock\<close>, which must exist.
\<close>

definition free_socket :: "nat \<Rightarrow> world \<Rightarrow> (int \<times> world) option" where
  "free_socket so w = do {
     x \<leftarrow> w_sockets w so;
     (r, w) \<leftarrow> (if so_ops x then inet_free so w else Some (0, w));
     h \<leftarrow> list_del (w_links w) (link_of so);
     let w = w\<lparr>w_links := h\<rparr>;
     x \<leftarrow> w_sockets w so;
     w \<leftarrow> (case so_sk x of
            Unset \<Rightarrow> None
          | Null \<Rightarrow> Some w
          | Sk s \<Rightarrow>
              (case w_tcp w s of
                 Some tsk \<Rightarrow> upd_tsk s (on_sk (\<lambda>sk. sk\<lparr>sk_socket := None\<rparr>)) w
               | None \<Rightarrow> upd_usk s (\<lambda>sk. sk\<lparr>sk_socket := None\<rparr>) w));
     Some (0, w\<lparr>w_sockets := (w_sockets w)(so := None), w_links := clear_nodes so (w_links w)\<rparr>)
   }"

definition get_socket :: "world \<Rightarrow> int \<Rightarrow> int \<Rightarrow> nat option option" where
  "get_socket w pid fd =
     ring_find (w_links w) SO_HEAD (\<lambda>so. do {
       x \<leftarrow> w_sockets w so;
       Some (so_pid x = pid \<and> so_fd x = fd)
     })"

section \<open>The calls\<close>

abbreviation AF_INET :: int where "AF_INET \<equiv> 2"

text \<open>\<open>families[domain]\<close> has 128 entries, of which one is set.\<close>

definition so_socket :: "int \<Rightarrow> int \<Rightarrow> int \<Rightarrow> int \<Rightarrow> world \<Rightarrow> (int \<times> world) option" where
  "so_socket pid domain type protocol w = do {
     (so, w) \<leftarrow> alloc_socket pid w;
     x \<leftarrow> w_sockets w so;
     let w = put_so so (x\<lparr>so_type := Some (sint (word_of_int type :: 16 word))\<rparr>) w;
     (if domain < 0 \<or> domain \<ge> 128 then None
      else if domain \<noteq> AF_INET then do { (r, w) \<leftarrow> free_socket so w; Some (-1, w) }
      else do {
        (r, w) \<leftarrow> inet_create so protocol w;
        (if r \<noteq> 0 then do { (r, w) \<leftarrow> free_socket so w; Some (-1, w) }
         else do {
           w \<leftarrow> socket_sockets_enqueue so w;
           x \<leftarrow> w_sockets w so;
           Some (so_fd x, w)
         })
      })
   }"

text \<open>\<open>sock->ops\<close> must be set when a call goes through it.\<close>

definition with_ops :: "nat \<Rightarrow> world \<Rightarrow> 'a option \<Rightarrow> 'a option" where
  "with_ops so w f = do { x \<leftarrow> w_sockets w so; (if so_ops x then f else None) }"

definition so_bind :: "int \<Rightarrow> int \<Rightarrow> sockaddr_in \<Rightarrow> world \<Rightarrow> (int \<times> world) option" where
  "so_bind pid fd addr w = do {
     sock \<leftarrow> get_socket w pid fd;
     (case sock of None \<Rightarrow> Some (-1, w) | Some so \<Rightarrow> with_ops so w (inet_bind so addr w))
   }"

definition so_connect :: "int \<Rightarrow> int \<Rightarrow> sockaddr_in \<Rightarrow> env \<Rightarrow> world \<Rightarrow> (int outcome \<times> world) option" where
  "so_connect pid fd addr es w = do {
     sock \<leftarrow> get_socket w pid fd;
     (case sock of None \<Rightarrow> Some (Returned (-1), w) | Some so \<Rightarrow> with_ops so w (inet_connect so addr es w))
   }"

text \<open>\<open>uint count\<close> becomes the \<open>int len\<close> of the operation.\<close>

definition so_write :: "int \<Rightarrow> int \<Rightarrow> bytes \<Rightarrow> u32 \<Rightarrow> world \<Rightarrow> (rc \<times> world) option" where
  "so_write pid fd buf count w = do {
     sock \<leftarrow> get_socket w pid fd;
     (case sock of None \<Rightarrow> Some (Rc (-1), w) | Some so \<Rightarrow> with_ops so w (inet_write so buf (sint count) w))
   }"

definition so_read :: "int \<Rightarrow> int \<Rightarrow> u32 \<Rightarrow> env \<Rightarrow> world \<Rightarrow> ((int \<times> bytes) outcome \<times> world) option" where
  "so_read pid fd count es w = do {
     sock \<leftarrow> get_socket w pid fd;
     (case sock of None \<Rightarrow> Some (Returned (-1, []), w) | Some so \<Rightarrow> with_ops so w (inet_read so (sint count) es w))
   }"

definition so_recvfrom :: "int \<Rightarrow> int \<Rightarrow> int \<Rightarrow> env \<Rightarrow> world \<Rightarrow> (received outcome \<times> world) option" where
  "so_recvfrom pid fd count es w = do {
     sock \<leftarrow> get_socket w pid fd;
     (case sock of
        None \<Rightarrow> Some (Returned \<lparr>rv_rc = -1, rv_bytes = [], rv_from = None\<rparr>, w)
      | Some so \<Rightarrow> with_ops so w (inet_recvfrom so count es w))
   }"

definition so_sendto :: "int \<Rightarrow> int \<Rightarrow> bytes \<Rightarrow> int \<Rightarrow> sockaddr_in option \<Rightarrow> world \<Rightarrow> (rc \<times> world) option" where
  "so_sendto pid fd buf len' saddr w = do {
     sock \<leftarrow> get_socket w pid fd;
     (case sock of None \<Rightarrow> Some (Rc (-1), w) | Some so \<Rightarrow> with_ops so w (inet_sendto so buf len' saddr w))
   }"

definition so_close :: "int \<Rightarrow> int \<Rightarrow> world \<Rightarrow> (int \<times> world) option" where
  "so_close pid fd w = do {
     sock \<leftarrow> get_socket w pid fd;
     (case sock of
        None \<Rightarrow> Some (-1, w)
      | Some so \<Rightarrow> do {
          (rc, w) \<leftarrow> with_ops so w (inet_close so w);
          (if rc = 0
           then do {
             w \<leftarrow> socket_sockets_remove so w;
             (r, w) \<leftarrow> free_socket so w;
             Some (rc, w)
           }
           else Some (rc, w))
        })
   }"

definition so_listen :: "int \<Rightarrow> int \<Rightarrow> int \<Rightarrow> world \<Rightarrow> (int \<times> world) option" where
  "so_listen pid fd n w =
     (if n < 0 then Some (-1, w)
      else do {
        sock \<leftarrow> get_socket w pid fd;
        (case sock of None \<Rightarrow> Some (-1, w) | Some so \<Rightarrow> with_ops so w (inet_listen so n w))
      })"

definition so_accept ::
    "int \<Rightarrow> int \<Rightarrow> env \<Rightarrow> world \<Rightarrow> ((int \<times> sockaddr_in option) outcome \<times> world) option" where
  "so_accept pid fd es w = do {
     sock \<leftarrow> get_socket w pid fd;
     (case sock of
        None \<Rightarrow> Some (Returned (-1, None), w)
      | Some so \<Rightarrow> do {
          (newso, w) \<leftarrow> alloc_socket pid w;
          x \<leftarrow> w_sockets w so;
          y \<leftarrow> w_sockets w newso;
          let w = put_so newso (y\<lparr>so_ops := so_ops x\<rparr>) w;
          (r, w) \<leftarrow> with_ops so w (inet_accept so newso es w);
          (case r of
             Asleep \<Rightarrow> Some (Asleep, w)
           | Returned (err, addr) \<Rightarrow>
               if err < 0
               then Some (Returned (-1, addr),
                 w\<lparr>w_sockets := (w_sockets w)(newso := None), w_links := clear_nodes newso (w_links w)\<rparr>)
               else do {
                 w \<leftarrow> socket_sockets_enqueue newso w;
                 y \<leftarrow> w_sockets w newso;
                 Some (Returned (so_fd y, addr), w)
               })
        })
   }"

section \<open>The table as a finite map\<close>

text \<open>
  The ring \<open>sockets\<close> holds \<open>sos\<close>, all of them live, with descriptors below the next one.
\<close>

definition so_table :: "world \<Rightarrow> nat list \<Rightarrow> bool" where
  "so_table w sos \<longleftrightarrow> ring_holds SO_HEAD w sos \<and> 0 < w_next w \<and> set sos \<subseteq> {0<..<w_next w} \<and>
     (\<forall>so\<in>set sos. \<exists>x. w_sockets w so = Some x \<and> so_fd x < w_fd w) \<and>
     dom (w_tcp w) \<union> dom (w_udp w) \<subseteq> {..<w_next w}"

definition so_match :: "world \<Rightarrow> int \<Rightarrow> int \<Rightarrow> nat \<Rightarrow> bool" where
  "so_match w pid fd so \<longleftrightarrow> (\<exists>x. w_sockets w so = Some x \<and> so_pid x = pid \<and> so_fd x = fd)"

lemma so_table_boot [simp]: "so_table (world_boot oth isns) []"
  by (simp add: so_table_def ring_holds_def dlist_def world_boot_def links_boot_def)

lemma get_socket_table:
  assumes "so_table w sos"
  shows "get_socket w pid fd = Some (find_first (so_match w pid fd) sos)"
  unfolding get_socket_def
proof (rule ring_holds_scan)
  show "ring_holds SO_HEAD w sos" using assms by (simp add: so_table_def)
  show "Option.bind (w_sockets w s) (\<lambda>x. Some (so_pid x = pid \<and> so_fd x = fd)) = Some (so_match w pid fd s)"
    if "s \<in> set sos" for s
    using assms that by (auto simp: so_table_def so_match_def)
qed

text \<open>A new socket is found under its descriptor, and no other lookup changes.\<close>

lemma so_match_fresh:
  assumes "so_table w sos" and "\<forall>so\<in>set sos. w_sockets w' so = w_sockets w so"
    and "so_match w' pid fd n \<longleftrightarrow> p = pid \<and> fd = w_fd w"
  shows "find_first (so_match w' pid fd) (sos @ [n]) =
    (if p = pid \<and> fd = w_fd w then Some n else find_first (so_match w pid fd) sos)"
proof -
  have eq: "find_first (so_match w' pid fd) sos = find_first (so_match w pid fd) sos"
    by (rule find_first_cong) (use assms(2) in \<open>simp add: so_match_def\<close>)
  have "find_first (so_match w pid fd) sos = None" if "fd = w_fd w"
    using assms(1) that by (fastforce simp: find_first_None so_match_def so_table_def)
  then show ?thesis using assms(3) eq by (auto simp: find_first_append split: option.splits)
qed

lemma alloc_socket_ok:
  "\<exists>h. alloc_socket pid w = Some (w_next w, put_so (w_next w)
      \<lparr>so_fd = w_fd w, so_pid = pid, so_type = None, so_flags = O_RDWR, so_sk = Unset, so_ops = False\<rparr>
      (w\<lparr>w_next := w_next w + 1, w_links := h, w_fd := w_fd w + 1\<rparr>)) \<and>
    agree (- nodes (w_next w)) (w_links w) h \<and> nxt h (link_of (w_next w)) = link_of (w_next w)"
proof -
  let ?n = "w_next w"
  obtain h where h: "list_init (clear_nodes ?n (w_links w)) (link_of ?n) = Some h" "dlist h (link_of ?n) []"
    using dlist_init [of "link_of ?n"] by auto
  have "agree (- nodes ?n) (w_links w) h"
    by (rule agree_trans [OF clear_nodes_agree agree_subset [OF list_init_agree [OF h(1)]]]) (simp add: nodes_def)
  moreover have "nxt h (link_of ?n) = link_of ?n" using h(2) by (simp add: dlist_def)
  ultimately show ?thesis using h(1) by (auto simp: alloc_socket_def Let_def)
qed

lemma so_ring_agree:
  assumes "so_table w sos" and "agree (- nodes n) (w_links w) h" and "w_next w \<le> n" and "w_links w' = h"
  shows "ring_holds SO_HEAD w' sos"
proof -
  have "agree (set (SO_HEAD # map link_of sos)) (w_links w) h"
  proof (rule agree_subset [OF assms(2)])
    have "0 < n" using assms(1,3) by (auto simp: so_table_def)
    moreover have "n \<notin> set sos" using assms(1,3) by (auto simp: so_table_def)
    ultimately show "set (SO_HEAD # map link_of sos) \<subseteq> - nodes n"
      by (auto simp: nodes_def link_of_def list_of_def listen_queue_of_def accept_queue_of_def) presburger+
  qed
  then show ?thesis
    using assms(1,4) dlist_agree by (auto simp: so_table_def ring_holds_def)
qed

lemma so_socket_ok:
  assumes tb: "so_table w sos" and ty: "type \<in> {SOCK_STREAM, SOCK_DGRAM}"
  shows "\<exists>w'. so_socket pid AF_INET type protocol w = Some (w_fd w, w') \<and> so_table w' (sos @ [w_next w]) \<and>
    sk_of (w_next w) w' = Some (w_next w + 1) \<and> sport_of (w_next w + 1) w' = Some 0 \<and>
    ops_of (w_next w + 1) w' = Some (if type = SOCK_STREAM then Tcp_ops else Udp_ops) \<and>
    (\<forall>p fd. get_socket w' p fd = (if pid = p \<and> fd = w_fd w then Some (Some (w_next w)) else get_socket w p fd))"
proof -
  let ?n = "w_next w"
  let ?x = "\<lparr>so_fd = w_fd w, so_pid = pid, so_type = Some type, so_flags = O_RDWR, so_sk = Unset, so_ops = False\<rparr>"
  obtain h where h: "alloc_socket pid w = Some (?n, put_so ?n
      \<lparr>so_fd = w_fd w, so_pid = pid, so_type = None, so_flags = O_RDWR, so_sk = Unset, so_ops = False\<rparr>
      (w\<lparr>w_next := ?n + 1, w_links := h, w_fd := w_fd w + 1\<rparr>))" "agree (- nodes ?n) (w_links w) h"
    using alloc_socket_ok by blast
  let ?w1 = "put_so ?n ?x (w\<lparr>w_next := ?n + 1, w_links := h, w_fd := w_fd w + 1\<rparr>)"
  obtain w2 where w2: "inet_create ?n protocol ?w1 = Some (0, w2)" "w_next w2 = ?n + 2" "w_fd w2 = w_fd w + 1"
    "w_sockets w2 = (w_sockets w)(?n \<mapsto> ?x\<lparr>so_ops := True, so_sk := Sk (?n + 1)\<rparr>)"
    "agree (- nodes (?n + 1)) h (w_links w2)"
    "if type = SOCK_STREAM
     then w_tcp w2 = (w_tcp w)(?n + 1 \<mapsto> on_sk (\<lambda>sk. sk_init_with_socket ?n (sk\<lparr>sk_protocol := protocol\<rparr>))
         tcp_sock_zero) \<and> w_udp w2 = w_udp w
     else w_udp w2 = (w_udp w)(?n + 1 \<mapsto> sk_init_with_socket ?n ((sock_zero UDP_UNCONNECTED)\<lparr>sk_protocol := protocol\<rparr>)) \<and>
         w_tcp w2 = w_tcp w"
    using inet_create_ok [of ?w1 ?n ?x type protocol] ty by auto
  have tb1: "so_table (w\<lparr>w_next := ?n + 1, w_links := h\<rparr>) sos"
    using tb so_ring_agree [OF tb h(2), of "w\<lparr>w_next := ?n + 1, w_links := h\<rparr>"] by (auto simp: so_table_def)
  have ring: "ring_holds SO_HEAD w2 sos"
    using so_ring_agree [OF tb1, of "?n + 1" "w_links w2" w2] w2(5) by simp
  have n: "?n \<notin> set sos" "0 < ?n" using tb by (auto simp: so_table_def)
  then have "link_of ?n \<noteq> SO_HEAD" by (simp add: link_of_def)
  then obtain h3 where h3: "list_add_tail (w_links w2) (link_of ?n) SO_HEAD = Some h3"
    "ring_holds SO_HEAD (w2\<lparr>w_links := h3\<rparr>) (sos @ [?n])"
    using ring_holds_enq [OF ring n(1)] by blast
  let ?w' = "w2\<lparr>w_links := h3, w_socket_count := w_socket_count w2 + 1\<rparr>"
  have ring': "ring_holds SO_HEAD ?w' (sos @ [?n])" using h3(2) by (simp add: ring_holds_def)
  have "sint (word_of_int type :: 16 word) = type" using ty by auto
  then have run: "so_socket pid AF_INET type protocol w = Some (w_fd w, ?w')"
    using h(1) w2(1,4) h3(1) by (simp add: so_socket_def socket_sockets_enqueue_def Let_def put_so_def)
  have old: "w_sockets ?w' so = w_sockets w so" if "so \<in> set sos" for so
    using that n w2(4) by auto
  have live: "\<exists>x. w_sockets ?w' so = Some x \<and> so_fd x < w_fd ?w'" if "so \<in> set (sos @ [?n])" for so
    using that tb old w2(3,4) by (fastforce simp: so_table_def)
  have "dom (w_tcp ?w') \<union> dom (w_udp ?w') \<subseteq> {..<w_next ?w'}"
    using tb w2(2,6) by (auto simp: so_table_def split: if_splits)
  then have tb': "so_table ?w' (sos @ [?n])"
    using ring' live w2(2) tb n(2) unfolding so_table_def by auto
  have fresh: "w_tcp w (?n + 1) = None" using tb by (auto simp: so_table_def)
  have look: "get_socket ?w' p fd = (if pid = p \<and> fd = w_fd w then Some (Some ?n) else get_socket w p fd)" for p fd
    using so_match_fresh [OF tb, of ?w' p fd ?n pid] old w2(4)
    unfolding get_socket_table [OF tb] get_socket_table [OF tb'] by (auto simp: so_match_def)
  have "sk_of ?n ?w' = Some (?n + 1)" using w2(4) by (simp add: sk_of_def)
  moreover have "sport_of (?n + 1) ?w' = Some 0" "ops_of (?n + 1) ?w' = Some (if type = SOCK_STREAM then Tcp_ops else Udp_ops)"
    using w2(6) fresh
    by (auto simp: sport_of_def ops_of_def sk_init_with_socket_def sk_init_def tcp_sock_zero_def sock_zero_def
        split: if_splits)
  ultimately show ?thesis using run tb' look by blast
qed

text \<open>
  \<open>_socket\<close> returns the next descriptor; the new socket is of the family's kind for its type, it
  is what later calls with that process and descriptor find, and no other lookup changes.
\<close>

lemma so_socket_opens:
  assumes tb: "so_table w sos" and ty: "type \<in> {SOCK_STREAM, SOCK_DGRAM}"
  shows "\<exists>w'. so_socket pid AF_INET type protocol w = Some (w_fd w, w') \<and> so_table w' (sos @ [w_next w]) \<and>
    sk_of (w_next w) w' = Some (w_next w + 1) \<and> sport_of (w_next w + 1) w' = Some 0 \<and>
    ops_of (w_next w + 1) w' = Some (if type = SOCK_STREAM then Tcp_ops else Udp_ops) \<and>
    (\<forall>p fd. get_socket w' p fd = (if pid = p \<and> fd = w_fd w then Some (Some (w_next w)) else get_socket w p fd))"
  using assms by (rule so_socket_ok)

section \<open>Closing\<close>

lemma sk_free_ok:
  assumes "queue_inv (sk_receive_queue sk)" and "queue_inv (sk_write_queue sk)"
  shows "\<exists>sk'. sk_free sk = Some sk'"
  using skb_queue_free_empties [OF assms(1)] skb_queue_free_empties [OF assms(2)] by (auto simp: sk_free_def)

text \<open>\<open>tcp_close\<close> of an established connection queues its FIN, and nothing that it changes matters to the socket.\<close>

lemma tcp_queue_fin_ok:
  assumes c: "can_send w s tsk" and q: "queue_inv (sk_write_queue (tsk_sk tsk))"
      "length (q_items (sk_write_queue (tsk_sk tsk))) + 1 < 2 ^ 32"
  shows "\<exists>r n ts t. tcp_queue_fin s w = Some (r, put_tsk s t (w\<lparr>w_net := n, w_timers := ts\<rparr>)) \<and>
    queue_inv (sk_write_queue (tsk_sk t)) \<and> sk_receive_queue (tsk_sk t) = sk_receive_queue (tsk_sk tsk) \<and>
    sk_err (tsk_sk t) = sk_err (tsk_sk tsk)"
proof -
  obtain skb where skb: "tcp_set_flags (TCP_FIN OR TCP_ACK) (tcp_alloc_skb 0 0) = Some skb" "tcp_ready 5 skb"
    using tcp_ctl_skb by blast
  obtain r rt skb' n ts where t: "tcp_queue_transmit_skb s skb w =
      Some (r, put_tsk s (queued tsk rt skb') (w\<lparr>w_net := n, w_timers := ts\<rparr>))"
    using tcp_queue_transmit_total [OF c skb(2)] by blast
  let ?t = "on_tcb (\<lambda>tcb. tcb\<lparr>snd_nxt := snd_nxt tcb + 1\<rparr>) (queued tsk rt skb')"
  have "tcp_queue_fin s w = Some (r, put_tsk s ?t (w\<lparr>w_net := n, w_timers := ts\<rparr>))"
    using skb(1) t by (simp add: tcp_queue_fin_def put_tsk_def)
  moreover have "queue_inv (sk_write_queue (tsk_sk ?t))"
    using queue_inv_tail [OF q] by (simp add: queued_def)
  ultimately show ?thesis by (intro exI [of _ r] exI [of _ n] exI [of _ ts] exI [of _ ?t]) (simp add: queued_def)
qed

text \<open>
  C31.  Closing an established connection uses memory after it was freed.  All goes well until
  \<open>free_socket\<close>: the transport closes without an error and the socket leaves the table.  Then \<open>inet_free\<close>
  returns after it has freed the \<open>struct sock\<close>, \<open>sock->sk\<close> still points to it, and the next
  statement stores into it.
\<close>

theorem so_close_uses_freed:
  assumes tb: "so_table w sos" "get_socket w pid fd = Some (Some so)" "so \<in> set sos"
    and x: "w_sockets w so = Some x" "so_ops x" "so_sk x = Sk s"
    and t: "can_send w s tsk" "w_udp w s = None" "tsk_state tsk = TCP_ESTABLISHED" "\<not> sk_lock (tsk_sk tsk)"
      "sk_err (tsk_sk tsk) = 0"
    and q: "queue_inv (sk_receive_queue (tsk_sk tsk))" "queue_inv (sk_write_queue (tsk_sk tsk))"
      "length (q_items (sk_write_queue (tsk_sk tsk))) + 1 < 2 ^ 32"
  shows "\<exists>w1 w2 w3. inet_close so w = Some (0, w1) \<and> socket_sockets_remove so w1 = Some w2 \<and>
    inet_free so w2 = Some (0, w3) \<and> sk_of so w3 = Some s \<and> w_tcp w3 s = None \<and> w_udp w3 s = None \<and>
    so_close pid fd w = None"
proof -
  have w: "w_tcp w s = Some tsk" using t(1) by (simp add: can_send_def)
  let ?l = "on_sk (\<lambda>sk. sk\<lparr>sk_lock := True\<rparr>) tsk"
  have c: "can_send (put_tsk s ?l w) s ?l" using t(1) by (simp add: can_send_def timers_live_def)
  obtain r n ts f where fin: "tcp_queue_fin s (put_tsk s ?l w) =
      Some (r, put_tsk s f ((put_tsk s ?l w)\<lparr>w_net := n, w_timers := ts\<rparr>))" "queue_inv (sk_write_queue (tsk_sk f))"
      "sk_receive_queue (tsk_sk f) = sk_receive_queue (tsk_sk tsk)" "sk_err (tsk_sk f) = 0"
    using tcp_queue_fin_ok [OF c] q t(5) by auto
  let ?f = "on_sk (\<lambda>sk. sk\<lparr>sk_lock := False\<rparr>) (on_sk (\<lambda>sk. sk\<lparr>sk_state := TCP_FIN_WAIT_1\<rparr>) f)"
  let ?w1 = "put_tsk s ?f (w\<lparr>w_net := n, w_timers := ts\<rparr>)"
  have sk: "sk_of so w = Some s" using x by (simp add: sk_of_def)
  have cl: "inet_close so w = Some (0, ?w1)"
    using sk w t(3,4) fin(1,4)
    by (simp add: inet_close_def lock_sk_def ops_of_def tcp_close_def tcp_set_state_def err_unlock_def put_tsk_def)
  obtain us vs where "sos = us @ so # vs" using split_list [OF tb(3)] by blast
  then obtain h where h: "list_del_init (w_links w) (link_of so) = Some h" "nxt h (link_of so) = link_of so"
    "prv h (link_of so) = link_of so"
    using dlist_del_init [of "w_links w" SO_HEAD "map link_of us" "link_of so" "map link_of vs"] tb(1)
    by (auto simp: so_table_def ring_holds_def dlist_def)
  let ?w2 = "?w1\<lparr>w_links := h, w_socket_count := w_socket_count w - 1\<rparr>"
  have rm: "socket_sockets_remove so ?w1 = Some ?w2" using h(1) by (simp add: socket_sockets_remove_def put_tsk_def)
  obtain sk' where fr: "sk_free (tsk_sk ?f) = Some sk'" using sk_free_ok [of "tsk_sk ?f"] fin(2,3) q(1) by auto
  let ?w3 = "?w2\<lparr>w_tcp := (w_tcp ?w2)(s := None), w_links := clear_nodes s (w_links ?w2)\<rparr>"
  have fe: "inet_free so ?w2 = Some (0, ?w3)" using sk fr by (simp add: inet_free_def sk_of_def)
  have gone: "sk_of so ?w3 = Some s" "w_tcp ?w3 s = None" "w_udp ?w3 s = None" using sk t(2) by (simp_all add: sk_of_def)
  have "free_socket so ?w2 = None"
    using x fe gone(2,3) by (cases "list_del (w_links ?w3) (link_of so)") (simp_all add: free_socket_def upd_usk_def Let_def)
  then have "so_close pid fd w = None"
    using tb(2) x cl rm by (simp add: so_close_def with_ops_def)
  then show ?thesis using cl rm fe gone by blast
qed

text \<open>What \<open>tcp_free_sock\<close> needs beside the lock.\<close>

lemma tcp_free_sock_returns:
  assumes "w_tcp w s = Some tsk" and "\<not> sk_lock (tsk_sk tsk)" and "timers_live (w_timers w) tsk"
    and "queue_inv (sk_receive_queue (tsk_sk tsk))" and "queue_inv (sk_write_queue (tsk_sk tsk))"
    and "queue_inv (tsk_ofo_queue tsk)" and "sk_socket (tsk_sk tsk) = Some so" and "w_sockets w so = Some x"
  shows "\<exists>w'. tcp_free_sock s w = Some w'"
proof -
  let ?c = "on_sk (\<lambda>sk. sk\<lparr>sk_state := TCP_CLOSE\<rparr>) tsk"
  let ?c1 = "?c\<lparr>tsk_retransmit := None\<rparr>"
  let ?c2 = "?c1\<lparr>tsk_delack := None\<rparr>"
  have l: "timers_live (w_timers (put_tsk s ?c w)) ?c" using assms(3) by (simp add: timers_live_def)
  obtain ts where r: "tcp_stop_retransmission_timer s (put_tsk s ?c w) = Some (put_tsk s ?c1 (w\<lparr>w_timers := ts\<rparr>))"
    "timers_live ts ?c1"
    using tcp_stop_retransmission_timer_ok [of "put_tsk s ?c w" s ?c] l by (auto simp: put_tsk_def)
  have l1: "timers_live (w_timers (put_tsk s ?c1 (w\<lparr>w_timers := ts\<rparr>))) ?c1" using r(2) by simp
  obtain ts' where d: "tcp_stop_delack_timer s (put_tsk s ?c1 (w\<lparr>w_timers := ts\<rparr>)) =
      Some (put_tsk s ?c2 (w\<lparr>w_timers := ts'\<rparr>))"
    using tcp_stop_delack_timer_ok [of "put_tsk s ?c1 (w\<lparr>w_timers := ts\<rparr>)" s ?c1] l1 by (auto simp: put_tsk_def)
  have "tsk_keepalive tsk = None" using assms(3) by (simp add: timers_live_def)
  then have ti: "tcp_clear_timers s (put_tsk s ?c w) = Some (put_tsk s ?c2 (w\<lparr>w_timers := ts'\<rparr>))"
    using r(1) d by (simp add: tcp_clear_timers_def timer_cancel_def put_tsk_def)
  obtain kept where "skb_queue_free (tsk_ofo_queue tsk) = Some (skb_queue_init, kept)"
    using skb_queue_free_empties [OF assms(6)] by blast
  then have q: "tcp_clear_queues s (put_tsk s ?c2 (w\<lparr>w_timers := ts'\<rparr>)) =
      Some (put_tsk s (?c2\<lparr>tsk_ofo_queue := skb_queue_init\<rparr>) (w\<lparr>w_timers := ts'\<rparr>))"
    by (simp add: tcp_clear_queues_def put_tsk_def)
  obtain sk' where "sk_free (tsk_sk ?c) = Some sk'" using sk_free_ok [of "tsk_sk ?c"] assms(4,5) by auto
  then show ?thesis using assms(1,2,7,8) ti q by (simp add: tcp_free_sock_def tcp_set_state_def)
qed

text \<open>
  C32.  Closing a listening socket does not return.  \<open>inet_close\<close> takes \<open>sk->lock\<close> and calls \<open>tcp_close\<close>, which
  takes the socket out of the table and calls \<open>tcp_free_sock\<close> with the lock still held; that call waits for
  the same lock.  Nothing else is in the way: were the lock free, \<open>tcp_free_sock\<close> would return.
\<close>

theorem so_close_listening_hangs:
  assumes so: "get_socket w pid fd = Some (Some so)" "w_sockets w so = Some x" "so_ops x" "so_sk x = Sk s"
    and t: "w_tcp w s = Some tsk" "tsk_state tsk = TCP_LISTEN" "\<not> sk_lock (tsk_sk tsk)" "timers_live (w_timers w) tsk"
      "sk_socket (tsk_sk tsk) = Some so"
    and tb: "tables w cs es" "s \<in> set cs"
    and q: "queue_inv (sk_receive_queue (tsk_sk tsk))" "queue_inv (sk_write_queue (tsk_sk tsk))" "queue_inv (tsk_ofo_queue tsk)"
  shows "\<exists>w1 w2 t. lock_sk s w = Some w1 \<and>
    Option.bind (tcp_set_state s TCP_CLOSE w1) (tcp_connecting_or_listening_socks_remove s) = Some w2 \<and>
    tcp_close s w1 = Option.bind (tcp_free_sock s w2) (\<lambda>w. Some (0, w)) \<and>
    w_tcp w2 s = Some t \<and> sk_lock (tsk_sk t) \<and> tcp_free_sock s w2 = None \<and>
    tcp_free_sock s (put_tsk s (on_sk (\<lambda>sk. sk\<lparr>sk_lock := False\<rparr>) t) w2) \<noteq> None \<and>
    so_close pid fd w = None"
proof -
  let ?l = "on_sk (\<lambda>sk. sk\<lparr>sk_lock := True\<rparr>) tsk"
  let ?t = "on_sk (\<lambda>sk. sk\<lparr>sk_state := TCP_CLOSE\<rparr>) ?l"
  have lk: "lock_sk s w = Some (put_tsk s ?l w)" using t(1,3) by (simp add: lock_sk_def)
  obtain us vs where cs: "cs = us @ s # vs" using split_list [OF tb(2)] by blast
  have "tables (put_tsk s ?t (put_tsk s ?l w)) (us @ s # vs) es"
    using tb(1) cs t(1) by (auto simp: tables_def ring_holds_def)
  then obtain h where h: "tcp_connecting_or_listening_socks_remove s (put_tsk s ?t (put_tsk s ?l w)) =
      Some ((put_tsk s ?t (put_tsk s ?l w))\<lparr>w_links := h\<rparr>)"
    using tables_cl_remove by blast
  let ?w2 = "(put_tsk s ?t (put_tsk s ?l w))\<lparr>w_links := h\<rparr>"
  let ?u = "on_sk (\<lambda>sk. sk\<lparr>sk_lock := False\<rparr>) ?t"
  have b: "Option.bind (tcp_set_state s TCP_CLOSE (put_tsk s ?l w)) (tcp_connecting_or_listening_socks_remove s) = Some ?w2"
    using h by (simp add: tcp_set_state_def)
  have cl: "tcp_close s (put_tsk s ?l w) = Option.bind (tcp_free_sock s ?w2) (\<lambda>w. Some (0, w))"
    using t(2) h by (simp add: tcp_close_def tcp_set_state_def)
  have none: "tcp_free_sock s ?w2 = None" by (simp add: tcp_free_sock_def)
  have "\<exists>w'. tcp_free_sock s (put_tsk s ?u ?w2) = Some w'"
    by (rule tcp_free_sock_returns [where tsk = ?u and so = so and x = x])
      (use t(4,5) q so(2) in \<open>simp_all add: timers_live_def\<close>)
  moreover have "inet_close so w = None"
    using so lk cl none by (simp add: inet_close_def sk_of_def ops_of_def)
  then have "so_close pid fd w = None" using so by (simp add: so_close_def with_ops_def)
  ultimately show ?thesis using lk b cl none by (intro exI [of _ "put_tsk s ?l w"] exI [of _ ?w2] exI [of _ ?t]) simp
qed

text \<open>
  A domain other than \<open>AF_INET\<close> is not answered with -1: \<open>free_socket\<close> reads \<open>sock->sk\<close>, which
  nothing has set.
\<close>

lemma so_socket_other_domain:
  assumes "domain \<noteq> AF_INET"
  shows "so_socket pid domain type protocol w = None"
proof -
  have gone: "free_socket so v = None" if "w_sockets v so = Some x" "so_sk x = Unset" "\<not> so_ops x" for so v x
    using that by (cases "list_del (w_links v) (link_of so)") (simp_all add: free_socket_def)
  obtain h where "alloc_socket pid w = Some (w_next w, put_so (w_next w)
      \<lparr>so_fd = w_fd w, so_pid = pid, so_type = None, so_flags = O_RDWR, so_sk = Unset, so_ops = False\<rparr>
      (w\<lparr>w_next := w_next w + 1, w_links := h, w_fd := w_fd w + 1\<rparr>))"
    using alloc_socket_ok by blast
  then show ?thesis using assms by (simp add: so_socket_def Let_def gone)
qed

text \<open>
  C28.  An unknown descriptor is answered with -1, and nothing changes.
\<close>

theorem so_unknown_fd:
  assumes "so_table w sos" and "\<forall>so\<in>set sos. \<not> so_match w pid fd so"
  shows "so_bind pid fd addr w = Some (-1, w) \<and> so_connect pid fd addr es w = Some (Returned (-1), w) \<and>
    so_write pid fd buf n w = Some (Rc (-1), w) \<and> so_read pid fd n es w = Some (Returned (-1, []), w) \<and>
    so_close pid fd w = Some (-1, w) \<and> so_listen pid fd k w = Some (-1, w) \<and>
    so_accept pid fd es w = Some (Returned (-1, None), w) \<and>
    so_sendto pid fd buf m a w = Some (Rc (-1), w) \<and>
    so_recvfrom pid fd m es w = Some (Returned \<lparr>rv_rc = -1, rv_bytes = [], rv_from = None\<rparr>, w)"
proof -
  have "get_socket w pid fd = Some None"
    using get_socket_table [OF assms(1)] assms(2) by (simp add: find_first_None)
  then show ?thesis
    by (simp add: so_bind_def so_connect_def so_write_def so_read_def so_close_def so_listen_def so_accept_def
        so_sendto_def so_recvfrom_def)
qed

end
