(* ===== verification/Ipc.thy ===== *)
theory Ipc
  imports Socket
begin

text \<open>
  \<open>ipc.c\<close>: the calls of other processes, as messages over a local socket.  A request is the
  4096-byte buffer of \<open>socket_ipc_open\<close>; a reply is the bytes handed to \<open>write\<close>.  The layouts
  are those of the packed structures of \<open>ipc.h\<close> on a little-endian machine with a 64-bit
  \<open>size_t\<close>.
\<close>

section \<open>Memory\<close>

type_synonym u64 = "64 word"

abbreviation IPC_BUFLEN :: nat where "IPC_BUFLEN \<equiv> 4096"

abbreviation IPC_SOCKET :: u16 where "IPC_SOCKET \<equiv> 1"
abbreviation IPC_CONNECT :: u16 where "IPC_CONNECT \<equiv> 2"
abbreviation IPC_WRITE :: u16 where "IPC_WRITE \<equiv> 3"
abbreviation IPC_READ :: u16 where "IPC_READ \<equiv> 4"
abbreviation IPC_CLOSE :: u16 where "IPC_CLOSE \<equiv> 5"
abbreviation IPC_BIND :: u16 where "IPC_BIND \<equiv> 6"
abbreviation IPC_ACCEPT :: u16 where "IPC_ACCEPT \<equiv> 7"
abbreviation IPC_LISTEN :: u16 where "IPC_LISTEN \<equiv> 8"
abbreviation IPC_SENDTO :: u16 where "IPC_SENDTO \<equiv> 9"
abbreviation IPC_RECVFROM :: u16 where "IPC_RECVFROM \<equiv> 10"

definition bytes64 :: "u64 \<Rightarrow> bytes" where
  "bytes64 v = bytes32 (ucast v) @ bytes32 (ucast (drop_bit 32 v))"

definition load64 :: "bytes \<Rightarrow> nat \<Rightarrow> u64 option" where
  "load64 b i = do {
     lo \<leftarrow> load32 b i;
     hi \<leftarrow> load32 b (i + 4);
     Some (ucast lo OR push_bit 32 (ucast hi))
   }"

definition store64 :: "bytes \<Rightarrow> nat \<Rightarrow> u64 \<Rightarrow> bytes option" where
  "store64 b i v = store_bytes b i (bytes64 v)"

text \<open>\<open>struct sockaddr_in\<close>: family, port, address and eight bytes of padding.\<close>

definition load_addr :: "bytes \<Rightarrow> nat \<Rightarrow> sockaddr_in option" where
  "load_addr b i = do {
     port \<leftarrow> load16 b (i + 2);
     addr \<leftarrow> load32 b (i + 4);
     Some \<lparr>sin_port = port, sin_addr = addr\<rparr>
   }"

section \<open>Reading a message field by field\<close>

named_theorems msg_simps \<open>loads from a message written as a concatenation of its fields\<close>

lemma length_bytes64 [simp]: "length (bytes64 x) = 8"
  by (simp add: bytes64_def)

lemma get16_skip: "get16 (xs @ ys) (length xs + i) = get16 ys i"
  by (simp add: get16_def nth_append)

lemma get32_skip: "get32 (xs @ ys) (length xs + i) = get32 ys i"
  by (simp only: get32_def add.assoc get16_skip)

lemma load_skip_plus:
  "load16 (xs @ ys) (length xs + i) = load16 ys i"
  "load32 (xs @ ys) (length xs + i) = load32 ys i"
  "load_bytes (xs @ ys) (length xs + i) n = load_bytes ys i n"
  by (simp_all add: load16_def load32_def load_bytes_def get16_skip get32_skip)

lemma load_skip_plus_more:
  "load64 (xs @ ys) (length xs + i) = load64 ys i"
  "load_addr (xs @ ys) (length xs + i) = load_addr ys i"
  by (simp_all only: load64_def load_addr_def add.assoc load_skip_plus)

lemma load_skip:
  assumes "length xs \<le> i"
  shows "load16 (xs @ ys) i = load16 ys (i - length xs)"
    "load32 (xs @ ys) i = load32 ys (i - length xs)"
    "load64 (xs @ ys) i = load64 ys (i - length xs)"
    "load_bytes (xs @ ys) i n = load_bytes ys (i - length xs) n"
    "load_addr (xs @ ys) i = load_addr ys (i - length xs)"
  using assms by (auto dest!: le_Suc_ex simp: load_skip_plus load_skip_plus_more)

lemmas load_skip16 [msg_simps] = load_skip [where xs = "bytes16 t" for t, unfolded length_bytes]
lemmas load_skip32 [msg_simps] = load_skip [where xs = "bytes32 v" for v, unfolded length_bytes]
lemmas load_skip64 [msg_simps] = load_skip [where xs = "bytes64 x" for x, unfolded length_bytes64]

lemma load_here [msg_simps]:
  "load16 (bytes16 t @ ys) 0 = Some t"
  "load32 (bytes32 v @ ys) 0 = Some v"
  by (simp_all add: load16_def load32_def get32_def get16_def bytes16_def bytes32_def nth_append numeral_2_eq_2 numeral_3_eq_3)

lemma load64_here [msg_simps]: "load64 (bytes64 x @ ys) 0 = Some x"
proof -
  have "ucast (ucast x :: u32) OR push_bit 32 (ucast (ucast (drop_bit 32 x) :: u32)) = x"
    by (rule bit_word_eqI) (auto simp: bit_simps)
  then show ?thesis
    by (simp add: load64_def bytes64_def msg_simps del: load_in_range)
qed

lemma load_bytes_here [msg_simps]: "load_bytes (d @ ys) 0 (length d) = Some d"
  by (simp add: load_bytes_def)

lemma load_addr_here [msg_simps]:
  "load_addr (addr @ ys) 0 = load_addr addr 0" if "length addr = 16"
  using that by (simp add: load_addr_def load16_def load32_def get32_def get16_def nth_append)

lemma put_bytes_front: "length xs \<le> length b \<Longrightarrow> put_bytes b 0 xs = xs @ drop (length xs) b"
  by (simp add: put_bytes_def)

text \<open>
  What a call finds around it: the descriptor of the connection, what \<open>alloca\<close> returns, what
  is in the return register when a callee has no \<open>return\<close>, what a further \<open>read\<close> on the
  connection yields (\<open>None\<close> for an error), and what happens while the call sleeps.
\<close>

record ipc_ctx =
  ie_sockfd :: int
  ie_junk :: "nat \<Rightarrow> u8"
  ie_reg :: int
  ie_more :: "bytes option"
  ie_env :: env

definition alloca :: "ipc_ctx \<Rightarrow> nat \<Rightarrow> bytes" where
  "alloca c n = map (ie_junk c) [0..<n]"

definition rc_value :: "ipc_ctx \<Rightarrow> rc \<Rightarrow> int" where
  "rc_value c r = (case r of Rc i \<Rightarrow> i | Indet \<Rightarrow> ie_reg c)"

text \<open>What a handler returns, and what it has written to the connection.\<close>

record ipc_reply =
  rp_rc :: int
  rp_out :: bytes

section \<open>Replies without data\<close>

definition ipc_write_rc :: "u32 \<Rightarrow> u16 \<Rightarrow> int \<Rightarrow> ipc_reply" where
  "ipc_write_rc pid type rc =
     \<lparr>rp_rc = 0, rp_out = bytes16 type @ bytes32 pid @
        (if rc < 0 then bytes32 (word_of_int (-1)) @ bytes32 (word_of_int (- rc))
         else bytes32 (word_of_int rc) @ bytes32 0)\<rparr>"

section \<open>Handlers\<close>

definition ipc_socket :: "ipc_ctx \<Rightarrow> bytes \<Rightarrow> world \<Rightarrow> (ipc_reply outcome \<times> world) option" where
  "ipc_socket c msg w = do {
     pid \<leftarrow> load32 msg 2;
     domain \<leftarrow> load32 msg 6;
     type \<leftarrow> load32 msg 10;
     protocol \<leftarrow> load32 msg 14;
     (rc, w) \<leftarrow> so_socket (sint pid) (sint domain) (sint type) (sint protocol) w;
     Some (Returned (ipc_write_rc pid IPC_SOCKET rc), w)
   }"

definition ipc_connect :: "ipc_ctx \<Rightarrow> bytes \<Rightarrow> world \<Rightarrow> (ipc_reply outcome \<times> world) option" where
  "ipc_connect c msg w = do {
     pid \<leftarrow> load32 msg 2;
     fd \<leftarrow> load32 msg 6;
     addr \<leftarrow> load_addr msg 10;
     (r, w) \<leftarrow> so_connect (sint pid) (sint fd) addr (ie_env c) w;
     Some (case r of Asleep \<Rightarrow> Asleep | Returned rc \<Rightarrow> Returned (ipc_write_rc pid IPC_CONNECT rc), w)
   }"

definition ipc_bind :: "ipc_ctx \<Rightarrow> bytes \<Rightarrow> world \<Rightarrow> (ipc_reply outcome \<times> world) option" where
  "ipc_bind c msg w = do {
     pid \<leftarrow> load32 msg 2;
     fd \<leftarrow> load32 msg 6;
     addr \<leftarrow> load_addr msg 10;
     (rc, w) \<leftarrow> so_bind (sint pid) (sint fd) addr w;
     Some (Returned (ipc_write_rc pid IPC_BIND rc), w)
   }"

definition ipc_listen :: "ipc_ctx \<Rightarrow> bytes \<Rightarrow> world \<Rightarrow> (ipc_reply outcome \<times> world) option" where
  "ipc_listen c msg w = do {
     pid \<leftarrow> load32 msg 2;
     fd \<leftarrow> load32 msg 6;
     n \<leftarrow> load32 msg 10;
     (rc, w) \<leftarrow> so_listen (sint pid) (sint fd) (sint n) w;
     Some (Returned (ipc_write_rc pid IPC_LISTEN rc), w)
   }"

definition ipc_close :: "ipc_ctx \<Rightarrow> bytes \<Rightarrow> world \<Rightarrow> (ipc_reply outcome \<times> world) option" where
  "ipc_close c msg w = do {
     pid \<leftarrow> load32 msg 2;
     fd \<leftarrow> load32 msg 6;
     (rc, w) \<leftarrow> so_close (sint pid) (sint fd) w;
     Some (Returned (ipc_write_rc pid IPC_CLOSE rc), w)
   }"

text \<open>
  The buffer of \<open>ipc_write\<close> and \<open>ipc_sendto\<close>: at most 4096 bytes of the message, from \<open>pos\<close> on,
  and the rest from the connection.  \<open>None\<close> inside: the \<open>read\<close> failed.
\<close>

definition ipc_payload :: "ipc_ctx \<Rightarrow> bytes \<Rightarrow> nat \<Rightarrow> u64 \<Rightarrow> bytes option option" where
  "ipc_payload c msg pos len' = do {
     let n = unat len';
     d \<leftarrow> load_bytes msg pos (min n IPC_BUFLEN);
     let buf = put_bytes (replicate n 0) 0 d;
     Some (if n > IPC_BUFLEN
           then map_option (\<lambda>m. put_bytes buf IPC_BUFLEN (take (n - IPC_BUFLEN) m)) (ie_more c)
           else Some buf)
   }"

definition ipc_write :: "ipc_ctx \<Rightarrow> bytes \<Rightarrow> world \<Rightarrow> (ipc_reply outcome \<times> world) option" where
  "ipc_write c msg w = do {
     pid \<leftarrow> load32 msg 2;
     fd \<leftarrow> load32 msg 6;
     len' \<leftarrow> load64 msg 10;
     buf \<leftarrow> ipc_payload c msg 18 len';
     (case buf of
        None \<Rightarrow> Some (Returned \<lparr>rp_rc = -1, rp_out = []\<rparr>, w)
      | Some buf \<Rightarrow> do {
          (r, w) \<leftarrow> so_write (sint pid) (sint fd) buf (ucast len') w;
          Some (Returned (ipc_write_rc pid IPC_WRITE (rc_value c r)), w)
        })
   }"

definition ipc_sendto :: "ipc_ctx \<Rightarrow> bytes \<Rightarrow> world \<Rightarrow> (ipc_reply outcome \<times> world) option" where
  "ipc_sendto c msg w = do {
     pid \<leftarrow> load32 msg 2;
     fd \<leftarrow> load32 msg 6;
     len' \<leftarrow> load64 msg 10;
     addr \<leftarrow> load_addr msg 18;
     buf \<leftarrow> ipc_payload c msg 34 len';
     (case buf of
        None \<Rightarrow> Some (Returned \<lparr>rp_rc = -1, rp_out = []\<rparr>, w)
      | Some buf \<Rightarrow> do {
          (r, w) \<leftarrow> so_sendto (sint pid) (sint fd) buf (sint (ucast len' :: u32)) (Some addr) w;
          Some (Returned (ipc_write_rc pid IPC_SENDTO (rc_value c r)), w)
        })
   }"

text \<open>The head of a reply with data: type, process, result and \<open>errno\<close>.\<close>

definition ipc_reply_head :: "bytes \<Rightarrow> u16 \<Rightarrow> u32 \<Rightarrow> int \<Rightarrow> int \<Rightarrow> bytes option" where
  "ipc_reply_head b type pid rc err = do {
     b \<leftarrow> store16 b 0 type;
     b \<leftarrow> store32 b 2 pid;
     b \<leftarrow> store32 b 6 (word_of_int rc);
     store32 b 10 (word_of_int err)
   }"

definition ipc_read :: "ipc_ctx \<Rightarrow> bytes \<Rightarrow> world \<Rightarrow> (ipc_reply outcome \<times> world) option" where
  "ipc_read c msg w = do {
     pid \<leftarrow> load32 msg 2;
     fd \<leftarrow> load32 msg 6;
     len' \<leftarrow> load64 msg 10;
     (r, w) \<leftarrow> so_read (sint pid) (sint fd) (ucast len') (ie_env c) w;
     (case r of
        Asleep \<Rightarrow> Some (Asleep, w)
      | Returned (rlen, out) \<Rightarrow> do {
          rbuf \<leftarrow> store_bytes (replicate (unat len') 0) 0 out;
          let b = alloca c (nat (26 + rlen));
          b \<leftarrow> ipc_reply_head b IPC_READ pid (if rlen < 0 then -1 else rlen) (if rlen < 0 then - rlen else 0);
          b \<leftarrow> store32 b 14 fd;
          b \<leftarrow> store64 b 18 (word_of_int rlen);
          d \<leftarrow> load_bytes rbuf 0 (if rlen > 0 then nat rlen else 0);
          b \<leftarrow> store_bytes b 26 d;
          Some (Returned \<lparr>rp_rc = 0, rp_out = b\<rparr>, w)
        })
   }"

text \<open>\<open>saddr\<close> points into the request, where \<open>udp_recvfrom\<close> stores the sender's address.\<close>

definition ipc_recvfrom :: "ipc_ctx \<Rightarrow> bytes \<Rightarrow> world \<Rightarrow> (ipc_reply outcome \<times> world) option" where
  "ipc_recvfrom c msg w = do {
     pid \<leftarrow> load32 msg 2;
     fd \<leftarrow> load32 msg 6;
     len' \<leftarrow> load64 msg 10;
     contain \<leftarrow> load32 msg 18;
     (r, w) \<leftarrow> so_recvfrom (sint pid) (sint fd) (sint (ucast len' :: u32)) (ie_env c) w;
     (case r of
        Asleep \<Rightarrow> Some (Asleep, w)
      | Returned rv \<Rightarrow> do {
          rbuf \<leftarrow> store_bytes (replicate (unat len') 0) 0 (rv_bytes rv);
          msg \<leftarrow> (case (contain \<noteq> 0, rv_from rv) of
                   (True, Some a) \<Rightarrow> do {
                     m \<leftarrow> store16 msg 22 2;
                     m \<leftarrow> store16 m 24 (sin_port a);
                     store32 m 26 (sin_addr a)
                   }
                 | _ \<Rightarrow> Some msg);
          let rlen = rv_rc rv;
          let b = alloca c (nat (46 + rlen));
          b \<leftarrow> ipc_reply_head b IPC_RECVFROM pid (if rlen < 0 then -1 else rlen) (if rlen < 0 then - rlen else 0);
          b \<leftarrow> store32 b 14 fd;
          b \<leftarrow> store64 b 18 (word_of_int rlen);
          b \<leftarrow> (if contain \<noteq> 0 then do { a \<leftarrow> load_bytes msg 22 16; store_bytes b 30 a } else Some b);
          d \<leftarrow> load_bytes rbuf 0 (if rlen > 0 then nat rlen else 0);
          b \<leftarrow> store_bytes b 46 d;
          Some (Returned \<lparr>rp_rc = 0, rp_out = b\<rparr>, w)
        })
   }"

definition ipc_accept :: "ipc_ctx \<Rightarrow> bytes \<Rightarrow> world \<Rightarrow> (ipc_reply outcome \<times> world) option" where
  "ipc_accept c msg w = do {
     pid \<leftarrow> load32 msg 2;
     fd \<leftarrow> load32 msg 6;
     contain \<leftarrow> load32 msg 10;
     (r, w) \<leftarrow> so_accept (sint pid) (sint fd) (ie_env c) w;
     (case r of
        Asleep \<Rightarrow> Some (Asleep, w)
      | Returned (rc, peer) \<Rightarrow> do {
          let addr = (case peer of
                 None \<Rightarrow> alloca c 16
               | Some a \<Rightarrow> put32 (put16 (alloca c 16) 2 (sin_port a)) 4 (sin_addr a));
          b \<leftarrow> ipc_reply_head (alloca c 38) IPC_ACCEPT pid rc 0;
          b \<leftarrow> store32 b 14 (word_of_int (ie_sockfd c));
          b \<leftarrow> (if contain \<noteq> 0 then store_bytes b 22 addr else Some b);
          Some (Returned \<lparr>rp_rc = 0, rp_out = b\<rparr>, w)
        })
   }"

definition demux_ipc_socket_call :: "ipc_ctx \<Rightarrow> bytes \<Rightarrow> world \<Rightarrow> (ipc_reply outcome \<times> world) option" where
  "demux_ipc_socket_call c msg w = do {
     type \<leftarrow> load16 msg 0;
     (if type = IPC_SOCKET then ipc_socket c msg w
      else if type = IPC_CONNECT then ipc_connect c msg w
      else if type = IPC_WRITE then ipc_write c msg w
      else if type = IPC_READ then ipc_read c msg w
      else if type = IPC_BIND then ipc_bind c msg w
      else if type = IPC_ACCEPT then ipc_accept c msg w
      else if type = IPC_CLOSE then ipc_close c msg w
      else if type = IPC_LISTEN then ipc_listen c msg w
      else if type = IPC_SENDTO then ipc_sendto c msg w
      else if type = IPC_RECVFROM then ipc_recvfrom c msg w
      else Some (Returned \<lparr>rp_rc = 0, rp_out = []\<rparr>, w))
   }"

section \<open>The thread of a connection\<close>

text \<open>The list \<open>connections\<close>, by the descriptors of its entries, and \<open>conn_count\<close>.\<close>

record ipc_conns =
  ic_socks :: "int list"
  ic_count :: int

definition ipc_connections_enqueue :: "int \<Rightarrow> ipc_conns \<Rightarrow> ipc_conns" where
  "ipc_connections_enqueue sock cs = cs\<lparr>ic_socks := ic_socks cs @ [sock], ic_count := ic_count cs + 1\<rparr>"

definition ipc_alloc_thread :: "int \<Rightarrow> ipc_conns \<Rightarrow> ipc_conns" where
  "ipc_alloc_thread sock cs = ipc_connections_enqueue sock cs"

definition ipc_free_thread :: "int \<Rightarrow> ipc_conns \<Rightarrow> ipc_conns" where
  "ipc_free_thread sock cs =
     (if sock \<in> set (ic_socks cs)
      then cs\<lparr>ic_socks := remove1 sock (ic_socks cs), ic_count := ic_count cs - 1\<rparr> else cs)"

text \<open>
  One round of the loop of \<open>socket_ipc_open\<close>: \<open>read\<close> puts what has arrived, at most 4096 bytes,
  to the front of the buffer, whose rest stays as it was.
\<close>

definition ipc_round :: "ipc_ctx \<Rightarrow> bytes \<Rightarrow> bytes \<Rightarrow> world \<Rightarrow> (bytes \<times> ipc_reply outcome \<times> world) option" where
  "ipc_round c buf arrived w = do {
     let buf = put_bytes buf 0 (take IPC_BUFLEN arrived);
     (r, w) \<leftarrow> demux_ipc_socket_call c buf w;
     Some (buf, r, w)
   }"

text \<open>
  The loop, over what the calls of \<open>read\<close> on \<open>sockfd\<close> return; an empty result (the end of the
  connection, or an error) ends it.  The result is what was written, and whether the thread
  ended.  A handler that fails ends it too, and leaves the entry on the list.
\<close>

fun socket_ipc_open ::
    "int \<Rightarrow> bytes \<Rightarrow> (ipc_ctx \<times> bytes) list \<Rightarrow> ipc_conns \<Rightarrow> world \<Rightarrow> (bytes list \<times> bool \<times> ipc_conns \<times> world) option" where
  "socket_ipc_open sockfd buf [] cs w = Some ([], False, cs, w)"
| "socket_ipc_open sockfd buf ((c, arrived) # rest) cs w =
     (if arrived = [] then Some ([], True, ipc_free_thread sockfd cs, w)
      else Option.bind (ipc_round (c\<lparr>ie_sockfd := sockfd\<rparr>) buf arrived w) (\<lambda>q.
        let buf = fst q; w = snd (snd q) in
        case fst (snd q) of
          Asleep \<Rightarrow> Some ([], False, cs, w)
        | Returned r \<Rightarrow>
            if rp_rc r = -1 then Some ([rp_out r], True, cs, w)
            else Option.bind (socket_ipc_open sockfd buf rest cs w) (\<lambda>t. Some (rp_out r # fst t, snd t))))"

section \<open>Laws\<close>

definition conns_counted :: "ipc_conns \<Rightarrow> bool" where
  "conns_counted cs \<longleftrightarrow> ic_count cs = int (length (ic_socks cs))"

lemma ipc_alloc_thread_counted: "conns_counted cs \<Longrightarrow> conns_counted (ipc_alloc_thread sock cs)"
  by (simp add: conns_counted_def ipc_alloc_thread_def ipc_connections_enqueue_def)

lemma ipc_free_thread_counted: "conns_counted cs \<Longrightarrow> conns_counted (ipc_free_thread sock cs)"
  by (auto simp: conns_counted_def ipc_free_thread_def length_remove1 in_set_conv_decomp)

lemma socket_ipc_open_counted:
  "socket_ipc_open sockfd buf rounds cs w = Some (outs, ended, cs', w') \<Longrightarrow> conns_counted cs \<Longrightarrow> conns_counted cs'"
  by (induction sockfd buf rounds cs w arbitrary: outs rule: socket_ipc_open.induct)
    (auto simp: ipc_free_thread_counted Let_def split: if_splits Option.bind_splits outcome.splits)

text \<open>A field stored into memory, seen as a concatenation.\<close>

lemma put16_append:
  "2 \<le> length ys \<Longrightarrow> put16 (xs @ ys) (length xs) v = xs @ bytes16 v @ drop 2 ys"
  by (cases ys; cases "tl ys") (auto simp: put16_def bytes16_def list_update_append)

lemma put32_append:
  assumes "4 \<le> length ys"
  shows "put32 (xs @ ys) (length xs) v = xs @ bytes32 v @ drop 4 ys"
proof -
  have "put32 (xs @ ys) (length xs) v =
      put16 ((xs @ bytes16 (lo16 v)) @ drop 2 ys) (length (xs @ bytes16 (lo16 v))) (hi16 v)"
    using assms by (simp add: put32_def put16_append)
  also have "\<dots> = (xs @ bytes16 (lo16 v)) @ bytes16 (hi16 v) @ drop 2 (drop 2 ys)"
    using assms by (intro put16_append) simp
  finally show ?thesis
    by (simp add: bytes32_def)
qed

lemma store_append [msg_simps]:
  "2 \<le> length ys \<Longrightarrow> store16 (xs @ ys) (length xs) v16 = Some (xs @ bytes16 v16 @ drop 2 ys)"
  "4 \<le> length ys \<Longrightarrow> store32 (xs @ ys) (length xs) v32 = Some (xs @ bytes32 v32 @ drop 4 ys)"
  "8 \<le> length ys \<Longrightarrow> store64 (xs @ ys) (length xs) v64 = Some (xs @ bytes64 v64 @ drop 8 ys)"
  "length d \<le> length ys \<Longrightarrow> store_bytes (xs @ ys) (length xs) d = Some (xs @ d @ drop (length d) ys)"
  by (simp_all add: store16_def store32_def store64_def store_bytes_def put16_append put32_append put_bytes_def)

lemma length_alloca [simp]: "length (alloca c n) = n"
  by (simp add: alloca_def)

lemma ipc_reply_head_fields:
  assumes "14 \<le> length b"
  shows "ipc_reply_head b t pid rc err =
    Some (bytes16 t @ bytes32 pid @ bytes32 (word_of_int rc) @ bytes32 (word_of_int err) @ drop 14 b)"
proof -
  have 1: "store16 b 0 t = Some (bytes16 t @ drop 2 b)"
    using store_append(1) [of b "[]"] assms by simp
  have 2: "store32 (bytes16 t @ drop 2 b) 2 pid = Some (bytes16 t @ bytes32 pid @ drop 6 b)"
    using store_append(2) [of "drop 2 b" "bytes16 t"] assms by (simp del: store_in_range)
  have 3: "store32 (bytes16 t @ bytes32 pid @ drop 6 b) 6 v = Some (bytes16 t @ bytes32 pid @ bytes32 v @ drop 10 b)" for v
    using store_append(2) [of "drop 6 b" "bytes16 t @ bytes32 pid"] assms by (simp del: store_in_range)
  have 4: "store32 (bytes16 t @ bytes32 pid @ bytes32 u @ drop 10 b) 10 v =
      Some (bytes16 t @ bytes32 pid @ bytes32 u @ bytes32 v @ drop 14 b)" for u v
    using store_append(2) [of "drop 10 b" "bytes16 t @ bytes32 pid @ bytes32 u"] assms by (simp del: store_in_range)
  show ?thesis
    by (simp only: ipc_reply_head_def 1 2 3 4 bind.bind_lunit)
qed

text \<open>What \<open>ipc_read\<close> answers when \<open>_read\<close> has returned \<open>out\<close>.\<close>

definition read_reply :: "u32 \<Rightarrow> u32 \<Rightarrow> bytes \<Rightarrow> bytes" where
  "read_reply pid fd out = bytes16 IPC_READ @ bytes32 pid @ bytes32 (word_of_int (int (length out))) @ bytes32 0 @
     bytes32 fd @ bytes64 (word_of_int (int (length out))) @ out"

lemma ipc_read_replies:
  assumes msg: "msg = bytes16 t @ bytes32 pid @ bytes32 fd @ bytes64 len' @ rest"
    and rd: "so_read (sint pid) (sint fd) (ucast len') (ie_env c) w = Some (Returned (int (length out), out), w')"
    and fits: "length out \<le> unat len'"
  shows "ipc_read c msg w = Some (Returned \<lparr>rp_rc = 0, rp_out = read_reply pid fd out\<rparr>, w')"
proof -
  let ?n = "length out"
  let ?b = "alloca c (26 + ?n)"
  let ?h = "bytes16 IPC_READ @ bytes32 pid @ bytes32 (word_of_int (int ?n)) @ bytes32 0"
  have ints: "nat (26 + int ?n) = 26 + ?n" "(if 0 < int ?n then nat (int ?n) else 0) = ?n"
      "(if int ?n < 0 then - 1 else int ?n) = int ?n" "(if int ?n < 0 then - int ?n else 0) = 0"
    by simp_all
  have 0: "load32 msg 2 = Some pid" "load32 msg 6 = Some fd" "load64 msg 10 = Some len'"
    unfolding msg by (simp_all add: msg_simps del: load_in_range)
  have 1: "store_bytes (replicate (unat len') 0) 0 out = Some (put_bytes (replicate (unat len') 0) 0 out)"
    using fits by simp
  have 2: "load_bytes (put_bytes (replicate (unat len') 0) 0 out) 0 ?n = Some out"
    using fits by (simp add: put_bytes_def)
  have 3: "ipc_reply_head ?b IPC_READ pid (int ?n) 0 = Some (?h @ drop 14 ?b)"
    by (simp add: ipc_reply_head_fields)
  have 4: "store32 (?h @ drop 14 ?b) 14 fd = Some ((?h @ bytes32 fd) @ drop 18 ?b)"
    using store_append(2) [of "drop 14 ?b" ?h] by (simp del: store_in_range)
  have 5: "store64 ((?h @ bytes32 fd) @ drop 18 ?b) 18 v = Some ((?h @ bytes32 fd @ bytes64 v) @ drop 26 ?b)" for v
    using store_append(3) [of "drop 18 ?b" "?h @ bytes32 fd"] by (simp del: store_in_range)
  have 6: "store_bytes ((?h @ bytes32 fd @ bytes64 v) @ drop 26 ?b) 26 out = Some (?h @ bytes32 fd @ bytes64 v @ out)" for v
    using store_append(4) [of out "drop 26 ?b" "?h @ bytes32 fd @ bytes64 v"] by (simp del: store_in_range)
  show ?thesis
    by (simp only: ipc_read_def 0 rd 1 2 3 [unfolded append_assoc] 4 [unfolded append_assoc] 5 [unfolded append_assoc]
        6 [unfolded append_assoc] ints read_reply_def bind.bind_lunit prod.case outcome.case Let_def append_assoc)
qed

text \<open>A read that failed: the reply is one byte, or more, too short for its own fields.\<close>

lemma ipc_read_overruns:
  assumes "load32 msg 2 = Some pid" and "load32 msg 6 = Some fd" and "load64 msg 10 = Some len'"
    and "so_read (sint pid) (sint fd) (ucast len') (ie_env c) w = Some (Returned (rlen, out), w')"
    and "rlen < 0"
  shows "ipc_read c msg w = None"
proof (cases "ipc_read c msg w")
  case (Some q)
  have len: "length b' = length b" if "ipc_reply_head b t p r e = Some b'" for b b' t p r e
    using that by (auto simp: ipc_reply_head_def dest!: store_length elim!: bind_SomeE)
  have st: "store64 b 18 v = None" if "length b < 26" for b v
    using that by (simp add: store64_def store_bytes_def)
  show ?thesis
    using Some assms
    by (auto simp: ipc_read_def st Let_def dest!: len store_length elim!: bind_SomeE)
qed

text \<open>The command buffer has 4096 bytes, the data of a message start at \<open>pos\<close>.\<close>

lemma ipc_payload_overread:
  "length msg = IPC_BUFLEN \<Longrightarrow> 0 < pos \<Longrightarrow> IPC_BUFLEN < pos + unat len' \<Longrightarrow> ipc_payload c msg pos len' = None"
  by (simp add: ipc_payload_def load_bytes_def Let_def min_def)

lemma ipc_payload_fits:
  "pos + unat len' \<le> length msg \<Longrightarrow> length msg = IPC_BUFLEN \<Longrightarrow>
   ipc_payload c msg pos len' = Some (Some (take (unat len') (drop pos msg)))"
  by (simp add: ipc_payload_def put_bytes_def)

end
