(* ===== verification/Levelip.thy ===== *)
theory Levelip
  imports Ipc
begin

text \<open>
  \<open>toy_app/lib/liblevelip.c\<close>: the library an application links against.  It sends each call as
  a message to the stack and waits for the reply.

  The connection to the stack is an argument of the model: \<open>chan lvlfd msg s\<close> is what the next
  \<open>read\<close> on \<open>lvlfd\<close> returns after \<open>msg\<close> has been written in state \<open>s\<close>, with the state after
  it; \<open>None\<close> when the read does not return, no bytes when it fails or the connection has ended:
  either way the buffer stays as it was.  Below it is instantiated with the stack itself.
\<close>

type_synonym 's chan = "int \<Rightarrow> bytes \<Rightarrow> 's \<Rightarrow> (bytes \<times> 's) option"

section \<open>The sockets of the process\<close>

text \<open>
  The list \<open>lvlip_socks\<close>: descriptor and connection of each entry, or memory that was freed
  while on the list.
\<close>

datatype lvlip_sock = Lvlip (ls_fd: int) (ls_lvlfd: int) | Freed

fun lvlip_get_sock :: "int \<Rightarrow> lvlip_sock list \<Rightarrow> lvlip_sock option option" where
  "lvlip_get_sock fd [] = Some None"
| "lvlip_get_sock fd (Freed # xs) = None"
| "lvlip_get_sock fd (Lvlip f l # xs) = (if f = fd then Some (Some (Lvlip f l)) else lvlip_get_sock fd xs)"

definition lvlip_socks_enqueue :: "lvlip_sock \<Rightarrow> lvlip_sock list \<Rightarrow> lvlip_sock list" where
  "lvlip_socks_enqueue sk socks = socks @ [sk]"

fun lvlip_socks_remove :: "int \<Rightarrow> lvlip_sock list \<Rightarrow> lvlip_sock list" where
  "lvlip_socks_remove fd [] = []"
| "lvlip_socks_remove fd (Freed # xs) = Freed # lvlip_socks_remove fd xs"
| "lvlip_socks_remove fd (Lvlip f l # xs) = (if f = fd then xs else Lvlip f l # lvlip_socks_remove fd xs)"

definition is_socket_supported :: "int \<Rightarrow> int \<Rightarrow> int \<Rightarrow> bool" where
  "is_socket_supported domain type protocol =
     (if domain \<noteq> AF_INET then False
      else if type \<noteq> SOCK_STREAM \<and> type \<noteq> SOCK_DGRAM then False
      else if protocol \<noteq> 0 \<and> protocol \<noteq> 6 then False
      else True)"

section \<open>Calls without data in the reply\<close>

abbreviation RCBUF_LEN :: nat where "RCBUF_LEN \<equiv> 512"

text \<open>The result and, if set, the new \<open>errno\<close>.  The reply is read into memory that is not cleared.\<close>

definition transmit_lvlip :: "'s chan \<Rightarrow> int \<Rightarrow> bytes \<Rightarrow> 's \<Rightarrow> ((int \<times> int option) \<times> 's) option" where
  "transmit_lvlip chan lvlfd msg s = do {
     (resp, s) \<leftarrow> chan lvlfd msg s;
     let b = take RCBUF_LEN resp;
     t \<leftarrow> load16 b 0;
     p \<leftarrow> load32 b 2;
     mt \<leftarrow> load16 msg 0;
     mp \<leftarrow> load32 msg 2;
     (if t \<noteq> mt \<or> p \<noteq> mp then Some ((-1, None), s)
      else do {
        rc \<leftarrow> load32 b 6;
        err \<leftarrow> load32 b 10;
        Some ((sint rc, if sint rc = -1 then Some (sint err) else None), s)
      })
   }"

definition ipc_hdr :: "u16 \<Rightarrow> u32 \<Rightarrow> bytes" where
  "ipc_hdr type pid = bytes16 type @ bytes32 pid"

text \<open>A \<open>struct sockaddr_in\<close> of the application: the two bytes of the family, and the padding.\<close>

definition addr_bytes :: "u16 \<Rightarrow> bytes \<Rightarrow> sockaddr_in \<Rightarrow> bytes" where
  "addr_bytes family pad a = bytes16 family @ bytes16 (sin_port a) @ bytes32 (sin_addr a) @ pad"

text \<open>
  \<open>lvl_socket\<close>; \<open>lvlfd\<close> is what \<open>init_socket\<close> returns.  On failure the entry is freed but stays
  on the list.  A call that is not supported fails the assertion.
\<close>

definition lvl_socket ::
    "'s chan \<Rightarrow> u32 \<Rightarrow> int \<Rightarrow> int \<Rightarrow> int \<Rightarrow> int \<Rightarrow> lvlip_sock list \<Rightarrow> 's \<Rightarrow>
     ((int \<times> int option) \<times> lvlip_sock list \<times> 's) option" where
  "lvl_socket chan pid lvlfd domain type protocol socks s =
     (if \<not> is_socket_supported domain type protocol then None
      else do {
        let msg = ipc_hdr IPC_SOCKET pid @ bytes32 (word_of_int domain) @ bytes32 (word_of_int type) @
              bytes32 (word_of_int protocol);
        (r, s) \<leftarrow> transmit_lvlip chan lvlfd msg s;
        (if fst r = -1 then Some ((-1, snd r), lvlip_socks_enqueue Freed socks, s)
         else Some (r, lvlip_socks_enqueue (Lvlip (fst r) lvlfd) socks, s))
      })"

definition lvl_close ::
    "'s chan \<Rightarrow> u32 \<Rightarrow> int \<Rightarrow> lvlip_sock list \<Rightarrow> 's \<Rightarrow> ((int \<times> int option) \<times> lvlip_sock list \<times> 's) option" where
  "lvl_close chan pid fd socks s = do {
     sock \<leftarrow> lvlip_get_sock fd socks;
     k \<leftarrow> sock;
     (r, s) \<leftarrow> transmit_lvlip chan (ls_lvlfd k) (ipc_hdr IPC_CLOSE pid @ bytes32 (word_of_int fd)) s;
     Some (r, if fst r = 0 then lvlip_socks_remove fd socks else socks, s)
   }"

definition lvl_connect ::
    "'s chan \<Rightarrow> u32 \<Rightarrow> int \<Rightarrow> bytes \<Rightarrow> lvlip_sock list \<Rightarrow> 's \<Rightarrow> ((int \<times> int option) \<times> 's) option" where
  "lvl_connect chan pid fd addr socks s = do {
     sock \<leftarrow> lvlip_get_sock fd socks;
     k \<leftarrow> sock;
     transmit_lvlip chan (ls_lvlfd k) (ipc_hdr IPC_CONNECT pid @ bytes32 (word_of_int fd) @ addr) s
   }"

definition lvl_bind ::
    "'s chan \<Rightarrow> u32 \<Rightarrow> int \<Rightarrow> bytes \<Rightarrow> lvlip_sock list \<Rightarrow> 's \<Rightarrow> ((int \<times> int option) \<times> 's) option" where
  "lvl_bind chan pid fd addr socks s = do {
     sock \<leftarrow> lvlip_get_sock fd socks;
     (case sock of
        None \<Rightarrow> Some ((-1, None), s)
      | Some k \<Rightarrow> transmit_lvlip chan (ls_lvlfd k) (ipc_hdr IPC_BIND pid @ bytes32 (word_of_int fd) @ addr) s)
   }"

definition lvl_listen ::
    "'s chan \<Rightarrow> u32 \<Rightarrow> int \<Rightarrow> int \<Rightarrow> lvlip_sock list \<Rightarrow> 's \<Rightarrow> ((int \<times> int option) \<times> 's) option" where
  "lvl_listen chan pid fd backoff socks s = do {
     sock \<leftarrow> lvlip_get_sock fd socks;
     (case sock of
        None \<Rightarrow> Some ((-1, None), s)
      | Some k \<Rightarrow> transmit_lvlip chan (ls_lvlfd k)
          (ipc_hdr IPC_LISTEN pid @ bytes32 (word_of_int fd) @ bytes32 (word_of_int backoff)) s)
   }"

definition lvl_write ::
    "'s chan \<Rightarrow> u32 \<Rightarrow> int \<Rightarrow> bytes \<Rightarrow> u64 \<Rightarrow> lvlip_sock list \<Rightarrow> 's \<Rightarrow> ((int \<times> int option) \<times> 's) option" where
  "lvl_write chan pid fd buf len' socks s = do {
     sock \<leftarrow> lvlip_get_sock fd socks;
     k \<leftarrow> sock;
     d \<leftarrow> load_bytes buf 0 (unat len');
     transmit_lvlip chan (ls_lvlfd k) (ipc_hdr IPC_WRITE pid @ bytes32 (word_of_int fd) @ bytes64 len' @ d) s
   }"

definition lvl_sendto ::
    "'s chan \<Rightarrow> u32 \<Rightarrow> int \<Rightarrow> bytes \<Rightarrow> u64 \<Rightarrow> bytes \<Rightarrow> lvlip_sock list \<Rightarrow> 's \<Rightarrow> ((int \<times> int option) \<times> 's) option" where
  "lvl_sendto chan pid fd buf len' addr socks s = do {
     sock \<leftarrow> lvlip_get_sock fd socks;
     (case sock of
        None \<Rightarrow> Some ((-1, None), s)
      | Some k \<Rightarrow> do {
          d \<leftarrow> load_bytes buf 0 (unat len');
          transmit_lvlip chan (ls_lvlfd k)
            (ipc_hdr IPC_SENDTO pid @ bytes32 (word_of_int fd) @ bytes64 len' @ addr @ d) s
        })
   }"

section \<open>Calls with data in the reply\<close>

text \<open>What the call returns and what it stores in the caller's memory.\<close>

record lvl_result =
  lr_rc :: int
  lr_errno :: "int option"
  lr_buf :: bytes
  lr_addr :: "bytes option"

definition lvl_fail :: "int \<Rightarrow> int option \<Rightarrow> lvl_result" where
  "lvl_fail rc e = \<lparr>lr_rc = rc, lr_errno = e, lr_buf = [], lr_addr = None\<rparr>"

text \<open>
  \<open>lvl_read\<close>.  \<open>rlen\<close> is an \<open>int\<close> in the source and the size of an array on the stack; the definition is
  for lengths with which it does not overflow.
\<close>

definition lvl_read :: "'s chan \<Rightarrow> u32 \<Rightarrow> int \<Rightarrow> u64 \<Rightarrow> lvlip_sock list \<Rightarrow> 's \<Rightarrow> (lvl_result \<times> 's) option" where
  "lvl_read chan pid fd len' socks s = do {
     sock \<leftarrow> lvlip_get_sock fd socks;
     k \<leftarrow> sock;
     (resp, s) \<leftarrow> chan (ls_lvlfd k) (ipc_hdr IPC_READ pid @ bytes32 (word_of_int fd) @ bytes64 len') s;
     let rlen = 26 + unat len';
     let rbuf = put_bytes (replicate rlen 0) 0 (take rlen resp);
     t \<leftarrow> load16 rbuf 0;
     p \<leftarrow> load32 rbuf 2;
     (if t \<noteq> IPC_READ \<or> p \<noteq> pid then Some (lvl_fail (-1) None, s)
      else do {
        rc \<leftarrow> load32 rbuf 6;
        err \<leftarrow> load32 rbuf 10;
        (if sint rc < 0 then Some (lvl_fail (sint rc) (Some (sint err)), s)
         else do {
           dlen \<leftarrow> load64 rbuf 18;
           (if len' < dlen then Some (lvl_fail (-1) None, s)
            else do {
              d \<leftarrow> load_bytes rbuf 26 (unat dlen);
              Some (\<lparr>lr_rc = sint dlen, lr_errno = None, lr_buf = put_bytes (replicate (unat len') 0) 0 d,
                      lr_addr = None\<rparr>, s)
            })
         })
      })
   }"

text \<open>
  \<open>lvl_recvfrom\<close>; \<open>want\<close> says whether the caller passed an address, \<open>junk\<close> is what the message
  holds in its address field.  A reply with more data than was asked for overruns the buffer.
\<close>

definition lvl_recvfrom ::
    "'s chan \<Rightarrow> u32 \<Rightarrow> int \<Rightarrow> u64 \<Rightarrow> bool \<Rightarrow> bytes \<Rightarrow> lvlip_sock list \<Rightarrow> 's \<Rightarrow> (lvl_result \<times> 's) option" where
  "lvl_recvfrom chan pid fd len' want junk socks s = do {
     sock \<leftarrow> lvlip_get_sock fd socks;
     (case sock of
        None \<Rightarrow> Some (lvl_fail (-1) None, s)
      | Some k \<Rightarrow> do {
          (resp, s) \<leftarrow> chan (ls_lvlfd k) (ipc_hdr IPC_RECVFROM pid @ bytes32 (word_of_int fd) @ bytes64 len' @
            bytes32 (of_bool want) @ junk) s;
          let rlen = 46 + unat len';
          let rbuf = put_bytes (replicate rlen 0) 0 (take rlen resp);
          t \<leftarrow> load16 rbuf 0;
          p \<leftarrow> load32 rbuf 2;
          (if t \<noteq> IPC_RECVFROM \<or> p \<noteq> pid then Some (lvl_fail (-1) None, s)
           else do {
             rc \<leftarrow> load32 rbuf 6;
             err \<leftarrow> load32 rbuf 10;
             (if sint rc < 0 then Some (lvl_fail (sint rc) (Some (sint err)), s)
              else do {
                dlen \<leftarrow> load64 rbuf 18;
                d \<leftarrow> load_bytes rbuf 46 (unat dlen);
                buf \<leftarrow> store_bytes (replicate (unat len') 0) 0 d;
                a \<leftarrow> load_bytes rbuf 30 16;
                Some (\<lparr>lr_rc = sint dlen, lr_errno = None, lr_buf = buf, lr_addr = (if want then Some a else None)\<rparr>, s)
              })
           })
        })
   }"

definition lvl_accept ::
    "'s chan \<Rightarrow> u32 \<Rightarrow> int \<Rightarrow> bool \<Rightarrow> lvlip_sock list \<Rightarrow> 's \<Rightarrow> (lvl_result \<times> lvlip_sock list \<times> 's) option" where
  "lvl_accept chan pid fd want socks s = do {
     sock \<leftarrow> lvlip_get_sock fd socks;
     k \<leftarrow> sock;
     (resp, s) \<leftarrow> chan (ls_lvlfd k) (ipc_hdr IPC_ACCEPT pid @ bytes32 (word_of_int fd) @ bytes32 (of_bool want) @
        replicate 16 0) s;
     let rbuf = put_bytes (replicate 38 0) 0 (take 38 resp);
     t \<leftarrow> load16 rbuf 0;
     p \<leftarrow> load32 rbuf 2;
     (if t \<noteq> IPC_ACCEPT \<or> p \<noteq> pid then Some (lvl_fail (-1) None, socks, s)
      else do {
        rc \<leftarrow> load32 rbuf 6;
        err \<leftarrow> load32 rbuf 10;
        (if sint rc < 0 then Some (lvl_fail (sint rc) (Some (sint err)), socks, s)
         else do {
           a \<leftarrow> load_bytes rbuf 22 16;
           Some (\<lparr>lr_rc = sint rc, lr_errno = None, lr_buf = [], lr_addr = (if want then Some a else None)\<rparr>,
             lvlip_socks_enqueue (Lvlip (sint rc) (ls_lvlfd k)) socks, s)
         })
      })
   }"

section \<open>The stack behind the connection\<close>

text \<open>
  The connection to the thread of \<open>ipc.c\<close>: its state is the command buffer of that thread and
  the stack.
\<close>

definition ipc_chan :: "ipc_ctx \<Rightarrow> (bytes \<times> world) chan" where
  "ipc_chan c lvlfd msg s = do {
     (b, r, w) \<leftarrow> ipc_round c (fst s) msg (snd s);
     (case r of Asleep \<Rightarrow> None | Returned p \<Rightarrow> if rp_out p = [] then None else Some (rp_out p, (b, w)))
   }"

text \<open>What the application sees of a result of the stack.\<close>

definition errno_of :: "int \<Rightarrow> int \<times> int option" where
  "errno_of rc = (if rc < 0 then (-1, Some (- rc)) else (rc, None))"

definition is_int :: "int \<Rightarrow> bool" where
  "is_int i \<longleftrightarrow> - (2 ^ 31) < i \<and> i < 2 ^ 31"

lemma sint_int [simp]: "is_int i \<Longrightarrow> sint (word_of_int i :: u32) = i"
  by (simp add: is_int_def int_word_sint)

lemma transmit_reply:
  assumes ld: "load16 msg 0 = Some t" "load32 msg 2 = Some pid"
    and ch: "chan l msg s = Some (rp_out (ipc_write_rc pid t rc), s')" and rc: "is_int rc"
  shows "transmit_lvlip chan l msg s = Some (errno_of rc, s')"
proof -
  have neg: "is_int (- rc)" using rc by (auto simp: is_int_def)
  have m1: "sint (word_of_int (- 1) :: u32) = - 1" by simp
  show ?thesis
    using sint_int [OF rc] sint_int [OF neg] load_here(2) [of _ "[]"]
    by (simp add: transmit_lvlip_def ch ld ipc_write_rc_def errno_of_def msg_simps m1 del: load_in_range)
qed

text \<open>
  The contract between the two sides: \<open>answers msg s rc s'\<close> says that the server, on \<open>msg\<close>, ends
  with \<open>rc\<close> and goes from \<open>s\<close> to \<open>s'\<close>; the channel then carries the reply of \<open>ipc_write_rc\<close>.
\<close>

locale rc_channel =
  fixes chan :: "'s chan" and answers :: "bytes \<Rightarrow> 's \<Rightarrow> int \<Rightarrow> 's \<Rightarrow> bool"
  assumes reply: "answers msg s rc s' \<Longrightarrow> \<exists>t pid. load16 msg 0 = Some t \<and> load32 msg 2 = Some pid \<and>
    chan l msg s = Some (rp_out (ipc_write_rc pid t rc), s')"
begin

lemma transmit:
  assumes "answers msg s rc s'" and "is_int rc"
  shows "transmit_lvlip chan l msg s = Some (errno_of rc, s')"
proof -
  obtain t pid where "load16 msg 0 = Some t" "load32 msg 2 = Some pid"
    and "chan l msg s = Some (rp_out (ipc_write_rc pid t rc), s')"
    using reply [OF assms(1)] by blast
  then show ?thesis using assms(2) by (rule transmit_reply)
qed

end

definition ipc_answers :: "ipc_ctx \<Rightarrow> bytes \<Rightarrow> bytes \<times> world \<Rightarrow> int \<Rightarrow> bytes \<times> world \<Rightarrow> bool" where
  "ipc_answers c msg s rc s' \<longleftrightarrow> (\<exists>t pid. load16 msg 0 = Some t \<and> load32 msg 2 = Some pid \<and>
     ipc_round c (fst s) msg (snd s) = Some (fst s', Returned (ipc_write_rc pid t rc), snd s'))"

interpretation ipcc: rc_channel "ipc_chan c" "ipc_answers c"
  by unfold_locales (auto simp: ipc_answers_def ipc_chan_def ipc_write_rc_def bytes16_def)

section \<open>Calls reach the stack\<close>

lemma ipc_answersI:
  assumes "msg = ipc_hdr t pid @ rest" and "length msg \<le> IPC_BUFLEN" and "length b = IPC_BUFLEN"
    and "demux_ipc_socket_call c (bytes16 t @ bytes32 pid @ rest @ drop (length msg) b) w =
      Some (Returned (ipc_write_rc pid t rc), w')"
  shows "ipc_answers c msg (b, w) rc (msg @ drop (length msg) b, w')"
proof -
  have "load16 msg 0 = Some t" "load32 msg 2 = Some pid"
    by (simp_all add: assms(1) ipc_hdr_def msg_simps del: load_in_range)
  then show ?thesis
    using assms by (simp add: ipc_answers_def ipc_round_def put_bytes_front ipc_hdr_def)
qed

lemma ipc_write_answers:
  assumes "so_write (sint pid) (sint fd) d (ucast len') w = Some (Rc rc, w')"
    and "unat len' = length d" and "length d \<le> 4078" and "length b = IPC_BUFLEN"
    and "msg = ipc_hdr IPC_WRITE pid @ bytes32 fd @ bytes64 len' @ d"
  shows "ipc_answers c msg (b, w) rc (msg @ drop (length msg) b, w')"
proof -
  let ?m = "bytes16 IPC_WRITE @ bytes32 pid @ bytes32 fd @ bytes64 len' @ d @ drop (length msg) b"
  have len: "length msg = 18 + length d" by (simp add: assms(5) ipc_hdr_def)
  have "ipc_payload c ?m 18 len' = Some (Some (take (unat len') (drop 18 ?m)))"
    using assms len by (intro ipc_payload_fits) simp_all
  then have pay: "ipc_payload c ?m 18 len' = Some (Some d)"
    using assms(2) by simp
  have "demux_ipc_socket_call c ?m w = Some (Returned (ipc_write_rc pid IPC_WRITE rc), w')"
    using assms(1) pay
    by (simp add: demux_ipc_socket_call_def ipc_write_def msg_simps rc_value_def del: load_in_range)
  then show ?thesis
    using assms len by (intro ipc_answersI [where rest = "bytes32 fd @ bytes64 len' @ d"]) simp_all
qed

lemma lvl_write_ok:
  assumes "lvlip_get_sock fd socks = Some (Some k)" and "is_int fd"
    and "unat len' = length d" and "length d \<le> 4078" and "length b = IPC_BUFLEN"
    and "so_write (sint pid) fd d (ucast len') w = Some (Rc rc, w')" and "is_int rc"
  shows "\<exists>b'. length b' = IPC_BUFLEN \<and>
    lvl_write (ipc_chan c) pid fd d len' socks (b, w) = Some (errno_of rc, (b', w'))"
proof -
  let ?m = "ipc_hdr IPC_WRITE pid @ bytes32 (word_of_int fd) @ bytes64 len' @ d"
  have "ipc_answers c ?m (b, w) rc (?m @ drop (length ?m) b, w')"
    using assms by (intro ipc_write_answers) simp_all
  then have "lvl_write (ipc_chan c) pid fd d len' socks (b, w) = Some (errno_of rc, (?m @ drop (length ?m) b, w'))"
    using ipcc.transmit assms by (simp add: lvl_write_def)
  moreover have "length (?m @ drop (length ?m) b) = IPC_BUFLEN"
    using assms by (simp add: ipc_hdr_def)
  ultimately show ?thesis by blast
qed

text \<open>
  C20.  A write of at most 4078 bytes through the library is a write on the stack: the call
  returns what \<open>_write\<close> returned, or -1 with \<open>errno\<close> set, and the stack ends in the state
  \<open>_write\<close> left it in.
\<close>

theorem lvl_write_reaches_stack:
  assumes "lvlip_get_sock fd socks = Some (Some k)" and "is_int fd"
    and "unat len' = length d" and "length d \<le> 4078" and "length b = IPC_BUFLEN"
    and "so_write (sint pid) fd d (ucast len') w = Some (Rc rc, w')" and "is_int rc"
  shows "\<exists>b'. length b' = IPC_BUFLEN \<and>
    lvl_write (ipc_chan c) pid fd d len' socks (b, w) = Some (errno_of rc, (b', w'))"
  using assms by (rule lvl_write_ok)

text \<open>
  C34.  A write of more than 4078 bytes makes the stack copy bytes from beyond its command
  buffer, whatever the socket.
\<close>

theorem lvl_write_overreads:
  assumes "lvlip_get_sock fd socks = Some (Some k)" and "length b = IPC_BUFLEN"
    and "unat len' \<le> length d" and "4078 < unat len'"
  shows "lvl_write (ipc_chan c) pid fd d len' socks (b, w) = None"
proof -
  let ?h = "bytes16 IPC_WRITE @ bytes32 pid @ bytes32 (word_of_int fd) @ bytes64 len'"
  let ?m = "ipc_hdr IPC_WRITE pid @ bytes32 (word_of_int fd) @ bytes64 len' @ take (unat len') d"
  have cut: "put_bytes b 0 (take IPC_BUFLEN ?m) = ?h @ take 4078 d"
    using assms by (simp add: ipc_hdr_def put_bytes_def min_def)
  have "ipc_payload c (?h @ take 4078 d) 18 len' = None"
    using assms by (intro ipc_payload_overread) simp_all
  then have "demux_ipc_socket_call c (?h @ take 4078 d) w = None"
    by (simp add: demux_ipc_socket_call_def ipc_write_def msg_simps del: load_in_range)
  then have "ipc_chan c l ?m (b, w) = None" for l
    by (simp only: ipc_chan_def ipc_round_def fst_conv snd_conv cut Let_def bind.bind_lzero)
  then show ?thesis
    using assms by (simp add: lvl_write_def transmit_lvlip_def)
qed

lemma ipc_socket_answers:
  assumes "so_socket (sint pid) (sint d) (sint t) (sint p) w = Some (rc, w')" and "length b = IPC_BUFLEN"
    and "msg = ipc_hdr IPC_SOCKET pid @ bytes32 d @ bytes32 t @ bytes32 p"
  shows "ipc_answers c msg (b, w) rc (msg @ drop (length msg) b, w')"
proof -
  have "demux_ipc_socket_call c (bytes16 IPC_SOCKET @ bytes32 pid @ (bytes32 d @ bytes32 t @ bytes32 p) @
      drop (length msg) b) w = Some (Returned (ipc_write_rc pid IPC_SOCKET rc), w')"
    using assms(1) by (simp add: demux_ipc_socket_call_def ipc_socket_def msg_simps del: load_in_range)
  then show ?thesis
    using assms by (intro ipc_answersI [where rest = "bytes32 d @ bytes32 t @ bytes32 p"]) (simp_all add: ipc_hdr_def)
qed

definition no_freed :: "lvlip_sock list \<Rightarrow> bool" where
  "no_freed socks \<longleftrightarrow> Freed \<notin> set socks"

lemma lvlip_get_sock_new:
  "no_freed socks \<Longrightarrow> \<forall>k\<in>set socks. ls_fd k \<noteq> fd \<Longrightarrow> lvlip_get_sock fd (socks @ [Lvlip fd l]) = Some (Some (Lvlip fd l))"
  by (induction fd socks rule: lvlip_get_sock.induct) (auto simp: no_freed_def)

lemma lvlip_get_sock_freed: "no_freed socks \<Longrightarrow> \<forall>k\<in>set socks. ls_fd k \<noteq> fd \<Longrightarrow> lvlip_get_sock fd (socks @ [Freed]) = None"
  by (induction fd socks rule: lvlip_get_sock.induct) (auto simp: no_freed_def)

lemma supported_ints:
  "is_socket_supported domain type protocol \<Longrightarrow> is_int domain \<and> is_int type \<and> is_int protocol"
  by (auto simp: is_socket_supported_def is_int_def split: if_splits)

lemma lvl_socket_call:
  assumes "is_socket_supported domain type protocol" and "length b = IPC_BUFLEN"
    and "so_socket (sint pid) domain type protocol w = Some (fd, w')" and "0 \<le> fd" and "is_int fd"
  shows "\<exists>b'. lvl_socket (ipc_chan c) pid lvlfd domain type protocol socks (b, w) =
      Some ((fd, None), socks @ [Lvlip fd lvlfd], (b', w')) \<and> length b' = IPC_BUFLEN"
proof -
  let ?m = "ipc_hdr IPC_SOCKET pid @ bytes32 (word_of_int domain) @ bytes32 (word_of_int type) @
    bytes32 (word_of_int protocol)"
  have "ipc_answers c ?m (b, w) fd (?m @ drop (length ?m) b, w')"
    using assms supported_ints [OF assms(1)] by (intro ipc_socket_answers) simp_all
  then have tr: "transmit_lvlip (ipc_chan c) lvlfd ?m (b, w) = Some ((fd, None), (?m @ drop (length ?m) b, w'))"
    using ipcc.transmit [of c ?m "(b, w)" fd _ lvlfd] assms by (simp add: errno_of_def)
  have "lvl_socket (ipc_chan c) pid lvlfd domain type protocol socks (b, w) =
      Some ((fd, None), socks @ [Lvlip fd lvlfd], (?m @ drop (length ?m) b, w'))"
    using assms tr by (simp add: lvl_socket_def lvlip_socks_enqueue_def)
  moreover have "length (?m @ drop (length ?m) b) = IPC_BUFLEN"
    using assms by (simp add: ipc_hdr_def)
  ultimately show ?thesis by blast
qed

text \<open>
  \<open>lvl_socket\<close> on the stack: when \<open>_socket\<close> returns a descriptor, the library returns the
  same one and finds its new entry under it in later calls.
\<close>

lemma lvl_socket_opens:
  assumes "is_socket_supported domain type protocol" and "length b = IPC_BUFLEN"
    and "so_socket (sint pid) domain type protocol w = Some (fd, w')" and "0 \<le> fd" and "is_int fd"
    and "no_freed socks" and "\<forall>k\<in>set socks. ls_fd k \<noteq> fd"
  shows "\<exists>b' socks'. lvl_socket (ipc_chan c) pid lvlfd domain type protocol socks (b, w) =
      Some ((fd, None), socks', (b', w')) \<and> length b' = IPC_BUFLEN \<and> no_freed socks' \<and>
    lvlip_get_sock fd socks' = Some (Some (Lvlip fd lvlfd))"
proof -
  have "no_freed (socks @ [Lvlip fd lvlfd])" using assms(6) by (simp add: no_freed_def)
  then show ?thesis using lvl_socket_call [OF assms(1-5)] lvlip_get_sock_new [OF assms(6,7)] by blast
qed

text \<open>
  When the reply to \<open>lvl_socket\<close> is an error, the library frees the entry it has put on its
  list: the next call on a descriptor the library does not know reads freed memory.
\<close>

lemma lvl_socket_failure_dangles:
  assumes "is_socket_supported domain type protocol"
    and "\<And>msg. chan lvlfd msg s = Some (rp_out (ipc_write_rc pid IPC_SOCKET rc), s')" and "rc < 0" and "is_int rc"
    and "no_freed socks" and "\<forall>k\<in>set socks. ls_fd k \<noteq> fd"
  shows "\<exists>socks'. lvl_socket chan pid lvlfd domain type protocol socks s = Some ((-1, Some (- rc)), socks', s') \<and>
    (\<forall>data len'. lvl_write chan pid fd data len' socks' s' = None)"
proof -
  let ?m = "ipc_hdr IPC_SOCKET pid @ bytes32 (word_of_int domain) @ bytes32 (word_of_int type) @
    bytes32 (word_of_int protocol)"
  have "load16 ?m 0 = Some IPC_SOCKET" "load32 ?m 2 = Some pid"
    by (simp_all add: ipc_hdr_def msg_simps del: load_in_range)
  then have "transmit_lvlip chan lvlfd ?m s = Some (errno_of rc, s')"
    using assms(2,4) by (rule transmit_reply)
  then have "lvl_socket chan pid lvlfd domain type protocol socks s = Some ((-1, Some (- rc)), socks @ [Freed], s')"
    using assms(1,3) by (simp add: lvl_socket_def lvlip_socks_enqueue_def errno_of_def)
  then show ?thesis
    using lvlip_get_sock_freed [OF assms(5,6)] by (auto simp: lvl_write_def)
qed

section \<open>Reading\<close>

text \<open>The reply of \<open>ipc_read\<close>, as \<open>lvl_read\<close> finds it in its buffer.\<close>

lemma read_reply_fields:
  fixes pid fd :: u32
  assumes "length out \<le> n" and "length out < 2 ^ 31"
  defines "rbuf \<equiv> put_bytes (replicate (26 + n) 0) 0 (take (26 + n) (read_reply pid fd out))"
  shows "load16 rbuf 0 = Some IPC_READ" "load32 rbuf 2 = Some pid"
    "load32 rbuf 6 = Some (word_of_int (int (length out)))" "load32 rbuf 10 = Some 0"
    "load64 rbuf 18 = Some (word_of_int (int (length out)))" "load_bytes rbuf 26 (length out) = Some out"
proof -
  have len: "length (read_reply pid fd out) = 26 + length out" by (simp add: read_reply_def)
  have r: "rbuf = read_reply pid fd out @ drop (26 + length out) (replicate (26 + n) 0)"
    using assms(1) len unfolding rbuf_def by (simp add: put_bytes_def)
  show "load16 rbuf 0 = Some IPC_READ" "load32 rbuf 2 = Some pid"
    "load32 rbuf 6 = Some (word_of_int (int (length out)))" "load32 rbuf 10 = Some 0"
    "load64 rbuf 18 = Some (word_of_int (int (length out)))" "load_bytes rbuf 26 (length out) = Some out"
    unfolding r read_reply_def by (simp_all add: msg_simps del: load_in_range)
qed

lemma word64_length:
  assumes "n < 2 ^ 31"
  shows "unat (of_nat n :: u64) = n" "sint (of_nat n :: u64) = int n" "sint (of_nat n :: u32) = int n"
  using assms int_word_sint [of "int n", where 'a = 64] int_word_sint [of "int n", where 'a = 32]
  by (simp_all add: unat_of_nat)

lemma ipc_read_round:
  assumes "so_read (sint pid) (sint fd) (ucast len') (ie_env c) w = Some (Returned (int (length out), out), w')"
    and "length out \<le> unat len'" and "length b = IPC_BUFLEN"
    and "msg = ipc_hdr IPC_READ pid @ bytes32 fd @ bytes64 len'"
  shows "ipc_chan c l msg (b, w) = Some (read_reply pid fd out, (msg @ drop (length msg) b, w'))"
proof -
  let ?m = "bytes16 IPC_READ @ bytes32 pid @ bytes32 fd @ bytes64 len' @ drop (length msg) b"
  have "ipc_read c ?m w = Some (Returned \<lparr>rp_rc = 0, rp_out = read_reply pid fd out\<rparr>, w')"
    using assms by (intro ipc_read_replies) simp_all
  then have "demux_ipc_socket_call c ?m w = Some (Returned \<lparr>rp_rc = 0, rp_out = read_reply pid fd out\<rparr>, w')"
    by (simp add: demux_ipc_socket_call_def msg_simps del: load_in_range)
  moreover have "put_bytes b 0 (take IPC_BUFLEN msg) = ?m"
    using assms by (simp add: put_bytes_def ipc_hdr_def)
  ultimately show ?thesis
    using assms(4) by (simp add: ipc_chan_def ipc_round_def ipc_hdr_def read_reply_def bytes16_def)
qed

lemma lvl_read_ok:
  assumes "lvlip_get_sock fd socks = Some (Some k)" and "is_int fd" and "length b = IPC_BUFLEN"
    and "so_read (sint pid) fd (ucast len') (ie_env c) w = Some (Returned (int (length out), out), w')"
    and "length out \<le> unat len'" and "length out < 2 ^ 31"
  shows "\<exists>b'. lvl_read (ipc_chan c) pid fd len' socks (b, w) =
    Some (\<lparr>lr_rc = int (length out), lr_errno = None, lr_buf = out @ replicate (unat len' - length out) 0,
           lr_addr = None\<rparr>, (b', w'))"
proof -
  let ?m = "ipc_hdr IPC_READ pid @ bytes32 (word_of_int fd) @ bytes64 len'"
  let ?n = "unat len'"
  have ch: "ipc_chan c l ?m (b, w) = Some (read_reply pid (word_of_int fd) out, (?m @ drop (length ?m) b, w'))" for l
    using assms by (intro ipc_read_round) simp_all
  have le: "\<not> len' < of_nat (length out)"
    using assms word64_length(1) [OF assms(6)] by (simp add: word_less_nat_alt)
  note f = read_reply_fields [OF assms(5,6), where pid = pid and fd = "word_of_int fd"]
  have "put_bytes (replicate ?n 0) 0 out = out @ replicate (?n - length out) 0"
    using assms(5) by (simp add: put_bytes_def)
  then show ?thesis
    by (simp add: lvl_read_def assms(1) ch f word64_length [OF assms(6)] le del: load_in_range)
qed

text \<open>
  C21.  A read through the library that succeeds returns the bytes \<open>_read\<close> has returned, followed
  by zeros in the rest of the caller's buffer.
\<close>

theorem lvl_read_reaches_stack:
  assumes "lvlip_get_sock fd socks = Some (Some k)" and "is_int fd" and "length b = IPC_BUFLEN"
    and "so_read (sint pid) fd (ucast len') (ie_env c) w = Some (Returned (int (length out), out), w')"
    and "length out \<le> unat len'" and "length out < 2 ^ 31"
  shows "\<exists>b'. lvl_read (ipc_chan c) pid fd len' socks (b, w) =
    Some (\<lparr>lr_rc = int (length out), lr_errno = None, lr_buf = out @ replicate (unat len' - length out) 0,
           lr_addr = None\<rparr>, (b', w'))"
  using assms by (rule lvl_read_ok)

text \<open>
  C35.  When \<open>_read\<close> fails, the reply \<open>ipc_read\<close> allocates is shorter than the fields it stores
  into it: the stack writes beyond its memory.
\<close>

theorem lvl_read_failure_overruns:
  assumes "lvlip_get_sock fd socks = Some (Some k)" and "is_int fd" and "length b = IPC_BUFLEN"
    and "so_read (sint pid) fd (ucast len') (ie_env c) w = Some (Returned (rlen, out), w')" and "rlen < 0"
  shows "lvl_read (ipc_chan c) pid fd len' socks (b, w) = None"
proof -
  let ?m = "ipc_hdr IPC_READ pid @ bytes32 (word_of_int fd) @ bytes64 len'"
  let ?b = "bytes16 IPC_READ @ bytes32 pid @ bytes32 (word_of_int fd) @ bytes64 len' @ drop 18 b"
  have "load32 ?b 2 = Some pid" "load32 ?b 6 = Some (word_of_int fd)" "load64 ?b 10 = Some len'"
    by (simp_all add: msg_simps del: load_in_range)
  then have "ipc_read c ?b w = None"
    by (rule ipc_read_overruns) (use assms in simp_all)
  then have "demux_ipc_socket_call c ?b w = None"
    by (simp add: demux_ipc_socket_call_def msg_simps del: load_in_range)
  moreover have "put_bytes b 0 (take IPC_BUFLEN ?m) = ?b"
    using assms by (simp add: put_bytes_def ipc_hdr_def)
  ultimately have "ipc_chan c l ?m (b, w) = None" for l
    by (simp add: ipc_chan_def ipc_round_def)
  then show ?thesis
    by (simp add: lvl_read_def assms(1))
qed

end
