(* ===== verification/Application.thy ===== *)
theory Application
  imports Tcp_Transfer Levelip
begin

text \<open>
  From one application to the other: a write through the library on one machine, the frames on
  the wire, and a read through the library on the other.
\<close>

section \<open>Descriptors of connections\<close>

text \<open>Descriptor \<open>fd\<close> of process \<open>pid\<close> stands for the TCP connection \<open>s\<close>.\<close>

definition tcp_front :: "world \<Rightarrow> int \<Rightarrow> int \<Rightarrow> sid \<Rightarrow> bool" where
  "tcp_front w pid fd s \<longleftrightarrow> (\<exists>so x. get_socket w pid fd = Some (Some so) \<and> w_sockets w so = Some x \<and> so_ops x \<and>
     so_sk x = Sk s)"

lemma get_socket_unmoved:
  assumes "unmoved w w'"
  shows "get_socket w' pid fd = get_socket w pid fd"
  using unmoved_sockets [OF assms] assms by (simp add: get_socket_def unmoved_def)

lemma tcp_front_unmoved: "unmoved w w' \<Longrightarrow> tcp_front w pid fd s \<Longrightarrow> tcp_front w' pid fd s"
  by (simp add: tcp_front_def get_socket_unmoved unmoved_sockets)

lemma so_write_tcp:
  assumes "tcp_front w pid fd s" and "w_tcp w s = Some tsk" and "tcp_write s buf n w = Some (rc, w')"
  shows "so_write pid fd buf n w = Some (Rc rc, w')"
  using assms by (auto simp: tcp_front_def so_write_def with_ops_def inet_write_def sk_of_def ops_of_def)

lemma so_read_tcp:
  assumes "tcp_front w pid fd s" and "w_tcp w s = Some tsk"
  shows "so_read pid fd n es w = tcp_read s n es w"
  using assms by (auto simp: tcp_front_def so_read_def with_ops_def inet_read_def sk_of_def ops_of_def)

lemma unat_length64: "n < 2 ^ 31 \<Longrightarrow> unat (of_nat n :: u64) = n \<and> (ucast (of_nat n :: u64) :: u32) = of_nat n"
  by (simp add: unsigned_of_nat take_bit_nat_eq_self)

section \<open>The transfer\<close>

text \<open>
  C1.  Two applications on two machines, each with a descriptor of its end of an established
  connection: what one writes with \<open>lvl_write\<close>, up to 4078 bytes, is accepted whole, and once
  the frames it caused have been received on the other machine, \<open>lvl_read\<close> there returns exactly
  those bytes.
\<close>

theorem application_transfer:
  assumes snd: "can_send w1 s1 t1" "tsk_state t1 = TCP_ESTABLISHED" "arp_get_hwaddr (w_net w1) gateway = Some mac"
      "0 < tsk_smss t1" "tsk_smss t1 \<le> 1460"
    and rcv: "receiving w2 cs es s2 (length buf) t2" "rx_items t2 = []"
    and conn: "peers (net_dev (w_net w1)) t1 t2" "snd_nxt (tsk_tcb t1) = rcv_nxt (tsk_tcb t2)"
      "snd_una (tsk_tcb t2) \<le> rcv_nxt (tsk_tcb t1)" "rcv_nxt (tsk_tcb t1) \<le> snd_nxt (tsk_tcb t2)"
    and wnd: "rcv_wnd (tsk_tcb t2) \<noteq> 0" "length buf \<le> 4078"
      "unat (rcv_nxt (tsk_tcb t2)) + length buf + unat (rcv_wnd (tsk_tcb t2)) < 2 ^ 32"
    and app1: "lvlip_get_sock fd1 socks1 = Some (Some k1)" "is_int fd1" "tcp_front w1 (sint pid1) fd1 s1"
      "length b1 = IPC_BUFLEN"
    and app2: "lvlip_get_sock fd2 socks2 = Some (Some k2)" "is_int fd2" "tcp_front w2 (sint pid2) fd2 s2"
      "length b2 = IPC_BUFLEN"
  shows "\<exists>b1' w1' frames w2' b2' w2''.
    lvl_write (ipc_chan c1) pid1 fd1 buf (of_nat (length buf)) socks1 (b1, w1) =
      Some ((int (length buf), None), (b1', w1')) \<and>
    net_tx (w_net w1') = net_tx (w_net w1) @ frames \<and> netdev_rx_loop tv frames w2 = Some w2' \<and>
    lvl_read (ipc_chan c2) pid2 fd2 (of_nat (length buf)) socks2 (b2, w2') =
      Some (\<lparr>lr_rc = int (length buf), lr_errno = None, lr_buf = buf, lr_addr = None\<rparr>, (b2', w2''))"
proof -
  let ?n = "length buf"
  have n: "unat (of_nat ?n :: u64) = ?n" "(ucast (of_nat ?n :: u64) :: u32) = of_nat ?n" "?n < 2 ^ 31"
    using unat_length64 [of ?n] wnd(2) by auto
  obtain w1' frames w2' w2'' where t: "tcp_write s1 buf (of_nat ?n) w1 = Some (int ?n, w1')"
      "net_tx (w_net w1') = net_tx (w_net w1) @ frames" "netdev_rx_loop tv frames w2 = Some w2'" "unmoved w2 w2'"
      "tcp_read s2 (of_nat ?n) (ie_env c2) w2' = Some (Returned (int ?n, buf), w2'')"
    using tcp_transfer_ok [OF snd rcv conn wnd(1) n(3) wnd(3), of tv "ie_env c2"] by blast
  have "so_write (sint pid1) fd1 buf (of_nat ?n) w1 = Some (Rc (int ?n), w1')"
    using so_write_tcp [OF app1(3) _ t(1)] snd(1) by (simp add: can_send_def)
  then obtain b1' where wr: "lvl_write (ipc_chan c1) pid1 fd1 buf (of_nat ?n) socks1 (b1, w1) =
      Some (errno_of (int ?n), (b1', w1'))"
    using lvl_write_ok [OF app1(1,2) n(1) wnd(2) app1(4), of pid1 w1 "int ?n" w1' c1] n wnd(2)
    by (auto simp: is_int_def)
  have "w_tcp w2' s2 \<noteq> None"
    using t(5) by (auto simp: tcp_read_def elim!: bind_SomeE)
  then have "so_read (sint pid2) fd2 (of_nat ?n) (ie_env c2) w2' = Some (Returned (int ?n, buf), w2'')"
    using so_read_tcp [OF tcp_front_unmoved [OF t(4) app2(3)]] t(5) by auto
  then show ?thesis
    using lvl_read_ok [OF app2(1,2,4), of pid2 "of_nat ?n" c2 w2' buf w2''] wr t(2,3) n
    by (fastforce simp: errno_of_def)
qed

end
