(* ===== verification/Handshake.thy ===== *)
theory Handshake
  imports Tcp_Transfer
begin

text \<open>
  The three-way handshake between two stacks, from \<open>tcp_v4_connect\<close> on one to \<open>tcp_accept\<close> on the
  other, and what the two ends are ready for afterwards.
\<close>

section \<open>Control segments on arrival\<close>

text \<open>A segment without data, from the device to \<open>tcp_process\<close>.\<close>

lemma tcp_frame_in:
  assumes mac: "length dmac = 6" "length smac = 6"
    and pkt: "ip_datagram dev 0x0A000104 IP_TCP sgm pkt" "tcp_segment t1 seq k fl d sgm"
    and k: "5 \<le> k" "k \<le> 15" "length d = 4 * k - 20"
  shows "\<exists>skb. skb_dlen skb = 0 \<and> load32 (skb_buf skb) (ip_hdr skb + 12) = Some (nd_addr dev) \<and>
    load32 (skb_buf skb) (ip_hdr skb + 16) = Some 0x0A000104 \<and>
    (\<forall>w s r fate w'. tcp_lookup_sock w (nd_addr dev) (sk_sport (tsk_sk t1)) 0x0A000104 (sk_dport (tsk_sk t1)) =
        Some (Some s) \<longrightarrow>
      tcp_process s (tcp_header_for t1 seq k fl) skb w = Some (r, fate, w') \<longrightarrow>
      netdev_rx_loop_step tv (eth_frame dmac smac ETH_P_IP pkt) w = Some w')"
proof -
  have len: "length sgm = 20 + length d" using pkt(2) by (auto simp: tcp_segment_def)
  then have fit: "length sgm + 34 \<le> BUFLEN" using k by simp
  obtain skb where skb: "netdev_rx_loop_step tv (eth_frame dmac smac ETH_P_IP pkt) = ip_dispatch tv IP_TCP skb"
    "ip_delivered skb (nd_addr dev) 0x0A000104 sgm"
    using netdev_receive_datagram [OF mac pkt(1) fit, of tv] by auto
  let ?th = "tcp_header_for t1 seq k fl"
  obtain skb' where s': "tcp_init_segment skb = Some skb'" "tcp_host_hdr skb' = Some ?th" "skb_dlen skb' = 0"
    "get32 (skb_buf skb') 26 = nd_addr dev" "get32 (skb_buf skb') 30 = 0x0A000104" "length (skb_buf skb') = BUFLEN"
    using tcp_delivered [OF skb(2) pkt(2) fit k(1,2)] k(3) by auto
  have "tcp_in skb w = Some (fate, w')"
    if "tcp_lookup_sock w (nd_addr dev) (sk_sport (tsk_sk t1)) 0x0A000104 (sk_dport (tsk_sk t1)) = Some (Some s)"
      "tcp_process s ?th skb' w = Some (r, fate, w')" for w s r fate w'
    using s' that by (simp add: tcp_in_def ip_hdr_def skb_head_def) (simp add: tcp_header_for_def)
  then show ?thesis
    using s' skb(1) by (intro exI [of _ skb']) (auto simp: ip_dispatch_def ip_hdr_def skb_head_def)
qed

text \<open>
  A segment of the connection \<open>tp\<close> of the host behind \<open>dev\<close>, to the address \<open>dst\<close>, that carries options
  \<open>d\<close> and no data, in an ethernet frame.
\<close>

definition ctl_frame :: "netdev \<Rightarrow> u32 \<Rightarrow> tcp_sock \<Rightarrow> u32 \<Rightarrow> u8 \<Rightarrow> bytes \<Rightarrow> bool" where
  "ctl_frame dev dst tp seq fl f \<longleftrightarrow> (\<exists>dmac smac pkt sgm k d. f = eth_frame dmac smac ETH_P_IP pkt \<and>
     length dmac = 6 \<and> length smac = 6 \<and> ip_datagram dev dst IP_TCP sgm pkt \<and>
     tcp_segment tp seq k fl d sgm \<and> 5 \<le> k \<and> k \<le> 15 \<and> length d = 4 * k - 20)"

lemma ctl_frame_in:
  assumes "ctl_frame dev 0x0A000104 tp seq fl f"
  shows "\<exists>skb k. skb_dlen skb = 0 \<and> load32 (skb_buf skb) (ip_hdr skb + 12) = Some (nd_addr dev) \<and>
    load32 (skb_buf skb) (ip_hdr skb + 16) = Some 0x0A000104 \<and>
    (\<forall>w s r fate w'. tcp_lookup_sock w (nd_addr dev) (sk_sport (tsk_sk tp)) 0x0A000104 (sk_dport (tsk_sk tp)) =
        Some (Some s) \<longrightarrow>
      tcp_process s (tcp_header_for tp seq k fl) skb w = Some (r, fate, w') \<longrightarrow>
      netdev_rx_loop_step tv f w = Some w')"
  using assms unfolding ctl_frame_def by (elim exE conjE) (use tcp_frame_in in blast)

lemma emits_ctl_frame:
  assumes "emits mac t seq fl n n'" and "net_inv n" and "arp_get_hwaddr n gateway = Some mac"
  shows "\<exists>f. n' = tun_write f n \<and> ctl_frame (net_dev n) (sk_daddr (tsk_sk t)) t seq fl f"
proof -
  have "length mac = 6" "length (nd_hwaddr (net_dev n)) = 6"
    using assms(2,3) net_inv_dev [OF assms(2)] by (auto simp: dev_ok_def net_inv_def intro: arp_get_hwaddr_length)
  then show ?thesis using assms(1) unfolding emits_def ctl_frame_def by force
qed

section \<open>The SYN\<close>

lemma tcp_syn_skb:
  "\<exists>skb1 skb. tcp_write_options mss 4 (tcp_alloc_skb 4 0) = Some skb1 \<and> tcp_set_flags TCP_SYN skb1 = Some skb \<and>
     tcp_ready 6 skb \<and> skb_protocol skb = ucast IP_TCP \<and> skb_buf skb ! 47 = TCP_SYN \<and> skb_dlen skb = 0 \<and>
     skb_len skb = 0 \<and> length (skb_buf skb) = 58"
  by (simp add: tcp_set_flags_def tcp_alloc_skb_def tcp_hdr_def skb_head_def skb_reserve_def tcp_write_options_def
      alloc_skb_def Let_def tcp_ready_def hi_nibble_set_hi nth_put16)

text \<open>What \<open>tcp_begin_connect\<close> makes of a closed socket; \<open>i\<close> is the initial sequence number.\<close>

definition connecting :: "tcp_sock \<Rightarrow> u32 \<Rightarrow> tcp_sock \<Rightarrow> bool" where
  "connecting tsk i tsk' \<longleftrightarrow> tsk_state tsk' = TCP_SYN_SENT \<and> same_ends tsk tsk' \<and>
     isn (tsk_tcb tsk') = i \<and> snd_una (tsk_tcb tsk') = i \<and> snd_nxt (tsk_tcb tsk') = i + 1 \<and>
     rcv_wnd (tsk_tcb tsk') = tcp_select_initial_window \<and> queue_inv (sk_write_queue (tsk_sk tsk')) \<and>
     (\<forall>skb\<in>set (q_items (sk_write_queue (tsk_sk tsk'))). skb_end_seq skb = i) \<and>
     sk_receive_queue (tsk_sk tsk') = sk_receive_queue (tsk_sk tsk) \<and> tsk_ofo_queue tsk' = tsk_ofo_queue tsk"

lemma tcp_begin_connect_sent:
  assumes cs: "can_send w s tsk" and mac: "arp_get_hwaddr (w_net w) gateway = Some mac"
    and st: "tsk_state tsk = TCP_CLOSE"
    and q: "queue_inv (sk_write_queue (tsk_sk tsk))" "q_items (sk_write_queue (tsk_sk tsk)) = []"
  defines "i \<equiv> w_isns w (w_isn_cnt w)"
  shows "\<exists>tsk' w' pkt sgm d. tcp_begin_connect s w = Some (Indet, w') \<and> can_send w' s tsk' \<and>
    w_links w' = w_links w \<and> w_sockets w' = w_sockets w \<and> w_tcp w' = (w_tcp w)(s \<mapsto> tsk') \<and>
    w_net w' = tun_write (eth_frame mac (nd_hwaddr (net_dev (w_net w))) ETH_P_IP pkt) (w_net w) \<and>
    connecting tsk i tsk' \<and> ip_datagram (net_dev (w_net w)) (sk_daddr (tsk_sk tsk)) IP_TCP sgm pkt \<and>
    tcp_segment tsk' i 6 TCP_SYN d sgm \<and> length d = 4"
proof -
  define t1 where "t1 = on_sk (\<lambda>sk. sk\<lparr>sk_state := TCP_SYN_SENT\<rparr>) (on_tcb (\<lambda>tcb. tcb\<lparr>isn := i, snd_wnd := 0,
      snd_wl1 := 0, snd_una := i, snd_up := i, snd_nxt := i, rcv_nxt := 0, rcv_wnd := tcp_select_initial_window\<rparr>)
      (tsk\<lparr>tsk_header_len := 20\<rparr>))"
  let ?w1 = "put_tsk s t1 (w\<lparr>w_isn_cnt := w_isn_cnt w + 1\<rparr>)"
  have c1: "can_send ?w1 s t1" using cs by (simp add: can_send_def t1_def timers_live_def)
  obtain skb1 skb where skb: "tcp_write_options (tsk_rmss tsk) 4 (tcp_alloc_skb 4 0) = Some skb1"
    "tcp_set_flags TCP_SYN skb1 = Some skb" "tcp_ready 6 skb" "skb_protocol skb = ucast IP_TCP"
    "skb_buf skb ! 47 = TCP_SYN" "skb_dlen skb = 0" "skb_len skb = 0" "length (skb_buf skb) = 58"
    using tcp_syn_skb by blast
  obtain rt skb' ts pkt sgm where t: "tcp_queue_transmit_skb s skb ?w1 = Some (Indet, put_tsk s (queued t1 rt skb')
      (?w1\<lparr>w_net := tun_write (eth_frame mac (nd_hwaddr (net_dev (w_net ?w1))) ETH_P_IP pkt) (w_net ?w1), w_timers := ts\<rparr>))"
    "timers_live ts (queued t1 rt skb')" "tcp_sent t1 6 skb skb'"
    "ip_datagram (net_dev (w_net ?w1)) (sk_daddr (tsk_sk t1)) IP_TCP sgm pkt"
    "tcp_segment t1 (snd_nxt (tsk_tcb t1)) 6 (skb_buf skb ! 47) (take (unat (skb_len skb) + 4 * 6 - 20) (drop 54 (skb_buf skb))) sgm"
    using tcp_queue_transmit_sent [OF c1 skb(3,4), of mac] mac by (fastforce simp del: not_None_eq)
  let ?t2 = "on_tcb (\<lambda>tcb. tcb\<lparr>snd_nxt := snd_nxt tcb + 1\<rparr>) (queued t1 rt skb')"
  let ?n = "tun_write (eth_frame mac (nd_hwaddr (net_dev (w_net w))) ETH_P_IP pkt) (w_net w)"
  let ?w2 = "put_tsk s ?t2 (w\<lparr>w_isn_cnt := w_isn_cnt w + 1, w_net := ?n, w_timers := ts\<rparr>)"
  have tsk: "w_tcp w s = Some tsk" using cs by (simp add: can_send_def)
  have sent: "skb_dlen skb' = 0" "skb_end_seq skb' = i" using t(3) skb(6) by (simp_all add: tcp_sent_def t1_def)
  have syn: "tcp_send_syn s (put_tsk s (on_tcb (\<lambda>tcb. tcb\<lparr>isn := i, snd_wnd := 0,
      snd_wl1 := 0, snd_una := i, snd_up := i, snd_nxt := i, rcv_nxt := 0, rcv_wnd := tcp_select_initial_window\<rparr>)
      (tsk\<lparr>tsk_header_len := 20\<rparr>)) (w\<lparr>w_isn_cnt := w_isn_cnt w + 1\<rparr>)) =
      Some (Indet, put_tsk s (queued t1 rt skb') (?w1\<lparr>w_net := ?n, w_timers := ts\<rparr>))"
    using t(1) skb(1,2) st by (simp add: tcp_send_syn_def tcp_syn_options_def tcp_set_state_def t1_def)
  have run: "tcp_begin_connect s w = Some (Indet, ?w2)"
    using tsk syn
    by (simp add: tcp_begin_connect_def tcp_generate_isn_def i_def [symmetric] put_tsk_def)
  have "queue_inv (queue_push (sk_write_queue (tsk_sk tsk)) skb')"
    using q queue_inv_tail [of "sk_write_queue (tsk_sk tsk)" skb'] by simp
  then have con: "connecting tsk i ?t2"
    using q sent by (simp add: connecting_def queued_def t1_def same_ends_def queue_push_def)
  have "tcp_segment ?t2 i 6 TCP_SYN (drop 54 (skb_buf skb)) sgm"
    using t(5) skb(5,7,8) by (simp add: tcp_segment_def tcp_header_for_def t1_def queued_def)
  moreover have "can_send ?w2 s ?t2"
    using cs t(2) by (simp add: can_send_def timers_live_def t1_def)
  ultimately show ?thesis
    using run con t(4) skb(8) by (intro exI [of _ ?t2] exI [of _ ?w2] exI [of _ pkt] exI [of _ sgm]
      exI [of _ "drop 54 (skb_buf skb)"]) (simp add: t1_def)
qed

section \<open>Connecting\<close>

text \<open>A socket that was allocated and not used yet.\<close>

definition unopened :: "world \<Rightarrow> sid list \<Rightarrow> sid list \<Rightarrow> sid \<Rightarrow> tcp_sock \<Rightarrow> bool" where
  "unopened w cs es s tsk \<longleftrightarrow> can_send w s tsk \<and> tables w cs es \<and> s \<notin> set (cs @ es) \<and> tsk_state tsk = TCP_CLOSE \<and>
     queue_inv (sk_write_queue (tsk_sk tsk)) \<and> q_items (sk_write_queue (tsk_sk tsk)) = [] \<and>
     rx_inv tsk \<and> rx_items tsk = [] \<and> ofo_inv tsk \<and> q_items (tsk_ofo_queue tsk) = []"

text \<open>The rest of \<open>tcp_v4_connect\<close> after the SYN has been sent.\<close>

definition connect_wait :: "sid \<Rightarrow> env \<Rightarrow> world \<Rightarrow> (int outcome \<times> world) option" where
  "connect_wait s es w = do {
     (rest, w) \<leftarrow> wait_sleep_tsk s es w;
     (case rest of
        None \<Rightarrow> Some (Asleep, w)
      | Some _ \<Rightarrow> do {
          w \<leftarrow> tcp_connecting_or_listening_socks_remove s w;
          w \<leftarrow> tcp_established_or_syn_recvd_socks_enqueue s w;
          Some (Returned 0, w)
        })
   }"

text \<open>\<open>tsk\<close> with the addresses that \<open>tcp_v4_connect\<close> gives it.\<close>

definition addressed :: "sockaddr_in \<Rightarrow> u16 \<Rightarrow> tcp_sock \<Rightarrow> tcp_sock" where
  "addressed addr port tsk = on_sk (\<lambda>sk. sk\<lparr>sk_dport := ntohs (sin_port addr), sk_sport := port,
     sk_daddr := ntohl (sin_addr addr), sk_saddr := 0x0A000104\<rparr>) tsk"

text \<open>
  The state in which \<open>tcp_v4_connect\<close> on the socket \<open>s\<close> of \<open>w\<close> goes to sleep: the connection is \<open>t1\<close>, the
  SYN was the frame \<open>f\<close>.
\<close>

definition syn_sent :: "world \<Rightarrow> sid list \<Rightarrow> sid list \<Rightarrow> sid \<Rightarrow> tcp_sock \<Rightarrow> sockaddr_in \<Rightarrow> world \<Rightarrow> tcp_sock \<Rightarrow> bytes \<Rightarrow> bool" where
  "syn_sent w cs es s tsk addr w1 t1 f \<longleftrightarrow> (\<forall>env. tcp_v4_connect s addr env w = connect_wait s env w1) \<and>
     can_send w1 s t1 \<and> tables w1 (cs @ [s]) es \<and> w_sockets w1 = w_sockets w \<and> w_tcp w1 = (w_tcp w)(s \<mapsto> t1) \<and>
     connecting (addressed addr (fst (tcp_generate_port w)) tsk) (w_isns w (w_isn_cnt w)) t1 \<and>
     w_net w1 = tun_write f (w_net w) \<and>
     ctl_frame (net_dev (w_net w)) (ntohl (sin_addr addr)) t1 (w_isns w (w_isn_cnt w)) TCP_SYN f"

lemma tcp_connect_syn:
  assumes u: "unopened w cs es s tsk" and mac: "arp_get_hwaddr (w_net w) gateway = Some mac"
  shows "\<exists>w1 t1 f. syn_sent w cs es s tsk addr w1 t1 f"
proof -
  define port i where "port = fst (tcp_generate_port w)" and "i = w_isns w (w_isn_cnt w)"
  let ?t = "addressed addr port tsk"
  obtain w0 where p: "tcp_generate_port (put_tsk s (on_sk (\<lambda>sk. sk\<lparr>sk_dport := ntohs (sin_port addr)\<rparr>) tsk) w) =
      (port, put_tsk s (on_sk (\<lambda>sk. sk\<lparr>sk_dport := ntohs (sin_port addr)\<rparr>) tsk) w0)"
    and w0: "w0 = w\<lparr>w_tcp_port := w_tcp_port w + 1\<rparr>"
    by (simp add: tcp_generate_port_def port_def put_tsk_def)
  have tsk: "w_tcp w s = Some tsk" and tb: "tables w cs es" and s: "s \<notin> set (cs @ es)"
    using u by (auto simp: unopened_def can_send_def)
  let ?w1 = "put_tsk s ?t w0"
  have "tables ?w1 cs es" using tb tsk by (auto simp: tables_def ring_holds_def w0)
  then obtain h where h: "tcp_connecting_or_listening_socks_enqueue s ?w1 = Some (?w1\<lparr>w_links := h\<rparr>)"
    "tables (?w1\<lparr>w_links := h\<rparr>) (cs @ [s]) es"
    using tables_cl_enqueue [of ?w1 cs es s] s by auto
  let ?w2 = "?w1\<lparr>w_links := h\<rparr>"
  have c2: "can_send ?w2 s ?t" using u by (simp add: unopened_def can_send_def timers_live_def addressed_def w0)
  have m2: "arp_get_hwaddr (w_net ?w2) gateway = Some mac" using mac by (simp add: w0)
  have st: "tsk_state ?t = TCP_CLOSE" "queue_inv (sk_write_queue (tsk_sk ?t))" "q_items (sk_write_queue (tsk_sk ?t)) = []"
    using u by (simp_all add: unopened_def addressed_def)
  have i: "w_isns ?w2 (w_isn_cnt ?w2) = i" by (simp add: i_def w0)
  obtain t1 w3 pkt sgm d where b: "tcp_begin_connect s ?w2 = Some (Indet, w3)" "can_send w3 s t1"
    "w_links w3 = w_links ?w2" "w_sockets w3 = w_sockets ?w2" "w_tcp w3 = (w_tcp ?w2)(s \<mapsto> t1)"
    "w_net w3 = tun_write (eth_frame mac (nd_hwaddr (net_dev (w_net ?w2))) ETH_P_IP pkt) (w_net ?w2)"
    "connecting ?t i t1" "ip_datagram (net_dev (w_net ?w2)) (sk_daddr (tsk_sk ?t)) IP_TCP sgm pkt"
    "tcp_segment t1 i 6 TCP_SYN d sgm" "length d = 4"
    using tcp_begin_connect_sent [OF c2 m2 st] unfolding i by blast
  have "tcp_v4_connect s addr env w = connect_wait s env w3" for env
    using tsk p h(1) b(1)
    by (simp add: tcp_v4_connect_def connect_wait_def stackaddr_def ip_parse_stack addressed_def on_sk_def
        upd_tsk_def Let_def)
  moreover have "tables w3 (cs @ [s]) es" using h(2) b(3,5) by (auto simp: tables_def ring_holds_def)
  moreover have "length mac = 6" "length (nd_hwaddr (net_dev (w_net w))) = 6"
    using u mac net_inv_dev [of "w_net w"]
    by (auto simp: unopened_def can_send_def dev_ok_def net_inv_def intro: arp_get_hwaddr_length)
  then have "ctl_frame (net_dev (w_net w)) (ntohl (sin_addr addr)) t1 i TCP_SYN
      (eth_frame mac (nd_hwaddr (net_dev (w_net w))) ETH_P_IP pkt)"
    using b(8-10) unfolding ctl_frame_def by (force simp: w0 addressed_def)
  ultimately show ?thesis
    using b(2,4-7) unfolding syn_sent_def port_def i_def by (force simp: w0)
qed

lemma find_match_other:
  assumes "\<And>x. x \<in> set xs \<Longrightarrow> w_tcp w' x = w_tcp w x"
  shows "find_first (conn_match w' a b c d) xs = find_first (conn_match w a b c d) xs"
    and "find_first (local_match w' a b) xs = find_first (local_match w a b) xs"
  by (rule find_first_cong, simp add: conn_match_def local_match_def assms)+

text \<open>The peer's SYN-ACK, on a socket that waits for it.\<close>

lemma tcp_synack_in:
  assumes c: "can_send w s t1" and tb: "tables w (cs @ [s]) es" and con: "connecting t0 i t1"
    and mac: "arp_get_hwaddr (w_net w) gateway = Some mac"
    and f: "ctl_frame dev 0x0A000104 tp seq fl f" "bit fl 1" "bit fl 4" "\<not> bit fl 2" "rcv_nxt (tsk_tcb tp) = i + 1"
    and ends: "sk_saddr (tsk_sk t1) = 0x0A000104" "sk_sport (tsk_sk t1) = sk_dport (tsk_sk tp)"
    and new: "find_first (conn_match w 0x0A000104 (sk_dport (tsk_sk tp)) (nd_addr dev) (sk_sport (tsk_sk tp))) es = None"
      "find_first (local_match w 0x0A000104 (sk_dport (tsk_sk tp))) cs = None"
    and i: "i < i + 1"
  shows "\<exists>t' ts n. netdev_rx_loop_step tv f w = Some (put_tsk s t' (w\<lparr>w_timers := ts, w_net := n\<rparr>)) \<and>
    can_send (put_tsk s t' (w\<lparr>w_timers := ts, w_net := n\<rparr>)) s t' \<and>
    tsk_sk t' = (tsk_sk t1)\<lparr>sk_state := TCP_ESTABLISHED, sk_write_queue := skb_queue_init\<rparr> \<and>
    tsk_tcb t' = (tsk_tcb t1)\<lparr>rcv_nxt := seq + 1, irs := seq, snd_una := i + 1\<rparr> \<and>
    \<not> wl_sleeping (tsk_wait t') \<and> tsk_ofo_queue t' = tsk_ofo_queue t1 \<and> emits mac t' (i + 1) TCP_ACK (w_net w) n"
proof -
  obtain skb k where s: "skb_dlen skb = 0"
    "\<And>w s r fate w'. tcp_lookup_sock w (nd_addr dev) (sk_sport (tsk_sk tp)) 0x0A000104 (sk_dport (tsk_sk tp)) =
        Some (Some s) \<Longrightarrow> tcp_process s (tcp_header_for tp seq k fl) skb w = Some (r, fate, w') \<Longrightarrow>
      netdev_rx_loop_step tv f w = Some w'"
    using ctl_frame_in [OF f(1)] by blast
  let ?th = "tcp_header_for tp seq k fl"
  have th: "th_syn ?th" "th_ack ?th" "\<not> th_rst ?th" "th_ack_seq ?th = i + 1" "th_seq ?th = seq"
    using f(2-5) by (simp_all add: th_syn_def th_ack_def th_rst_def tcp_header_for_def)
  have t1: "tsk_state t1 = TCP_SYN_SENT" "queue_inv (sk_write_queue (tsk_sk t1))" "isn (tsk_tcb t1) = i"
    "\<forall>skb\<in>set (q_items (sk_write_queue (tsk_sk t1))). skb_end_seq skb = isn (tsk_tcb t1)"
    "snd_una (tsk_tcb t1) = isn (tsk_tcb t1)" "snd_nxt (tsk_tcb t1) = isn (tsk_tcb t1) + 1"
    using con by (simp_all add: connecting_def)
  have w: "w_tcp w s = Some t1" using c by (simp add: can_send_def)
  obtain t' ts n where p: "tcp_synsent s skb ?th w =
      Some (Rc 0, tcp_drop skb, put_tsk s t' (w\<lparr>w_timers := ts, w_net := n\<rparr>))"
    "can_send (put_tsk s t' (w\<lparr>w_timers := ts, w_net := n\<rparr>)) s t'"
    "tsk_sk t' = (tsk_sk t1)\<lparr>sk_state := TCP_ESTABLISHED, sk_write_queue := skb_queue_init\<rparr>"
    "tsk_tcb t' = (tsk_tcb t1)\<lparr>rcv_nxt := seq + 1, irs := seq, snd_una := i + 1\<rparr>"
    "\<not> wl_sleeping (tsk_wait t')" "tsk_ofo_queue t' = tsk_ofo_queue t1" "emits mac t' (i + 1) TCP_ACK (w_net w) n"
    using tcp_synsent_ok [OF c t1(1) mac t1(2,4) th(1-3) _ t1(5,6), of skb] t1(3) th(4,5) i by auto
  have "local_match w 0x0A000104 (sk_dport (tsk_sk tp)) s" using w ends by (simp add: local_match_def)
  then have "tcp_lookup_sock w (nd_addr dev) (sk_sport (tsk_sk tp)) 0x0A000104 (sk_dport (tsk_sk tp)) = Some (Some s)"
    using new by (simp add: tcp_lookup_sock_tables [OF tb] find_first_append)
  moreover have "tcp_process s ?th skb w = Some (Rc 0, tcp_drop skb, put_tsk s t' (w\<lparr>w_timers := ts, w_net := n\<rparr>))"
    using w t1(1) p(1) by (simp add: tcp_process_def)
  ultimately have "netdev_rx_loop_step tv f w = Some (put_tsk s t' (w\<lparr>w_timers := ts, w_net := n\<rparr>))" by (rule s(2))
  then show ?thesis using p(2-7) by blast
qed

lemma connect_wait_woken:
  assumes w: "w_tcp w s = Some t1" and tb: "tables w (cs @ [s]) es"
    and e: "e (put_tsk s (t1\<lparr>tsk_wait := (tsk_wait t1)\<lparr>wl_sleeping := True\<rparr>\<rparr>) w) =
      Some w2" "w_tcp w2 s = Some t2" "\<not> wl_sleeping (tsk_wait t2)" "tables w2 (cs @ [s]) es"
  shows "\<exists>h. connect_wait s [e] w = Some (Returned 0, w2\<lparr>w_links := h\<rparr>) \<and> tables (w2\<lparr>w_links := h\<rparr>) cs (es @ [s])"
proof -
  obtain h1 where h1: "tcp_connecting_or_listening_socks_remove s w2 = Some (w2\<lparr>w_links := h1\<rparr>)"
    "tables (w2\<lparr>w_links := h1\<rparr>) cs es"
    using tables_cl_remove [of w2 cs s "[]" es] e(4) by auto
  have "s \<notin> set (cs @ es)" "s \<in> dom (w_tcp w2)" using e(4) by (auto simp: tables_def ring_holds_def dlist_def)
  then obtain h2 where h2: "tcp_established_or_syn_recvd_socks_enqueue s (w2\<lparr>w_links := h1\<rparr>) =
      Some (w2\<lparr>w_links := h2\<rparr>)" "tables (w2\<lparr>w_links := h2\<rparr>) cs (es @ [s])"
    using tables_es_enqueue [OF h1(2), of s] by auto
  show ?thesis
    using w e h1(1) h2 by (intro exI [of _ h2]) (simp add: connect_wait_def wait_sleep_tsk_def upd_tsk_def)
qed

text \<open>What the peer's SYN-ACK, in the frame \<open>f\<close>, makes of it.\<close>

lemma tcp_connect_rest:
  assumes u: "unopened w cs es s tsk" and c: "syn_sent w cs es s tsk addr w1 t1 f1"
    and mac: "arp_get_hwaddr (w_net w) gateway = Some mac"
    and f: "ctl_frame dev 0x0A000104 tp seq fl f" "bit fl 1" "bit fl 4" "\<not> bit fl 2"
      "rcv_nxt (tsk_tcb tp) = w_isns w (w_isn_cnt w) + 1" "nd_addr dev = ntohl (sin_addr addr)"
      "sk_sport (tsk_sk tp) = ntohs (sin_port addr)" "sk_dport (tsk_sk tp) = fst (tcp_generate_port w)"
    and new: "find_first (conn_match w 0x0A000104 (sk_dport (tsk_sk tp)) (nd_addr dev) (sk_sport (tsk_sk tp))) es = None"
      "find_first (local_match w 0x0A000104 (sk_dport (tsk_sk tp))) cs = None"
    and i: "w_isns w (w_isn_cnt w) < w_isns w (w_isn_cnt w) + 1" and n: "n < 2 ^ 32"
  shows "\<exists>w' t' f2. tcp_v4_connect s addr [netdev_rx_loop_step tv f] w = Some (Returned 0, w') \<and>
    receiving w' cs (es @ [s]) s n t' \<and> rx_items t' = [] \<and> same_ends t1 t' \<and>
    same_ends (addressed addr (fst (tcp_generate_port w)) tsk) t' \<and>
    rcv_nxt (tsk_tcb t') = seq + 1 \<and> rcv_wnd (tsk_tcb t') = tcp_select_initial_window \<and>
    snd_una (tsk_tcb t') = w_isns w (w_isn_cnt w) + 1 \<and> snd_nxt (tsk_tcb t') = w_isns w (w_isn_cnt w) + 1 \<and>
    w_sockets w' = w_sockets w \<and> w_net w' = tun_write f2 (tun_write f1 (w_net w)) \<and>
    ctl_frame (net_dev (w_net w)) (nd_addr dev) t' (w_isns w (w_isn_cnt w) + 1) TCP_ACK f2"
proof -
  let ?i = "w_isns w (w_isn_cnt w)" and ?port = "fst (tcp_generate_port w)"
  have c: "\<And>env. tcp_v4_connect s addr env w = connect_wait s env w1"
    "can_send w1 s t1" "tables w1 (cs @ [s]) es" "w_sockets w1 = w_sockets w" "w_tcp w1 = (w_tcp w)(s \<mapsto> t1)"
    "connecting (addressed addr ?port tsk) ?i t1" "w_net w1 = tun_write f1 (w_net w)"
    using c by (simp_all add: syn_sent_def)
  let ?t = "t1\<lparr>tsk_wait := (tsk_wait t1)\<lparr>wl_sleeping := True\<rparr>\<rparr>"
  let ?w = "put_tsk s ?t w1"
  have s: "s \<notin> set cs" "s \<notin> set es" using u by (auto simp: unopened_def)
  have t: "sk_saddr (tsk_sk t1) = 0x0A000104" "sk_sport (tsk_sk t1) = sk_dport (tsk_sk tp)"
    "sk_daddr (tsk_sk t1) = nd_addr dev" "sk_dport (tsk_sk t1) = sk_sport (tsk_sk tp)"
    using c(6) f(6-8) by (simp_all add: connecting_def same_ends_def addressed_def)
  have same: "w_tcp ?w x = w_tcp w x" if "x \<noteq> s" for x using that c(5) by simp
  have new': "find_first (conn_match ?w 0x0A000104 (sk_dport (tsk_sk tp)) (nd_addr dev) (sk_sport (tsk_sk tp))) es = None"
    "find_first (local_match ?w 0x0A000104 (sk_dport (tsk_sk tp))) cs = None"
    using new s same find_match_other(1) [of es ?w w] find_match_other(2) [of cs ?w w] by metis+
  have con: "connecting (addressed addr ?port tsk) ?i ?t" using c(6) by (simp add: connecting_def same_ends_def)
  have cs: "can_send ?w s ?t" using c(2) by (simp add: can_send_def timers_live_def)
  have tb: "tables ?w (cs @ [s]) es" using c(3,5) by (auto simp: tables_def ring_holds_def)
  have gw: "arp_get_hwaddr (w_net ?w) gateway = Some mac" using mac c(7) by simp
  have e: "sk_saddr (tsk_sk ?t) = 0x0A000104" "sk_sport (tsk_sk ?t) = sk_dport (tsk_sk tp)" using t by simp_all
  obtain t' ts m where p: "netdev_rx_loop_step tv f ?w = Some (put_tsk s t' (?w\<lparr>w_timers := ts, w_net := m\<rparr>))"
    "can_send (put_tsk s t' (?w\<lparr>w_timers := ts, w_net := m\<rparr>)) s t'"
    "tsk_sk t' = (tsk_sk ?t)\<lparr>sk_state := TCP_ESTABLISHED, sk_write_queue := skb_queue_init\<rparr>"
    "tsk_tcb t' = (tsk_tcb ?t)\<lparr>rcv_nxt := seq + 1, irs := seq, snd_una := ?i + 1\<rparr>"
    "\<not> wl_sleeping (tsk_wait t')" "tsk_ofo_queue t' = tsk_ofo_queue ?t" "emits mac t' (?i + 1) TCP_ACK (w_net ?w) m"
    using tcp_synack_in [OF cs tb con gw f(1-5) e new' i, of tv] by blast
  let ?w2 = "put_tsk s t' (?w\<lparr>w_timers := ts, w_net := m\<rparr>)"
  have tb2: "tables ?w2 (cs @ [s]) es" using tb by (auto simp: tables_def ring_holds_def)
  have w1: "w_tcp w1 s = Some t1" "w_tcp ?w2 s = Some t'" by (simp_all add: c(5))
  obtain h where h: "connect_wait s [netdev_rx_loop_step tv f] w1 = Some (Returned 0, ?w2\<lparr>w_links := h\<rparr>)"
    "tables (?w2\<lparr>w_links := h\<rparr>) cs (es @ [s])"
    using connect_wait_woken [where e = "netdev_rx_loop_step tv f", OF w1(1) c(3) p(1) w1(2) p(5) tb2] by blast
  let ?w3 = "?w2\<lparr>w_links := h\<rparr>"
  have t': "same_ends t1 t'" "same_ends t' t1" using p(3) by (simp_all add: same_ends_def)
  have "find_first (conn_match ?w3 0x0A000104 (sk_dport (tsk_sk tp)) (nd_addr dev) (sk_sport (tsk_sk tp))) es = None"
    unfolding new'(1) [symmetric] by (rule find_match_other) (use s(2) in auto)
  moreover have "conn_match ?w3 0x0A000104 (sk_dport (tsk_sk tp)) (nd_addr dev) (sk_sport (tsk_sk tp)) s"
    using t t' by (simp add: conn_match_def same_ends_def)
  ultimately have "receiving ?w3 cs (es @ [s]) s n t'"
    using h(2) p(2,3,6) t t' c(6) u n
    by (simp add: receiving_def can_send_def same_ends_def find_first_append connecting_def unopened_def rx_inv_def ofo_inv_def addressed_def)
  moreover have "same_ends (addressed addr ?port tsk) t'" using c(6) t' by (simp add: connecting_def same_ends_def)
  moreover have "sk_daddr (tsk_sk t') = nd_addr dev" "net_dev (w_net ?w) = net_dev (w_net w)" "net_inv (w_net ?w)"
    using t(3) t' c(2,7) by (simp_all add: same_ends_def can_send_def tun_write_def)
  then obtain f2 where "m = tun_write f2 (tun_write f1 (w_net w))" "ctl_frame (net_dev (w_net w)) (nd_addr dev) t' (?i + 1) TCP_ACK f2"
    using emits_ctl_frame [OF p(7) _ gw] c(7) by auto
  ultimately show ?thesis
    using c(1,4,6,7) h(1) p(3,4) t(3) t' u
    by (intro exI [of _ ?w3] exI [of _ t'] exI [of _ f2]) (simp add: connecting_def unopened_def addressed_def same_ends_def)
qed

section \<open>Accepting\<close>

text \<open>The peer's SYN, on a listening socket.\<close>

lemma tcp_syn_in:
  assumes l: "listening w cs es p ls acc" and p: "w_tcp w p = Some pt" "tsk_state pt = TCP_LISTEN"
    and net: "net_inv (w_net w)" "arp_get_hwaddr (w_net w) gateway = Some mac"
    and f: "ctl_frame dev 0x0A000104 tp seq fl f" "bit fl 1" "\<not> bit fl 4" "\<not> bit fl 2"
    and new: "find_first (conn_match w 0x0A000104 (sk_dport (tsk_sk tp)) (nd_addr dev) (sk_sport (tsk_sk tp))) es = None"
      "find_first (local_match w 0x0A000104 (sk_dport (tsk_sk tp))) cs = Some p"
  defines "c \<equiv> w_next w" and "i \<equiv> w_isns w (w_isn_cnt w)"
  shows "\<exists>w' th n h. netdev_rx_loop_step tv f w = Some w' \<and>
    w' = put_tsk c (half_open p th (nd_addr dev) 0x0A000104 i)
      (w\<lparr>w_next := c + 1, w_links := h, w_isn_cnt := w_isn_cnt w + 1, w_net := n\<rparr>) \<and>
    th_seq th = seq \<and> th_sport th = sk_sport (tsk_sk tp) \<and> th_dport th = sk_dport (tsk_sk tp) \<and>
    listening w' cs (es @ [c]) p (c # ls) acc \<and>
    emits mac (half_open p th (nd_addr dev) 0x0A000104 i) i (TCP_SYN OR TCP_ACK) (w_net w) n"
proof -
  obtain skb k where s: "load32 (skb_buf skb) (ip_hdr skb + 12) = Some (nd_addr dev)"
    "load32 (skb_buf skb) (ip_hdr skb + 16) = Some 0x0A000104"
    "\<And>w s r fate w'. tcp_lookup_sock w (nd_addr dev) (sk_sport (tsk_sk tp)) 0x0A000104 (sk_dport (tsk_sk tp)) =
        Some (Some s) \<Longrightarrow> tcp_process s (tcp_header_for tp seq k fl) skb w = Some (r, fate, w') \<Longrightarrow>
      netdev_rx_loop_step tv f w = Some w'"
    using ctl_frame_in [OF f(1)] by blast
  let ?th = "tcp_header_for tp seq k fl"
  have th: "th_syn ?th" "\<not> th_ack ?th" "\<not> th_rst ?th" "th_seq ?th = seq" "th_sport ?th = sk_sport (tsk_sk tp)"
    "th_dport ?th = sk_dport (tsk_sk tp)"
    using f(2-4) by (simp_all add: th_syn_def th_ack_def th_rst_def tcp_header_for_def)
  obtain w' n h where r: "tcp_handle_listen p skb ?th w = Some (Rc 0, free_skb skb, w')"
    "w' = put_tsk c (half_open p ?th (nd_addr dev) 0x0A000104 i)
      (w\<lparr>w_next := c + 1, w_links := h, w_isn_cnt := w_isn_cnt w + 1, w_net := n\<rparr>)"
    "listening w' cs (es @ [c]) p (c # ls) acc"
    "emits mac (half_open p ?th (nd_addr dev) 0x0A000104 i) i (TCP_SYN OR TCP_ACK) (w_net w) n"
    using tcp_handle_listen_ok [OF l th(1-3) net s(1,2)] unfolding c_def i_def by blast
  have "tables w cs es" using l by (simp add: listening_def)
  then have "tcp_lookup_sock w (nd_addr dev) (sk_sport (tsk_sk tp)) 0x0A000104 (sk_dport (tsk_sk tp)) = Some (Some p)"
    using new by (simp add: tcp_lookup_sock_tables)
  moreover have "tcp_process p ?th skb w = Some (Rc 0, free_skb skb, w')"
    using p r(1) by (simp add: tcp_process_def)
  ultimately have "netdev_rx_loop_step tv f w = Some w'" by (rule s(3))
  then show ?thesis using r(2-4) th(4-6) by blast
qed

text \<open>The last segment of the handshake, on a half-open connection \<open>c\<close> of the listening socket \<open>p\<close>.\<close>

lemma tcp_handshake_ack_in:
  assumes l: "listening w cs (es @ [c]) p (c # ls) acc" and p: "w_tcp w p = Some pt" "tsk_state pt = TCP_LISTEN"
    and c: "w_tcp w c = Some t" "t = half_open p th (nd_addr dev) 0x0A000104 i"
    and f: "ctl_frame dev 0x0A000104 tp (th_seq th + 1) fl f" "bit fl 4" "\<not> bit fl 1" "\<not> bit fl 0" "rcv_nxt (tsk_tcb tp) = i + 1"
      "th_sport th = sk_sport (tsk_sk tp)" "th_dport th = sk_dport (tsk_sk tp)"
    and new: "find_first (conn_match w 0x0A000104 (sk_dport (tsk_sk tp)) (nd_addr dev) (sk_sport (tsk_sk tp))) es = None"
    and i: "i \<le> i + 1"
  shows "\<exists>w' h. netdev_rx_loop_step tv f w = Some w' \<and>
    w' = put_tsk c (on_sk (\<lambda>sk. sk\<lparr>sk_state := TCP_ESTABLISHED\<rparr>) (on_tcb (\<lambda>tcb. tcb\<lparr>snd_una := i + 1\<rparr>) t))
         (put_tsk p (pt\<lparr>tsk_wait := wait_wakeup (tsk_wait pt)\<rparr>) (w\<lparr>w_links := h\<rparr>)) \<and>
    listening w' cs (es @ [c]) p ls (c # acc)"
proof -
  obtain skb k where s: "skb_dlen skb = 0"
    "\<And>w s r fate w'. tcp_lookup_sock w (nd_addr dev) (sk_sport (tsk_sk tp)) 0x0A000104 (sk_dport (tsk_sk tp)) =
        Some (Some s) \<Longrightarrow> tcp_process s (tcp_header_for tp (th_seq th + 1) k fl) skb w = Some (r, fate, w') \<Longrightarrow>
      netdev_rx_loop_step tv f w = Some w'"
    using ctl_frame_in [OF f(1)] by blast
  let ?th = "tcp_header_for tp (th_seq th + 1) k fl"
  have h: "th_ack ?th" "\<not> th_syn ?th" "\<not> th_fin ?th" "th_seq ?th = rcv_nxt (tsk_tcb t)" "th_ack_seq ?th = i + 1"
    "snd_una (tsk_tcb t) \<le> th_ack_seq ?th" "th_ack_seq ?th \<le> snd_nxt (tsk_tcb t)"
    using f(2-5) i c(2)
    by (simp_all add: th_syn_def th_ack_def th_fin_def tcp_header_for_def half_open_def child_of_def)
  have t: "tsk_state t = TCP_SYN_RECEIVED" "tsk_parent t = Some p" "rcv_nxt (tsk_tcb t) \<le> rcv_nxt (tsk_tcb t) + rcv_wnd (tsk_tcb t)"
    using c(2) by (simp_all add: half_open_def child_of_def tcp_sock_zero_def tcb_zero_def)
  have l': "listening w cs (es @ [c]) p ([] @ c # ls) acc" using l by simp
  obtain w' hp where r: "tcp_process c ?th skb w = Some (Rc 0, free_skb skb, w')"
    "w' = put_tsk c (on_sk (\<lambda>sk. sk\<lparr>sk_state := TCP_ESTABLISHED\<rparr>) (on_tcb (\<lambda>tcb. tcb\<lparr>snd_una := i + 1\<rparr>) t))
         (put_tsk p (pt\<lparr>tsk_wait := wait_wakeup (tsk_wait pt)\<rparr>) (w\<lparr>w_links := hp\<rparr>))"
    "listening w' cs (es @ [c]) p ([] @ ls) (c # acc)"
    using tcp_handshake_ack_ok [OF l' c(1) t(1,2) p h(1-4,6,7) s(1) t(3)] unfolding h(5) by blast
  have "conn_match w 0x0A000104 (sk_dport (tsk_sk tp)) (nd_addr dev) (sk_sport (tsk_sk tp)) c"
    using c f(6,7) by (simp add: conn_match_def half_open_def child_of_def)
  moreover have "tables w cs (es @ [c])" using l by (simp add: listening_def)
  ultimately have "tcp_lookup_sock w (nd_addr dev) (sk_sport (tsk_sk tp)) 0x0A000104 (sk_dport (tsk_sk tp)) = Some (Some c)"
    using new by (simp add: tcp_lookup_sock_tables find_first_append)
  from s(2) [OF this r(1)] show ?thesis using r(2,3) by auto
qed

text \<open>
  The state of the stack while \<open>accept\<close> on \<open>p\<close> sleeps and the handshake is half done: the new connection is
  \<open>c\<close>, the SYN-ACK was the frame \<open>g\<close>.
\<close>

definition asleep :: "sid \<Rightarrow> tcp_sock \<Rightarrow> world \<Rightarrow> world" where
  "asleep p pt w = put_tsk p (pt\<lparr>tsk_wait := (tsk_wait pt)\<lparr>wl_sleeping := True\<rparr>\<rparr>) w"

definition syn_received ::
    "world \<Rightarrow> sid list \<Rightarrow> sid list \<Rightarrow> sid \<Rightarrow> tcp_sock \<Rightarrow> sid list \<Rightarrow> netdev \<Rightarrow> tcp_sock \<Rightarrow> u32 \<Rightarrow> world \<Rightarrow> tcphdr \<Rightarrow> bytes \<Rightarrow> bool" where
  "syn_received w cs es p pt ls dev tp seq w1 th g \<longleftrightarrow>
     th_seq th = seq \<and> th_sport th = sk_sport (tsk_sk tp) \<and> th_dport th = sk_dport (tsk_sk tp) \<and>
     (\<exists>h. w1 = put_tsk (w_next w) (half_open p th (nd_addr dev) 0x0A000104 (w_isns w (w_isn_cnt w)))
       ((asleep p pt w)\<lparr>w_next := w_next w + 1, w_links := h, w_isn_cnt := w_isn_cnt w + 1,
         w_net := tun_write g (w_net w)\<rparr>)) \<and>
     listening w1 cs (es @ [w_next w]) p (w_next w # ls) [] \<and>
     ctl_frame (net_dev (w_net w)) (nd_addr dev) (half_open p th (nd_addr dev) 0x0A000104 (w_isns w (w_isn_cnt w)))
       (w_isns w (w_isn_cnt w)) (TCP_SYN OR TCP_ACK) g"

lemma tcp_accept_syn:
  assumes l: "listening w cs es p ls []" and p: "w_tcp w p = Some pt" "tsk_state pt = TCP_LISTEN"
    and net: "net_inv (w_net w)" "arp_get_hwaddr (w_net w) gateway = Some mac"
    and f: "ctl_frame dev 0x0A000104 tp seq fl f" "bit fl 1" "\<not> bit fl 4" "\<not> bit fl 2"
    and new: "find_first (conn_match w 0x0A000104 (sk_dport (tsk_sk tp)) (nd_addr dev) (sk_sport (tsk_sk tp))) es = None"
      "find_first (local_match w 0x0A000104 (sk_dport (tsk_sk tp))) cs = Some p"
  shows "\<exists>w1 th g. netdev_rx_loop_step tv f (asleep p pt w) = Some w1 \<and>
    syn_received w cs es p pt ls dev tp seq w1 th g"
proof -
  let ?i = "w_isns w (w_isn_cnt w)" and ?w = "asleep p pt w"
  let ?p = "pt\<lparr>tsk_wait := (tsk_wait pt)\<lparr>wl_sleeping := True\<rparr>\<rparr>"
  have l0: "listening ?w cs es p ls []"
    using l p by (auto simp: listening_def tables_def backlog_def ring_holds_def asleep_def)
  have p0: "w_tcp ?w p = Some ?p" "tsk_state ?p = TCP_LISTEN" using p by (simp_all add: asleep_def)
  have net0: "net_inv (w_net ?w)" "arp_get_hwaddr (w_net ?w) gateway = Some mac" using net by (simp_all add: asleep_def)
  have new0: "find_first (conn_match ?w 0x0A000104 (sk_dport (tsk_sk tp)) (nd_addr dev) (sk_sport (tsk_sk tp))) es = None"
    "find_first (local_match ?w 0x0A000104 (sk_dport (tsk_sk tp))) cs = Some p"
    unfolding new [symmetric] by (rule find_first_cong, simp add: conn_match_def local_match_def asleep_def p)+
  have w: "w_isns ?w = w_isns w" "w_isn_cnt ?w = w_isn_cnt w" "w_next ?w = w_next w" "w_net ?w = w_net w"
    by (simp_all add: asleep_def)
  obtain w1 th m h where s1: "netdev_rx_loop_step tv f ?w = Some w1"
    "w1 = put_tsk (w_next w) (half_open p th (nd_addr dev) 0x0A000104 ?i)
      (?w\<lparr>w_next := w_next w + 1, w_links := h, w_isn_cnt := w_isn_cnt w + 1, w_net := m\<rparr>)"
    "th_seq th = seq" "th_sport th = sk_sport (tsk_sk tp)" "th_dport th = sk_dport (tsk_sk tp)"
    "listening w1 cs (es @ [w_next w]) p (w_next w # ls) []"
    "emits mac (half_open p th (nd_addr dev) 0x0A000104 ?i) ?i (TCP_SYN OR TCP_ACK) (w_net w) m"
    using tcp_syn_in [OF l0 p0 net0 f new0, of tv] unfolding w by blast
  obtain g where "m = tun_write g (w_net w)" "ctl_frame (net_dev (w_net w)) (nd_addr dev)
      (half_open p th (nd_addr dev) 0x0A000104 ?i) ?i (TCP_SYN OR TCP_ACK) g"
    using emits_ctl_frame [OF s1(7) net] by (auto simp: half_open_def child_of_def)
  with s1 show ?thesis unfolding syn_received_def by blast
qed

text \<open>The connection that comes of it.\<close>

definition accepted :: "sid \<Rightarrow> tcphdr \<Rightarrow> u32 \<Rightarrow> u32 \<Rightarrow> tcp_sock" where
  "accepted p th saddr i = on_sk (\<lambda>sk. sk\<lparr>sk_state := TCP_ESTABLISHED\<rparr>) (on_tcb (\<lambda>tcb. tcb\<lparr>snd_una := i + 1\<rparr>)
     (half_open p th saddr 0x0A000104 i))"

lemma accepted_simps:
  "tsk_state (accepted p th saddr i) = TCP_ESTABLISHED" "rx_items (accepted p th saddr i) = []"
  "tsk_smss (accepted p th saddr i) = 1460" "sk_saddr (tsk_sk (accepted p th saddr i)) = 0x0A000104"
  "sk_sport (tsk_sk (accepted p th saddr i)) = th_dport th" "sk_daddr (tsk_sk (accepted p th saddr i)) = saddr"
  "sk_dport (tsk_sk (accepted p th saddr i)) = th_sport th" "timers_inv ts \<Longrightarrow> timers_live ts (accepted p th saddr i)"
  "tsk_tcb (accepted p th saddr i) =
     tcb_zero\<lparr>irs := th_seq th, rcv_nxt := th_seq th + 1, isn := i, snd_una := i + 1, snd_nxt := i + 1\<rparr>"
  by (simp_all add: accepted_def half_open_def child_of_def tcp_sock_zero_def timers_live_def sock_zero_def skb_queue_zero_def)

text \<open>
  Such a connection can be found under its addresses and can acknowledge.  Its queues are those of
  a structure that was cleared: nothing can be put on them before \<open>inet_accept\<close> has initialised it.
\<close>

definition answering :: "world \<Rightarrow> sid list \<Rightarrow> sid list \<Rightarrow> sid \<Rightarrow> tcp_sock \<Rightarrow> bool" where
  "answering w cs es s tsk \<longleftrightarrow> can_answer w s tsk \<and> tables w cs es \<and> tsk_state tsk = TCP_ESTABLISHED \<and>
     find_first (conn_match w (sk_saddr (tsk_sk tsk)) (sk_sport (tsk_sk tsk)) (sk_daddr (tsk_sk tsk))
       (sk_dport (tsk_sk tsk))) es = Some s"

lemma accepted_not_linked: "\<not> q_linked (sk_write_queue (tsk_sk (accepted p th saddr i)))"
  by (simp add: accepted_def half_open_def child_of_def tcp_sock_zero_def sock_zero_def skb_queue_zero_def)

lemma tcp_accept_rest:
  assumes l: "listening w cs es p ls []" and p: "w_tcp w p = Some pt" "tsk_state pt = TCP_LISTEN"
    and net: "net_inv (w_net w)" "others_ok (w_others w)" "timers_inv (w_timers w)"
    and f1: "netdev_rx_loop_step tv f1 (asleep p pt w) = Some w1" "syn_received w cs es p pt ls dev tp seq w1 th g"
    and f2: "ctl_frame dev 0x0A000104 tp' (seq + 1) fl' f2" "bit fl' 4" "\<not> bit fl' 1" "\<not> bit fl' 0"
      "rcv_nxt (tsk_tcb tp') = w_isns w (w_isn_cnt w) + 1" "same_ends tp tp'"
    and new: "find_first (conn_match w 0x0A000104 (sk_dport (tsk_sk tp)) (nd_addr dev) (sk_sport (tsk_sk tp))) es = None"
    and i: "w_isns w (w_isn_cnt w) \<le> w_isns w (w_isn_cnt w) + 1"
  shows "\<exists>w'. tcp_accept p [netdev_rx_loop_step tv f1, netdev_rx_loop_step tv f2] w = Some (Returned (w_next w), w') \<and>
    listening w' cs (es @ [w_next w]) p ls [] \<and> w_sockets w' = w_sockets w \<and> w_net w' = tun_write g (w_net w) \<and>
    answering w' cs (es @ [w_next w]) (w_next w) (accepted p th (nd_addr dev) (w_isns w (w_isn_cnt w)))"
proof -
  let ?i = "w_isns w (w_isn_cnt w)" and ?c = "w_next w"
  let ?p = "pt\<lparr>tsk_wait := (tsk_wait pt)\<lparr>wl_sleeping := True\<rparr>\<rparr>" and ?t = "accepted p th (nd_addr dev) ?i"
  obtain h where s1: "th_seq th = seq" "th_sport th = sk_sport (tsk_sk tp)" "th_dport th = sk_dport (tsk_sk tp)"
    "w1 = put_tsk ?c (half_open p th (nd_addr dev) 0x0A000104 ?i)
      ((asleep p pt w)\<lparr>w_next := ?c + 1, w_links := h, w_isn_cnt := w_isn_cnt w + 1, w_net := tun_write g (w_net w)\<rparr>)"
    "listening w1 cs (es @ [?c]) p (?c # ls) []"
    using f1(2) unfolding syn_received_def by blast
  have fresh: "?c \<noteq> p" "?c \<notin> set es" using listening_fresh [OF l] by simp_all
  have p1: "w_tcp w1 p = Some ?p" and c1: "w_tcp w1 ?c = Some (half_open p th (nd_addr dev) 0x0A000104 ?i)"
    using fresh by (simp_all add: s1(4) asleep_def)
  have m1: "find_first (conn_match w1 a b c d) es = find_first (conn_match w a b c d) es" for a b c d
    by (rule find_first_cong) (use fresh in \<open>auto simp: conn_match_def s1(4) asleep_def p(1)\<close>)
  have new1: "find_first (conn_match w1 0x0A000104 (sk_dport (tsk_sk tp')) (nd_addr dev) (sk_sport (tsk_sk tp'))) es = None"
    using new f2(6) by (simp add: m1 same_ends_def)
  have e2: "th_sport th = sk_sport (tsk_sk tp')" "th_dport th = sk_dport (tsk_sk tp')"
    using s1(2,3) f2(6) by (simp_all add: same_ends_def)
  have p0: "tsk_state ?p = TCP_LISTEN" using p by simp
  obtain w2 h2 where s2: "netdev_rx_loop_step tv f2 w1 = Some w2"
    "w2 = put_tsk ?c ?t (put_tsk p (?p\<lparr>tsk_wait := wait_wakeup (tsk_wait ?p)\<rparr>) (w1\<lparr>w_links := h2\<rparr>))"
    "listening w2 cs (es @ [?c]) p ls [?c]"
    using tcp_handshake_ack_in [OF s1(5) p1 p0 c1 refl f2(1-5) [folded s1(1)] e2 new1 i, of tv]
    unfolding accepted_def by blast
  obtain h3 where s3: "tcp_accept p [] w2 = Some (Returned ?c, w2\<lparr>w_links := h3\<rparr>)"
    "listening (w2\<lparr>w_links := h3\<rparr>) cs (es @ [?c]) p ls []"
    using tcp_accept_ok [OF s2(3)] by blast
  let ?w3 = "w2\<lparr>w_links := h3\<rparr>"
  have "list_empty (w_links w) (accept_queue_of p) = Some True"
    using l dlist_empty [of "w_links w" "accept_queue_of p" "[]"] by (simp add: listening_def backlog_def)
  then have run: "tcp_accept p [netdev_rx_loop_step tv f1, netdev_rx_loop_step tv f2] w = Some (Returned ?c, ?w3)"
    using p f1(1) p1 s2(1) s3(1) fresh
    by (subst tcp_accept.simps) (simp add: wait_sleep_tsk_def upd_tsk_def s2(2) wait_wakeup_def asleep_def)
  have c3: "w_tcp ?w3 ?c = Some ?t" "w_net ?w3 = tun_write g (w_net w)" "w_sockets ?w3 = w_sockets w"
    "w_timers ?w3 = w_timers w" "w_others ?w3 = w_others w"
    using fresh by (simp_all add: s2(2) s1(4) asleep_def)
  have "find_first (conn_match ?w3 a b c d) es = find_first (conn_match w1 a b c d) es" for a b c d
    by (rule find_first_cong) (use fresh in \<open>auto simp: conn_match_def s2(2) p1\<close>)
  then have "find_first (conn_match ?w3 0x0A000104 (sk_dport (tsk_sk tp)) (nd_addr dev) (sk_sport (tsk_sk tp))) (es @ [?c]) = Some ?c"
    using new c3(1) s1(2,3) by (simp add: find_first_append m1 conn_match_def accepted_simps)
  then have "answering ?w3 cs (es @ [?c]) ?c ?t"
    using s3(2) c3 net s1(2,3) by (simp add: answering_def can_answer_def listening_def accepted_simps)
  with run s3(2) c3 show ?thesis by blast
qed

section \<open>Data for an accepted connection\<close>

text \<open>A frame with data from the peer behind \<open>dev\<close>, from port \<open>sp\<close> to port \<open>dp\<close>.\<close>

definition data_frame :: "netdev \<Rightarrow> u16 \<Rightarrow> u16 \<Rightarrow> bytes \<Rightarrow> bool" where
  "data_frame dev sp dp f \<longleftrightarrow> (\<exists>dmac smac pkt sgm tp seq fl d. f = eth_frame dmac smac ETH_P_IP pkt \<and>
     length dmac = 6 \<and> length smac = 6 \<and> ip_datagram dev 0x0A000104 IP_TCP sgm pkt \<and>
     tcp_segment tp seq 5 fl d sgm \<and> sk_sport (tsk_sk tp) = sp \<and> sk_dport (tsk_sk tp) = dp \<and>
     d \<noteq> [] \<and> length d + 54 \<le> BUFLEN)"

text \<open>With a receive window of zero it is dropped: at most an acknowledgment goes out.\<close>

lemma tcp_zero_window_drops:
  assumes r: "answering w cs es s t" and z: "rcv_wnd (tsk_tcb t) = 0"
    and mac: "arp_get_hwaddr (w_net w) gateway = Some mac"
    and e: "sk_saddr (tsk_sk t) = 0x0A000104" "sk_daddr (tsk_sk t) = nd_addr dev"
    and f: "data_frame dev (sk_dport (tsk_sk t)) (sk_sport (tsk_sk t)) f"
  shows "\<exists>m. netdev_rx_loop_step tv f w = Some (w\<lparr>w_net := m\<rparr>) \<and> net_inv m \<and> arp_get_hwaddr m gateway = Some mac"
proof -
  obtain dmac smac pkt sgm tp seq fl d where p: "f = eth_frame dmac smac ETH_P_IP pkt" "length dmac = 6" "length smac = 6"
    "ip_datagram dev 0x0A000104 IP_TCP sgm pkt" "tcp_segment tp seq 5 fl d sgm"
    "sk_sport (tsk_sk tp) = sk_dport (tsk_sk t)" "sk_dport (tsk_sk tp) = sk_sport (tsk_sk t)"
    "d \<noteq> []" "length d + 54 \<le> BUFLEN"
    using f unfolding data_frame_def by blast
  have fit: "length sgm + 34 \<le> BUFLEN" using p(5,9) by (auto simp: tcp_segment_def)
  obtain skb where skb: "netdev_rx_loop_step tv f = ip_dispatch tv IP_TCP skb"
    "ip_delivered skb (nd_addr dev) 0x0A000104 sgm"
    using netdev_receive_datagram [OF p(2-4) fit, of tv] p(1) by auto
  let ?th = "tcp_header_for tp seq 5 fl"
  obtain skb' where s': "tcp_init_segment skb = Some skb'" "tcp_host_hdr skb' = Some ?th"
    "rx_data skb' = d" "get32 (skb_buf skb') 26 = nd_addr dev" "get32 (skb_buf skb') 30 = 0x0A000104"
    "length (skb_buf skb') = BUFLEN"
    using tcp_delivered [OF skb(2) p(5) fit] by auto
  have "skb_dlen skb' \<noteq> 0" using s'(3) p(8) by (auto simp: rx_data_def)
  then have drop: "\<not> tcp_packet_filter t ?th skb'" using z by (simp add: tcp_packet_filter_def word_gt_0)
  have t: "w_tcp w s = Some t" "tsk_state t = TCP_ESTABLISHED" "net_inv (w_net w)" "tables w cs es"
    using r by (auto simp: answering_def can_answer_def)
  obtain m where m: "tcp_send_ack s w = Some (Indet, w\<lparr>w_net := m\<rparr>)" "emits mac t (snd_nxt (tsk_tcb t)) TCP_ACK (w_net w) m"
    using tcp_send_ack_sent [OF t(1,3) mac] t(2) by auto
  have m': "net_inv m" "arp_get_hwaddr m gateway = Some mac"
    using emits_net_inv [OF m(2) t(3)] m(2) mac by (auto simp: emits_def)
  obtain m' fate where q: "tcp_process s ?th skb' w = Some (Rc 0, fate, w\<lparr>w_net := m'\<rparr>)" "net_inv m'"
    "arp_get_hwaddr m' gateway = Some mac"
  proof (cases "th_rst ?th")
    case True
    then show ?thesis using that [of "tcp_drop skb'" "w_net w"] t drop mac by (simp add: tcp_process_def)
  next
    case False
    then show ?thesis using that [of "tcp_drop skb'" m] t drop m(1) m' by (simp add: tcp_process_def)
  qed
  have "tcp_lookup_sock w (nd_addr dev) (sk_sport (tsk_sk tp)) 0x0A000104 (sk_dport (tsk_sk tp)) = Some (Some s)"
    using r e p(6,7) t(4) by (auto simp: tcp_lookup_sock_tables answering_def)
  then have "tcp_in skb w = Some (fate, w\<lparr>w_net := m'\<rparr>)"
    using s' q(1) by (simp add: tcp_in_def ip_hdr_def skb_head_def) (simp add: tcp_header_for_def)
  then show ?thesis using skb(1) q(2,3) by (auto simp: ip_dispatch_def)
qed

lemma tcp_zero_window_drops_all:
  assumes "answering w cs es s t" and "rcv_wnd (tsk_tcb t) = 0" and "arp_get_hwaddr (w_net w) gateway = Some mac"
    and "sk_saddr (tsk_sk t) = 0x0A000104" and "sk_daddr (tsk_sk t) = nd_addr dev"
    and "\<forall>f\<in>set fs. data_frame dev (sk_dport (tsk_sk t)) (sk_sport (tsk_sk t)) f"
  shows "\<exists>m. netdev_rx_loop tv fs w = Some (w\<lparr>w_net := m\<rparr>)"
  using assms
proof (induction fs arbitrary: w)
  case Nil
  then show ?case by (intro exI [of _ "w_net w"]) simp
next
  case (Cons f fs)
  obtain m where m: "netdev_rx_loop_step tv f w = Some (w\<lparr>w_net := m\<rparr>)" "net_inv m" "arp_get_hwaddr m gateway = Some mac"
    using tcp_zero_window_drops [OF Cons.prems(1-5), of f tv] Cons.prems(6) by auto
  have "conn_match (w\<lparr>w_net := m\<rparr>) = conn_match w" by (simp add: fun_eq_iff conn_match_def)
  then have "answering (w\<lparr>w_net := m\<rparr>) cs es s t"
    using Cons.prems(1) m(2) by (simp add: answering_def can_answer_def tables_def ring_holds_def)
  then show ?case using Cons.IH [of "w\<lparr>w_net := m\<rparr>"] Cons.prems(2,4-6) m by auto
qed

section \<open>Opening a connection\<close>

text \<open>
  The active side: \<open>connect\<close> puts a SYN on the wire and sleeps; the SYN-ACK of the peer, arriving as
  a frame, is answered with an ACK, and \<open>connect\<close> returns 0.  The connection is then established, to be
  found under its addresses among the connections, with both sequence numbers past the SYNs.
\<close>

lemma tcp_connect_establishes:
  assumes u: "unopened w cs es s tsk" and mac: "arp_get_hwaddr (w_net w) gateway = Some mac"
    and f: "ctl_frame dev 0x0A000104 tp seq fl f" "bit fl 1" "bit fl 4" "\<not> bit fl 2"
      "rcv_nxt (tsk_tcb tp) = w_isns w (w_isn_cnt w) + 1" "nd_addr dev = ntohl (sin_addr addr)"
      "sk_sport (tsk_sk tp) = ntohs (sin_port addr)" "sk_dport (tsk_sk tp) = fst (tcp_generate_port w)"
    and new: "find_first (conn_match w 0x0A000104 (sk_dport (tsk_sk tp)) (nd_addr dev) (sk_sport (tsk_sk tp))) es = None"
      "find_first (local_match w 0x0A000104 (sk_dport (tsk_sk tp))) cs = None"
    and i: "w_isns w (w_isn_cnt w) < w_isns w (w_isn_cnt w) + 1" and n: "n < 2 ^ 32"
  shows "\<exists>w' t1 f1 t' f2. tcp_v4_connect s addr [netdev_rx_loop_step tv f] w = Some (Returned 0, w') \<and>
    receiving w' cs (es @ [s]) s n t' \<and> rx_items t' = [] \<and>
    same_ends (addressed addr (fst (tcp_generate_port w)) tsk) t' \<and>
    rcv_nxt (tsk_tcb t') = seq + 1 \<and> rcv_wnd (tsk_tcb t') = tcp_select_initial_window \<and>
    snd_una (tsk_tcb t') = w_isns w (w_isn_cnt w) + 1 \<and> snd_nxt (tsk_tcb t') = w_isns w (w_isn_cnt w) + 1 \<and>
    w_net w' = tun_write f2 (tun_write f1 (w_net w)) \<and> same_ends t1 t' \<and>
    ctl_frame (net_dev (w_net w)) (nd_addr dev) t1 (w_isns w (w_isn_cnt w)) TCP_SYN f1 \<and>
    ctl_frame (net_dev (w_net w)) (nd_addr dev) t' (w_isns w (w_isn_cnt w) + 1) TCP_ACK f2"
proof -
  obtain w1 t1 f1 where s: "syn_sent w cs es s tsk addr w1 t1 f1" using tcp_connect_syn [OF u mac] by blast
  then have "ctl_frame (net_dev (w_net w)) (nd_addr dev) t1 (w_isns w (w_isn_cnt w)) TCP_SYN f1"
    using f(6) by (simp add: syn_sent_def)
  then show ?thesis using tcp_connect_rest [OF u s mac f new i n, of tv] by blast
qed

text \<open>
  The passive side: an \<open>accept\<close> that sleeps returns the new connection once the SYN and the last ACK
  of a peer have come in; the SYN-ACK went out, and the connection is established, to be found under
  its addresses, and no longer in the queues of the listening socket.
\<close>

lemma tcp_accept_establishes:
  assumes l: "listening w cs es p ls []" and p: "w_tcp w p = Some pt" "tsk_state pt = TCP_LISTEN"
    and net: "net_inv (w_net w)" "arp_get_hwaddr (w_net w) gateway = Some mac" "others_ok (w_others w)"
      "timers_inv (w_timers w)"
    and f1: "ctl_frame dev 0x0A000104 tp seq fl f1" "bit fl 1" "\<not> bit fl 4" "\<not> bit fl 2"
    and f2: "ctl_frame dev 0x0A000104 tp' (seq + 1) fl' f2" "bit fl' 4" "\<not> bit fl' 1" "\<not> bit fl' 0"
      "rcv_nxt (tsk_tcb tp') = w_isns w (w_isn_cnt w) + 1" "same_ends tp tp'"
    and new: "find_first (conn_match w 0x0A000104 (sk_dport (tsk_sk tp)) (nd_addr dev) (sk_sport (tsk_sk tp))) es = None"
      "find_first (local_match w 0x0A000104 (sk_dport (tsk_sk tp))) cs = Some p"
    and i: "w_isns w (w_isn_cnt w) \<le> w_isns w (w_isn_cnt w) + 1"
  shows "\<exists>w' t t0 g. tcp_accept p [netdev_rx_loop_step tv f1, netdev_rx_loop_step tv f2] w =
      Some (Returned (w_next w), w') \<and>
    listening w' cs (es @ [w_next w]) p ls [] \<and> answering w' cs (es @ [w_next w]) (w_next w) t \<and> rx_items t = [] \<and>
    sk_saddr (tsk_sk t) = 0x0A000104 \<and> sk_sport (tsk_sk t) = sk_dport (tsk_sk tp) \<and>
    sk_daddr (tsk_sk t) = nd_addr dev \<and> sk_dport (tsk_sk t) = sk_sport (tsk_sk tp) \<and>
    tsk_tcb t = tcb_zero\<lparr>irs := seq, rcv_nxt := seq + 1, isn := w_isns w (w_isn_cnt w),
      snd_una := w_isns w (w_isn_cnt w) + 1, snd_nxt := w_isns w (w_isn_cnt w) + 1\<rparr> \<and>
    w_net w' = tun_write g (w_net w) \<and> same_ends t t0 \<and>
    ctl_frame (net_dev (w_net w)) (nd_addr dev) t0 (w_isns w (w_isn_cnt w)) (TCP_SYN OR TCP_ACK) g"
proof -
  obtain w1 th g where s: "netdev_rx_loop_step tv f1 (asleep p pt w) = Some w1" "syn_received w cs es p pt ls dev tp seq w1 th g"
    using tcp_accept_syn [OF l p net(1,2) f1 new] by blast
  let ?t = "accepted p th (nd_addr dev) (w_isns w (w_isn_cnt w))"
  let ?ho = "half_open p th (nd_addr dev) 0x0A000104 (w_isns w (w_isn_cnt w))"
  have e: "same_ends ?t ?ho" by (simp add: same_ends_def accepted_def)
  have "th_seq th = seq" "th_sport th = sk_sport (tsk_sk tp)" "th_dport th = sk_dport (tsk_sk tp)"
    "ctl_frame (net_dev (w_net w)) (nd_addr dev) ?ho (w_isns w (w_isn_cnt w)) (TCP_SYN OR TCP_ACK) g"
    using s(2) unfolding syn_received_def by blast+
  moreover obtain w' where "tcp_accept p [netdev_rx_loop_step tv f1, netdev_rx_loop_step tv f2] w = Some (Returned (w_next w), w')"
    "listening w' cs (es @ [w_next w]) p ls []" "w_net w' = tun_write g (w_net w)"
    "answering w' cs (es @ [w_next w]) (w_next w) ?t"
    using tcp_accept_rest [OF l p net(1,3,4) s f2 new(1) i] by auto
  ultimately show ?thesis
    using e by - (rule exI [of _ w'], rule exI [of _ ?t], rule exI [of _ ?ho], rule exI [of _ g],
      simp add: accepted_simps)
qed

text \<open>
  C33.  The connection that \<open>accept\<close> returns has a receive window of zero, which nothing ever opens: frames
  with data from its peer, however many, leave everything but the link layer as it was.
\<close>

theorem accepted_drops_data:
  assumes l: "listening w cs es p ls []" and p: "w_tcp w p = Some pt" "tsk_state pt = TCP_LISTEN"
    and net: "net_inv (w_net w)" "arp_get_hwaddr (w_net w) gateway = Some mac" "others_ok (w_others w)"
      "timers_inv (w_timers w)"
    and f1: "ctl_frame dev 0x0A000104 tp seq fl f1" "bit fl 1" "\<not> bit fl 4" "\<not> bit fl 2"
    and f2: "ctl_frame dev 0x0A000104 tp' (seq + 1) fl' f2" "bit fl' 4" "\<not> bit fl' 1" "\<not> bit fl' 0"
      "rcv_nxt (tsk_tcb tp') = w_isns w (w_isn_cnt w) + 1" "same_ends tp tp'"
    and new: "find_first (conn_match w 0x0A000104 (sk_dport (tsk_sk tp)) (nd_addr dev) (sk_sport (tsk_sk tp))) es = None"
      "find_first (local_match w 0x0A000104 (sk_dport (tsk_sk tp))) cs = Some p"
    and i: "w_isns w (w_isn_cnt w) \<le> w_isns w (w_isn_cnt w) + 1"
  shows "\<exists>w'. tcp_accept p [netdev_rx_loop_step tv f1, netdev_rx_loop_step tv f2] w = Some (Returned (w_next w), w') \<and>
    (\<forall>fs. (\<forall>f\<in>set fs. data_frame dev (sk_sport (tsk_sk tp)) (sk_dport (tsk_sk tp)) f) \<longrightarrow>
      (\<exists>m. netdev_rx_loop tv fs w' = Some (w'\<lparr>w_net := m\<rparr>)))"
proof -
  obtain w1 th g where s: "netdev_rx_loop_step tv f1 (asleep p pt w) = Some w1" "syn_received w cs es p pt ls dev tp seq w1 th g"
    using tcp_accept_syn [OF l p net(1,2) f1 new] by blast
  let ?t = "accepted p th (nd_addr dev) (w_isns w (w_isn_cnt w))"
  obtain w' where a: "tcp_accept p [netdev_rx_loop_step tv f1, netdev_rx_loop_step tv f2] w = Some (Returned (w_next w), w')"
    "w_net w' = tun_write g (w_net w)" "answering w' cs (es @ [w_next w]) (w_next w) ?t"
    using tcp_accept_rest [OF l p net(1,3,4) s f2 new(1) i] by auto
  have mac': "arp_get_hwaddr (w_net w') gateway = Some mac" using a(2) net(2) by simp
  have t: "rcv_wnd (tsk_tcb ?t) = 0" "sk_sport (tsk_sk ?t) = sk_dport (tsk_sk tp)" "sk_dport (tsk_sk ?t) = sk_sport (tsk_sk tp)"
    "sk_saddr (tsk_sk ?t) = 0x0A000104" "sk_daddr (tsk_sk ?t) = nd_addr dev"
    using s(2) by (simp_all add: accepted_simps tcb_zero_def syn_received_def)
  have "\<exists>m. netdev_rx_loop tv fs w' = Some (w'\<lparr>w_net := m\<rparr>)"
    if "\<forall>f\<in>set fs. data_frame dev (sk_sport (tsk_sk tp)) (sk_dport (tsk_sk tp)) f" for fs
    using tcp_zero_window_drops_all [OF a(3) t(1) mac' t(4,5), of fs tv] that t(2,3) by simp
  with a(1) show ?thesis by blast
qed

section \<open>A session between two stacks\<close>

text \<open>
  The two ends after the handshake of two stacks, in which every frame that goes into one was put on
  the wire by the other: \<open>ta\<close> at the side of \<open>connect\<close>, \<open>tb\<close> at the side of \<open>accept\<close>.
\<close>

definition shaken ::
    "world \<Rightarrow> sid list \<Rightarrow> sid list \<Rightarrow> sid \<Rightarrow> nat \<Rightarrow> world \<Rightarrow> tcp_sock \<Rightarrow> world \<Rightarrow> tcp_sock \<Rightarrow> bytes \<Rightarrow> bool" where
  "shaken wa1 ca ea s n wb ta wb1 tb synack \<longleftrightarrow>
     receiving wa1 ca (ea @ [s]) s n ta \<and> rx_items ta = [] \<and> can_answer wb1 (w_next wb) tb \<and>
     w_net wb1 = tun_write synack (w_net wb) \<and> tsk_state tb = TCP_ESTABLISHED \<and> tsk_smss tb = 1460 \<and>
     peers (net_dev (w_net wb)) tb ta \<and> snd_nxt (tsk_tcb tb) = rcv_nxt (tsk_tcb ta) \<and>
     snd_una (tsk_tcb ta) \<le> rcv_nxt (tsk_tcb tb) \<and> rcv_nxt (tsk_tcb tb) \<le> snd_nxt (tsk_tcb ta) \<and>
     rcv_nxt (tsk_tcb ta) = w_isns wb (w_isn_cnt wb) + 1 \<and> rcv_wnd (tsk_tcb ta) = tcp_select_initial_window"

lemma tcp_handshake:
  assumes a: "unopened wa ca ea s tsk" "arp_get_hwaddr (w_net wa) gateway = Some ma"
      "ntohl (sin_addr addr) = 0x0A000104"
      "find_first (conn_match wa 0x0A000104 (fst (tcp_generate_port wa)) 0x0A000104 (ntohs (sin_port addr))) ea = None"
      "find_first (local_match wa 0x0A000104 (fst (tcp_generate_port wa))) ca = None"
    and b: "listening wb cb eb p ls []" "w_tcp wb p = Some pt" "tsk_state pt = TCP_LISTEN"
      "net_inv (w_net wb)" "arp_get_hwaddr (w_net wb) gateway = Some mb" "others_ok (w_others wb)" "timers_inv (w_timers wb)"
      "find_first (conn_match wb 0x0A000104 (ntohs (sin_port addr)) 0x0A000104 (fst (tcp_generate_port wa))) eb = None"
      "find_first (local_match wb 0x0A000104 (ntohs (sin_port addr))) cb = Some p"
    and i: "w_isns wa (w_isn_cnt wa) < w_isns wa (w_isn_cnt wa) + 1" "w_isns wb (w_isn_cnt wb) \<le> w_isns wb (w_isn_cnt wb) + 1"
    and n: "n < 2 ^ 32"
  shows "\<exists>syn synack ack wa1 wb1 ta tb.
    tcp_v4_connect s addr [netdev_rx_loop_step tv synack] wa = Some (Returned 0, wa1) \<and>
    tcp_accept p [netdev_rx_loop_step tv syn, netdev_rx_loop_step tv ack] wb = Some (Returned (w_next wb), wb1) \<and>
    net_tx (w_net wa1) = net_tx (w_net wa) @ [syn, ack] \<and> net_tx (w_net wb1) = net_tx (w_net wb) @ [synack] \<and>
    w_sockets wb1 = w_sockets wb \<and> shaken wa1 ca ea s n wb ta wb1 tb synack \<and>
    sk_daddr (tsk_sk tb) = 0x0A000104 \<and> sk_dport (tsk_sk tb) = fst (tcp_generate_port wa)"
proof -
  let ?ia = "w_isns wa (w_isn_cnt wa)" and ?ib = "w_isns wb (w_isn_cnt wb)" and ?da = "net_dev (w_net wa)"
    and ?db = "net_dev (w_net wb)" and ?port = "fst (tcp_generate_port wa)"
  have dev: "nd_addr ?da = 0x0A000104" "nd_addr ?db = 0x0A000104"
    using a(1) b(4) routes_booted_dev by (auto simp: net_inv_def unopened_def can_send_def)
  obtain w1 t1 syn where s1: "syn_sent wa ca ea s tsk addr w1 t1 syn" using tcp_connect_syn [OF a(1,2)] by blast
  then have syn: "ctl_frame ?da 0x0A000104 t1 ?ia TCP_SYN syn" and con: "connecting (addressed addr ?port tsk) ?ia t1"
    using a(3) by (simp_all add: syn_sent_def)
  have t1: "sk_sport (tsk_sk t1) = ?port" "sk_dport (tsk_sk t1) = ntohs (sin_port addr)"
    using con by (simp_all add: connecting_def same_ends_def addressed_def)
  have nb: "find_first (conn_match wb 0x0A000104 (sk_dport (tsk_sk t1)) (nd_addr ?da) (sk_sport (tsk_sk t1))) eb = None"
    "find_first (local_match wb 0x0A000104 (sk_dport (tsk_sk t1))) cb = Some p"
    using b(8,9) t1 dev by simp_all
  have fl: "bit TCP_SYN 1" "\<not> bit TCP_SYN 4" "\<not> bit TCP_SYN 2" by simp_all
  obtain w2 th synack where s2: "netdev_rx_loop_step tv syn (asleep p pt wb) = Some w2"
    "syn_received wb cb eb p pt ls ?da t1 ?ia w2 th synack"
    using tcp_accept_syn [OF b(1-5) syn fl nb] by blast
  let ?ho = "half_open p th 0x0A000104 0x0A000104 ?ib"
  have sa: "ctl_frame ?db 0x0A000104 ?ho ?ib (TCP_SYN OR TCP_ACK) synack" and th: "th_seq th = ?ia"
    "th_sport th = ?port" "th_dport th = ntohs (sin_port addr)"
    using s2(2) t1 dev by (simp_all add: syn_received_def)
  have ho: "rcv_nxt (tsk_tcb ?ho) = ?ia + 1" "sk_sport (tsk_sk ?ho) = ntohs (sin_port addr)" "sk_dport (tsk_sk ?ho) = ?port"
    using th by (simp_all add: half_open_def child_of_def)
  have na: "nd_addr ?db = ntohl (sin_addr addr)"
    "find_first (conn_match wa 0x0A000104 (sk_dport (tsk_sk ?ho)) (nd_addr ?db) (sk_sport (tsk_sk ?ho))) ea = None"
    "find_first (local_match wa 0x0A000104 (sk_dport (tsk_sk ?ho))) ca = None"
    using a(3-5) ho dev by simp_all
  have fl2: "bit (TCP_SYN OR TCP_ACK) 1" "bit (TCP_SYN OR TCP_ACK) 4" "\<not> bit (TCP_SYN OR TCP_ACK) 2" by simp_all
  obtain wa1 ta ack where s3: "tcp_v4_connect s addr [netdev_rx_loop_step tv synack] wa = Some (Returned 0, wa1)"
    "receiving wa1 ca (ea @ [s]) s n ta" "rx_items ta = []" "same_ends t1 ta"
    "same_ends (addressed addr ?port tsk) ta" "rcv_nxt (tsk_tcb ta) = ?ib + 1" "rcv_wnd (tsk_tcb ta) = tcp_select_initial_window"
    "snd_una (tsk_tcb ta) = ?ia + 1" "snd_nxt (tsk_tcb ta) = ?ia + 1"
    "w_net wa1 = tun_write ack (tun_write syn (w_net wa))" "ctl_frame ?da (nd_addr ?db) ta (?ia + 1) TCP_ACK ack"
    using tcp_connect_rest [OF a(1) s1 a(2) sa fl2 ho(1) na(1) ho(2,3) na(2,3) i(1) n, of tv] by blast
  have fl3: "bit TCP_ACK 4" "\<not> bit TCP_ACK 1" "\<not> bit TCP_ACK 0" by simp_all
  have ack: "ctl_frame ?da 0x0A000104 ta (?ia + 1) TCP_ACK ack" using s3(11) dev by simp
  let ?tb = "accepted p th (nd_addr ?da) ?ib"
  obtain wb1 where s4: "tcp_accept p [netdev_rx_loop_step tv syn, netdev_rx_loop_step tv ack] wb = Some (Returned (w_next wb), wb1)"
    "w_net wb1 = tun_write synack (w_net wb)" "answering wb1 cb (eb @ [w_next wb]) (w_next wb) ?tb" "w_sockets wb1 = w_sockets wb"
    using tcp_accept_rest [OF b(1-4,6,7) s2 ack fl3 s3(6,4) nb(1) i(2)] by auto
  have tb: "can_answer wb1 (w_next wb) ?tb" "tsk_state ?tb = TCP_ESTABLISHED" "arp_get_hwaddr (w_net wb1) gateway = Some mb"
    "0 < tsk_smss ?tb" "tsk_smss ?tb \<le> 1460"
    using s4(2,3) b(5) by (simp_all add: answering_def accepted_simps)
  have ends: "sk_saddr (tsk_sk ta) = 0x0A000104" "sk_sport (tsk_sk ta) = ?port" "sk_daddr (tsk_sk ta) = 0x0A000104"
    "sk_dport (tsk_sk ta) = ntohs (sin_port addr)"
    using s3(5) a(3) by (simp_all add: same_ends_def addressed_def)
  have peers: "peers (net_dev (w_net wb1)) ?tb ta"
    using ends th dev s4(2) by (simp add: peers_def accepted_simps tun_write_def)
  have nums: "snd_nxt (tsk_tcb ?tb) = rcv_nxt (tsk_tcb ta)" "snd_una (tsk_tcb ta) \<le> rcv_nxt (tsk_tcb ?tb)"
    "rcv_nxt (tsk_tcb ?tb) \<le> snd_nxt (tsk_tcb ta)"
    using s3(6-9) th by (simp_all add: accepted_simps)
  have "net_tx (w_net wa1) = net_tx (w_net wa) @ [syn, ack]" "net_tx (w_net wb1) = net_tx (w_net wb) @ [synack]"
    using s3(10) s4(2) by (simp_all add: tun_write_def)
  moreover have "shaken wa1 ca ea s n wb ta wb1 ?tb synack"
    using s3(2,3,6,7) tb(1,2) s4(2) peers nums by (simp add: shaken_def accepted_simps tun_write_def)
  moreover have "sk_daddr (tsk_sk ?tb) = 0x0A000104 \<and> sk_dport (tsk_sk ?tb) = ?port"
    using th(2) dev by (simp add: accepted_simps)
  ultimately show ?thesis using s3(1) s4(1,4) by blast
qed

lemma shaken_write:
  assumes "shaken wa1 ca ea s n wb ta wb1 tb synack" and "arp_get_hwaddr (w_net wb) gateway = Some mac"
    and "n < 2 ^ 31" and "unat (w_isns wb (w_isn_cnt wb) + 1) + n + unat tcp_select_initial_window < 2 ^ 32"
    and "can_send wb2 (w_next wb) tb2" and "w_net wb2 = w_net wb1"
    and "tsk_tcb tb2 = tsk_tcb tb" and "tsk_state tb2 = tsk_state tb" and "tsk_smss tb2 = tsk_smss tb" and "same_ends tb tb2"
    and "length buf = n"
  shows "\<exists>wb3 frames wa2 wa3. tcp_write (w_next wb) buf (word_of_nat n) wb2 = Some (int n, wb3) \<and>
    net_tx (w_net wb3) = net_tx (w_net wb2) @ frames \<and> netdev_rx_loop tv frames wa1 = Some wa2 \<and> unmoved wa1 wa2 \<and>
    tcp_read s (word_of_nat n) env wa2 = Some (Returned (int n, buf), wa3)"
proof -
  have sh: "receiving wa1 ca (ea @ [s]) s (length buf) ta" "rx_items ta = []" "w_net wb1 = tun_write synack (w_net wb)"
    using assms(1,11) by (simp_all add: shaken_def)
  have net: "arp_get_hwaddr (w_net wb2) gateway = Some mac" "net_dev (w_net wb2) = net_dev (w_net wb)"
    using assms(2,6) sh(3) by (simp, simp add: tun_write_def)
  have st: "tsk_state tb2 = TCP_ESTABLISHED" "0 < tsk_smss tb2" "tsk_smss tb2 \<le> 1460" "peers (net_dev (w_net wb2)) tb2 ta"
    using assms(1,7-10) net(2) by (simp_all add: shaken_def peers_def same_ends_def)
  have nums: "snd_nxt (tsk_tcb tb2) = rcv_nxt (tsk_tcb ta)" "snd_una (tsk_tcb ta) \<le> rcv_nxt (tsk_tcb tb2)"
    "rcv_nxt (tsk_tcb tb2) \<le> snd_nxt (tsk_tcb ta)" "rcv_wnd (tsk_tcb ta) \<noteq> 0"
    "unat (rcv_nxt (tsk_tcb ta)) + length buf + unat (rcv_wnd (tsk_tcb ta)) < 2 ^ 32" "length buf < 2 ^ 31"
    using assms(1,3,4,7,11) by (simp_all add: shaken_def tcp_select_initial_window_def)
  show ?thesis
    using tcp_transfer_ok [OF assms(5) st(1) net(1) st(2,3) sh(1,2) st(4) nums(1-4,6,5), of tv env] assms(11) by simp
qed

end
