(* ===== verification/World_Invariant.thy ===== *)
theory World_Invariant
  imports Stack
begin

text \<open>
  Properties of the state that every step of the stack keeps.  The locale \<open>world_invariant\<close> asks for
  the primitive changes only: a structure stored, made or freed, a node linked or unlinked, a
  packet handed to the link layer, a timer set.  Under it every operation of the transports
  keeps the property, and so does every run.
\<close>

locale world_invariant =
  fixes P :: "world \<Rightarrow> bool"
  assumes tsk: "P w \<Longrightarrow> w_tcp w s = Some t \<Longrightarrow> P (put_tsk s t' w)"
    and usk: "P w \<Longrightarrow> w_udp w s = Some u \<Longrightarrow> P (put_usk s u' w)"
    and counters: "P w \<Longrightarrow> P (w\<lparr>w_isn_cnt := i\<rparr>)" "P w \<Longrightarrow> P (w\<lparr>w_tcp_port := port\<rparr>)"
      "P w \<Longrightarrow> P (w\<lparr>w_udp_port := uport\<rparr>)" "P w \<Longrightarrow> P (w\<lparr>w_udp_amount := am\<rparr>)"
    and ip_out: "P w \<Longrightarrow> ip_output (w_others w) da skb (w_net w) = Some (r, skb', nt) \<Longrightarrow> P (w\<lparr>w_net := nt\<rparr>)"
    and arp: "P w \<Longrightarrow> arp_rcv skb (w_net w) = Some (gone, nt) \<Longrightarrow> P (w\<lparr>w_net := nt\<rparr>)"
    and icmp: "P w \<Longrightarrow> icmpv4_incoming (w_others w) tv skb (w_net w) = Some (fate, nt) \<Longrightarrow> P (w\<lparr>w_net := nt\<rparr>)"
    and cancel: "P w \<Longrightarrow> timer_cancel x (w_timers w) = Some ts \<Longrightarrow> P (w\<lparr>w_timers := ts\<rparr>)"
    and release: "P w \<Longrightarrow> timer_release x (w_timers w) = Some ts \<Longrightarrow> P (w\<lparr>w_timers := ts\<rparr>)"
    and timer: "P w \<Longrightarrow> P (w\<lparr>w_timers := snd (timer_add e hdl s (w_timers w))\<rparr>)"
      "P w \<Longrightarrow> P (w\<lparr>w_timers := timer_set (w_timers w) y z\<rparr>)"
      "P w \<Longrightarrow> P (w\<lparr>w_timers := timer_free busy y (w_timers w)\<rparr>)"
      "P w \<Longrightarrow> P (w\<lparr>w_timers := (w_timers w)\<lparr>tick := now\<rparr>\<rparr>)"
    and tcp_alloc: "P w \<Longrightarrow> tcp_alloc_sock w = Some (c, w') \<Longrightarrow> P w'"
    and udp_alloc: "P w \<Longrightarrow> udp_alloc_sock w = (c, w') \<Longrightarrow> P w'"
    and tcp_free: "P w \<Longrightarrow> w_tcp w s = Some t \<Longrightarrow>
      P (w\<lparr>w_tcp := (w_tcp w)(s := None), w_links := clear_nodes s (w_links w)\<rparr>)"
    and udp_free: "P w \<Longrightarrow> w_udp w s = Some u \<Longrightarrow>
      P (w\<lparr>w_udp := (w_udp w)(s := None), w_links := clear_nodes s (w_links w)\<rparr>)"
    and detach: "P w \<Longrightarrow> w_sockets w so = Some f \<Longrightarrow> P (w\<lparr>w_sockets := (w_sockets w)(so \<mapsto> f\<lparr>so_sk := Null\<rparr>)\<rparr>)"
    and tcp_link: "P w \<Longrightarrow> w_tcp w s = Some t \<Longrightarrow> list_add_tail (w_links w) (link_of s) CL_HEAD = Some h \<Longrightarrow> P (w\<lparr>w_links := h\<rparr>)"
      "P w \<Longrightarrow> w_tcp w s = Some t \<Longrightarrow> list_add_tail (w_links w) (link_of s) ES_HEAD = Some h \<Longrightarrow> P (w\<lparr>w_links := h\<rparr>)"
    and tcp_unlink: "P w \<Longrightarrow> w_tcp w s = Some t \<Longrightarrow> list_del_init (w_links w) (link_of s) = Some h \<Longrightarrow> P (w\<lparr>w_links := h\<rparr>)"
    and udp_link: "P w \<Longrightarrow> w_udp w s = Some u \<Longrightarrow> list_add_tail (w_links w) (link_of s) UDP_HEAD = Some h \<Longrightarrow> P (w\<lparr>w_links := h\<rparr>)"
    and udp_unlink: "P w \<Longrightarrow> w_udp w s = Some u \<Longrightarrow> list_del_init (w_links w) (link_of s) = Some h \<Longrightarrow> P (w\<lparr>w_links := h\<rparr>)"
    and half_open: "P w \<Longrightarrow> list_add (w_links w) (list_of c) (listen_queue_of s) = Some h \<Longrightarrow> P (w\<lparr>w_links := h\<rparr>)"
    and accept_enqueue: "P w \<Longrightarrow> tcp_accept_enqueue s w = Some w' \<Longrightarrow> P w'"
    and accept_dequeue: "P w \<Longrightarrow> tcp_accept_dequeue s w = Some (c, w') \<Longrightarrow> P w'"
begin

lemmas prims [simp] = tsk usk counters ip_out timer

text \<open>Operations on one connection keep it, in the form in which they are put together.\<close>

lemma ok_upd: "upd_tsk s f w = Some w' \<Longrightarrow> P w \<longrightarrow> P w'"
  by (auto simp: upd_tsk_def elim!: bind_SomeE)

lemma ok_upd_usk: "upd_usk s f w = Some w' \<Longrightarrow> P w \<longrightarrow> P w'"
  by (auto simp: upd_usk_def elim!: bind_SomeE)

section \<open>TCP\<close>

lemma ok_transmit: "tcp_transmit_skb s skb seq w = Some (r, skb', w') \<Longrightarrow> P w \<longrightarrow> P w'"
  by (auto simp: tcp_transmit_skb_def Let_def elim!: bind_SomeE dest: ip_out)

lemma ok_send:
  "tcp_send_ack s w = Some (r, w') \<Longrightarrow> P w \<longrightarrow> P w'"
  "tcp_send_synack s w = Some (r, w') \<Longrightarrow> P w \<longrightarrow> P w'"
  "tcp_send_reset s w = Some (r, w') \<Longrightarrow> P w \<longrightarrow> P w'"
  by (auto simp: tcp_send_ack_def tcp_send_synack_def tcp_send_reset_def split: if_splits elim!: bind_SomeE
      dest!: ok_transmit ok_upd)

lemma ok_timers_changed:
  "timer_cancel t (w_timers w) = Some ts \<Longrightarrow> P w \<longrightarrow> P (w\<lparr>w_timers := ts\<rparr>)"
  "timer_release t (w_timers w) = Some ts \<Longrightarrow> P w \<longrightarrow> P (w\<lparr>w_timers := ts\<rparr>)"
  by (auto intro: cancel release)

lemma ok_timer_ops:
  "tcp_stop_retransmission_timer s w = Some w' \<Longrightarrow> P w \<longrightarrow> P w'"
  "tcp_release_retransmission_timer s w = Some w' \<Longrightarrow> P w \<longrightarrow> P w'"
  "tcp_stop_delack_timer s w = Some w' \<Longrightarrow> P w \<longrightarrow> P w'"
  "tcp_release_delack_timer s w = Some w' \<Longrightarrow> P w \<longrightarrow> P w'"
  by (auto simp: tcp_stop_retransmission_timer_def tcp_release_retransmission_timer_def
      tcp_stop_delack_timer_def tcp_release_delack_timer_def elim!: bind_SomeE dest!: ok_timers_changed)

lemma ok_timer_add: "world_timer_add e h s w = (x, w') \<Longrightarrow> w_tcp w' = w_tcp w \<and> (P w \<longrightarrow> P w')"
  by (auto simp: world_timer_add_def split: prod.splits) (metis snd_conv timer(1))

lemma ok_clear_timers: "tcp_clear_timers s w = Some w' \<Longrightarrow> P w \<longrightarrow> P w'"
  by (auto simp: tcp_clear_timers_def elim!: bind_SomeE dest!: ok_timer_ops ok_timers_changed)

lemma ok_reset_timer: "tcp_reset_retransmission_timer s w = Some w' \<Longrightarrow> P w \<longrightarrow> P w'"
  by (auto simp: tcp_reset_retransmission_timer_def split: prod.splits if_splits elim!: bind_SomeE
      dest!: ok_timer_ops ok_timer_add ok_upd)

text \<open>The rings do not look at the socket they link; their callers do, before or after.\<close>

lemma ok_rings:
  "tcp_established_or_syn_recvd_socks_enqueue s w = Some w' \<Longrightarrow> w_tcp w' = w_tcp w \<and> (w_tcp w s \<noteq> None \<longrightarrow> P w \<longrightarrow> P w')"
  "tcp_established_or_syn_recvd_socks_remove s w = Some w' \<Longrightarrow> w_tcp w' = w_tcp w \<and> (w_tcp w s \<noteq> None \<longrightarrow> P w \<longrightarrow> P w')"
  "tcp_connecting_or_listening_socks_enqueue s w = Some w' \<Longrightarrow> w_tcp w' = w_tcp w \<and> (w_tcp w s \<noteq> None \<longrightarrow> P w \<longrightarrow> P w')"
  "tcp_connecting_or_listening_socks_remove s w = Some w' \<Longrightarrow> w_tcp w' = w_tcp w \<and> (w_tcp w s \<noteq> None \<longrightarrow> P w \<longrightarrow> P w')"
  by (auto simp: tcp_established_or_syn_recvd_socks_enqueue_def
      tcp_established_or_syn_recvd_socks_remove_def tcp_connecting_or_listening_socks_enqueue_def
      tcp_connecting_or_listening_socks_remove_def elim!: bind_SomeE intro: tcp_link tcp_unlink)

lemma ok_simple:
  "tcp_recv_notify s w = Some w' \<Longrightarrow> P w \<longrightarrow> P w'"
  "tcp_set_state s x w = Some w' \<Longrightarrow> P w \<longrightarrow> P w'"
  "tcp_accept_enqueue s w = Some w' \<Longrightarrow> P w \<longrightarrow> P w'"
  "tcp_clear_queues s w = Some w' \<Longrightarrow> P w \<longrightarrow> P w'"
  by (auto simp: tcp_recv_notify_def tcp_set_state_def tcp_clear_queues_def elim!: bind_SomeE
      dest!: ok_upd intro: accept_enqueue)

lemma ok_synrecv_ack: "tcp_synrecv_ack s w = Some (r, w') \<Longrightarrow> P w \<longrightarrow> P w'"
  by (auto simp: tcp_synrecv_ack_def split: if_splits elim!: bind_SomeE dest!: ok_simple ok_upd)

lemma ok_clean: "tcp_clean_retransmission_queue s una w = Some w' \<Longrightarrow> P w \<longrightarrow> P w'"
  by (auto simp: tcp_clean_retransmission_queue_def Let_def split: if_splits elim!: bind_SomeE dest!: ok_timer_ops)

lemma ok_data_ack: "tcp_data_ack s th skb w = Some w' \<Longrightarrow> P w \<longrightarrow> P w'"
  by (auto simp: tcp_data_ack_def Let_def split: if_splits prod.splits elim!: bind_SomeE
      dest!: ok_send ok_timer_add ok_upd)

lemma ok_data_queue: "tcp_data_queue s th skb w = Some (r, f, w') \<Longrightarrow> P w \<longrightarrow> P w'"
  by (auto simp: tcp_data_queue_def Let_def split: if_splits prod.splits elim!: bind_SomeE
      dest!: ok_send ok_data_ack ok_timer_ops)

lemma ok_queue_transmit: "tcp_queue_transmit_skb s skb w = Some (r, w') \<Longrightarrow> P w \<longrightarrow> P w'"
  by (auto simp: tcp_queue_transmit_skb_def split: if_splits elim!: bind_SomeE dest!: ok_reset_timer ok_transmit ok_upd)

lemma ok_retransmit_head: "tcp_retransmit_head s skb w = Some (skb', w') \<Longrightarrow> P w \<longrightarrow> P w'"
  by (auto simp: tcp_retransmit_head_def elim!: bind_SomeE dest!: ok_transmit ok_upd)

lemma ok_send_loop: "tcp_send_loop s buf slen mss w = Some w' \<Longrightarrow> P w \<longrightarrow> P w'"
proof (rule tcp_send_loop.raw_induct [of "\<lambda>s buf slen mss w w'. P w \<longrightarrow> P w'"])
  fix loop :: "sid \<Rightarrow> bytes \<Rightarrow> int \<Rightarrow> int \<Rightarrow> world \<Rightarrow> world option" and s buf slen mss w w'
  assume ih: "\<And>s buf slen mss w w'. loop s buf slen mss w = Some w' \<Longrightarrow> P w \<longrightarrow> P w'"
  assume "(if slen > 0 then
        let dlen = (if slen > mss then mss else slen); slen = slen - dlen in
        Option.bind (skb_push (tcp_alloc_skb 0 (nat dlen)) (nat dlen)) (\<lambda>skb.
        Option.bind (load_bytes buf 0 (nat dlen)) (\<lambda>d.
        Option.bind (store_bytes (skb_buf skb) (skb_data skb) d) (\<lambda>b.
        Option.bind (tcp_set_flags (if slen = 0 then TCP_ACK OR TCP_PSH else TCP_ACK)
           (skb\<lparr>skb_buf := b\<rparr>)) (\<lambda>skb.
        Option.bind (tcp_queue_transmit_skb s skb w) (\<lambda>rw.
          loop s (drop (nat dlen) buf) slen mss (snd rw))))))
      else Some w) = Some w'"
  then show "P w \<longrightarrow> P w'"
    by (auto simp: Let_def split: if_splits elim!: bind_SomeE dest!: ih ok_queue_transmit)
qed

lemma freed:
  "P w \<Longrightarrow> w_tcp w s \<noteq> None \<Longrightarrow> w_tcp w = ts \<Longrightarrow> w_links w = h \<Longrightarrow>
   P (w\<lparr>w_tcp := ts(s := None), w_links := clear_nodes s h\<rparr>)"
  using tcp_free by blast

lemma ok_free_sock: "tcp_free_sock s w = Some w' \<Longrightarrow> P w \<longrightarrow> P w'"
  by (auto simp: tcp_free_sock_def split: if_splits option.splits elim!: bind_SomeE
      dest!: ok_simple ok_clear_timers) (rule freed; simp add: detach)+

lemma free_sock_live: "tcp_free_sock s w = Some w' \<Longrightarrow> w_tcp w s \<noteq> None"
  by (auto simp: tcp_free_sock_def elim!: bind_SomeE)

lemma upd_live: "upd_tsk s f w = Some w' \<Longrightarrow> w_tcp w s \<noteq> None"
  by (auto simp: upd_tsk_def elim!: bind_SomeE)

lemma ok_done: "tcp_done s w = Some w' \<Longrightarrow> P w \<longrightarrow> P w'"
  by (auto simp: tcp_done_def elim!: bind_SomeE dest!: ok_rings dest: free_sock_live ok_free_sock)

lemma ok_listen_child: "tcp_listen_child_sock s th sa da w = Some (c, w') \<Longrightarrow> P w \<longrightarrow> P w'"
  by (auto simp: tcp_listen_child_sock_def elim!: bind_SomeE dest!: ok_upd dest: tcp_alloc
      intro!: half_open)

lemma ok_enter_time_wait: "tcp_enter_time_wait s w = Some w' \<Longrightarrow> P w \<longrightarrow> P w'"
  by (auto simp: tcp_enter_time_wait_def Let_def split: prod.splits elim!: bind_SomeE
      dest!: ok_simple ok_clear_timers ok_timers_changed ok_timer_add ok_upd)

lemma ok_handle_fin_state: "tcp_handle_fin_state s w = Some w' \<Longrightarrow> P w \<longrightarrow> P w'"
  by (auto simp: tcp_handle_fin_state_def split: tcp_state.splits elim!: bind_SomeE dest!: ok_simple)

section \<open>Segments\<close>

lemma ok_listen: "tcp_handle_listen s skb th w = Some (r, f, w') \<Longrightarrow> P w \<longrightarrow> P w'"
  by (auto simp: tcp_handle_listen_def tcp_generate_isn_def Let_def split: if_splits elim!: bind_SomeE
      dest!: ok_send ok_listen_child ok_simple ok_rings dest: upd_live ok_upd)

lemma ok_synsent: "tcp_synsent s skb th w = Some (r, f, w') \<Longrightarrow> P w \<longrightarrow> P w'"
  by (auto simp: tcp_synsent_def Let_def split: if_splits elim!: bind_SomeE
      dest!: ok_send ok_simple ok_clean ok_upd)

lemma ok_process_parts:
  "tcp_closed s skb th w = Some (r, f, w') \<Longrightarrow> P w \<longrightarrow> P w'"
  "tcp_process_syn s th w = Some w' \<Longrightarrow> P w \<longrightarrow> P w'"
  "tcp_process_ack s th w = Some (go, w') \<Longrightarrow> P w \<longrightarrow> P w'"
  "tcp_process_text s th skb w = Some (skb', w') \<Longrightarrow> P w \<longrightarrow> P w'"
  "tcp_process_fin s th skb w = Some w' \<Longrightarrow> P w \<longrightarrow> P w'"
  by (auto simp: tcp_closed_def tcp_process_syn_def tcp_process_ack_def tcp_process_text_def tcp_process_fin_def Let_def
      split: if_splits tcp_state.splits elim!: bind_SomeE
      dest!: ok_send ok_simple ok_rings ok_clean ok_synrecv_ack ok_data_queue ok_handle_fin_state ok_enter_time_wait
        ok_timer_ops ok_free_sock ok_done ok_upd)

lemma ok_process: "tcp_process s th skb w = Some (r, f, w') \<Longrightarrow> P w \<longrightarrow> P w'"
  by (auto simp: tcp_process_def split: if_splits tcp_state.splits elim!: bind_SomeE
      dest!: ok_listen ok_synsent ok_process_parts ok_send)

lemma ok_tcp_in: "tcp_in skb w = Some (f, w') \<Longrightarrow> P w \<longrightarrow> P w'"
  by (auto simp: tcp_in_def split: option.splits elim!: bind_SomeE dest!: ok_process)

section \<open>Timers and calls\<close>

lemma ok_handler: "run_handler h s w = Some w' \<Longrightarrow> P w \<longrightarrow> P w'"
  by (auto simp: run_handler_def tcp_connect_rto_def tcp_retransmission_timeout_def tcp_notify_user_def
      tcp_send_delack_def tcp_linger_def Let_def
      split: handler.splits if_splits option.splits tcp_state.splits prod.splits elim!: bind_SomeE
      dest!: ok_timers_changed ok_timer_ops ok_free_sock ok_retransmit_head ok_reset_timer ok_timer_add ok_handle_fin_state ok_send
        ok_done ok_upd)

lemma ok_timer_visit: "timer_visit busy t w = Some w' \<Longrightarrow> P w \<longrightarrow> P w'"
  by (auto simp: timer_visit_def split: if_splits elim!: bind_SomeE dest!: ok_handler)

lemma ok_begin_connect: "tcp_begin_connect s w = Some (r, w') \<Longrightarrow> P w \<longrightarrow> P w'"
  by (auto simp: tcp_begin_connect_def tcp_generate_isn_def tcp_send_syn_def tcp_syn_options_def Let_def
      split: if_splits elim!: bind_SomeE dest!: ok_queue_transmit ok_simple ok_upd)

lemma ok_queue_fin: "tcp_queue_fin s w = Some (r, w') \<Longrightarrow> P w \<longrightarrow> P w'"
  by (auto simp: tcp_queue_fin_def elim!: bind_SomeE dest!: ok_queue_transmit ok_upd)

lemma ok_tcp_calls:
  "tcp_listen s n w = Some (x, w') \<Longrightarrow> P w \<longrightarrow> P w'"
  "tcp_write s buf m w = Some (x, w') \<Longrightarrow> P w \<longrightarrow> P w'"
  "tcp_close s w = Some (x, w') \<Longrightarrow> P w \<longrightarrow> P w'"
  by (auto simp: tcp_listen_def tcp_write_def tcp_send_def tcp_close_def tcp_set_state_def upd_tsk_def
      split: if_splits tcp_state.splits elim!: bind_SomeE dest!: ok_rings ok_send_loop ok_queue_fin ok_free_sock)

lemma ok_udp_send: "udp_send s buf n w = Some (r, w') \<Longrightarrow> P w \<longrightarrow> P w'"
  by (auto simp: udp_send_def Let_def elim!: bind_SomeE dest: ip_out)

lemma ok_udp_ring:
  "udp_socks_enqueue s w = Some w' \<Longrightarrow> w_udp w' = w_udp w \<and> (w_udp w s \<noteq> None \<longrightarrow> P w \<longrightarrow> P w')"
  "udp_socks_remove s w = Some w' \<Longrightarrow> w_udp w' = w_udp w \<and> (w_udp w s \<noteq> None \<longrightarrow> P w \<longrightarrow> P w')"
proof -
  have "P w \<Longrightarrow> w_links v = h \<Longrightarrow> P (w\<lparr>w_links := h\<rparr>) \<Longrightarrow> P (w\<lparr>w_links := h, w_udp_amount := a\<rparr>)" for h v a
    using counters(4) [of "w\<lparr>w_links := h\<rparr>" a] by simp
  then show "udp_socks_enqueue s w = Some w' \<Longrightarrow> w_udp w' = w_udp w \<and> (w_udp w s \<noteq> None \<longrightarrow> P w \<longrightarrow> P w')"
    "udp_socks_remove s w = Some w' \<Longrightarrow> w_udp w' = w_udp w \<and> (w_udp w s \<noteq> None \<longrightarrow> P w \<longrightarrow> P w')"
    using counters(4)
    by (auto simp: udp_socks_enqueue_def udp_socks_remove_def elim!: bind_SomeE dest: udp_link udp_unlink)
qed

lemma ok_udp_close: "udp_close s w = Some (x, w') \<Longrightarrow> P w \<longrightarrow> P w'"
  by (auto simp: udp_close_def udp_free_sock_def elim!: bind_SomeE dest!: ok_udp_ring intro: udp_free)

lemma upd_usk_live: "upd_usk s f w = Some w' \<Longrightarrow> w_udp w' s \<noteq> None \<and> (P w \<longrightarrow> P w')"
  by (auto simp: upd_usk_def elim!: bind_SomeE)

lemma udp_linked:
  "list_add_tail h (link_of s) UDP_HEAD = Some h' \<Longrightarrow> w_links w = h \<Longrightarrow> w_udp w s \<noteq> None \<Longrightarrow> P w \<Longrightarrow> P (w\<lparr>w_links := h'\<rparr>)"
  using udp_link by blast

lemma ok_udp_calls:
  "udp_in skb w = Some w' \<Longrightarrow> P w \<longrightarrow> P w'"
  "udp_bind s addr w = Some (x, w') \<Longrightarrow> P w \<longrightarrow> P w'"
  "udp_connect s addr w = Some (x, w') \<Longrightarrow> P w \<longrightarrow> P w'"
  "udp_write s buf n w = Some (r, w') \<Longrightarrow> P w \<longrightarrow> P w'"
  by (auto simp: udp_in_def udp_recv_notify_def udp_bind_def udp_set_sport_def udp_connect_def
      udp_generate_port_def udp_write_def Let_def split: option.splits if_splits elim!: bind_SomeE
      dest!: ok_udp_ring ok_udp_send upd_usk_live)

lemma ok_udp_sendto: "udp_sendto s buf n a w = Some (r, w') \<Longrightarrow> P w \<longrightarrow> P w'"
  by (auto simp: udp_sendto_def udp_generate_port_def upd_usk_def Let_def split: option.splits if_splits
      elim!: bind_SomeE dest!: ok_udp_send) (erule notE, erule udp_linked; simp)+

end

sublocale world_invariant \<subseteq> run: run_relation "\<lambda>w w'. P w \<longrightarrow> P w'"
proof unfold_locales
  fix w w' :: world and s :: sid and tsk tsk' :: tcp_sock
  show "P w \<longrightarrow> P (put_tsk s tsk' w)" if "w_tcp w s = Some tsk" "tsk_state tsk' = tsk_state tsk"
    using that by simp
  show "P w \<longrightarrow> P w'" if "w_tcp w s = Some tsk" "tcp_connecting_or_listening_socks_enqueue s w = Some w'"
    using ok_rings that by blast
  show "P w \<longrightarrow> P w'" if "w_tcp w s = Some tsk" "tcp_connecting_or_listening_socks_remove s w = Some w'"
    using ok_rings that by blast
  show "P w \<longrightarrow> P w'" if "w_tcp w s = Some tsk" "tcp_established_or_syn_recvd_socks_enqueue s w = Some w'"
    using ok_rings that by blast
qed (simp_all add: usk counters timer ok_tcp_in ok_udp_calls ok_timer_visit ok_begin_connect ok_tcp_calls ok_udp_close ok_udp_sendto,
    auto intro: accept_dequeue arp icmp tcp_alloc udp_alloc)

end
