(* ===== verification/Well_Formed.thy ===== *)
theory Well_Formed
  imports World_Invariant
begin

text \<open>
  What holds of every state the stack gets into: the link layer is as \<open>route_init\<close> left it with a
  sane ARP cache, the timers have distinct names, and every socket was allocated, as one of TCP or
  one of UDP.
\<close>

section \<open>Well-formed states\<close>

definition world_ok :: "world \<Rightarrow> bool" where
  "world_ok w \<longleftrightarrow> net_inv (w_net w) \<and> others_ok (w_others w) \<and> timers_inv (w_timers w) \<and>
     dom (w_tcp w) \<subseteq> {..<w_next w} \<and> dom (w_udp w) \<subseteq> {..<w_next w} \<and> dom (w_tcp w) \<inter> dom (w_udp w) = {}"

lemma world_ok_boot: "others_ok oth \<Longrightarrow> world_ok (world_boot oth isns)"
  by (simp add: world_ok_def world_boot_def)

section \<open>The link layer\<close>

lemma transmit_net: "netdev_transmit skb mac et n = Some (r, skb', n') \<Longrightarrow> net_inv n' = net_inv n"
  by (auto simp: netdev_transmit_def Let_def elim!: bind_SomeE)

lemma arp_request_net: "arp_request sa da dev n = Some (r, n') \<Longrightarrow> net_inv n' = net_inv n"
  by (auto simp: arp_request_def Let_def elim!: bind_SomeE dest!: transmit_net)

lemma neigh_try_net:
  assumes "neigh_try others skb dev sa da k n = Some (r, skb', n')" and "others_ok others" and "net_inv n"
  shows "net_inv n'"
  using assms
proof (induction others skb dev sa da k n rule: neigh_try.induct)
  case (1 others skb dev sa da k n)
  show ?case
  proof (cases "arp_get_hwaddr n da")
    case None
    from "1.prems" None obtain x n1 where a: "arp_request sa da dev n = Some (x, n1)"
      and b: "(if k + 1 < 3 then neigh_try others skb dev sa da (k + 1) (others n1) else Some (Rc (-1), skb, n1)) =
        Some (r, skb', n')"
      by (subst (asm) neigh_try.simps) (auto elim!: bind_SomeE)
    have n1: "net_inv n1" "net_inv (others n1)"
      using arp_request_net [OF a] "1.prems"(2,3) by (simp_all add: others_ok_def)
    show ?thesis
      using b n1 "1.IH" [OF None a HOL.refl] "1.prems"(2) by (auto split: if_splits)
  next
    case (Some mac)
    then show ?thesis using "1.prems" by (subst (asm) neigh_try.simps) (auto dest: transmit_net)
  qed
qed

lemma ip_output_net:
  assumes "ip_output others da skb n = Some (r, skb', n')" and "others_ok others" and "net_inv n"
  shows "net_inv n'"
  using assms by (auto simp: ip_output_def dst_neigh_output_def Let_def split: option.splits elim!: bind_SomeE
      dest: neigh_try_net)

lemma icmp_net: "icmpv4_incoming others tv skb n = Some (f, n') \<Longrightarrow> others_ok others \<Longrightarrow> net_inv n \<Longrightarrow> net_inv n'"
  by (auto simp: icmpv4_incoming_def icmpv4_reply_def icmpv4_timestamp_def Let_def split: if_splits
      elim!: bind_SomeE dest: ip_output_net)

lemma arp_reply_net: "arp_reply skb dev n = Some (f, n') \<Longrightarrow> net_inv n' = net_inv n"
  by (auto simp: arp_reply_def Let_def elim!: bind_SomeE dest!: transmit_net)

lemma net_inv_update:
  assumes "update_arp_translation_table ARP_ETHERNET sip m (net_arp n) = (r, c)" and "length m = 6" and "net_inv n"
  shows "net_inv (n\<lparr>net_arp := c\<rparr>)"
    and "r = 0 \<Longrightarrow> net_inv (n\<lparr>net_arp := snd (insert_arp_translation_table ARP_ETHERNET sip m c)\<rparr>)"
  using assms arp_inv_update [of "net_arp n" m sip] arp_inv_learn [of "net_arp n" m sip]
  by (simp_all add: net_inv_def arp_learn_def)

lemma arp_rcv_net:
  assumes "arp_rcv skb n = Some (f, n')" and "net_inv n"
  shows "net_inv n'"
proof -
  have l: "length m = 6" if "load_bytes b p 6 = Some m" for b p m
    using that by (auto simp: load_bytes_def split: if_splits)
  show ?thesis
    using assms
    by (auto simp: arp_rcv_def Let_def insert_arp_translation_table_def split: if_splits option.splits prod.splits
        elim!: bind_SomeE dest!: arp_reply_net l)
      (auto dest: net_inv_update simp: insert_arp_translation_table_def)
qed

section \<open>Runs\<close>

lemma world_ok_links [simp]: "world_ok (w\<lparr>w_links := h\<rparr>) = world_ok w"
  by (simp add: world_ok_def)

interpretation wf: world_invariant world_ok
proof unfold_locales
  fix w :: world
  assume ok: "world_ok w"
  then have net: "net_inv (w_net w)" "others_ok (w_others w)" and tm: "timers_inv (w_timers w)"
    and dom: "dom (w_tcp w) \<subseteq> {..<w_next w}" "dom (w_udp w) \<subseteq> {..<w_next w}" "dom (w_tcp w) \<inter> dom (w_udp w) = {}"
    by (simp_all add: world_ok_def)
  show "world_ok (w\<lparr>w_net := n\<rparr>)" if "ip_output (w_others w) da skb (w_net w) = Some (r, skb', n)" for da skb r skb' n
    using ok net ip_output_net that by (auto simp: world_ok_def)
  show "world_ok (w\<lparr>w_net := n\<rparr>)" if "arp_rcv skb (w_net w) = Some (gone, n)" for skb gone n
    using ok net arp_rcv_net that by (auto simp: world_ok_def)
  show "world_ok (w\<lparr>w_net := n\<rparr>)" if "icmpv4_incoming (w_others w) tv skb (w_net w) = Some (fate, n)" for tv skb fate n
    using ok net icmp_net that by (auto simp: world_ok_def)
  show "world_ok w'" if "tcp_alloc_sock w = Some (c, w')" for c w'
    using ok that by (fastforce simp: tcp_alloc_sock_def put_tsk_def world_ok_def Let_def elim!: bind_SomeE)
  show "world_ok w'" if "udp_alloc_sock w = (c, w')" for c w'
    using ok that by (fastforce simp: udp_alloc_sock_def put_usk_def world_ok_def Let_def)
  show "world_ok (w\<lparr>w_timers := ts\<rparr>)" if "timer_cancel x (w_timers w) = Some ts" for x ts
    using ok tm timers_inv_cancel that by (auto simp: world_ok_def)
  show "world_ok (w\<lparr>w_timers := ts\<rparr>)" if "timer_release x (w_timers w) = Some ts" for x ts
    using ok tm timers_inv_release that by (auto simp: world_ok_def)
  show "world_ok (w\<lparr>w_timers := snd (timer_add e h s (w_timers w))\<rparr>)" for e h s
    using ok tm timers_inv_add by (auto simp: world_ok_def)
  show "world_ok (w\<lparr>w_timers := (w_timers w)\<lparr>tick := now\<rparr>\<rparr>)" for now
    using ok by (simp add: world_ok_def timers_inv_def)
  show "world_ok w'" if "tcp_accept_enqueue s w = Some w'" for s w'
    using ok that by (auto simp: tcp_accept_enqueue_def elim!: bind_SomeE)
  show "world_ok w'" if "tcp_accept_dequeue s w = Some (c, w')" for s c w'
    using ok that by (auto simp: tcp_accept_dequeue_def elim!: bind_SomeE)
qed (auto simp: world_ok_def put_tsk_def put_usk_def timers_inv_set timers_inv_free)


end
