(* ===== verification/Tcp_Stream.thy ===== *)
theory Tcp_Stream
  imports Tcp_Transfer "HOL-Library.Sublist"
begin

text \<open>
  TCP over a network that loses, repeats and reorders frames: whatever arrives, and whenever the
  reader reads, what it gets is the beginning of what was written.
\<close>

section \<open>Pieces of a stream\<close>

text \<open>A packet that holds the bytes of \<open>str\<close> from \<open>skb_seq\<close> on, where \<open>base\<close> is the number of its first byte.\<close>

definition piece :: "u32 \<Rightarrow> bytes \<Rightarrow> sk_buff \<Rightarrow> bool" where
  "piece base str skb \<longleftrightarrow> (\<exists>k. skb_seq skb = base + word_of_nat k \<and> k + length (rx_data skb) \<le> length str \<and>
     rx_data skb = take (length (rx_data skb)) (drop k str))"

text \<open>Sequence numbers that do not wrap name positions of the stream.\<close>

lemma seq_unat: "unat base + n < 2 ^ 32 \<Longrightarrow> k \<le> n \<Longrightarrow> unat (base + word_of_nat k :: u32) = unat base + k"
  by (simp add: unat_word_ariths unsigned_of_nat take_bit_nat_eq_self)

lemma seq_inj:
  assumes "unat base + n < 2 ^ 32" and "k \<le> n" and "j \<le> n" and "base + word_of_nat k = (base + word_of_nat j :: u32)"
  shows "k = j"
proof -
  have "unat base + k = unat base + j"
    unfolding seq_unat [OF assms(1,2), symmetric] seq_unat [OF assms(1,3), symmetric] assms(4) ..
  then show ?thesis by simp
qed

lemma piece_extends:
  assumes "unat base + length str < 2 ^ 32" and "piece base str skb" and "skb_seq skb = base + word_of_nat k" and "k \<le> length str"
  shows "take (k + length (rx_data skb)) str = take k str @ rx_data skb" and "k + length (rx_data skb) \<le> length str"
proof -
  obtain j where j: "skb_seq skb = base + word_of_nat j" "j + length (rx_data skb) \<le> length str"
    "rx_data skb = take (length (rx_data skb)) (drop j str)"
    using assms(2) unfolding piece_def by blast
  have "k = j" using seq_inj [OF assms(1,4)] j(1,2) assms(3) by simp
  then show "take (k + length (rx_data skb)) str = take k str @ rx_data skb" "k + length (rx_data skb) \<le> length str"
    using j(2,3) by (metis take_add, simp)
qed

lemma contig_pieces:
  assumes "unat base + length str < 2 ^ 32" and "\<forall>x\<in>set xs. piece base str x \<and> rx_ok x" and "k \<le> length str"
    and "contig (base + word_of_nat k) xs = (moved, left, m)"
  shows "\<exists>j. m = base + word_of_nat j \<and> j \<le> length str \<and> take j str = take k str @ concat (map rx_data moved)"
  using assms(2-4)
proof (induction xs arbitrary: k moved)
  case Nil
  then show ?case by auto
next
  case (Cons x xs)
  show ?case
  proof (cases "base + word_of_nat k = skb_seq x")
    case False
    then show ?thesis using Cons.prems by auto
  next
    case True
    have x: "piece base str x" "rx_ok x" using Cons.prems(1) by auto
    note e = piece_extends [OF assms(1) x(1) True [symmetric] Cons.prems(2)]
    obtain mv where mv: "moved = x # mv" "contig (base + word_of_nat k + skb_dlen x) xs = (mv, left, m)"
      using Cons.prems(3) True by (auto simp: Let_def split: prod.splits)
    have "skb_dlen x = word_of_nat (length (rx_data x))" using length_rx_data [OF x(2)] by simp
    then have "contig (base + word_of_nat (k + length (rx_data x))) xs = (mv, left, m)"
      using mv(2) by (simp add: add.assoc)
    then obtain j where "m = base + word_of_nat j" "j \<le> length str"
      "take j str = take (k + length (rx_data x)) str @ concat (map rx_data mv)"
      using Cons.IH [of "k + length (rx_data x)" mv] Cons.prems(1) e(2) by auto
    then show ?thesis using e(1) mv(1) by auto
  qed
qed

section \<open>The receiver\<close>

text \<open>
  What holds of a receiver at any time: what was read and what is queued are the beginning of the
  stream, up to \<open>rcv_nxt\<close>; what is out of order are pieces of it.
\<close>

definition in_sync :: "world \<Rightarrow> sid list \<Rightarrow> sid list \<Rightarrow> sid \<Rightarrow> tcp_sock \<Rightarrow> u32 \<Rightarrow> bytes \<Rightarrow> nat \<Rightarrow> bytes \<Rightarrow> world \<Rightarrow> bool" where
  "in_sync w0 cs es s t0 base str n rd w \<longleftrightarrow> (\<exists>tsk k. connected w cs es s n tsk \<and> same_ends t0 tsk \<and> unmoved w0 w \<and>
     (\<forall>x\<in>set (q_items (tsk_ofo_queue tsk)). piece base str x) \<and>
     rcv_nxt (tsk_tcb tsk) = base + word_of_nat k \<and> k \<le> length str \<and> rd @ rx_stream tsk = take k str)"

lemma connected_tcp: "connected w cs es s n tsk \<Longrightarrow> w_tcp w s = Some tsk"
  by (simp add: connected_def can_send_def)

lemma in_sync_prefix: "in_sync w0 cs es s t0 base str n rd w \<Longrightarrow> prefix rd str"
  unfolding in_sync_def using take_is_prefix append_prefixD by metis

lemma insert_ordered_pieces:
  assumes "tcp_data_insert_ordered q skb = Some (skb', q')" and "piece base str skb" and "\<forall>x\<in>set (q_items q). piece base str x"
  shows "\<forall>x\<in>set (q_items q'). piece base str x" and "length (q_items q') \<le> length (q_items q) + 1"
proof -
  have "piece base str (skb\<lparr>skb_refcnt := skb_refcnt skb + 1\<rparr>)" using assms(2) by (simp add: piece_def rx_data_def)
  then show "\<forall>x\<in>set (q_items q'). piece base str x" "length (q_items q') \<le> length (q_items q) + 1"
    using insert_ordered_items [OF assms(1)] assms(3) by auto
qed

text \<open>The data of a segment, wherever it belongs.\<close>

lemma tcp_data_queue_sync:
  assumes c: "connected w cs es s (Suc n) tsk" and len: "unat base + length str < 2 ^ 32"
    and skb: "rx_ok skb" "piece base str skb" and wnd: "rcv_wnd (tsk_tcb tsk) \<noteq> 0"
    and ofo: "\<forall>x\<in>set (q_items (tsk_ofo_queue tsk)). piece base str x"
    and k: "rcv_nxt (tsk_tcb tsk) = base + word_of_nat k" "k \<le> length str" "rd @ rx_stream tsk = take k str"
  shows "\<exists>skb' w' tsk' j. tcp_data_queue s th skb w = Some (0, Some skb', w') \<and> connected w' cs es s n tsk' \<and>
    same_ends tsk tsk' \<and> unmoved w w' \<and> (\<forall>x\<in>set (q_items (tsk_ofo_queue tsk')). piece base str x) \<and>
    rcv_nxt (tsk_tcb tsk') = base + word_of_nat j \<and> j \<le> length str \<and> rd @ rx_stream tsk' = take j str"
proof -
  have t: "can_send w s tsk" "rx_inv tsk" "ofo_inv tsk" "tsk_state tsk = TCP_ESTABLISHED"
    "queue_inv (sk_write_queue (tsk_sk tsk))"
    "length (rx_items tsk) + length (q_items (tsk_ofo_queue tsk)) + Suc n < 2 ^ 32"
    using c by (auto simp: connected_def)
  show ?thesis
  proof (cases "skb_seq skb = rcv_nxt (tsk_tcb tsk)")
    case True
    obtain moved left m where ct: "contig (rcv_nxt (tsk_tcb tsk) + skb_dlen skb) (q_items (tsk_ofo_queue tsk)) = (moved, left, m)"
      by (cases "contig (rcv_nxt (tsk_tcb tsk) + skb_dlen skb) (q_items (tsk_ofo_queue tsk))")
    have split: "q_items (tsk_ofo_queue tsk) = moved @ left" using contig_append [OF ct] .
    have room: "length (rx_items tsk) + length (q_items (tsk_ofo_queue tsk)) + 1 < 2 ^ 32" using t(6) by simp
    obtain w' tsk' where q: "tcp_data_queue s th skb w = Some (0, Some (skb\<lparr>skb_refcnt := skb_refcnt skb + 1\<rparr>), w')"
      "can_send w' s tsk'" "rx_inv tsk'" "ofo_inv tsk'"
      "rx_stream tsk' = rx_stream tsk @ rx_data skb @ concat (map rx_data moved)"
      "length (rx_items tsk') = length (rx_items tsk) + 1 + length moved" "q_items (tsk_ofo_queue tsk') = left"
      "tsk_tcb tsk' = (tsk_tcb tsk)\<lparr>rcv_nxt := m\<rparr>" "tsk_state tsk' = tsk_state tsk"
      "sk_write_queue (tsk_sk tsk') = sk_write_queue (tsk_sk tsk)" "w_links w' = w_links w"
      using tcp_data_queue_expected [OF t(1-3) skb(1) room wnd True ct, of th] by blast
    note e = piece_extends [OF len skb(2) _ k(2)]
    have "skb_dlen skb = word_of_nat (length (rx_data skb))" using length_rx_data [OF skb(1)] by simp
    then have ct': "contig (base + word_of_nat (k + length (rx_data skb))) (q_items (tsk_ofo_queue tsk)) = (moved, left, m)"
      using ct k(1) by (simp add: add.assoc)
    obtain j where j: "m = base + word_of_nat j" "j \<le> length str"
      "take j str = take (k + length (rx_data skb)) str @ concat (map rx_data moved)"
      using contig_pieces [OF len _ _ ct'] ofo t(3) e(2) True k(1) by (auto simp: ofo_inv_def)
    have "rd @ rx_stream tsk' = take j str" using q(5) j(3) e(1) True k(1,3) by (metis append_assoc)
    moreover have u: "unmoved w w'" using ends_data_queue [OF q(1)] q(11) by (simp add: unmoved_def)
    moreover have "connected w' cs es s n tsk'" "same_ends tsk tsk'"
      using connected_kept [OF c u q(2) _ q(3,4), of n] q(6,7,9,10) t(4-6) split by auto
    ultimately show ?thesis using q(1,7,8) j(1,2) ofo split
      by (intro exI [of _ "skb\<lparr>skb_refcnt := skb_refcnt skb + 1\<rparr>"] exI [of _ w'] exI [of _ tsk'] exI [of _ j]) simp
  next
    case False
    have "queue_inv (tsk_ofo_queue tsk)" using t(3) by (simp add: ofo_inv_def)
    then obtain skb' q where i: "tcp_data_insert_ordered (tsk_ofo_queue tsk) skb = Some (skb', q)"
      by (rule insert_ordered_total)
    note p = insert_ordered_pieces [OF i skb(2) ofo]
    let ?t = "tsk\<lparr>tsk_ofo_queue := q\<rparr>"
    have room: "length (q_items (tsk_ofo_queue tsk)) + 1 < 2 ^ 32" using t(6) by simp
    obtain w' where q: "tcp_data_queue s th skb w = Some (0, Some skb', w')" "can_send w' s ?t" "ofo_inv ?t"
      "w_links w' = w_links w"
      using tcp_data_queue_unexpected [OF t(1,3) skb(1) room wnd False i, of th] by blast
    have u: "unmoved w w'" using ends_data_queue [OF q(1)] q(4) by (simp add: unmoved_def)
    have "connected w' cs es s n ?t" "same_ends tsk ?t"
      using connected_kept [OF c u q(2) _ _ q(3), of n] t(2,4-6) p(2) by (auto simp: rx_inv_def)
    then show ?thesis using q(1) u p(1) k by (intro exI [of _ skb'] exI [of _ w'] exI [of _ ?t] exI [of _ k])
      (simp add: rx_stream_def)
  qed
qed

text \<open>A segment of the stream, whatever its sequence and acknowledgment numbers.\<close>

lemma tcp_process_sync:
  assumes s: "in_sync w0 cs es s t0 base str (Suc n) rd w" and len: "unat base + length str < 2 ^ 32"
    and th: "th_ack th" "\<not> th_syn th" "\<not> th_fin th"
    and skb: "rx_ok skb" "skb_dlen skb \<noteq> 0" "piece base str skb"
  shows "\<exists>r fate w'. tcp_process s th skb w = Some (r, fate, w') \<and> in_sync w0 cs es s t0 base str n rd w'"
proof -
  obtain tsk k where c: "connected w cs es s (Suc n) tsk" "same_ends t0 tsk" "unmoved w0 w"
    "\<forall>x\<in>set (q_items (tsk_ofo_queue tsk)). piece base str x" "rcv_nxt (tsk_tcb tsk) = base + word_of_nat k"
    "k \<le> length str" "rd @ rx_stream tsk = take k str"
    using s unfolding in_sync_def by blast
  have t: "w_tcp w s = Some tsk" "tsk_state tsk = TCP_ESTABLISHED" using c(1) by (auto simp: connected_def can_send_def)
  have less: "connected v cs es s n tsk'" if "connected v cs es s (Suc n) tsk'" for v tsk'
    using that by (auto simp: connected_def)
  have keep: "in_sync w0 cs es s t0 base str n rd v"
    if "connected v cs es s n tsk'" "same_ends tsk tsk'" "unmoved w v" "rcv_nxt (tsk_tcb tsk') = rcv_nxt (tsk_tcb tsk)"
      "rx_items tsk' = rx_items tsk" "q_items (tsk_ofo_queue tsk') = q_items (tsk_ofo_queue tsk)" for v tsk'
  proof -
    have "same_ends t0 tsk'" "unmoved w0 v" using that(2,3) c(2,3) by (auto simp: same_ends_def intro: unmoved_trans)
    then show ?thesis unfolding in_sync_def using that(1,4-6) c(4-7)
      by (intro exI [of _ tsk'] exI [of _ k]) (simp add: rx_stream_def)
  qed
  show ?thesis
  proof (cases "tcp_packet_filter tsk th skb")
    case False
    obtain r m where a: "tcp_send_ack s w = Some (r, w\<lparr>w_net := m\<rparr>)" "net_inv m"
      using tcp_send_ack_total [of w s tsk] c(1) by (auto simp: connected_def)
    have u: "unmoved w (w\<lparr>w_net := m\<rparr>)" by (simp add: unmoved_def)
    have "can_send (w\<lparr>w_net := m\<rparr>) s tsk" using c(1) a(2) by (simp add: connected_def)
    then have "connected (w\<lparr>w_net := m\<rparr>) cs es s n tsk"
      by (rule connected_kept(1) [OF c(1) u]) (use c(1) in \<open>auto simp: connected_def\<close>)
    then have 1: "in_sync w0 cs es s t0 base str n rd (w\<lparr>w_net := m\<rparr>)" using u by (intro keep) auto
    have 2: "in_sync w0 cs es s t0 base str n rd w" using less [OF c(1)] by (intro keep) auto
    show ?thesis using t False a(1) 1 2 by (cases "th_rst th") (simp_all add: tcp_process_def)
  next
    case True
    then have wnd: "rcv_wnd (tsk_tcb tsk) \<noteq> 0" using skb(2) by (auto simp: tcp_packet_filter_def Let_def word_gt_0)
    obtain go w1 t1 una where a: "tcp_process_ack s th w = Some (go, w1)" "connected w1 cs es s (Suc n) t1" "same_ends tsk t1"
      "unmoved w w1" "tsk_tcb t1 = (tsk_tcb tsk)\<lparr>snd_una := una\<rparr>" "rx_items t1 = rx_items tsk"
      "q_items (tsk_ofo_queue t1) = q_items (tsk_ofo_queue tsk)"
      using tcp_process_ack_connected [OF c(1) HOL.refl, of th] by blast
    have run: "tcp_process s th skb w = (if \<not> go then Some (Rc 0, tcp_drop skb, w1)
        else Option.bind (tcp_process_text s th skb w1) (\<lambda>(skb, w). Option.bind (tcp_process_fin s th skb w)
          (\<lambda>w. Some (Rc 0, free_skb skb, w))))"
      using t True th(1,2) a(1) by (simp add: tcp_process_def tcp_process_syn_def)
    show ?thesis
    proof (cases go)
      case False
      have "in_sync w0 cs es s t0 base str n rd w1" using a less by (intro keep [of w1 t1]) auto
      then show ?thesis using run False by simp
    next
      case go: True
      have k1: "rcv_wnd (tsk_tcb t1) \<noteq> 0" "\<forall>x\<in>set (q_items (tsk_ofo_queue t1)). piece base str x"
        "rcv_nxt (tsk_tcb t1) = base + word_of_nat k" "rd @ rx_stream t1 = take k str"
        using a(5-7) c(4,5,7) wnd by (simp_all add: rx_stream_def)
      obtain skb' w2 t2 j where q: "tcp_data_queue s th skb w1 = Some (0, Some skb', w2)" "connected w2 cs es s n t2"
        "same_ends t1 t2" "unmoved w1 w2" "\<forall>x\<in>set (q_items (tsk_ofo_queue t2)). piece base str x"
        "rcv_nxt (tsk_tcb t2) = base + word_of_nat j" "j \<le> length str" "rd @ rx_stream t2 = take j str"
        using tcp_data_queue_sync [OF a(2) len skb(1,3) k1(1-3) c(6) k1(4), of th] by blast
      let ?t3 = "on_sk (\<lambda>sk. sk\<lparr>sk_recv_wait := wait_wakeup (sk_recv_wait sk)\<rparr>) t2"
      let ?w3 = "put_tsk s ?t3 w2"
      have t2: "w_tcp w2 s = Some t2" "can_send w2 s t2" using q(2) by (auto simp: connected_def can_send_def)
      have u3: "unmoved w2 ?w3" using t2(1) by (simp add: unmoved_def ends_put_same)
      have "can_send ?w3 s ?t3" using t2(2) by (intro can_send_put [OF t2(2)]) (auto simp: can_send_def timers_live_def)
      then have c3: "connected ?w3 cs es s n ?t3"
        using connected_kept [OF q(2) u3, of ?t3 n] q(2) by (auto simp: connected_def rx_inv_def ofo_inv_def)
      have t1: "w_tcp w1 s = Some t1" "tsk_state t1 = TCP_ESTABLISHED" using a(2) by (auto simp: connected_def can_send_def)
      have tx: "tcp_process_text s th skb w1 = Some (skb', ?w3)"
        using t1 q(1) skb(2) t2(1) by (simp add: tcp_process_text_def tcp_recv_notify_def upd_tsk_def word_gt_0)
      have fi: "tcp_process_fin s th skb' ?w3 = Some ?w3" using th(3) by (simp add: tcp_process_fin_def)
      have "same_ends t0 ?t3" "unmoved w0 ?w3"
        using c(2,3) a(3,4) q(3,4) u3 by (auto simp: same_ends_def intro: unmoved_trans)
      then have "in_sync w0 cs es s t0 base str n rd ?w3"
        unfolding in_sync_def using c3 q(5-8) by (intro exI [of _ ?t3] exI [of _ j]) (simp add: rx_stream_def)
      then show ?thesis using run go tx fi by simp
    qed
  qed
qed

section \<open>Frames\<close>

text \<open>A frame from the peer of \<open>t2\<close> with a segment of the stream, as \<open>tcp_send\<close> makes them.\<close>

definition stream_frame :: "tcp_sock \<Rightarrow> u32 \<Rightarrow> bytes \<Rightarrow> bytes \<Rightarrow> bool" where
  "stream_frame t2 base str f \<longleftrightarrow> (\<exists>dev t1 dmac smac pkt sgm fl k d. f = eth_frame dmac smac ETH_P_IP pkt \<and>
     length dmac = 6 \<and> length smac = 6 \<and> peers dev t1 t2 \<and> ip_datagram dev 0x0A000104 IP_TCP sgm pkt \<and>
     tcp_segment t1 (base + word_of_nat k) 5 fl d sgm \<and> d \<noteq> [] \<and> length d + 54 \<le> BUFLEN \<and>
     bit fl 4 \<and> \<not> bit fl 1 \<and> \<not> bit fl 0 \<and> k + length d \<le> length str \<and> d = take (length d) (drop k str))"

lemma stream_frame_in:
  assumes s: "in_sync w0 cs es s t0 base str (Suc n) rd w" and len: "unat base + length str < 2 ^ 32"
    and f: "stream_frame t0 base str f"
  shows "\<exists>w'. netdev_rx_loop_step tv f w = Some w' \<and> in_sync w0 cs es s t0 base str n rd w'"
proof -
  obtain dev t1 dmac smac pkt sgm fl k d where f: "f = eth_frame dmac smac ETH_P_IP pkt" "length dmac = 6" "length smac = 6"
    and p: "peers dev t1 t0" and pkt: "ip_datagram dev 0x0A000104 IP_TCP sgm pkt" "tcp_segment t1 (base + word_of_nat k) 5 fl d sgm"
    and d: "d \<noteq> []" "length d + 54 \<le> BUFLEN" and fl: "bit fl 4" "\<not> bit fl 1" "\<not> bit fl 0"
    and k: "k + length d \<le> length str" "d = take (length d) (drop k str)"
    using f unfolding stream_frame_def by blast
  have fit: "length sgm + 34 \<le> BUFLEN" using pkt(2) d(2) by (auto simp: tcp_segment_def)
  obtain skb where skb: "netdev_rx_loop_step tv f = ip_dispatch tv IP_TCP skb" "ip_delivered skb (nd_addr dev) 0x0A000104 sgm"
    using netdev_receive_datagram [OF f(2,3) pkt(1) fit, of tv] f(1) by auto
  let ?th = "tcp_header_for t1 (base + word_of_nat k) 5 fl"
  obtain skb' where s': "tcp_init_segment skb = Some skb'" "tcp_host_hdr skb' = Some ?th" "rx_ok skb'"
    "rx_data skb' = d" "skb_seq skb' = base + word_of_nat k"
    "get32 (skb_buf skb') 26 = nd_addr dev" "get32 (skb_buf skb') 30 = 0x0A000104" "length (skb_buf skb') = BUFLEN"
    using tcp_delivered [OF skb(2) pkt(2) fit] by auto
  have "skb_dlen skb' \<noteq> 0" using length_rx_data [OF s'(3)] s'(4) d(1) by auto
  moreover have "th_ack ?th" "\<not> th_syn ?th" "\<not> th_fin ?th"
    using fl by (simp_all add: th_ack_def th_syn_def th_fin_def tcp_header_for_def)
  moreover have "piece base str skb'" unfolding piece_def using s'(4,5) k by auto
  ultimately obtain r fate w' where r: "tcp_process s ?th skb' w = Some (r, fate, w')" "in_sync w0 cs es s t0 base str n rd w'"
    using tcp_process_sync [OF s len, of ?th skb'] s'(3) by blast
  obtain tsk where c: "connected w cs es s (Suc n) tsk" "same_ends t0 tsk" using s unfolding in_sync_def by blast
  have ta: "tables w cs es" using c(1) by (simp add: connected_def)
  have "tcp_lookup_sock w (nd_addr dev) (sk_sport (tsk_sk t1)) 0x0A000104 (sk_dport (tsk_sk t1)) = Some (Some s)"
    using c ta peers_same [OF p c(2)] by (auto simp: tcp_lookup_sock_tables connected_def peers_def)
  then have "tcp_in skb w = Some (fate, w')"
    using s' r(1) by (simp add: tcp_in_def ip_hdr_def skb_head_def) (simp add: tcp_header_for_def)
  then show ?thesis using skb(1) r(2) by (auto simp: ip_dispatch_def)
qed

text \<open>All frames of a write are of this kind.\<close>

lemma on_wire_frames:
  assumes "on_wire t1 dev (base + word_of_nat k) cs pkts" and "peers dev t1 t2" and "length dmac = 6" and "length smac = 6"
    and "\<forall>c\<in>set cs. c \<noteq> [] \<and> length c + 54 \<le> BUFLEN" and "drop k str = concat cs" and "k \<le> length str"
  shows "\<forall>f\<in>set (map (eth_frame dmac smac ETH_P_IP) pkts). stream_frame t2 base str f"
  using assms(1,5-7)
proof (induction cs arbitrary: k pkts)
  case Nil
  then show ?case by simp
next
  case (Cons c cs)
  let ?fl = "if cs = [] then TCP_ACK OR TCP_PSH else TCP_ACK"
  obtain pkt rest sgm where o: "pkts = pkt # rest" "ip_datagram dev 0x0A000104 IP_TCP sgm pkt"
    "tcp_segment t1 (base + word_of_nat k) 5 ?fl c sgm"
    "on_wire t1 dev (base + word_of_nat k + word_of_nat (length c)) cs rest"
    using Cons.prems(1) assms(2) by (auto simp: peers_def)
  have c: "c \<noteq> []" "length c + 54 \<le> BUFLEN" using Cons.prems(2) by auto
  have d: "drop k str = c @ concat cs" using Cons.prems(3) by simp
  then have "length str - k = length c + length (concat cs)" by (metis length_append length_drop)
  then have kl: "k + length c \<le> length str" using Cons.prems(4) by linarith
  have fl: "bit ?fl 4" "\<not> bit ?fl 1" "\<not> bit ?fl 0" by auto
  have "c = take (length c) (drop k str)" using d by simp
  then have "stream_frame t2 base str (eth_frame dmac smac ETH_P_IP pkt)"
    unfolding stream_frame_def using o(2,3) c kl fl assms(2-4) by blast
  moreover have "drop (k + length c) str = concat cs" using d by (metis add.commute append_eq_conv_conj drop_drop)
  then have "\<forall>f\<in>set (map (eth_frame dmac smac ETH_P_IP) rest). stream_frame t2 base str f"
    using Cons.IH [of "k + length c" rest] o(4) Cons.prems(2) kl by (simp add: add.assoc)
  ultimately show ?case using o(1) by simp
qed

text \<open>A write puts only such frames on the wire.\<close>

lemma tcp_write_frames:
  assumes snd: "can_send w1 s1 t1" "tsk_state t1 = TCP_ESTABLISHED" "arp_get_hwaddr (w_net w1) gateway = Some mac"
      "0 < tsk_smss t1" "tsk_smss t1 \<le> 1460"
    and "length buf < 2 ^ 31" and conn: "peers (net_dev (w_net w1)) t1 t2" "snd_nxt (tsk_tcb t1) = base"
  shows "\<exists>w1' frames. tcp_write s1 buf (word_of_nat (length buf)) w1 = Some (int (length buf), w1') \<and>
    net_tx (w_net w1') = net_tx (w_net w1) @ frames \<and> (\<forall>f\<in>set frames. stream_frame t2 base buf f)"
proof -
  let ?m = "unat (tsk_smss t1)" and ?d = "net_dev (w_net w1)"
  have m: "0 < ?m" "?m \<le> 1460" using snd(4,5) by (auto simp: word_less_nat_alt word_le_nat_alt)
  have t1: "w_tcp w1 s1 = Some t1" "net_inv (w_net w1)" using snd(1) by (auto simp: can_send_def)
  obtain w1' pkts where o: "tcp_send_loop s1 buf (int (length buf)) (int ?m) w1 = Some w1'"
    "net_tx (w_net w1') = net_tx (w_net w1) @ map (eth_frame mac (nd_hwaddr ?d) ETH_P_IP) pkts"
    "on_wire t1 ?d base (chunks ?m buf) pkts"
    using tcp_send_loop_sent [OF snd(1,3) m(1), of buf] m(2) conn(2) by auto
  have "sint (word_of_nat (length buf) :: u32) = int (length buf)"
    using assms(6) by (simp add: sint_small unsigned_of_nat take_bit_nat_eq_self)
  then have wr: "tcp_write s1 buf (word_of_nat (length buf)) w1 = Some (int (length buf), w1')"
    using t1(1) snd(2) o(1) by (simp add: tcp_write_def tcp_send_def)
  have mac: "length mac = 6" "length (nd_hwaddr ?d) = 6"
    using t1(2) snd(3) net_inv_dev [OF t1(2)] by (auto simp: dev_ok_def net_inv_def intro: arp_get_hwaddr_length)
  have ch: "\<forall>c\<in>set (chunks ?m buf). c \<noteq> [] \<and> length c + 54 \<le> BUFLEN" "concat (chunks ?m buf) = buf"
    using chunks_bound [of _ ?m buf] chunks_concat [OF m(1)] m(2) by fastforce+
  show ?thesis
    using on_wire_frames [of t1 ?d base 0 "chunks ?m buf" pkts t2 mac "nd_hwaddr ?d" buf] o(3) conn(1) mac ch wr o(2) by auto
qed

section \<open>Reading\<close>

lemma in_sync_less: "in_sync w0 cs es s t0 base str n rd w \<Longrightarrow> m \<le> n \<Longrightarrow> in_sync w0 cs es s t0 base str m rd w"
  unfolding in_sync_def connected_def by fastforce

text \<open>Changes of the socket that leave its queues and numbers alone.\<close>

lemma in_sync_put:
  assumes "in_sync w0 cs es s t0 base str n rd w" and "w_tcp w s = Some tsk"
    and "tsk' = on_sk (\<lambda>sk. sk\<lparr>sk_recv_wait := z\<rparr>) tsk \<or> tsk' = tsk\<lparr>tsk_flags := f\<rparr>"
  shows "in_sync w0 cs es s t0 base str n rd (put_tsk s tsk' w)"
proof -
  obtain k where c: "connected w cs es s n tsk" "same_ends t0 tsk" "unmoved w0 w"
    "\<forall>x\<in>set (q_items (tsk_ofo_queue tsk)). piece base str x" "rcv_nxt (tsk_tcb tsk) = base + word_of_nat k"
    "k \<le> length str" "rd @ rx_stream tsk = take k str"
    using assms(1,2) connected_tcp unfolding in_sync_def by fastforce
  have u: "unmoved w (put_tsk s tsk' w)" using assms(2,3) by (auto simp: unmoved_def ends_put_same)
  have "can_send (put_tsk s tsk' w) s tsk'"
    using c(1) assms(3) by (auto simp: connected_def can_send_def timers_live_def)
  then have "connected (put_tsk s tsk' w) cs es s n tsk'" "same_ends tsk tsk'"
    using connected_kept [OF c(1) u, of tsk' n] c(1) assms(3) by (auto simp: connected_def rx_inv_def ofo_inv_def)
  then show ?thesis
    unfolding in_sync_def using c(2-7) u assms(3) by (intro exI [of _ tsk'] exI [of _ k])
      (auto simp: rx_stream_def same_ends_def intro: unmoved_trans)
qed

lemma in_sync_dequeue:
  assumes "in_sync w0 cs es s t0 base str n rd w" and "unat len' < 2 ^ 31"
  shows "\<exists>d w'. tcp_data_dequeue s len' w = Some (d, w') \<and> in_sync w0 cs es s t0 base str n (rd @ d) w'"
proof -
  obtain tsk k where c: "connected w cs es s n tsk" "same_ends t0 tsk" "unmoved w0 w"
    "\<forall>x\<in>set (q_items (tsk_ofo_queue tsk)). piece base str x" "rcv_nxt (tsk_tcb tsk) = base + word_of_nat k"
    "k \<le> length str" "rd @ rx_stream tsk = take k str"
    using assms(1) unfolding in_sync_def by blast
  have t: "w_tcp w s = Some tsk" "rx_inv tsk" using c(1) by (auto simp: connected_def can_send_def)
  let ?d = "take (unat len') (rx_stream tsk)"
  obtain f q where q: "tcp_dequeue_loop len' [] tsk = Some (?d, on_sk (\<lambda>sk. sk\<lparr>sk_receive_queue := q\<rparr>) (tsk\<lparr>tsk_flags := f\<rparr>))"
    "rx_inv (on_sk (\<lambda>sk. sk\<lparr>sk_receive_queue := q\<rparr>) (tsk\<lparr>tsk_flags := f\<rparr>))"
    "concat (map rx_data (q_items q)) = drop (unat len') (rx_stream tsk)" "length (q_items q) \<le> length (rx_items tsk)"
    using tcp_dequeue_stream [OF t(2), of "[]" len'] assms(2) by auto
  let ?t = "on_sk (\<lambda>sk. sk\<lparr>sk_receive_queue := q\<rparr>) (tsk\<lparr>tsk_flags := f\<rparr>)"
  have u: "unmoved w (put_tsk s ?t w)" using t(1) by (simp add: unmoved_def ends_put_same)
  have "can_send (put_tsk s ?t w) s ?t" using c(1) by (auto simp: connected_def can_send_def timers_live_def)
  then have "connected (put_tsk s ?t w) cs es s n ?t"
    using connected_kept [OF c(1) u, of ?t n] c(1) q(2,4) by (auto simp: connected_def ofo_inv_def)
  moreover have "rx_stream ?t = drop (unat len') (rx_stream tsk)" using q(3) by (simp add: rx_stream_def)
  ultimately have "in_sync w0 cs es s t0 base str n (rd @ ?d) (put_tsk s ?t w)"
    unfolding in_sync_def using c(2-7) u by (intro exI [of _ ?t] exI [of _ k])
      (auto simp: same_ends_def intro: unmoved_trans)
  moreover have "tcp_data_dequeue s len' w = Some (?d, put_tsk s ?t w)" using t(1) q(1) by (simp add: tcp_data_dequeue_def)
  ultimately show ?thesis by blast
qed

text \<open>A schedule on which frames of \<open>F\<close> arrive and nothing else happens.\<close>

definition arrivals :: "bytes set \<Rightarrow> env \<Rightarrow> bool" where
  "arrivals F env \<longleftrightarrow> (\<forall>e\<in>set env. \<exists>tv. \<exists>f\<in>F. e = netdev_rx_loop_step tv f)"

lemma await_sync:
  assumes "await sleeping env w = Some (rest, w')" and "arrivals F env" and "\<forall>f\<in>F. stream_frame t0 base str f"
    and "unat base + length str < 2 ^ 32" and "in_sync w0 cs es s t0 base str (n + length env) rd w"
  shows "\<forall>env'. rest = Some env' \<longrightarrow> arrivals F env' \<and> in_sync w0 cs es s t0 base str (n + length env') rd w'"
  using assms(1,2,5)
proof (induction sleeping env w rule: await.induct)
  case (1 sleeping w)
  then show ?case by (auto elim!: bind_SomeE split: if_splits)
next
  case (2 sleeping e env w)
  obtain b where b: "sleeping w = Some b" using "2.prems"(1) by (auto elim!: bind_SomeE)
  show ?case
  proof (cases b)
    case False
    then show ?thesis using "2.prems" b by auto
  next
    case True
    obtain tv f where e: "e = netdev_rx_loop_step tv f" "f \<in> F" using "2.prems"(2) by (auto simp: arrivals_def)
    then obtain w1 where w1: "e w = Some w1" "in_sync w0 cs es s t0 base str (n + length env) rd w1"
      using stream_frame_in [of w0 cs es s t0 base str "n + length env" rd w f tv] "2.prems"(3) assms(3,4) by auto
    have run: "await sleeping env w1 = Some (rest, w')" using "2.prems"(1) b True w1(1) by simp
    have "arrivals F env" using "2.prems"(2) by (simp add: arrivals_def)
    from "2.IH" [OF b _ w1(1) run this w1(2)] True show ?thesis by simp
  qed
qed

lemma wait_sleep_sync:
  assumes "wait_sleep_recv s env w = Some (Some env', w')" and "arrivals F env" and "\<forall>f\<in>F. stream_frame t0 base str f"
    and "unat base + length str < 2 ^ 32" and "in_sync w0 cs es s t0 base str (n + length env) rd w"
  shows "arrivals F env' \<and> in_sync w0 cs es s t0 base str (n + length env') rd w'"
proof -
  obtain tsk sleeping z where t: "w_tcp w s = Some tsk"
    "await sleeping env (put_tsk s (on_sk (\<lambda>sk. sk\<lparr>sk_recv_wait := z\<rparr>) tsk) w) = Some (Some env', w')"
    using assms(1) by (auto simp: wait_sleep_recv_def upd_tsk_def on_sk_def elim!: bind_SomeE)
  then show ?thesis using await_sync [OF t(2) assms(2-4)] in_sync_put [OF assms(5) t(1)] by blast
qed

lemma receive_loop_sync:
  assumes "tcp_receive_loop s len' out env w = Some r" and "arrivals F env" and F: "\<forall>f\<in>F. stream_frame t0 base str f"
    and len: "unat base + length str < 2 ^ 32" and "in_sync w0 cs es s t0 base str (n + length env) rd w" and "len' < 2 ^ 31"
  shows "\<forall>out'. fst r = Returned out' \<longrightarrow> (\<exists>d. out' = out @ d \<and> in_sync w0 cs es s t0 base str n (rd @ d) (snd r))"
proof -
  let ?P = "\<lambda>s' len' out env w r. s' = s \<longrightarrow> len' < 2 ^ 31 \<longrightarrow> arrivals F env \<longrightarrow>
    (\<forall>rd. in_sync w0 cs es s t0 base str (n + length env) rd w \<longrightarrow> (\<forall>out'. fst r = Returned out' \<longrightarrow>
      (\<exists>d. out' = out @ d \<and> in_sync w0 cs es s t0 base str n (rd @ d) (snd r))))"
  have "?P s len' out env w r"
  proof (rule tcp_receive_loop.raw_induct [of ?P, OF _ assms(1)], intro impI allI)
    fix f :: "sid \<Rightarrow> int \<Rightarrow> bytes \<Rightarrow> env \<Rightarrow> world \<Rightarrow> (bytes outcome \<times> world) option" and s' len' out env w r rd out'
    assume ih: "\<And>s' len' out env w r. f s' len' out env w = Some r \<Longrightarrow> ?P s' len' out env w r"
    assume run: "(if int (length out) < len' then
        Option.bind (tcp_data_dequeue s' (word_of_int (len' - int (length out))) w) (\<lambda>r.
        let out = out @ fst r; w = snd r in
        Option.bind (w_tcp w s') (\<lambda>tsk.
        if tsk_flags tsk AND TCP_PSH \<noteq> 0
        then Some (Returned out, put_tsk s' (tsk\<lparr>tsk_flags := tsk_flags tsk AND NOT TCP_PSH\<rparr>) w)
        else if tsk_flags tsk AND TCP_FIN \<noteq> 0 \<or> int (length out) = len'
        then Some (Returned out, w)
        else Option.bind (wait_sleep_recv s' env w) (\<lambda>q.
          case fst q of
            None \<Rightarrow> Some (Asleep, snd q)
          | Some env \<Rightarrow> f s' len' out env (snd q))))
      else Some (Returned out, w)) = Some r"
    assume s': "s' = s" and l: "len' < 2 ^ 31" and env: "arrivals F env"
      and sync: "in_sync w0 cs es s t0 base str (n + length env) rd w" and out': "fst r = Returned out'"
    have n: "in_sync w0 cs es s t0 base str n rd' v" if "in_sync w0 cs es s t0 base str (n + m) rd' v" for m rd' v
      using in_sync_less [OF that] by simp
    show "\<exists>d. out' = out @ d \<and> in_sync w0 cs es s t0 base str n (rd @ d) (snd r)"
    proof (cases "int (length out) < len'")
      case False
      then show ?thesis using run out' n [OF sync] by auto
    next
      case True
      have "word_of_int (len' - int (length out)) = (word_of_nat (nat (len' - int (length out))) :: u32)"
        using True by (metis less_imp_le diff_ge_0_iff_ge int_nat_eq of_int_of_nat_eq)
      moreover have "nat (len' - int (length out)) < 2 ^ 31" using True l by simp
      ultimately have u: "unat (word_of_int (len' - int (length out)) :: u32) < 2 ^ 31"
        by (simp add: unsigned_of_nat take_bit_nat_eq_self)
      obtain d w1 where d: "tcp_data_dequeue s (word_of_int (len' - int (length out))) w = Some (d, w1)"
        "in_sync w0 cs es s t0 base str (n + length env) (rd @ d) w1"
        using in_sync_dequeue [OF sync u] by blast
      have run1: "Option.bind (w_tcp w1 s) (\<lambda>tsk.
        if tsk_flags tsk AND TCP_PSH \<noteq> 0
        then Some (Returned (out @ d), put_tsk s (tsk\<lparr>tsk_flags := tsk_flags tsk AND NOT TCP_PSH\<rparr>) w1)
        else if tsk_flags tsk AND TCP_FIN \<noteq> 0 \<or> int (length (out @ d)) = len'
        then Some (Returned (out @ d), w1)
        else Option.bind (wait_sleep_recv s env w1) (\<lambda>q.
          case fst q of
            None \<Rightarrow> Some (Asleep, snd q)
          | Some env \<Rightarrow> f s len' (out @ d) env (snd q))) = Some r"
        using run unfolding s' if_P [OF True] d(1) Let_def bind.bind_lunit fst_conv snd_conv .
      then obtain tsk where t: "w_tcp w1 s = Some tsk" by (auto elim!: bind_SomeE)
      consider "out' = out @ d" "snd r = put_tsk s (tsk\<lparr>tsk_flags := tsk_flags tsk AND NOT TCP_PSH\<rparr>) w1"
        | "out' = out @ d" "snd r = w1"
        | env' w2 where "wait_sleep_recv s env w1 = Some (Some env', w2)" "f s len' (out @ d) env' w2 = Some r"
        using run1 out' unfolding t by (auto split: if_splits option.splits elim!: bind_SomeE)
      then show ?thesis
      proof cases
        case 1
        then show ?thesis using n [OF in_sync_put [OF d(2) t]] by auto
      next
        case 2
        then show ?thesis using n [OF d(2)] by auto
      next
        case 3
        have "arrivals F env' \<and> in_sync w0 cs es s t0 base str (n + length env') (rd @ d) w2"
          using wait_sleep_sync [OF 3(1) env F len d(2)] .
        then obtain d' where "out' = (out @ d) @ d'" "in_sync w0 cs es s t0 base str n ((rd @ d) @ d') (snd r)"
          using ih [OF 3(2)] l out' by blast
        then show ?thesis by auto
      qed
    qed
  qed
  then show ?thesis using assms(2,5,6) by blast
qed

lemma read_sync:
  assumes "tcp_read s len' env w = Some (Returned (m, d), w')" and "arrivals F env" and "\<forall>f\<in>F. stream_frame t0 base str f"
    and "unat base + length str < 2 ^ 32" and "in_sync w0 cs es s t0 base str (n + length env) rd w"
  shows "in_sync w0 cs es s t0 base str n (rd @ d) w'"
proof -
  obtain tsk where t: "w_tcp w s = Some tsk" "tsk_state tsk = TCP_ESTABLISHED"
    using assms(5) unfolding in_sync_def connected_def can_send_def by blast
  have "sint len' < 2 ^ 31" using sint_lt [of len'] by simp
  moreover obtain r where r: "tcp_receive_loop s (sint len') [] env w = Some r" "read_value r = (Returned (m, d), w')"
    using assms(1) t by (auto simp: tcp_read_def tcp_receive_def split: if_splits)
  moreover have "fst r = Returned d" "w' = snd r"
    using r(2) by (cases "fst r"; simp add: read_value_def)+
  ultimately show ?thesis using receive_loop_sync [OF _ assms(2-5)] by fastforce
qed

section \<open>A network that loses, repeats and reorders\<close>

text \<open>
  What can happen to a receiver: frames of \<open>F\<close> arrive, any of them, in any order and any number of
  times, and the application reads, possibly sleeping while frames arrive.  The number counts the
  frames, the bytes are those read so far.
\<close>

inductive history :: "bytes set \<Rightarrow> sid \<Rightarrow> world \<Rightarrow> nat \<Rightarrow> bytes \<Rightarrow> world \<Rightarrow> bool" for F s w where
  start: "history F s w 0 [] w"
| arrives: "history F s w n rd w' \<Longrightarrow> f \<in> F \<Longrightarrow> netdev_rx_loop_step tv f w' = Some w'' \<Longrightarrow> history F s w (Suc n) rd w''"
| reads: "history F s w n rd w' \<Longrightarrow> arrivals F env \<Longrightarrow> tcp_read s k env w' = Some (Returned (m, d), w'') \<Longrightarrow>
    history F s w (n + length env) (rd @ d) w''"

lemma history_sync:
  assumes "history F s w n rd w'" and F: "\<forall>f\<in>F. stream_frame t0 base str f" and len: "unat base + length str < 2 ^ 32"
    and "in_sync w0 cs es s t0 base str N [] w" and "n \<le> N"
  shows "in_sync w0 cs es s t0 base str (N - n) rd w'"
  using assms(1,5)
proof (induction rule: history.induct)
  case start
  then show ?case using assms(4) by simp
next
  case (arrives n rd w' f tv w'')
  then have "in_sync w0 cs es s t0 base str (Suc (N - Suc n)) rd w'" by (simp add: Suc_diff_Suc)
  moreover have "stream_frame t0 base str f" using F arrives.hyps(2) by blast
  ultimately show ?case using stream_frame_in [OF _ len, of w0 cs es s t0 _ rd w' f tv] arrives.hyps(3) by fastforce
next
  case (reads n rd w' env k m d w'')
  then have "in_sync w0 cs es s t0 base str (N - (n + length env) + length env) rd w'" by simp
  then show ?case by (rule read_sync [OF reads.hyps(3,2) F len])
qed

text \<open>
  C5.  TCP over an unreliable network: one stack writes to an established connection, and of the frames
  this puts on the wire any may be lost, repeated and reordered on the way to the other stack.
  Whatever arrives there and whenever the application reads, nothing fails, and what it has read is
  the beginning of what was written.
\<close>

theorem tcp_stream_integrity:
  assumes snd: "can_send w1 s1 t1" "tsk_state t1 = TCP_ESTABLISHED" "arp_get_hwaddr (w_net w1) gateway = Some mac"
      "0 < tsk_smss t1" "tsk_smss t1 \<le> 1460"
    and rcv: "receiving w2 cs es s2 N t2" "rx_items t2 = []"
    and conn: "peers (net_dev (w_net w1)) t1 t2" "snd_nxt (tsk_tcb t1) = rcv_nxt (tsk_tcb t2)"
    and len: "length buf < 2 ^ 31" "unat (rcv_nxt (tsk_tcb t2)) + length buf < 2 ^ 32"
  shows "\<exists>w1' frames. tcp_write s1 buf (word_of_nat (length buf)) w1 = Some (int (length buf), w1') \<and>
    net_tx (w_net w1') = net_tx (w_net w1) @ frames \<and>
    (\<forall>n rd w2'. history (set frames) s2 w2 n rd w2' \<and> n < N \<longrightarrow>
       prefix rd buf \<and> (\<forall>tv. \<forall>f\<in>set frames. netdev_rx_loop_step tv f w2' \<noteq> None))"
proof -
  obtain w1' frames where o: "tcp_write s1 buf (word_of_nat (length buf)) w1 = Some (int (length buf), w1')"
    "net_tx (w_net w1') = net_tx (w_net w1) @ frames" "\<forall>f\<in>set frames. stream_frame t2 (rcv_nxt (tsk_tcb t2)) buf f"
    using tcp_write_frames [OF snd len(1) conn] by blast
  have start: "in_sync w2 cs es s2 t2 (rcv_nxt (tsk_tcb t2)) buf N [] w2"
    unfolding in_sync_def using rcv by (intro exI [of _ t2] exI [of _ 0]) (auto simp: receiving_connected rx_stream_def)
  have "prefix rd buf \<and> (\<forall>tv. \<forall>f\<in>set frames. netdev_rx_loop_step tv f w2' \<noteq> None)"
    if "history (set frames) s2 w2 n rd w2'" "n < N" for n rd w2'
  proof -
    have "in_sync w2 cs es s2 t2 (rcv_nxt (tsk_tcb t2)) buf (N - n) rd w2'"
      using history_sync [OF that(1) o(3) len(2) start] that(2) by simp
    moreover have "N - n = Suc (N - Suc n)" using that(2) by simp
    ultimately show ?thesis using in_sync_prefix stream_frame_in [OF _ len(2)] o(3) by fastforce
  qed
  with o(1,2) show ?thesis by blast
qed

end
