(* ===== verification/Retransmission.thy ===== *)
theory Retransmission
  imports Tcp_Stream Stack
begin

text \<open>
  What the write queue keeps for retransmission.  \<open>tcp_transmit_skb\<close> labels a packet with the range that
  begins at \<open>snd_una\<close>, whatever sequence number it is sent with, and \<open>tcp_clean_retransmission_queue\<close>
  goes by these labels.  An acknowledgment therefore removes packets that it does not cover.
\<close>

section \<open>A pure acknowledgment\<close>

definition pure_ack :: "tcp_sock \<Rightarrow> tcphdr \<Rightarrow> bool" where
  "pure_ack tsk th \<longleftrightarrow> th_ack th \<and> \<not> th_syn th \<and> \<not> th_fin th \<and> th_seq th = rcv_nxt (tsk_tcb tsk) \<and>
     snd_una (tsk_tcb tsk) < th_ack_seq th \<and> th_ack_seq th \<le> snd_nxt (tsk_tcb tsk) \<and>
     rcv_nxt (tsk_tcb tsk) \<le> rcv_nxt (tsk_tcb tsk) + rcv_wnd (tsk_tcb tsk)"

definition acked :: "tcphdr \<Rightarrow> sk_buff_head \<Rightarrow> tcp_sock \<Rightarrow> tcp_sock" where
  "acked th q tsk = (on_sk (\<lambda>sk. sk\<lparr>sk_write_queue := q\<rparr>) (on_tcb (\<lambda>tcb. tcb\<lparr>snd_una := th_ack_seq th\<rparr>) tsk))
     \<lparr>tsk_retransmit := (if q_items q = [] then None else tsk_retransmit tsk)\<rparr>"

lemma tcp_process_pure_ack:
  assumes c: "can_send w s tsk" "tsk_state tsk = TCP_ESTABLISHED" "queue_inv (sk_write_queue (tsk_sk tsk))"
    and th: "pure_ack tsk th" and skb: "skb_dlen skb = 0"
  shows "\<exists>q ts. tcp_process s th skb w = Some (Rc 0, free_skb skb, put_tsk s (acked th q tsk) (w\<lparr>w_timers := ts\<rparr>)) \<and>
    timers_live ts (acked th q tsk) \<and> queue_inv q \<and>
    q_items q = dropWhile (\<lambda>x. skb_end_seq x \<le> th_ack_seq th) (q_items (sk_write_queue (tsk_sk tsk)))"
proof -
  have t: "w_tcp w s = Some tsk" using c(1) by (simp add: can_send_def)
  let ?t = "on_tcb (\<lambda>tcb. tcb\<lparr>snd_una := th_ack_seq th\<rparr>) tsk"
  have c': "can_send (put_tsk s ?t w) s ?t"
    using c(1) by (intro can_send_put [OF c(1)]) (auto simp: can_send_def timers_live_def on_tcb_def)
  have q: "queue_inv (sk_write_queue (tsk_sk ?t))" using c(3) by simp
  obtain q rt ts where k: "tcp_clean_retransmission_queue s (th_ack_seq th) (put_tsk s ?t w) =
      Some (put_tsk s ((on_sk (\<lambda>sk. sk\<lparr>sk_write_queue := q\<rparr>) ?t)\<lparr>tsk_retransmit := rt\<rparr>) ((put_tsk s ?t w)\<lparr>w_timers := ts\<rparr>))"
    "queue_inv q" "q_items q = dropWhile (\<lambda>x. skb_end_seq x \<le> th_ack_seq th) (q_items (sk_write_queue (tsk_sk ?t)))"
    "rt = (if q_items q = [] then None else tsk_retransmit ?t)"
    "timers_live ts ((on_sk (\<lambda>sk. sk\<lparr>sk_write_queue := q\<rparr>) ?t)\<lparr>tsk_retransmit := rt\<rparr>)"
    using tcp_clean_ok [OF c' q, of "th_ack_seq th"] by blast
  have a: "(on_sk (\<lambda>sk. sk\<lparr>sk_write_queue := q\<rparr>) ?t)\<lparr>tsk_retransmit := rt\<rparr> = acked th q tsk"
    unfolding k(4) acked_def by (simp add: on_tcb_def)
  have u: "tcp_clean_retransmission_queue s (th_ack_seq th) (put_tsk s ?t w) =
      Some (put_tsk s (acked th q tsk) (w\<lparr>w_timers := ts\<rparr>))" "queue_inv q" "timers_live ts (acked th q tsk)"
    "q_items q = dropWhile (\<lambda>x. skb_end_seq x \<le> th_ack_seq th) (q_items (sk_write_queue (tsk_sk tsk)))"
    using k unfolding a by (simp_all add: put_tsk_def)
  let ?w = "put_tsk s (acked th q tsk) (w\<lparr>w_timers := ts\<rparr>)"
  have "tcp_process_ack s th w = Some (True, ?w)"
    using t c(2) th u(1) by (simp add: tcp_process_ack_def pure_ack_def Let_def upd_tsk_def acked_def not_less)
  moreover have "tcp_process_text s th skb ?w = Some (skb, ?w)" "tcp_process_fin s th skb ?w = Some ?w"
    using skb th by (simp_all add: tcp_process_text_def tcp_process_fin_def pure_ack_def)
  moreover have "tcp_packet_filter tsk th skb" using skb th by (simp add: tcp_packet_filter_def pure_ack_def Let_def not_less)
  ultimately have "tcp_process s th skb w = Some (Rc 0, free_skb skb, ?w)"
    using t c(2) th by (simp add: tcp_process_def tcp_process_syn_def pure_ack_def)
  then show ?thesis using u(2-4) by blast
qed

section \<open>What a write leaves of the socket\<close>

definition written :: "nat \<Rightarrow> sk_buff_head \<Rightarrow> tid option \<Rightarrow> tcp_sock \<Rightarrow> tcp_sock" where
  "written n q rt tsk = on_tcb (\<lambda>tcb. tcb\<lparr>snd_nxt := snd_nxt tcb + word_of_nat n\<rparr>)
     (on_sk (\<lambda>sk. sk\<lparr>sk_write_queue := q\<rparr>) (tsk\<lparr>tsk_retransmit := rt\<rparr>))"

lemma written_simps [simp]:
  "tsk_state (written n q rt tsk) = tsk_state tsk" "sk_write_queue (tsk_sk (written n q rt tsk)) = q"
  "tsk_tcb (written n q rt tsk) = (tsk_tcb tsk)\<lparr>snd_nxt := snd_nxt (tsk_tcb tsk) + word_of_nat n\<rparr>"
  "tsk_smss (written n q rt tsk) = tsk_smss tsk" "tsk_retransmit (written n q rt tsk) = rt"
  "same_ends tsk (written n q rt tsk)"
  by (simp_all add: written_def same_ends_def on_tcb_def on_sk_def)

lemma queued_written: "skb_dlen skb = word_of_nat n \<Longrightarrow> queued tsk rt skb = written n (queue_push (sk_write_queue (tsk_sk tsk)) skb) rt tsk"
  by (simp add: queued_def written_def on_tcb_def on_sk_def)

lemma written_0: "written 0 (sk_write_queue (tsk_sk tsk)) (tsk_retransmit tsk) tsk = tsk"
  by (simp add: written_def on_tcb_def on_sk_def)

lemma written_written: "written n q rt (written m q' rt' tsk) = written (m + n) q rt tsk"
  by (simp add: written_def on_tcb_def on_sk_def add.assoc)

lemma tcp_send_loop_written:
  assumes "can_send w s tsk" and "arp_get_hwaddr (w_net w) gateway = Some mac" and "0 < m" and "m \<le> 65000"
    and "queue_inv (sk_write_queue (tsk_sk tsk))" and "length (q_items (sk_write_queue (tsk_sk tsk))) + length buf < 2 ^ 32"
  shows "\<exists>w' q rt. tcp_send_loop s buf (int (length buf)) (int m) w = Some w' \<and>
    w_tcp w' s = Some (written (length buf) q rt tsk) \<and> queue_inv q"
  using assms
proof (induction m buf arbitrary: w tsk rule: chunks.induct)
  case (1 m buf)
  have t: "w_tcp w s = Some tsk" using "1.prems"(1) by (simp add: can_send_def)
  show ?case
  proof (cases "buf = []")
    case True
    then have "tcp_send_loop s buf (int (length buf)) (int m) w = Some w" by (subst tcp_send_loop.simps) simp
    then show ?thesis using True t "1.prems"(5) written_0 [of tsk]
      by (intro exI [of _ w] exI [of _ "sk_write_queue (tsk_sk tsk)"] exI [of _ "tsk_retransmit tsk"]) simp
  next
    case False
    obtain rt skb ts pkt where r: "tcp_send_loop s buf (int (length buf)) (int m) w =
        tcp_send_loop s (drop m buf) (int (length (drop m buf))) (int m) (put_tsk s (queued tsk rt skb) (w\<lparr>w_net :=
          tun_write (eth_frame mac (nd_hwaddr (net_dev (w_net w))) ETH_P_IP pkt) (w_net w), w_timers := ts\<rparr>))"
      "timers_live ts (queued tsk rt skb)" "skb_dlen skb = word_of_nat (length (take m buf))"
      using tcp_send_round [OF "1.prems"(1,2) False "1.prems"(3,4)] by blast
    let ?q = "queue_push (sk_write_queue (tsk_sk tsk)) skb"
    let ?w = "put_tsk s (queued tsk rt skb) (w\<lparr>w_net :=
          tun_write (eth_frame mac (nd_hwaddr (net_dev (w_net w))) ETH_P_IP pkt) (w_net w), w_timers := ts\<rparr>)"
    note w = queued_written [OF r(3), of tsk rt]
    have cs: "can_send ?w s (queued tsk rt skb)" using "1.prems"(1) r(2) by (simp add: can_send_def)
    have len: "length (take m buf) + length (drop m buf) = length buf" by simp
    have "1 \<le> length (take m buf)" using False "1.prems"(3) by (cases buf) auto
    then have room: "length (q_items (sk_write_queue (tsk_sk tsk))) + 1 + length (drop m buf) < 2 ^ 32"
      using "1.prems"(6) len by linarith
    have q: "queue_inv ?q" "length (q_items ?q) = length (q_items (sk_write_queue (tsk_sk tsk))) + 1"
      using queue_inv_tail [OF "1.prems"(5)] room by (auto simp: queue_push_def)
    have "\<exists>w' q rt'. tcp_send_loop s (drop m buf) (int (length (drop m buf))) (int m) ?w = Some w' \<and>
      w_tcp w' s = Some (written (length (drop m buf)) q rt' (queued tsk rt skb)) \<and> queue_inv q"
      using False "1.prems" cs q room unfolding w by (intro "1.IH") auto
    then show ?thesis
      using r(1) unfolding w written_written len by auto
  qed
qed

lemma tcp_write_loop:
  assumes "w_tcp w s = Some tsk" and "tsk_state tsk = TCP_ESTABLISHED" and "length buf < 2 ^ 31"
  shows "tcp_write s buf (word_of_nat (length buf)) w =
    map_option (Pair (int (length buf))) (tcp_send_loop s buf (int (length buf)) (int (unat (tsk_smss tsk))) w)"
proof -
  have "sint (word_of_nat (length buf) :: u32) = int (length buf)"
    using assms(3) by (simp add: sint_small unsigned_of_nat take_bit_nat_eq_self)
  then show ?thesis
    using assms(1,2) by (cases "tcp_send_loop s buf (int (length buf)) (int (unat (tsk_smss tsk))) w")
      (simp_all add: tcp_write_def tcp_send_def)
qed

section \<open>Acknowledging the first of several segments\<close>

text \<open>
  C7.  Data that is forgotten: a write of more than one segment is acknowledged up to the end of its
  first segment.  Then nothing is left to retransmit and no timer runs, although the rest of the
  data is not acknowledged: if it was lost, it never arrives.
\<close>

theorem partial_ack_forgets:
  assumes c: "can_send w s tsk" "tsk_state tsk = TCP_ESTABLISHED" "arp_get_hwaddr (w_net w) gateway = Some mac"
      "0 < tsk_smss tsk" "tsk_smss tsk \<le> 1460" "sk_write_queue (tsk_sk tsk) = skb_queue_init"
    and buf: "unat (tsk_smss tsk) < length buf" "length buf < 2 ^ 31" "unat (snd_una (tsk_tcb tsk)) + length buf < 2 ^ 32"
    and th: "pure_ack (on_tcb (\<lambda>tcb. tcb\<lparr>snd_nxt := snd_una tcb + word_of_nat (length buf)\<rparr>) tsk) th"
      "th_ack_seq th = snd_una (tsk_tcb tsk) + ucast (tsk_smss tsk)"
    and nxt: "snd_nxt (tsk_tcb tsk) = snd_una (tsk_tcb tsk)" and skb: "skb_dlen skb = 0"
  shows "\<exists>w1 w2 tsk2. tcp_write s buf (word_of_nat (length buf)) w = Some (int (length buf), w1) \<and>
    tcp_process s th skb w1 = Some (Rc 0, free_skb skb, w2) \<and> w_tcp w2 s = Some tsk2 \<and>
    snd_una (tsk_tcb tsk2) < snd_nxt (tsk_tcb tsk2) \<and>
    q_items (sk_write_queue (tsk_sk tsk2)) = [] \<and> tsk_retransmit tsk2 = None"
proof -
  let ?m = "unat (tsk_smss tsk)" and ?una = "snd_una (tsk_tcb tsk)"
  have m: "0 < ?m" "?m \<le> 65000" using c(4,5) by (auto simp: word_less_nat_alt word_le_nat_alt)
  have t: "w_tcp w s = Some tsk" using c(1) by (simp add: can_send_def)
  have q0: "queue_inv (sk_write_queue (tsk_sk tsk))" "length (q_items (sk_write_queue (tsk_sk tsk))) + length buf < 2 ^ 32"
    using c(6) buf(2) by (simp_all add: skb_queue_init_def queue_inv_def)
  obtain w1 q rt where w1: "tcp_send_loop s buf (int (length buf)) (int ?m) w = Some w1"
    "w_tcp w1 s = Some (written (length buf) q rt tsk)" "queue_inv q"
    using tcp_send_loop_written [OF c(1,3) m q0] by blast
  obtain t1 items where s1: "can_send w1 s t1" "q_items (sk_write_queue (tsk_sk t1)) = q_items (sk_write_queue (tsk_sk tsk)) @ items"
    "queue_holds tsk (chunks ?m buf) items"
    using tcp_send_loop_sent [OF c(1,3) m, of buf] w1(1) by auto
  have t1: "t1 = written (length buf) q rt tsk" using s1(1) w1(2) by (simp add: can_send_def)
  have items: "q_items q = items" using s1(2) t1 c(6) by (simp add: skb_queue_init_def)
  have lt: "?una < th_ack_seq th" "th_ack_seq th < ?una + word_of_nat (length buf)"
  proof -
    have "unat (th_ack_seq th) = unat ?una + ?m" "unat (?una + word_of_nat (length buf)) = unat ?una + length buf"
      using th(2) buf(1,3) seq_unat [of ?una "length buf" "length buf"]
      by (simp_all add: unat_word_ariths unsigned_ucast_eq take_bit_nat_eq_self)
    then show "?una < th_ack_seq th" "th_ack_seq th < ?una + word_of_nat (length buf)"
      using m(1) buf(1) by (simp_all add: word_less_nat_alt)
  qed
  have p: "pure_ack t1 th" using th(1) nxt unfolding t1 by (simp add: pure_ack_def)
  have st: "tsk_state t1 = TCP_ESTABLISHED" "queue_inv (sk_write_queue (tsk_sk t1))" using t1 c(2) w1(3) by simp_all
  obtain q2 ts where a: "tcp_process s th skb w1 = Some (Rc 0, free_skb skb, put_tsk s (acked th q2 t1) (w1\<lparr>w_timers := ts\<rparr>))"
    "q_items q2 = dropWhile (\<lambda>x. skb_end_seq x \<le> th_ack_seq th) items"
    using tcp_process_pure_ack [OF s1(1) st p skb] t1 items by auto
  have "skb_end_seq x \<le> th_ack_seq th" if "x \<in> set items" for x
  proof -
    have "map (\<lambda>x. drop 54 (skb_buf x)) items = chunks ?m buf" using s1(3) by (simp add: queue_holds_def)
    then have "drop 54 (skb_buf x) \<in> set (chunks ?m buf)" using that by (metis imageI list.set_map)
    moreover have x: "skb_end_seq x = ?una + skb_dlen x" "unat (skb_dlen x) = length (drop 54 (skb_buf x))"
      using s1(3) that by (auto simp: queue_holds_def)
    ultimately have "unat (skb_dlen x) \<le> ?m" using chunks_bound by metis
    then show ?thesis
      using x(1) th(2) buf(1,3) by (simp add: word_le_nat_alt unat_word_ariths unsigned_ucast_eq take_bit_nat_eq_self)
  qed
  then have "q_items q2 = []" using a(2) by simp
  then show ?thesis
    using tcp_write_loop [OF t c(2) buf(2)] w1(1) a(1) lt(2) nxt t1
    by (intro exI [of _ w1] exI [of _ "put_tsk s (acked th q2 t1) (w1\<lparr>w_timers := ts\<rparr>)"] exI [of _ "acked th q2 t1"])
      (simp add: acked_def)
qed

section \<open>Retransmission under the wrong number\<close>

text \<open>A write that fits one segment.\<close>

lemma tcp_write_one:
  assumes c: "can_send w s tsk" "tsk_state tsk = TCP_ESTABLISHED" "arp_get_hwaddr (w_net w) gateway = Some mac"
      "tsk_smss tsk \<le> 1460" and buf: "buf \<noteq> []" "length buf \<le> unat (tsk_smss tsk)"
  shows "\<exists>rt skb w' pkt sgm. tcp_write s buf (word_of_nat (length buf)) w = Some (int (length buf), w') \<and>
    can_send w' s (written (length buf) (queue_push (sk_write_queue (tsk_sk tsk)) skb) rt tsk) \<and>
    w_net w' = tun_write (eth_frame mac (nd_hwaddr (net_dev (w_net w))) ETH_P_IP pkt) (w_net w) \<and>
    skb_end_seq skb = snd_una (tsk_tcb tsk) + word_of_nat (length buf) \<and> drop 54 (skb_buf skb) = buf \<and>
    resendable 5 skb \<and> skb_buf skb ! 47 = TCP_ACK OR TCP_PSH \<and>
    (skb_queue_empty (sk_write_queue (tsk_sk tsk)) \<longrightarrow> rt \<noteq> None) \<and>
    (\<not> skb_queue_empty (sk_write_queue (tsk_sk tsk)) \<longrightarrow> rt = tsk_retransmit tsk) \<and>
    ip_datagram (net_dev (w_net w)) (sk_daddr (tsk_sk tsk)) IP_TCP sgm pkt \<and>
    tcp_segment tsk (snd_nxt (tsk_tcb tsk)) 5 (TCP_ACK OR TCP_PSH) buf sgm"
proof -
  let ?m = "unat (tsk_smss tsk)"
  have m: "?m \<le> 1460" using c(4) by (simp add: word_le_nat_alt)
  then have m': "0 < ?m" "?m \<le> 65000" using buf by (cases buf; auto)+
  have t: "w_tcp w s = Some tsk" "length buf < 2 ^ 31" using c(1) buf(2) m by (simp_all add: can_send_def)
  have d: "drop ?m buf = []" "take ?m buf = buf" using buf(2) by simp_all
  obtain rt skb ts pkt sgm where r: "tcp_send_loop s buf (int (length buf)) (int ?m) w =
      tcp_send_loop s [] (int (length ([] :: bytes))) (int ?m) (put_tsk s (queued tsk rt skb) (w\<lparr>w_net :=
        tun_write (eth_frame mac (nd_hwaddr (net_dev (w_net w))) ETH_P_IP pkt) (w_net w), w_timers := ts\<rparr>))"
    "timers_live ts (queued tsk rt skb)" "queue_holds tsk [buf] [skb]" "skb_dlen skb = word_of_nat (length buf)"
    "ip_datagram (net_dev (w_net w)) (sk_daddr (tsk_sk tsk)) IP_TCP sgm pkt"
    "tcp_segment tsk (snd_nxt (tsk_tcb tsk)) 5 (TCP_ACK OR TCP_PSH) buf sgm"
    "resendable 5 skb" "skb_buf skb ! 47 = TCP_ACK OR TCP_PSH"
    "skb_queue_empty (sk_write_queue (tsk_sk tsk)) \<longrightarrow> rt \<noteq> None"
    "\<not> skb_queue_empty (sk_write_queue (tsk_sk tsk)) \<longrightarrow> rt = tsk_retransmit tsk"
    using tcp_send_round [OF c(1,3) buf(1) m'] unfolding d if_P [OF HOL.refl] by blast
  let ?w = "put_tsk s (queued tsk rt skb) (w\<lparr>w_net :=
        tun_write (eth_frame mac (nd_hwaddr (net_dev (w_net w))) ETH_P_IP pkt) (w_net w), w_timers := ts\<rparr>)"
  have "tcp_send_loop s buf (int (length buf)) (int ?m) w = Some ?w" using r(1) by (simp add: tcp_send_loop.simps)
  then have "tcp_write s buf (word_of_nat (length buf)) w = Some (int (length buf), ?w)"
    using tcp_write_loop [OF t(1) c(2) t(2)] by simp
  moreover have "can_send ?w s (queued tsk rt skb)" using c(1) r(2) by (simp add: can_send_def)
  moreover have "skb_end_seq skb = snd_una (tsk_tcb tsk) + word_of_nat (length buf)" "drop 54 (skb_buf skb) = buf"
    using r(3,4) by (auto simp: queue_holds_def)
  ultimately show ?thesis
    using r(5-10) unfolding queued_written [OF r(4)]
    by (intro exI [of _ rt] exI [of _ skb] exI [of _ ?w] exI [of _ pkt] exI [of _ sgm]) (simp add: queued_written [OF r(4)])
qed

lemma dropWhile_two: "P a \<Longrightarrow> P b \<Longrightarrow> \<not> P c \<Longrightarrow> dropWhile P [a, b, c] = [c]"
  by simp

text \<open>
  The sender: three writes, the second not longer than the first and the third longer.  When the first
  is acknowledged, the second is forgotten as well; the timeout then sends the third with the number
  of the second.
\<close>

lemma retransmission_misnumbers:
  assumes c: "can_send w s tsk" "tsk_state tsk = TCP_ESTABLISHED" "arp_get_hwaddr (w_net w) gateway = Some mac"
      "tsk_smss tsk \<le> 1460" "sk_write_queue (tsk_sk tsk) = skb_queue_init" "snd_nxt (tsk_tcb tsk) = snd_una (tsk_tcb tsk)"
    and data: "y \<noteq> []" "length y \<le> length x" "length x < length z" "length z \<le> unat (tsk_smss tsk)"
      "unat (snd_una (tsk_tcb tsk)) + length (x @ y @ z) < 2 ^ 32"
    and th: "pure_ack (on_tcb (\<lambda>tcb. tcb\<lparr>snd_nxt := snd_una tcb + word_of_nat (length (x @ y @ z))\<rparr>) tsk) th"
      "th_ack_seq th = snd_una (tsk_tcb tsk) + word_of_nat (length x)" and skb: "skb_dlen skb = 0"
  shows "\<exists>wx wy wz wk wr px py pz pr gx gr tr. tcp_write s x (word_of_nat (length x)) w = Some (int (length x), wx) \<and>
    tcp_write s y (word_of_nat (length y)) wx = Some (int (length y), wy) \<and>
    tcp_write s z (word_of_nat (length z)) wy = Some (int (length z), wz) \<and>
    tcp_process s th skb wz = Some (Rc 0, free_skb skb, wk) \<and> tcp_retransmission_timeout s wk = Some wr \<and>
    net_tx (w_net wr) = net_tx (w_net w) @ map (eth_frame mac (nd_hwaddr (net_dev (w_net w))) ETH_P_IP) [px, py, pz, pr] \<and>
    ip_datagram (net_dev (w_net w)) (sk_daddr (tsk_sk tsk)) IP_TCP gx px \<and>
    tcp_segment tsk (snd_una (tsk_tcb tsk)) 5 (TCP_ACK OR TCP_PSH) x gx \<and>
    ip_datagram (net_dev (w_net w)) (sk_daddr (tsk_sk tsk)) IP_TCP gr pr \<and>
    tcp_segment tr (snd_una (tsk_tcb tsk) + word_of_nat (length x)) 5 (TCP_ACK OR TCP_PSH) z gr \<and>
    same_ends tsk tr \<and> rcv_nxt (tsk_tcb tr) = rcv_nxt (tsk_tcb tsk)"
proof -
  let ?d = "net_dev (w_net w)" and ?una = "snd_una (tsk_tcb tsk)" and ?fr = "eth_frame mac (nd_hwaddr (net_dev (w_net w))) ETH_P_IP"
  have lens: "x \<noteq> []" "z \<noteq> []" "length x \<le> unat (tsk_smss tsk)" "length y \<le> unat (tsk_smss tsk)" using data by auto
  have e0: "skb_queue_empty (sk_write_queue (tsk_sk tsk))" "q_items (sk_write_queue (tsk_sk tsk)) = []"
    "queue_inv (sk_write_queue (tsk_sk tsk))"
    using c(5) by (simp_all add: skb_queue_init_def skb_queue_empty_def skb_queue_len_def queue_inv_def)
  obtain rt kx wx px gx where X: "tcp_write s x (word_of_nat (length x)) w = Some (int (length x), wx)"
    "can_send wx s (written (length x) (queue_push (sk_write_queue (tsk_sk tsk)) kx) rt tsk)"
    "w_net wx = tun_write (?fr px) (w_net w)" "skb_end_seq kx = ?una + word_of_nat (length x)" "rt \<noteq> None"
    "ip_datagram ?d (sk_daddr (tsk_sk tsk)) IP_TCP gx px" "tcp_segment tsk ?una 5 (TCP_ACK OR TCP_PSH) x gx"
    using tcp_write_one [OF c(1-4) lens(1,3)] e0(1) unfolding c(6) by blast
  define q1 where "q1 = queue_push (sk_write_queue (tsk_sk tsk)) kx"
  have q1: "queue_inv q1" "q_items q1 = [kx]" "\<not> skb_queue_empty q1"
    using queue_inv_tail [OF e0(3), of kx] e0(2) by (auto simp: q1_def queue_push_def queue_inv_empty)
  let ?t1 = "written (length x) q1 rt tsk"
  have c1: "can_send wx s ?t1" "tsk_state ?t1 = TCP_ESTABLISHED" "arp_get_hwaddr (w_net wx) gateway = Some mac"
    "tsk_smss ?t1 \<le> 1460" "length y \<le> unat (tsk_smss ?t1)"
    using X(2,3) c(2-4) lens(4) by (simp_all add: q1_def)
  obtain ky wy py where Y: "tcp_write s y (word_of_nat (length y)) wx = Some (int (length y), wy)"
    "can_send wy s (written (length y) (queue_push q1 ky) rt ?t1)"
    "w_net wy = tun_write (?fr py) (w_net wx)" "skb_end_seq ky = ?una + word_of_nat (length y)"
    using tcp_write_one [OF c1(1-4) data(1) c1(5)] q1(3) X(3) by (auto simp: tun_write_def)
  define q2 where "q2 = queue_push q1 ky"
  have q2: "queue_inv q2" "q_items q2 = [kx, ky]" "\<not> skb_queue_empty q2"
    using queue_inv_tail [OF q1(1), of ky] q1(2) by (auto simp: q2_def queue_push_def queue_inv_empty)
  let ?t2 = "written (length x + length y) q2 rt tsk"
  have c2: "can_send wy s ?t2" "tsk_state ?t2 = TCP_ESTABLISHED" "arp_get_hwaddr (w_net wy) gateway = Some mac"
    "tsk_smss ?t2 \<le> 1460" "length z \<le> unat (tsk_smss ?t2)"
    using Y(2,3) c(2,4) c1(3) data(4) by (simp_all add: q2_def written_written)
  obtain kz wz pz where Z: "tcp_write s z (word_of_nat (length z)) wy = Some (int (length z), wz)"
    "can_send wz s (written (length z) (queue_push q2 kz) rt ?t2)"
    "w_net wz = tun_write (?fr pz) (w_net wy)" "skb_end_seq kz = ?una + word_of_nat (length z)"
    "drop 54 (skb_buf kz) = z" "resendable 5 kz" "skb_buf kz ! 47 = TCP_ACK OR TCP_PSH"
    using tcp_write_one [OF c2(1-4) lens(2) c2(5)] q2(3) X(3) Y(3) by (auto simp: tun_write_def)
  define q3 where "q3 = queue_push q2 kz"
  have q3: "queue_inv q3" "q_items q3 = [kx, ky, kz]"
    using queue_inv_tail [OF q2(1), of kz] q2(2) by (auto simp: q3_def queue_push_def)
  let ?t3 = "written (length (x @ y @ z)) q3 rt tsk"
  have c3: "can_send wz s ?t3" using Z(2) by (simp add: q3_def written_written add.assoc)
  have p: "pure_ack ?t3 th" using th(1) c(6) by (simp add: pure_ack_def)
  obtain q4 ts where K: "tcp_process s th skb wz = Some (Rc 0, free_skb skb, put_tsk s (acked th q4 ?t3) (wz\<lparr>w_timers := ts\<rparr>))"
    "timers_live ts (acked th q4 ?t3)" "queue_inv q4" "q_items q4 = dropWhile (\<lambda>k. skb_end_seq k \<le> th_ack_seq th) [kx, ky, kz]"
    using tcp_process_pure_ack [OF c3 _ _ p skb] c(2) q3 by auto
  have u: "unat (?una + word_of_nat n) = unat ?una + n" if "n \<le> length (x @ y @ z)" for n
    using seq_unat [OF data(5) that] .
  have le: "?una + word_of_nat n \<le> th_ack_seq th \<longleftrightarrow> n \<le> length x" if "n \<le> length (x @ y @ z)" for n
    using u [OF that] u [of "length x"] th(2) by (simp add: word_le_nat_alt)
  have q4: "q_items q4 = [kz]"
    unfolding K(4) using X(4) Y(4) Z(4) le [of "length x"] le [of "length y"] le [of "length z"] data(2,3)
    by (intro dropWhile_two) simp_all
  let ?t4 = "acked th q4 ?t3" and ?wk = "put_tsk s (acked th q4 ?t3) (wz\<lparr>w_timers := ts\<rparr>)"
  have t4: "sk_write_queue (tsk_sk ?t4) = q4" "tsk_retransmit ?t4 = rt" "snd_una (tsk_tcb ?t4) = th_ack_seq th"
    "rcv_nxt (tsk_tcb ?t4) = rcv_nxt (tsk_tcb tsk)" "same_ends tsk ?t4" "sk_daddr (tsk_sk ?t4) = sk_daddr (tsk_sk tsk)"
    using q4 by (simp_all add: acked_def same_ends_def written_def on_tcb_def on_sk_def)
  have ck: "can_send ?wk s ?t4" using c3 K(2) t4(1) queue_inv_linked [OF K(3)] by (simp add: can_send_def)
  obtain t xt where t: "rt = Some t" "timer_get (w_timers ?wk) t = Some xt"
    using X(5) K(2) t4(2) by (fastforce simp: timers_live_def)
  have net: "w_net ?wk = w_net wz" "net_dev (w_net wz) = ?d" "arp_get_hwaddr (w_net wz) gateway = Some mac"
    using X(3) Y(3) Z(3) c2(3) by (simp, simp add: tun_write_def, simp)
  have q4': "queue_inv (sk_write_queue (tsk_sk ?t4))" "q_items (sk_write_queue (tsk_sk ?t4)) = [kz]" using t4(1) q4 K(3) by simp_all
  have fl: "\<not> bit (skb_buf kz ! 47) 0" "arp_get_hwaddr (w_net ?wk) gateway = Some mac" "tsk_retransmit ?t4 = Some t"
    using Z(7) net t4(2) t(1) by simp_all
  obtain skb' pr gr wr where R: "tcp_retransmission_timeout s ?wk = Some wr"
    "w_net wr = tun_write (?fr pr) (w_net wz)" "ip_datagram ?d (sk_daddr (tsk_sk tsk)) IP_TCP gr pr"
    "tcp_segment ?t4 (th_ack_seq th) 5 (TCP_ACK OR TCP_PSH) z gr"
    using tcp_retransmission_resends [OF ck fl(2) q4' Z(6) fl(1,3) t(2)] net t4(3,6) Z(5,7) by auto
  have "net_tx (w_net wr) = net_tx (w_net w) @ map ?fr [px, py, pz, pr]"
    using R(2) X(3) Y(3) Z(3) by (simp add: tun_write_def)
  then show ?thesis using X(1,6,7) Y(1) Z(1) K(1) R(1,3,4) t4(4,5) th(2) by metis
qed

text \<open>
  C6.  Corrupted data: an application writes \<open>x\<close>, \<open>y\<close> and \<open>z\<close> to an established connection, the second no
  longer than the first, the third longer, each at most a segment.  The frames of \<open>y\<close> and \<open>z\<close> are
  lost, the acknowledgment of \<open>x\<close> arrives, and the retransmission timer fires.  Then the other stack
  receives \<open>z\<close> right behind \<open>x\<close>, and its application reads \<open>x @ z\<close>.
\<close>

theorem retransmission_corrupts:
  assumes snd: "can_send w1 s1 t1" "tsk_state t1 = TCP_ESTABLISHED" "arp_get_hwaddr (w_net w1) gateway = Some mac"
      "tsk_smss t1 \<le> 1460" "sk_write_queue (tsk_sk t1) = skb_queue_init" "snd_nxt (tsk_tcb t1) = snd_una (tsk_tcb t1)"
    and data: "y \<noteq> []" "length y \<le> length x" "length x < length z" "length z \<le> unat (tsk_smss t1)"
      "unat (snd_una (tsk_tcb t1)) + length (x @ y @ z) + unat (rcv_wnd (tsk_tcb t2)) < 2 ^ 32"
    and ack: "pure_ack (on_tcb (\<lambda>tcb. tcb\<lparr>snd_nxt := snd_una tcb + word_of_nat (length (x @ y @ z))\<rparr>) t1) th"
      "th_ack_seq th = snd_una (tsk_tcb t1) + word_of_nat (length x)" "skb_dlen skb = 0"
    and rcv: "receiving w2 cs es s2 2 t2" "rx_items t2 = []"
    and conn: "peers (net_dev (w_net w1)) t1 t2" "snd_nxt (tsk_tcb t1) = rcv_nxt (tsk_tcb t2)"
      "snd_una (tsk_tcb t2) \<le> rcv_nxt (tsk_tcb t1)" "rcv_nxt (tsk_tcb t1) \<le> snd_nxt (tsk_tcb t2)" "rcv_wnd (tsk_tcb t2) \<noteq> 0"
  shows "\<exists>wx wy wz wk wr fx fy fz fr w2' w2''.
    tcp_write s1 x (word_of_nat (length x)) w1 = Some (int (length x), wx) \<and>
    tcp_write s1 y (word_of_nat (length y)) wx = Some (int (length y), wy) \<and>
    tcp_write s1 z (word_of_nat (length z)) wy = Some (int (length z), wz) \<and>
    tcp_process s1 th skb wz = Some (Rc 0, free_skb skb, wk) \<and> tcp_retransmission_timeout s1 wk = Some wr \<and>
    net_tx (w_net wr) = net_tx (w_net w1) @ [fx, fy, fz, fr] \<and>
    netdev_rx_loop tv [fx, fr] w2 = Some w2' \<and>
    tcp_read s2 (word_of_nat (length (x @ z))) env w2' = Some (Returned (int (length (x @ z)), x @ z), w2'')"
proof -
  let ?d = "net_dev (w_net w1)" and ?una = "snd_una (tsk_tcb t1)" and ?fl = "TCP_ACK OR TCP_PSH :: u8"
  let ?f = "eth_frame mac (nd_hwaddr ?d) ETH_P_IP"
  have len: "unat ?una + length (x @ y @ z) < 2 ^ 32" using data(5) by simp
  obtain wx wy wz wk wr px py pz pr gx gr tr where r:
    "tcp_write s1 x (word_of_nat (length x)) w1 = Some (int (length x), wx)"
    "tcp_write s1 y (word_of_nat (length y)) wx = Some (int (length y), wy)"
    "tcp_write s1 z (word_of_nat (length z)) wy = Some (int (length z), wz)"
    "tcp_process s1 th skb wz = Some (Rc 0, free_skb skb, wk)" "tcp_retransmission_timeout s1 wk = Some wr"
    "net_tx (w_net wr) = net_tx (w_net w1) @ map ?f [px, py, pz, pr]"
    and seg: "ip_datagram ?d (sk_daddr (tsk_sk t1)) IP_TCP gx px" "tcp_segment t1 ?una 5 ?fl x gx"
    "ip_datagram ?d (sk_daddr (tsk_sk t1)) IP_TCP gr pr" "tcp_segment tr (?una + word_of_nat (length x)) 5 ?fl z gr"
    "same_ends t1 tr" "rcv_nxt (tsk_tcb tr) = rcv_nxt (tsk_tcb t1)"
    using retransmission_misnumbers [OF snd data(1-4) len ack] by blast
  have da: "sk_daddr (tsk_sk t1) = 0x0A000104" using conn(1) by (simp add: peers_def)
  note seg' = seg(1,3) [unfolded da]
  have ni: "net_inv (w_net w1)" using snd(1) by (simp add: can_send_def)
  have mac: "length mac = 6" "length (nd_hwaddr ?d) = 6"
    using ni snd(3) net_inv_dev [OF ni] by (auto simp: dev_ok_def net_inv_def intro: arp_get_hwaddr_length)
  have "unat (tsk_smss t1) \<le> 1460" using snd(4) by (simp add: word_le_nat_alt)
  then have fit: "x \<noteq> []" "z \<noteq> []" "length x + 54 \<le> BUFLEN" "length z + 54 \<le> BUFLEN" using data(1-4) by auto
  have fl: "bit ?fl 4" "\<not> bit ?fl 1" "\<not> bit ?fl 0" by simp_all
  have nxt: "?una = rcv_nxt (tsk_tcb t2)" using conn(2) snd(6) by simp
  have wrap: "rcv_nxt (tsk_tcb t2) \<le> rcv_nxt (tsk_tcb t2) + rcv_wnd (tsk_tcb t2)"
    "rcv_nxt (tsk_tcb t2) + word_of_nat (length x) \<le> rcv_nxt (tsk_tcb t2) + word_of_nat (length x) + rcv_wnd (tsk_tcb t2)"
    using data(5) nxt by (simp_all add: word_le_nat_alt unat_word_ariths unsigned_of_nat take_bit_nat_eq_self)
  have r2: "receiving w2 cs es s2 (Suc 1) t2" using rcv(1) by (simp add: numeral_2_eq_2)
  obtain wa ta where A: "netdev_rx_loop_step tv (?f px) w2 = Some wa" "receiving wa cs es s2 (Suc 0) ta" "same_ends t2 ta"
    "rx_stream ta = rx_stream t2 @ x"
    "tsk_tcb ta = (tsk_tcb t2)\<lparr>snd_una := rcv_nxt (tsk_tcb t1), rcv_nxt := rcv_nxt (tsk_tcb t2) + word_of_nat (length x)\<rparr>"
    using tcp_frame_received [OF r2 conn(1) mac seg'(1) seg(2) [unfolded nxt] fit(1,3) fl conn(3-5) wrap(1), of tv] by auto
  have pe: "peers ?d tr ta" using conn(1) seg(5) A(3) by (simp add: peers_def same_ends_def)
  have sr: "tcp_segment tr (rcv_nxt (tsk_tcb ta)) 5 ?fl z gr" using seg(4) A(5) nxt by simp
  have ak: "snd_una (tsk_tcb ta) \<le> rcv_nxt (tsk_tcb tr)" "rcv_nxt (tsk_tcb tr) \<le> snd_nxt (tsk_tcb ta)"
    "rcv_wnd (tsk_tcb ta) \<noteq> 0" "rcv_nxt (tsk_tcb ta) \<le> rcv_nxt (tsk_tcb ta) + rcv_wnd (tsk_tcb ta)"
    using A(5) seg(6) conn(4,5) wrap(2) by simp_all
  obtain wb tb where B: "netdev_rx_loop_step tv (?f pr) wa = Some wb" "receiving wb cs es s2 0 tb" "rx_stream tb = rx_stream ta @ z"
    using tcp_frame_received [OF A(2) pe mac seg'(2) sr fit(2,4) fl ak, of tv] by auto
  have st: "rx_stream tb = x @ z" using A(4) B(3) rcv(2) by (simp add: rx_stream_def)
  have "length (x @ z) < 2 ^ 31" using fit by simp
  moreover then have "unat (word_of_nat (length (x @ z)) :: u32) = length (x @ z)"
    by (simp add: unsigned_of_nat take_bit_nat_eq_self del: of_nat_add length_append)
  ultimately obtain w2'' where "tcp_read s2 (word_of_nat (length (x @ z))) env wb = Some (Returned (int (length (x @ z)), x @ z), w2'')"
    using tcp_read_all [OF B(2), of "word_of_nat (length (x @ z))" env] st by auto
  moreover have "netdev_rx_loop tv [?f px, ?f pr] w2 = Some wb" using A(1) B(1) by simp
  moreover have "net_tx (w_net wr) = net_tx (w_net w1) @ [?f px, ?f py, ?f pz, ?f pr]" using r(6) by simp
  ultimately show ?thesis using r(1-5) by blast
qed

end
