(* ===== verification/Samples.thy ===== *)
theory Samples
  imports Application Handshake Well_Formed Retransmission
begin

text \<open>
  Concrete states of the stack, and the properties of the other theories at work on them: a
  booted stack that has resolved its gateway, with a UDP socket, with an established TCP
  connection, with a listening socket.
\<close>

section \<open>A booted stack that knows its gateway\<close>

definition sample_mac :: bytes where "sample_mac = [2, 0, 0, 0, 0, 1]"

definition sample_net :: net where
  "sample_net = boot_net\<lparr>net_arp := [\<lparr>ae_hwtype = ARP_ETHERNET, ae_sip = gateway, ae_smac = sample_mac,
     ae_state = ARP_RESOLVED\<rparr>]\<rparr>"

definition sample_world :: world where
  "sample_world = (world_boot (\<lambda>n. n) (\<lambda>i. 7000))\<lparr>w_net := sample_net\<rparr>"

lemma sample_net_ok [simp]:
  "net_inv sample_net" "arp_get_hwaddr sample_net gateway = Some sample_mac" "nd_addr (net_dev sample_net) = 0x0A000104"
  "length sample_mac = 6" "dev_ok (net_dev sample_net)"
  by (simp_all add: net_inv_def sample_net_def sample_mac_def arp_inv_def routes_booted_def boot_net_def Let_def
      arp_get_hwaddr_lookup arp_lookup_def dev_ok_def)

lemma sample_world_simps [simp]:
  "w_net sample_world = sample_net" "w_others sample_world = (\<lambda>n. n)" "w_timers sample_world = timers_boot"
  "w_tcp sample_world = Map.empty" "w_udp sample_world = Map.empty" "w_links sample_world = links_boot"
  "w_next sample_world = 1"
  by (simp_all add: sample_world_def world_boot_def)

section \<open>Connections\<close>

text \<open>Socket 3, connected to its own address, in the state and with the numbers given.\<close>

definition sample_tsk :: "tcp_state \<Rightarrow> u16 \<Rightarrow> u16 \<Rightarrow> u32 \<Rightarrow> u32 \<Rightarrow> tcp_sock" where
  "sample_tsk x sport dport sseq rseq =
     on_sk (\<lambda>sk. sk\<lparr>sk_state := x, sk_saddr := 0x0A000104, sk_daddr := 0x0A000104,
         sk_sport := sport, sk_dport := dport\<rparr>)
      (on_tcb (\<lambda>tcb. tcb\<lparr>isn := sseq - 1, snd_una := sseq, snd_nxt := sseq, rcv_nxt := rseq,
         rcv_wnd := tcp_select_initial_window\<rparr>) (on_sk sk_init tcp_sock_zero))"

definition ring3 :: "addr \<Rightarrow> links" where
  "ring3 head = links_boot\<lparr>nxt := (nxt links_boot)(head := 16, 16 := head),
     prv := (prv links_boot)(head := 16, 16 := head)\<rparr>"

definition sample_conn :: "addr \<Rightarrow> tcp_sock \<Rightarrow> world" where
  "sample_conn head tsk = put_tsk 3 tsk (sample_world\<lparr>w_next := 4, w_links := ring3 head\<rparr>)"

lemma sample_conn_simps [simp]:
  "w_net (sample_conn h t) = sample_net" "w_others (sample_conn h t) = (\<lambda>n. n)"
  "w_timers (sample_conn h t) = timers_boot" "w_tcp (sample_conn h t) = [3 \<mapsto> t]" "w_udp (sample_conn h t) = Map.empty"
  "w_links (sample_conn h t) = ring3 h" "w_next (sample_conn h t) = 4"
  by (simp_all add: sample_conn_def)

lemma ring3_tables: "tables (sample_conn ES_HEAD t) [] [3]" "tables (sample_conn CL_HEAD t) [3] []"
  by (simp_all add: tables_def ring_holds_def dlist_def ring3_def links_boot_def link_of_def)

lemma sample_tsk_simps [simp]:
  "tsk_state (sample_tsk x sp dp ss rs) = x" "sk_saddr (tsk_sk (sample_tsk x sp dp ss rs)) = 0x0A000104"
  "sk_daddr (tsk_sk (sample_tsk x sp dp ss rs)) = 0x0A000104" "sk_sport (tsk_sk (sample_tsk x sp dp ss rs)) = sp"
  "sk_dport (tsk_sk (sample_tsk x sp dp ss rs)) = dp"
  "sk_receive_queue (tsk_sk (sample_tsk x sp dp ss rs)) = skb_queue_init"
  "sk_write_queue (tsk_sk (sample_tsk x sp dp ss rs)) = skb_queue_init"
  "tsk_ofo_queue (sample_tsk x sp dp ss rs) = skb_queue_init" "tsk_smss (sample_tsk x sp dp ss rs) = 1460"
  "isn (tsk_tcb (sample_tsk x sp dp ss rs)) = ss - 1" "snd_una (tsk_tcb (sample_tsk x sp dp ss rs)) = ss"
  "snd_nxt (tsk_tcb (sample_tsk x sp dp ss rs)) = ss" "rcv_nxt (tsk_tcb (sample_tsk x sp dp ss rs)) = rs"
  "rcv_wnd (tsk_tcb (sample_tsk x sp dp ss rs)) = 44477" "tsk_parent (sample_tsk x sp dp ss rs) = None"
  by (simp_all add: sample_tsk_def tcp_sock_zero_def sock_zero_def sk_init_def tcp_select_initial_window_def)

lemma skb_queue_init_simps [simp]:
  "q_items skb_queue_init = []" "queue_inv skb_queue_init" "q_linked skb_queue_init"
  by (simp_all add: skb_queue_init_def queue_inv_def)

lemma sample_conn_can_send [simp]: "can_send (sample_conn h (sample_tsk x sp dp ss rs)) 3 (sample_tsk x sp dp ss rs)"
  by (simp add: can_send_def timers_live_def) (simp add: sample_tsk_def tcp_sock_zero_def)

lemma sample_receiving [simp]:
  "n < 2 ^ 32 \<Longrightarrow> receiving (sample_conn ES_HEAD (sample_tsk TCP_ESTABLISHED sp dp ss rs)) [] [3] 3 n
     (sample_tsk TCP_ESTABLISHED sp dp ss rs)"
  by (simp add: receiving_def ring3_tables conn_match_def rx_inv_def ofo_inv_def)

theorem tcp_transfer_witness:
  "\<exists>w1' frames w2' w2''.
    tcp_write 3 [1, 2, 3, 4, 5] 5 (sample_conn ES_HEAD (sample_tsk TCP_ESTABLISHED 80 40001 501 1001)) =
      Some (5, w1') \<and>
    net_tx (w_net w1') = net_tx sample_net @ frames \<and>
    netdev_rx_loop (0, 0) frames (sample_conn ES_HEAD (sample_tsk TCP_ESTABLISHED 40001 80 1001 501)) = Some w2' \<and>
    tcp_read 3 5 [] w2' = Some (Returned (5, [1, 2, 3, 4, 5]), w2'')"
  using tcp_transfer [of "sample_conn ES_HEAD (sample_tsk TCP_ESTABLISHED 80 40001 501 1001)" 3
      "sample_tsk TCP_ESTABLISHED 80 40001 501 1001" sample_mac
      "sample_conn ES_HEAD (sample_tsk TCP_ESTABLISHED 40001 80 1001 501)" "[]" "[3]" 3 "[1, 2, 3, 4, 5]"
      "sample_tsk TCP_ESTABLISHED 40001 80 1001 501" "(0, 0)" "[]"]
  by (simp add: peers_def)

section \<open>Packets\<close>

text \<open>A ping of the host 10.0.1.5: the flag DF is set, the time to live is 63, and the frame is filled up to 60 bytes.\<close>

definition sample_echo :: bytes where
  "sample_echo = [0x45, 0, 0, 0x1C, 0x12, 0x34, 0x40, 0, 0x3F, 1, 0x13, 0xA5, 0x0A, 0, 1, 5, 0x0A, 0, 1, 4,
     8, 0, 0, 0, 0, 7, 0, 1]"

lemma sample_echo_packet: "ip_packet 0x0A000105 0x0A000104 ICMPV4 [8, 0, 0, 0, 0, 7, 0, 1] sample_echo"
  unfolding ip_packet_def sample_echo_def by code_simp

theorem echo_answered_witness:
  "\<exists>pkt' msg. netdev_rx_loop_step (0, 0) (eth_frame sample_mac sample_mac ETH_P_IP (sample_echo @ replicate 18 0)) sample_world =
      Some (sample_world\<lparr>w_net := tun_write (eth_frame sample_mac (nd_hwaddr (net_dev sample_net)) ETH_P_IP pkt')
        sample_net\<rparr>) \<and>
    ip_datagram (net_dev sample_net) 0x0A000105 ICMPV4 msg pkt' \<and> echo_reply_to [8, 0, 0, 0, 0, 7, 0, 1] msg"
  using echo_answered [OF _ _ sample_echo_packet, of sample_mac sample_mac "replicate 18 0" sample_world sample_mac "(0, 0)"]
  by simp

section \<open>UDP\<close>

definition sample_usk :: udp_sock where
  "sample_usk = (sk_init (sock_zero UDP_CONNECTED))\<lparr>sk_daddr := 0x0A000104, sk_sport := 5000, sk_dport := 5000\<rparr>"

definition sample_udp :: world where
  "sample_udp = put_usk 3 sample_usk (sample_world\<lparr>w_next := 4, w_links := ring3 UDP_HEAD, w_udp_amount := 1\<rparr>)"

lemma sample_udp_simps [simp]:
  "w_net sample_udp = sample_net" "w_others sample_udp = (\<lambda>n. n)" "w_udp sample_udp = [3 \<mapsto> sample_usk]"
  "w_links sample_udp = ring3 UDP_HEAD" "w_udp_amount sample_udp = 1"
  "udp_table sample_udp [3]" "sk_daddr sample_usk = 0x0A000104" "sk_sport sample_usk = 5000" "sk_dport sample_usk = 5000"
  "sk_receive_queue sample_usk = skb_queue_init" "udp_bound sample_udp 5000 3"
  by (simp_all add: sample_udp_def put_usk_def sample_usk_def sock_zero_def sk_init_def udp_table_def
      ring_holds_def dlist_def ring3_def links_boot_def link_of_def udp_bound_def)

theorem udp_transfer_witness:
  "\<exists>frame w2'. udp_send 3 [1, 2, 3] 3 sample_udp = Some (Indet, sample_udp\<lparr>w_net := tun_write frame sample_net\<rparr>) \<and>
    udp_recvfrom 3 100 [netdev_rx_loop_step (0, 0) frame] sample_udp =
      Some (Returned \<lparr>rv_rc = 3, rv_bytes = [1, 2, 3],
        rv_from = Some \<lparr>sin_port = htons 5000, sin_addr = htonl 0x0A000104\<rparr>\<rparr>, w2')"
  using udp_transfer [of sample_udp 3 sample_usk sample_mac "[1, 2, 3]" sample_udp "[3]" 3 sample_usk 100 "(0, 0)"]
  by simp

theorem udp_close_witness:
  "\<exists>w'. udp_close 3 sample_udp = Some (0, w') \<and> udp_table w' [] \<and> w_udp w' = (w_udp sample_udp)(3 := None) \<and>
    w_udp_amount w' = 0"
  using udp_close_ok [of sample_udp "[]" 3 "[]"] by simp

theorem udp_bind_witness:
  "\<exists>w'. udp_bind 3 \<lparr>sin_port = 0x5000, sin_addr = 0\<rparr> sample_udp = Some (-1, w') \<and> w_links w' = ring3 UDP_HEAD \<and>
    (w' = sample_udp \<or> w' = put_usk 3 (sample_usk\<lparr>sk_sport := ntohs 0x5000\<rparr>) sample_udp)"
  using udp_bind_fails [of sample_udp "[3]" 3 sample_usk "\<lparr>sin_port = 0x5000, sin_addr = 0\<rparr>"] by simp

definition empty_datagram :: sk_buff where
  "empty_datagram = (alloc_skb 100)\<lparr>skb_payload := 42, skb_dlen := 0\<rparr>"

definition sample_udp_empty :: world where
  "sample_udp_empty = put_usk 3 (sample_usk\<lparr>sk_receive_queue := \<lparr>q_items = [empty_datagram], qlen = 1, q_linked = True\<rparr>\<rparr>) sample_udp"

theorem udp_empty_witness:
  "\<exists>w' sk'. udp_recvfrom 3 100 [] sample_udp_empty = Some (Asleep, w') \<and> w_udp w' 3 = Some sk' \<and>
    q_items (sk_receive_queue sk') = []"
proof -
  have "udp_carries empty_datagram [] \<lparr>sin_port = 0, sin_addr = 0\<rparr>"
    by (simp add: udp_carries_def empty_datagram_def alloc_skb_def get16_def get32_def le16_def le32_def
        bswap16_def bswap32_def hi8_def lo8_def hi16_def lo16_def)
  then show ?thesis
    using udp_empty_swallowed [of sample_udp_empty 3
        "sample_usk\<lparr>sk_receive_queue := \<lparr>q_items = [empty_datagram], qlen = 1, q_linked = True\<rparr>\<rparr>" empty_datagram _ 100]
    by (simp add: sample_udp_empty_def put_usk_def queue_inv_def)
qed

theorem udp_sendto_twice_witness:
  "\<exists>r1 w1 r2 w2 w3. let w = put_usk 3 (sock_zero UDP_UNCONNECTED) sample_world; a = \<lparr>sin_port = 80, sin_addr = 1\<rparr> in
    udp_sendto 3 [1, 2, 3] 3 (Some a) w = Some (r1, w1) \<and> udp_sendto 3 [1, 2, 3] 3 (Some a) w1 = Some (r2, w2) \<and>
    udp_close 3 w2 = Some (0, w3) \<and> (\<forall>port. udp_lookup_sock w3 port = None)"
  using udp_sendto_twice [of "put_usk 3 (sock_zero UDP_UNCONNECTED) sample_world" 3 "sock_zero UDP_UNCONNECTED" 3
      "[1, 2, 3]" "\<lparr>sin_port = 80, sin_addr = 1\<rparr>"]
  by (simp add: put_usk_def links_boot_def link_of_def udp_table_def ring_holds_def dlist_def sock_zero_def
      Let_def)

theorem parse_agrees_witness: "parse_ipv4_string ''10.0.1.4'' = Some 0x0A000104"
  by (rule parse_agrees) (rule ip_parse_stack)

section \<open>Opening connections\<close>

definition sample_hdr :: "u32 \<Rightarrow> u32 \<Rightarrow> u8 \<Rightarrow> tcphdr" where
  "sample_hdr seq ack fl = \<lparr>th_sport = 80, th_dport = 40001, th_seq = seq, th_ack_seq = ack, th_hl = 5,
     th_flags = fl, th_win = 1000\<rparr>"

text \<open>A socket that is not connected.\<close>

definition sample_fresh :: world where
  "sample_fresh = put_tsk 3 (on_sk sk_init tcp_sock_zero) (sample_world\<lparr>w_next := 4\<rparr>)"

lemma sample_fresh_unopened: "unopened sample_fresh [] [] 3 (on_sk sk_init tcp_sock_zero)"
  by (simp add: unopened_def can_send_def timers_live_def tables_def ring_holds_def dlist_def sample_fresh_def
      tcp_sock_zero_def sock_zero_def sk_init_def rx_inv_def ofo_inv_def links_boot_def skb_queue_init_def queue_inv_def)

lemma sample_fresh_simps [simp]:
  "w_net sample_fresh = sample_net" "w_isns sample_fresh i = 7000" "fst (tcp_generate_port sample_fresh) = 40001"
  by (simp_all add: sample_fresh_def sample_world_def world_boot_def tcp_generate_port_def timer_get_tick_def
      timers_boot_def c_rem_def)

text \<open>A listening socket, with its two queues empty.\<close>

definition sample_listen :: world where
  "sample_listen = put_tsk 3 (sample_tsk TCP_LISTEN 40001 0 1 0) (sample_world\<lparr>w_next := 4, w_links := links_boot\<lparr>
     nxt := (nxt links_boot)(CL_HEAD := 16, 16 := CL_HEAD, 18 := 18, 19 := 19),
     prv := (prv links_boot)(CL_HEAD := 16, 16 := CL_HEAD, 18 := 18, 19 := 19)\<rparr>\<rparr>)"

lemma sample_listening: "listening sample_listen [3] [] 3 [] []"
  by (simp add: listening_def sample_listen_def tables_def ring_holds_def dlist_def backlog_def links_boot_def
      link_of_def listen_queue_of_def accept_queue_of_def)

lemma sample_listen_simps [simp]:
  "w_net sample_listen = sample_net" "w_next sample_listen = 4" "w_isns sample_listen i = 7000"
  "w_others sample_listen = (\<lambda>n. n)" "w_timers sample_listen = timers_boot"
  "w_tcp sample_listen = [3 \<mapsto> sample_tsk TCP_LISTEN 40001 0 1 0]"
  by (simp_all add: sample_listen_def sample_world_def world_boot_def)

text \<open>Segments of the peer; that there are such frames is shown by the stack that sends one.\<close>

lemma sample_ctl_frame:
  "\<exists>f. ctl_frame (net_dev sample_net) 0x0A000104 (sample_tsk x sp dp ss rs) seq fl f"
proof -
  let ?w = "sample_conn ES_HEAD (sample_tsk x sp dp ss rs)"
  obtain n where "emits sample_mac (sample_tsk x sp dp ss rs) seq fl sample_net n"
    using tcp_transmit_ctl_sent [of ?w 3 "sample_tsk x sp dp ss rs" sample_mac fl seq] by auto
  then show ?thesis using emits_ctl_frame [of _ _ _ _ sample_net] by fastforce
qed

lemma sample_data_frame: "\<exists>f. data_frame (net_dev sample_net) 80 40001 f"
proof -
  let ?t = "sample_tsk TCP_ESTABLISHED 80 40001 501 1001"
  let ?w = "sample_conn ES_HEAD ?t"
  have "chunks 1460 [1, 2] = [[1, 2]]" by (simp add: chunks.simps)
  then obtain pkts where "on_wire ?t (net_dev sample_net) 501 [[1, 2]] pkts"
    using tcp_send_loop_sent [of ?w 3 ?t sample_mac 1460 "[1, 2]"] by auto
  then obtain pkt sgm fl where "ip_datagram (net_dev sample_net) 0x0A000104 IP_TCP sgm pkt" "tcp_segment ?t 501 5 fl [1, 2] sgm"
    by auto
  then have "data_frame (net_dev sample_net) 80 40001 (eth_frame sample_mac sample_mac ETH_P_IP pkt)"
    unfolding data_frame_def
    by (intro exI [of _ sample_mac] exI [of _ pkt] exI [of _ sgm] exI [of _ ?t] exI [of _ "501 :: u32"]
        exI [of _ fl] exI [of _ "[1, 2] :: bytes"]) simp
  then show ?thesis by blast
qed

theorem accepted_drops_data_witness:
  "\<exists>f1 f2 f w' m. tcp_accept 3 [netdev_rx_loop_step (0, 0) f1, netdev_rx_loop_step (0, 0) f2] sample_listen =
      Some (Returned 4, w') \<and> data_frame (net_dev sample_net) 80 40001 f \<and>
    netdev_rx_loop (0, 0) [f, f] w' = Some (w'\<lparr>w_net := m\<rparr>)"
proof -
  obtain f1 where f1: "ctl_frame (net_dev sample_net) 0x0A000104 (sample_tsk TCP_SYN_SENT 80 40001 500 0) 500 2 f1"
    using sample_ctl_frame by blast
  obtain f2 where f2: "ctl_frame (net_dev sample_net) 0x0A000104 (sample_tsk TCP_ESTABLISHED 80 40001 500 7001) (500 + 1) 0x10 f2"
    using sample_ctl_frame by blast
  obtain f where f: "data_frame (net_dev sample_net) 80 40001 f" using sample_data_frame by blast
  obtain w' where a: "tcp_accept 3 [netdev_rx_loop_step (0, 0) f1, netdev_rx_loop_step (0, 0) f2] sample_listen = Some (Returned 4, w')"
    "\<And>fs. \<forall>f\<in>set fs. data_frame (net_dev sample_net) 80 40001 f \<Longrightarrow> \<exists>m. netdev_rx_loop (0, 0) fs w' = Some (w'\<lparr>w_net := m\<rparr>)"
    using accepted_drops_data [OF sample_listening _ _ _ _ _ _ f1 _ _ _ f2, of "sample_tsk TCP_LISTEN 40001 0 1 0" sample_mac "(0, 0)"]
    by (auto simp: same_ends_def local_match_def)
  obtain m where "netdev_rx_loop (0, 0) [f, f] w' = Some (w'\<lparr>w_net := m\<rparr>)" using a(2) [of "[f, f]"] f by auto
  with a(1) f show ?thesis by blast
qed

end
