(* ===== verification/Sample_Runs.thy ===== *)
theory Sample_Runs
  imports Samples
begin

text \<open>
  More concrete runs: the handshake at the listening side, timers, the resolver, the sockets of
  the stack and the library of the applications.
\<close>

section \<open>Lists, timers and the link layer\<close>

theorem dlist_free_all_witness: "\<exists>h'. list_free_all (ring3 ES_HEAD) ES_HEAD = Some ([16], h') \<and> dlist h' ES_HEAD []"
  using dlist_free_all [of "ring3 ES_HEAD" ES_HEAD "[16]"] by (simp add: dlist_def ring3_def links_boot_def)

theorem timer_due_after_witness:
  "\<exists>x. timer_get (snd (timer_add 500 Retransmission_timeout 3 timers_boot)) 1 = Some x \<and>
     (timer_due 501 x \<longleftrightarrow> 500 < (501 :: nat))"
  using timer_due_after [of timers_boot 500 Retransmission_timeout 3 1
      "snd (timer_add 500 Retransmission_timeout 3 timers_boot)" 501 501]
  by (simp add: timers_inv_def timers_boot_def timer_add_def)

definition sample_arp :: arp_pkt where
  "sample_arp = \<lparr>ap_hwtype = 1, ap_protype = 0x0800, ap_hwsize = 6, ap_prosize = 4, ap_opcode = 1,
     ap_smac = [2, 0, 0, 0, 0, 1], ap_sip = 0x0A000105, ap_dmac = [0, 0, 0, 0, 0, 0], ap_dip = 0x0A000104\<rparr>"

text \<open>The request \<open>sample_arp\<close> as it arrives: its sender is known afterwards, and it is answered.\<close>

definition sample_arp_skb :: sk_buff where
  "sample_arp_skb = (alloc_skb 60)\<lparr>skb_buf := replicate 14 0 @ arp_encode sample_arp @ replicate 18 0\<rparr>"

theorem arp_rcv_refines_witness:
  "\<exists>fate n'. arp_rcv sample_arp_skb sample_net = Some (fate, n') \<and>
    arp_get_hwaddr n' 0x0A000105 = Some [2, 0, 0, 0, 0, 1] \<and>
    net_tx n' = net_tx sample_net @ [eth_frame [2, 0, 0, 0, 0, 1] (nd_hwaddr (net_dev sample_net)) ETH_P_ARP
      (arp_encode (arp_reply_msg (net_dev sample_net) sample_arp))]"
proof -
  have view: "sample_arp = arp_view (skb_buf sample_arp_skb) 14"
    by code_simp
  have inv: "arp_inv (net_arp sample_net)" using sample_net_ok by (simp add: net_inv_def)
  have "nd_addr (net_dev sample_net) = 0x0A000104" by code_simp
  then show ?thesis
    using arp_rcv_refines [OF _ _ _ _ _ view inv]
    by (auto simp: sample_arp_skb_def alloc_skb_def arp_encode_def arp_table_after_def arp_answers_def sample_arp_def)
qed

text \<open>A stack that knows nobody asks one with another address.\<close>

definition other_world :: world where
  "other_world = (world_boot (\<lambda>n. n) (\<lambda>i. 0))\<lparr>w_net := boot_net\<lparr>net_dev := (net_dev boot_net)\<lparr>
     nd_addr := 0x0A000106, nd_hwaddr := [2, 0, 0, 0, 0, 6]\<rparr>\<rparr>\<rparr>"

theorem arp_resolves_witness:
  "\<exists>request n reply wb wa.
    arp_request 0x0A000104 0x0A000106 (net_dev boot_net) boot_net = Some (Indet, n) \<and> net_tx n = net_tx boot_net @ [request] \<and>
    netdev_rx_loop_step (0, 0) request other_world = Some wb \<and> net_tx (w_net wb) = net_tx (w_net other_world) @ [reply] \<and>
    arp_get_hwaddr (w_net wb) 0x0A000104 = Some (nd_hwaddr (net_dev boot_net)) \<and>
    netdev_rx_loop_step (0, 0) reply ((world_boot (\<lambda>n. n) (\<lambda>i. 0))\<lparr>w_net := n\<rparr>) = Some wa \<and>
    arp_get_hwaddr (w_net wa) 0x0A000106 = Some [2, 0, 0, 0, 0, 6]"
proof -
  let ?a = "world_boot (\<lambda>n. n) (\<lambda>i. 0)" and ?db = "net_dev (w_net other_world)"
  have da: "dev_ok (net_dev boot_net)" "arp_inv (net_arp boot_net)" "nd_addr (net_dev boot_net) = 0x0A000104"
    by (simp_all add: arp_inv_def boot_net_def Let_def dev_ok_def)
  have db: "dev_ok ?db" "arp_inv (net_arp (w_net other_world))" "nd_addr ?db = 0x0A000106" "nd_hwaddr ?db = [2, 0, 0, 0, 0, 6]"
    using da by (simp_all add: other_world_def dev_ok_def)
  have wa: "w_net ?a = boot_net" by (simp add: world_boot_def)
  show ?thesis
    using arp_resolves [OF da(1) wa [THEN arg_cong, symmetric] _ db(1) refl db(2), of "(0, 0)"]
    unfolding da(3) db(3,4) wa using da(2) by simp
qed

theorem ip_output_unresolved_witness:
  "\<exists>skb'. ip_output (\<lambda>n. n) 0x08080808 ((alloc_skb 60)\<lparr>skb_data := 34, skb_len := 26\<rparr>) boot_net =
    Some (Rc (-1), skb', boot_net\<lparr>net_tx := net_tx boot_net @ replicate 3
      (eth_frame broadcast_hw (nd_hwaddr (net_dev boot_net)) ETH_P_ARP
        (arp_encode (arp_request_msg (net_dev boot_net) (nd_addr (net_dev boot_net)) gateway)))\<rparr>)"
proof -
  have "net_inv boot_net" "arp_get_hwaddr boot_net gateway = None"
    by (simp_all add: net_inv_def arp_inv_def boot_net_def Let_def arp_get_hwaddr_lookup arp_lookup_def dev_ok_def
        routes_booted_def)
  then show ?thesis
    using ip_output_unresolved [of boot_net "(alloc_skb 60)\<lparr>skb_data := 34, skb_len := 26\<rparr>" "0x08080808"]
    by (simp add: out_ready_def alloc_skb_def)
qed

definition long_echo :: sk_buff where
  "long_echo = (alloc_skb 60)\<lparr>skb_buf := (replicate 60 0)[14 := 0x45, 17 := 0x10]\<rparr>"

theorem icmp_overrun_witness: "icmpv4_reply (\<lambda>n. n) long_echo sample_net = None"
proof -
  have "length (skb_buf long_echo) <
      34 + unat (get16 (skb_buf long_echo) 16 - ucast (lo_nibble (skb_buf long_echo ! 14)) * 4)"
    unfolding long_echo_def by code_simp
  then show ?thesis
    by (rule icmp_overrun) (simp add: long_echo_def alloc_skb_def)
qed

section \<open>Loss and retransmission\<close>

text \<open>A frame that arrives, and that would be taken a second time.\<close>

theorem tcp_stream_integrity_witness:
  "\<exists>w1 f w2. tcp_write 3 [1, 2, 3, 4, 5] 5 (sample_conn ES_HEAD (sample_tsk TCP_ESTABLISHED 80 40001 501 1001)) = Some (5, w1) \<and>
    net_tx (w_net w1) = net_tx sample_net @ [f] \<and>
    history {f} 3 (sample_conn ES_HEAD (sample_tsk TCP_ESTABLISHED 40001 80 1001 501)) 1 [] w2 \<and>
    netdev_rx_loop_step (0, 0) f w2 \<noteq> None"
proof -
  let ?t1 = "sample_tsk TCP_ESTABLISHED 80 40001 501 1001" and ?t2 = "sample_tsk TCP_ESTABLISHED 40001 80 1001 501"
  let ?w1 = "sample_conn ES_HEAD ?t1" and ?w2 = "sample_conn ES_HEAD ?t2" and ?buf = "[1, 2, 3, 4, 5] :: bytes"
  obtain w1 pkt where o: "tcp_write 3 ?buf 5 ?w1 = Some (5, w1)"
    "w_net w1 = tun_write (eth_frame sample_mac (nd_hwaddr (net_dev sample_net)) ETH_P_IP pkt) sample_net"
    using tcp_write_one [of ?w1 3 ?t1 sample_mac ?buf] by auto
  obtain w1' frames where i: "tcp_write 3 ?buf 5 ?w1 = Some (5, w1')" "net_tx (w_net w1') = net_tx sample_net @ frames"
    "\<And>n rd w2'. history (set frames) 3 ?w2 n rd w2' \<Longrightarrow> n < 10 \<Longrightarrow>
       (\<forall>tv. \<forall>f\<in>set frames. netdev_rx_loop_step tv f w2' \<noteq> None)"
    using tcp_stream_integrity [of ?w1 3 ?t1 sample_mac ?w2 "[]" "[3]" 3 10 ?t2 ?buf] by (auto simp: peers_def)
  obtain f where f: "frames = [f]" using o i(1,2) by (auto simp: tun_write_def)
  have "netdev_rx_loop_step (0, 0) f ?w2 \<noteq> None" using i(3) [OF history.start] f by simp
  then obtain w2 where "netdev_rx_loop_step (0, 0) f ?w2 = Some w2" by blast
  then have h: "history {f} 3 ?w2 1 [] w2" using history.arrives [OF history.start, of f "{f}"] by simp
  then have "netdev_rx_loop_step (0, 0) f w2 \<noteq> None" using i(3) [of 1 "[]" w2] f by simp
  then show ?thesis using i(1,2) f h by blast
qed

lemma sample_pure_ack:
  "1 < a \<Longrightarrow> a \<le> n \<Longrightarrow> n < 100000 \<Longrightarrow> pure_ack (on_tcb (\<lambda>tcb. tcb\<lparr>snd_nxt := snd_una tcb + word_of_nat n\<rparr>)
     (sample_tsk TCP_ESTABLISHED 80 40001 501 1001)) (sample_hdr 1001 (501 + word_of_nat a) 0x10)"
  by (simp add: pure_ack_def sample_hdr_def th_ack_def th_syn_def th_fin_def word_less_nat_alt word_le_nat_alt
      unat_word_ariths unsigned_of_nat take_bit_nat_eq_self)

theorem partial_ack_forgets_witness:
  "\<exists>w1 w2 tsk2. tcp_write 3 (replicate 2000 7) 2000 (sample_conn ES_HEAD (sample_tsk TCP_ESTABLISHED 80 40001 501 1001)) =
      Some (2000, w1) \<and>
    tcp_process 3 (sample_hdr 1001 1961 0x10) (alloc_skb 60) w1 = Some (Rc 0, free_skb (alloc_skb 60), w2) \<and>
    w_tcp w2 3 = Some tsk2 \<and> snd_una (tsk_tcb tsk2) < snd_nxt (tsk_tcb tsk2) \<and>
    q_items (sk_write_queue (tsk_sk tsk2)) = [] \<and> tsk_retransmit tsk2 = None"
  using partial_ack_forgets [of "sample_conn ES_HEAD (sample_tsk TCP_ESTABLISHED 80 40001 501 1001)" 3
      "sample_tsk TCP_ESTABLISHED 80 40001 501 1001" sample_mac "replicate 2000 7" "sample_hdr 1001 1961 0x10" "alloc_skb 60"]
    sample_pure_ack [of 1460 2000]
  by (simp add: sample_hdr_def alloc_skb_def)

theorem retransmission_corrupts_witness:
  "\<exists>wx wy wz wk wr fx fy fz fr w2' w2''.
    tcp_write 3 [1, 2, 3] 3 (sample_conn ES_HEAD (sample_tsk TCP_ESTABLISHED 80 40001 501 1001)) = Some (3, wx) \<and>
    tcp_write 3 [4, 5] 2 wx = Some (2, wy) \<and> tcp_write 3 [6, 7, 8, 9] 4 wy = Some (4, wz) \<and>
    tcp_process 3 (sample_hdr 1001 504 0x10) (alloc_skb 60) wz = Some (Rc 0, free_skb (alloc_skb 60), wk) \<and>
    tcp_retransmission_timeout 3 wk = Some wr \<and>
    net_tx (w_net wr) = net_tx sample_net @ [fx, fy, fz, fr] \<and>
    netdev_rx_loop (0, 0) [fx, fr] (sample_conn ES_HEAD (sample_tsk TCP_ESTABLISHED 40001 80 1001 501)) = Some w2' \<and>
    tcp_read 3 7 [] w2' = Some (Returned (7, [1, 2, 3, 6, 7, 8, 9]), w2'')"
  using retransmission_corrupts [of "sample_conn ES_HEAD (sample_tsk TCP_ESTABLISHED 80 40001 501 1001)" 3
      "sample_tsk TCP_ESTABLISHED 80 40001 501 1001" sample_mac "[4, 5]" "[1, 2, 3]" "[6, 7, 8, 9]"
      "sample_tsk TCP_ESTABLISHED 40001 80 1001 501" "sample_hdr 1001 504 0x10" "alloc_skb 60"
      "sample_conn ES_HEAD (sample_tsk TCP_ESTABLISHED 40001 80 1001 501)" "[]" "[3]" 3 "(0, 0)" "[]"]
    sample_pure_ack [of 3 9]
  by (simp add: sample_hdr_def alloc_skb_def peers_def)

section \<open>Runs of the whole stack\<close>



definition sample_timer :: timer where
  "sample_timer = \<lparr>tm_refcnt = 1, tm_expires = 500, tm_cancelled = False, tm_handler = Retransmission_timeout, tm_arg = 3\<rparr>"

text \<open>An established connection with one segment of two bytes that was not acknowledged.\<close>

definition unacked :: sk_buff where
  "unacked = (alloc_skb 56)\<lparr>skb_buf := (replicate 56 0)[46 := 0x50, 47 := 0x18], skb_dlen := 2, skb_protocol := 6\<rparr>"

definition sample_unacked :: tcp_sock where
  "sample_unacked = on_sk (\<lambda>sk. sk\<lparr>sk_write_queue := \<lparr>q_items = [unacked], qlen = 1, q_linked = True\<rparr>\<rparr>)
     ((sample_tsk TCP_ESTABLISHED 80 40001 501 1001)\<lparr>tsk_retransmit := Some 1\<rparr>)"

definition sample_late :: world where
  "sample_late = (sample_conn ES_HEAD sample_unacked)\<lparr>w_timers := \<lparr>tms = [(1, sample_timer)], tick = 501, next_tid = 2\<rparr>\<rparr>"

lemma sample_late_simps [simp]:
  "w_tcp sample_late = [3 \<mapsto> sample_unacked]" "w_net sample_late = sample_net" "w_others sample_late = (\<lambda>n. n)"
  "w_timers sample_late = \<lparr>tms = [(1, sample_timer)], tick = 501, next_tid = 2\<rparr>"
  "sk_write_queue (tsk_sk sample_unacked) = \<lparr>q_items = [unacked], qlen = 1, q_linked = True\<rparr>" "tsk_retransmit sample_unacked = Some 1"
  by (simp_all add: sample_late_def sample_unacked_def)

lemma sample_late_can_send: "can_send sample_late 3 sample_unacked"
  by (simp add: can_send_def timers_live_def timers_inv_def sample_timer_def timer_get_def)
    (simp add: sample_unacked_def sample_tsk_def tcp_sock_zero_def)

lemma unacked_resendable: "resendable 5 unacked" "\<not> bit (skb_buf unacked ! 47) 0"
  by (simp_all add: resendable_def unacked_def alloc_skb_def hi_nibble_def)

theorem retransmission_timer_fires_witness:
  "\<exists>w' pkt. timer_visit (\<lambda>_. False) 1 sample_late = Some w' \<and>
    net_tx (w_net w') = net_tx sample_net @ [eth_frame sample_mac (nd_hwaddr (net_dev sample_net)) ETH_P_IP pkt]"
proof -
  have "\<exists>w' pkt sgm tsk' t'. timer_visit (\<lambda>_. False) 1 sample_late = Some w' \<and>
    net_tx (w_net w') = net_tx (w_net sample_late) @
      [eth_frame sample_mac (nd_hwaddr (net_dev (w_net sample_late))) ETH_P_IP pkt] \<and>
    ip_datagram (net_dev (w_net sample_late)) (sk_daddr (tsk_sk sample_unacked)) IP_TCP sgm pkt \<and>
    tcp_segment sample_unacked (snd_una (tsk_tcb sample_unacked)) 5 (skb_buf unacked ! 47) (drop 54 (skb_buf unacked)) sgm \<and>
    w_tcp w' 3 = Some tsk' \<and> tsk_retransmit tsk' = Some t' \<and> t' \<noteq> 1 \<and> timer_get (w_timers w') 1 = None \<and>
    timer_get (w_timers w') t' = Some \<lparr>tm_refcnt = 1, tm_expires = tick (w_timers sample_late) + 500,
      tm_cancelled = False, tm_handler = Retransmission_timeout, tm_arg = 3\<rparr>"
    by (rule retransmission_timer_fires [OF sample_late_can_send _ _ _ unacked_resendable, where x = sample_timer])
      (simp_all add: queue_inv_def timer_get_def sample_timer_def timer_due_def)
  then show ?thesis by auto
qed

section \<open>Sockets\<close>

theorem so_socket_other_domain_witness: "so_socket 77 1 SOCK_STREAM 0 sample_world = None"
  by (rule so_socket_other_domain) simp

theorem so_unknown_fd_witness:
  "so_write 77 5 [1] 1 (world_boot (\<lambda>n. n) (\<lambda>i. 0)) = Some (Rc (-1), world_boot (\<lambda>n. n) (\<lambda>i. 0))"
  using so_unknown_fd [OF so_table_boot, of "\<lambda>n. n" "\<lambda>i. 0" 77 5 _ _ "[1]" 1] by simp

text \<open>Socket 5 of process 77, descriptor 4097, in front of the connection \<open>tsk\<close>, which is number 3.\<close>

definition sample_app :: "addr \<Rightarrow> tcp_sock \<Rightarrow> world" where
  "sample_app head tsk = (sample_conn head tsk)\<lparr>w_next := 6, w_fd := 4098,
     w_sockets := [5 \<mapsto> \<lparr>so_fd = 4097, so_pid = 77, so_type = Some 1, so_flags = 0, so_sk = Sk 3, so_ops = True\<rparr>],
     w_links := (ring3 head)\<lparr>nxt := (nxt (ring3 head))(SO_HEAD := 24, 24 := SO_HEAD),
        prv := (prv (ring3 head))(SO_HEAD := 24, 24 := SO_HEAD)\<rparr>\<rparr>"

lemma sample_app_simps [simp]:
  "w_tcp (sample_app h t) = [3 \<mapsto> t]" "w_udp (sample_app h t) = Map.empty" "w_net (sample_app h t) = sample_net"
  "w_others (sample_app h t) = (\<lambda>n. n)" "w_timers (sample_app h t) = timers_boot"
  "w_sockets (sample_app h t) = [5 \<mapsto> \<lparr>so_fd = 4097, so_pid = 77, so_type = Some 1, so_flags = 0, so_sk = Sk 3, so_ops = True\<rparr>]"
  "sk_of 5 (sample_app h t) = Some 3" "ops_of 3 (sample_app h t) = Some Tcp_ops"
  by (simp_all add: sample_app_def sk_of_def ops_of_def)

lemma sample_app_table: "so_table (sample_app ES_HEAD t) [5]" "so_table (sample_app CL_HEAD t) [5]"
  by (simp_all add: so_table_def ring_holds_def dlist_def sample_app_def ring3_def links_boot_def link_of_def)

lemma sample_app_socket:
  "get_socket (sample_app ES_HEAD t) 77 4097 = Some (Some 5)" "get_socket (sample_app CL_HEAD t) 77 4097 = Some (Some 5)"
  by (simp add: get_socket_table [OF sample_app_table(1)] so_match_def)
    (subst get_socket_table [OF sample_app_table(2)], simp add: so_match_def)

lemma sample_app_can_send: "can_send (sample_app ES_HEAD (sample_tsk x sp dp ss rs)) 3 (sample_tsk x sp dp ss rs)"
  by (simp add: can_send_def timers_live_def) (simp add: sample_tsk_def tcp_sock_zero_def)

lemma sample_tsk_unlocked [simp]:
  "\<not> sk_lock (tsk_sk (sample_tsk x sp dp ss rs))" "sk_err (tsk_sk (sample_tsk x sp dp ss rs)) = 0"
  by (simp_all add: sample_tsk_def tcp_sock_zero_def sock_zero_def sk_init_def)

theorem so_close_uses_freed_witness:
  "\<exists>w1 w2 w3. inet_close 5 (sample_app ES_HEAD (sample_tsk TCP_ESTABLISHED 80 40001 501 1001)) = Some (0, w1) \<and>
    socket_sockets_remove 5 w1 = Some w2 \<and> inet_free 5 w2 = Some (0, w3) \<and> sk_of 5 w3 = Some 3 \<and> w_tcp w3 3 = None \<and>
    so_close 77 4097 (sample_app ES_HEAD (sample_tsk TCP_ESTABLISHED 80 40001 501 1001)) = None"
  using so_close_uses_freed [OF sample_app_table(1) sample_app_socket(1) _ _ _ _ sample_app_can_send
      [where x = TCP_ESTABLISHED and sp = 80 and dp = 40001 and ss = 501 and rs = 1001]]
  by fastforce

text \<open>A socket that listens, in front of the socket 5 of process 77.\<close>

definition sample_listener :: tcp_sock where
  "sample_listener = on_sk (\<lambda>sk. sk\<lparr>sk_socket := Some 5\<rparr>) (sample_tsk TCP_LISTEN 80 0 1 0)"

theorem so_close_listening_hangs_witness:
  "so_close 77 4097 (sample_app CL_HEAD sample_listener) = None \<and>
   (\<exists>w t. w_tcp w 3 = Some t \<and> sk_lock (tsk_sk t) \<and> tcp_free_sock 3 w = None \<and>
     tcp_free_sock 3 (put_tsk 3 (on_sk (\<lambda>sk. sk\<lparr>sk_lock := False\<rparr>) t) w) \<noteq> None)"
proof -
  have t: "tables (sample_app CL_HEAD sample_listener) [3] []"
    by (simp add: tables_def ring_holds_def dlist_def ring3_def links_boot_def link_of_def sample_app_def)
  have "timers_live timers_boot sample_listener"
    by (simp add: timers_live_def) (simp add: sample_listener_def sample_tsk_def tcp_sock_zero_def)
  then show ?thesis
    using so_close_listening_hangs [OF sample_app_socket(2) _ _ _ _ _ _ _ _ t, of _ 3 sample_listener]
    by (auto simp: sample_listener_def)
qed

section \<open>The library\<close>

definition sample_ctx :: ipc_ctx where
  "sample_ctx = \<lparr>ie_sockfd = 6, ie_junk = (\<lambda>_. 0), ie_reg = 0, ie_more = None, ie_env = []\<rparr>"

definition cmd_buf :: bytes where
  "cmd_buf = replicate 4096 0"

lemma length_cmd_buf [simp]: "length cmd_buf = 4096"
  by (simp add: cmd_buf_def)

lemma is_int_small [simp]: "is_int 4097" "is_int 5" "is_int (-1)"
  by (simp_all add: is_int_def)

lemma sint_77 [simp]: "sint (77 :: u32) = 77"
  by simp

text \<open>The application writes to and reads from an established connection.\<close>

abbreviation sample_est :: tcp_sock where "sample_est \<equiv> sample_tsk TCP_ESTABLISHED 80 40001 501 1001"
abbreviation sample_peer :: tcp_sock where "sample_peer \<equiv> sample_tsk TCP_ESTABLISHED 40001 80 1001 501"

lemma sample_app_receiving: "receiving (sample_app ES_HEAD sample_peer) [] [3] 3 3 sample_peer"
proof -
  have "tables (sample_app ES_HEAD sample_peer) [] [3]"
    by (simp add: tables_def ring_holds_def dlist_def ring3_def links_boot_def link_of_def sample_app_def)
  then show ?thesis
    by (simp add: receiving_def sample_app_can_send conn_match_def rx_inv_def ofo_inv_def)
qed

lemma sample_app_front: "tcp_front (sample_app ES_HEAD t) 77 4097 3"
  by (simp add: tcp_front_def sample_app_socket(1))

theorem application_transfer_witness:
  "\<exists>b1' w1' frames w2' b2' w2''.
    lvl_write (ipc_chan sample_ctx) 77 4097 [1, 2, 3] 3 [Lvlip 4097 6] (cmd_buf, sample_app ES_HEAD sample_est) =
      Some ((3, None), (b1', w1')) \<and>
    net_tx (w_net w1') = net_tx sample_net @ frames \<and>
    netdev_rx_loop (0, 0) frames (sample_app ES_HEAD sample_peer) = Some w2' \<and>
    lvl_read (ipc_chan sample_ctx) 77 4097 3 [Lvlip 4097 6] (cmd_buf, w2') =
      Some (\<lparr>lr_rc = 3, lr_errno = None, lr_buf = [1, 2, 3], lr_addr = None\<rparr>, (b2', w2''))"
  using application_transfer [of "sample_app ES_HEAD sample_est" 3 sample_est sample_mac
      "sample_app ES_HEAD sample_peer" "[]" "[3]" 3 "[1, 2, 3]" sample_peer
      4097 "[Lvlip 4097 6]" "Lvlip 4097 6" 77 cmd_buf 4097 "[Lvlip 4097 6]" "Lvlip 4097 6" 77 cmd_buf
      sample_ctx "(0, 0)" sample_ctx]
    sample_app_can_send sample_app_receiving sample_app_front
  by (simp add: peers_def numeral_3_eq_3)

lemma sample_app_written:
  obtains w1' where "so_write 77 4097 [1, 2, 3] 3 (sample_app ES_HEAD sample_est) = Some (Rc 3, w1')"
proof -
  obtain w1' where "tcp_write 3 [1, 2, 3] 3 (sample_app ES_HEAD sample_est) = Some (3, w1')"
    using tcp_transfer_ok [of "sample_app ES_HEAD sample_est" 3 sample_est sample_mac
        "sample_app ES_HEAD sample_peer" "[]" "[3]" 3 "[1, 2, 3]" sample_peer "(0, 0)" "[]"]
      sample_app_can_send sample_app_receiving
    by (auto simp: peers_def numeral_3_eq_3)
  then have "so_write 77 4097 [1, 2, 3] 3 (sample_app ES_HEAD sample_est) = Some (Rc 3, w1')"
    by (intro so_write_tcp [OF sample_app_front]) simp
  then show ?thesis ..
qed

theorem lvl_write_reaches_stack_witness:
  "\<exists>b' w'. length b' = 4096 \<and> lvl_write (ipc_chan sample_ctx) 77 4097 [1, 2, 3] 3 [Lvlip 4097 6]
     (cmd_buf, sample_app ES_HEAD sample_est) = Some ((3, None), (b', w'))"
proof -
  obtain w' where "so_write 77 4097 [1, 2, 3] 3 (sample_app ES_HEAD sample_est) = Some (Rc 3, w')"
    by (rule sample_app_written)
  then show ?thesis
    using lvl_write_reaches_stack [of 4097 "[Lvlip 4097 6]" "Lvlip 4097 6" 3 "[1, 2, 3]" cmd_buf 77
        "sample_app ES_HEAD sample_est" 3 w' sample_ctx]
    by (auto simp: errno_of_def is_int_def)
qed

theorem lvl_read_reaches_stack_witness:
  "\<exists>b' w'. lvl_read (ipc_chan sample_ctx) 77 4097 0 [Lvlip 4097 6] (cmd_buf, sample_app ES_HEAD sample_est) =
    Some (\<lparr>lr_rc = 0, lr_errno = None, lr_buf = [], lr_addr = None\<rparr>, (b', w'))"
proof -
  have "so_read 77 4097 0 [] (sample_app ES_HEAD sample_est) = tcp_read 3 0 [] (sample_app ES_HEAD sample_est)"
    by (rule so_read_tcp [OF sample_app_front]) simp
  moreover have "tcp_read 3 0 [] (sample_app ES_HEAD sample_est) = Some (Returned (0, []), sample_app ES_HEAD sample_est)"
    by (simp add: tcp_read_def tcp_receive_def tcp_receive_loop.simps read_value_def)
  ultimately show ?thesis
    using lvl_read_reaches_stack [of 4097 "[Lvlip 4097 6]" "Lvlip 4097 6" cmd_buf 77 0 sample_ctx
        "sample_app ES_HEAD sample_est" "[]" "sample_app ES_HEAD sample_est"]
    by (auto simp: sample_ctx_def)
qed

theorem lvl_write_overreads_witness:
  "lvl_write (ipc_chan sample_ctx) 77 5 (replicate 4079 0) 4079 [Lvlip 5 6] (cmd_buf, sample_app ES_HEAD sample_est) = None"
  by (rule lvl_write_overreads [where k = "Lvlip 5 6"]) simp_all

lemma so_read_unknown: "so_read 77 5 n es (sample_app ES_HEAD t) = Some (Returned (-1, []), sample_app ES_HEAD t)"
  by (simp add: so_read_def get_socket_table [OF sample_app_table(1)] so_match_def)

theorem lvl_read_failure_overruns_witness:
  "lvl_read (ipc_chan sample_ctx) 77 5 10 [Lvlip 5 6] (cmd_buf, sample_app ES_HEAD sample_est) = None"
  by (rule lvl_read_failure_overruns [where k = "Lvlip 5 6" and rlen = "-1"]) (simp_all add: so_read_unknown)

end
