(* ===== verification/Boot.thy ===== *)
theory Boot
  imports Well_Formed Ipc
begin

text \<open>
  The program around the stack: \<open>main.c\<close>, the set-up of the tap device (\<open>tuntap.c\<close>, with \<open>run_cmd\<close> of
  \<open>utils.c\<close>) and the listener for the applications (\<open>start_ipc_listener\<close> of \<open>ipc.c\<close>).

  The operating system is a parameter: the record \<open>os\<close> holds what its calls return.  The calls
  themselves are recorded in order, so that theorems can say what was asked of the system.
\<close>

section \<open>The operating system\<close>

datatype os_call =
    Open string
  | Tunsetiff int u16 string
  | Ioctl int ioctl_request
  | Close int
  | System string
  | Inet_socket
  | Unix_socket
  | Unlink string
  | Bind int string
  | Listen int int
  | Connect int string
and ioctl_request = SIOCSIFADDR u32 | SIOCGIFFLAGS | SIOCSIFFLAGS u16 | SIOCSIFNETMASK u32

datatype thread = THREAD_CORE | THREAD_TIMERS | THREAD_IPC | THREAD_SIGNAL

text \<open>
  What the calls return: \<open>os_tunsetiff\<close> also what the kernel leaves in \<open>ifr_name\<close>, \<open>os_flags\<close> the flags
  it reports, \<open>os_frames fd\<close> the frames that reads of \<open>fd\<close> return before one fails.
\<close>

record os =
  os_open :: "string \<Rightarrow> int"
  os_tunsetiff :: "int \<Rightarrow> u16 \<Rightarrow> string \<Rightarrow> int \<times> string"
  os_ioctl :: "int \<Rightarrow> ioctl_request \<Rightarrow> int"
  os_flags :: u16
  os_system :: "string \<Rightarrow> int"
  os_socket :: int
  os_bind :: int
  os_listen :: int
  os_connect :: int
  os_close :: "int \<Rightarrow> int"
  os_pthread_create :: "thread \<Rightarrow> int"
  os_frames :: "int \<Rightarrow> bytes list"

text \<open>The process: the calls it has made, and the variables of \<open>tuntap.c\<close>.\<close>

record proc =
  p_calls :: "os_call list"
  p_tun_fd :: int
  p_dev :: string

definition proc_boot :: proc where
  "proc_boot = \<lparr>p_calls = [], p_tun_fd = 0, p_dev = []\<rparr>"

definition call :: "os_call \<Rightarrow> proc \<Rightarrow> proc" where
  "call c p = p\<lparr>p_calls := p_calls p @ [c]\<rparr>"

text \<open>A function that may call \<open>exit\<close>.\<close>

datatype 'a ended = Exit int | Value 'a

section \<open>Commands\<close>

text \<open>\<open>vsnprintf\<close> with formats that have no conversion but \<open>%s\<close>; a missing argument is not defined.\<close>

fun vformat :: "string \<Rightarrow> string list \<Rightarrow> string option" where
  "vformat [] as = Some []"
| "vformat [c] as = Some [c]"
| "vformat (c # d # fs) as =
     (if c = CHR ''%'' \<and> d = CHR ''s''
      then (case as of [] \<Rightarrow> None | a # as' \<Rightarrow> map_option (append a) (vformat fs as'))
      else map_option (Cons c) (vformat (d # fs) as))"

abbreviation CMDBUFLEN :: nat where "CMDBUFLEN \<equiv> 100"

definition run_cmd :: "os \<Rightarrow> string \<Rightarrow> string list \<Rightarrow> proc \<Rightarrow> (int \<times> proc) option" where
  "run_cmd os cmd args p = do {
     s \<leftarrow> vformat cmd args;
     let buf = take (CMDBUFLEN - 1) s;
     Some (os_system os buf, call (System buf) p)
   }"

section \<open>The tap device\<close>

definition set_if_route :: "os \<Rightarrow> string \<Rightarrow> string \<Rightarrow> proc \<Rightarrow> (int \<times> proc) option" where
  "set_if_route os dev cidr p = run_cmd os ''ip route add %s dev %s'' [cidr, dev] p"

definition set_if_address :: "os \<Rightarrow> string \<Rightarrow> string \<Rightarrow> proc \<Rightarrow> (int \<times> proc) option" where
  "set_if_address os dev cidr p = run_cmd os ''ip address add dev %s local 10.0.1.5/24'' [dev, cidr] p"

definition set_if_up :: "os \<Rightarrow> string \<Rightarrow> proc \<Rightarrow> (int \<times> proc) option" where
  "set_if_up os dev p = run_cmd os ''ip link set dev %s up'' [dev] p"

abbreviation IFNAMSIZ :: nat where "IFNAMSIZ \<equiv> 16"
abbreviation IFF_TAP :: u16 where "IFF_TAP \<equiv> 0x0002"
abbreviation IFF_NO_PI :: u16 where "IFF_NO_PI \<equiv> 0x1000"
abbreviation IFF_UP :: u16 where "IFF_UP \<equiv> 1"

text \<open>
  \<open>set_stack_attribute\<close>, an alternative to \<open>set_if_up\<close> and \<open>set_if_address\<close>: each request only after the
  one before it succeeded, and the socket is closed in any case.
\<close>

definition if_request :: "os \<Rightarrow> int \<Rightarrow> ioctl_request \<Rightarrow> int \<times> proc \<Rightarrow> int \<times> proc" where
  "if_request os fd req s =
     (if fst s < 0 then s else (os_ioctl os fd req, call (Ioctl fd req) (snd s)))"

definition set_stack_attribute :: "os \<Rightarrow> string \<Rightarrow> proc \<Rightarrow> int \<times> proc" where
  "set_stack_attribute os dev p =
     (let p = call Inet_socket p; sockfd = os_socket os in
      if sockfd < 0 then (-1, p)
      else
        let s = (if_request os sockfd (SIOCSIFNETMASK 0xFFFFFF00) o
             if_request os sockfd (SIOCSIFFLAGS (os_flags os OR IFF_UP)) o
             if_request os sockfd SIOCGIFFLAGS o
             if_request os sockfd (SIOCSIFADDR 0x0A000105)) (0, p)
        in (fst s, call (Close sockfd) (snd s)))"

text \<open>\<open>dev\<close> points to ten bytes; \<open>strcpy\<close> writes beyond them when the name is longer than nine.\<close>

abbreviation DEVLEN :: nat where "DEVLEN \<equiv> 10"

definition tun_alloc :: "os \<Rightarrow> proc \<Rightarrow> (int ended \<times> proc) option" where
  "tun_alloc os p =
     (let fd = os_open os ''/dev/net/tap''; p = call (Open ''/dev/net/tap'') p in
      if fd < 0 then Some (Exit 1, p)
      else
        let flags = IFF_TAP OR IFF_NO_PI; name = take IFNAMSIZ (p_dev p);
            (err, name') = os_tunsetiff os fd flags name;
            p = call (Tunsetiff fd flags name) p
        in if err < 0 then Some (Value err, call (Close fd) p)
           else if length name' < DEVLEN then Some (Value fd, p\<lparr>p_dev := name'\<rparr>) else None)"

definition tun_init :: "os \<Rightarrow> proc \<Rightarrow> (unit ended \<times> proc) option" where
  "tun_init os p = do {
     let p = p\<lparr>p_dev := []\<rparr>;
     (r, p) \<leftarrow> tun_alloc os p;
     (case r of
        Exit c \<Rightarrow> Some (Exit c, p)
      | Value fd \<Rightarrow> do {
          let p = p\<lparr>p_tun_fd := fd\<rparr>;
          (e, p) \<leftarrow> set_if_up os (p_dev p) p;
          (e, p) \<leftarrow> set_if_address os (p_dev p) tapaddr p;
          Some (Value (), p)
        })
   }"

text \<open>\<open>tun_read\<close>, until it fails.\<close>

definition tun_read :: "os \<Rightarrow> proc \<Rightarrow> bytes list" where
  "tun_read os p = map (take BUFLEN) (os_frames os (p_tun_fd p))"

section \<open>Start\<close>

definition init_stack :: "os \<Rightarrow> others \<Rightarrow> (nat \<Rightarrow> u32) \<Rightarrow> proc \<Rightarrow> (world ended \<times> proc) option" where
  "init_stack os oth isns p = do {
     (r, p) \<leftarrow> tun_init os p;
     (case r of
        Exit c \<Rightarrow> Some (Exit c, p)
      | Value _ \<Rightarrow> do {
          n \<leftarrow> netdev_init;
          n \<leftarrow> route_init n;
          Some (Value ((world_boot oth isns)\<lparr>w_net := n\<rparr>), p)
        })
   }"

definition create_thread :: "os \<Rightarrow> thread \<Rightarrow> thread list \<Rightarrow> thread list" where
  "create_thread os t ts = (if os_pthread_create os t \<noteq> 0 then ts else ts @ [t])"

definition run_threads :: "os \<Rightarrow> thread list" where
  "run_threads os = create_thread os THREAD_TIMERS (create_thread os THREAD_IPC [])"

text \<open>
  The end of \<open>main\<close>: which threads run, and the state after the receive loop, which ends when a read
  fails.  The steps of the other threads in between are not part of \<open>main\<close>.
\<close>

definition main ::
    "os \<Rightarrow> others \<Rightarrow> (nat \<Rightarrow> u32) \<Rightarrow> clock \<Rightarrow> ((thread list \<times> world) ended \<times> proc) option" where
  "main os oth isns tv = do {
     (r, p) \<leftarrow> init_stack os oth isns proc_boot;
     (case r of
        Exit c \<Rightarrow> Some (Exit c, p)
      | Value w \<Rightarrow> do {
          let ts = run_threads os;
          w \<leftarrow> netdev_rx_loop tv (tun_read os p) w;
          Some (Value (ts, w), p)
        })
   }"

text \<open>
  The signals, which \<open>main\<close> leaves alone: \<open>init_signals\<close> yields the mask, given the result of
  \<open>pthread_sigmask\<close>, and the signal thread runs over what \<open>sigwait\<close> returns.
\<close>

abbreviation SIGINT :: int where "SIGINT \<equiv> 2"
abbreviation SIGQUIT :: int where "SIGQUIT \<equiv> 3"

definition init_signals :: "int \<Rightarrow> int list ended" where
  "init_signals err = (if err \<noteq> 0 then Exit 1 else Value [SIGINT, SIGQUIT])"

fun stop_stack_handler :: "int list \<Rightarrow> bool \<times> thread list" where
  "stop_stack_handler [] = (True, [])"
| "stop_stack_handler (signo # rest) =
     (if signo = SIGINT \<or> signo = SIGQUIT then (False, [THREAD_IPC, THREAD_TIMERS])
      else stop_stack_handler rest)"

section \<open>The listener for applications\<close>

text \<open>
  \<open>start_ipc_listener\<close> up to its loop: the descriptor it listens on.  \<open>sun_path\<close> has 108 bytes.
\<close>

definition sockname :: string where
  "sockname = ''/tmp/lvlip.socket''"

definition ipc_listen_fd :: "os \<Rightarrow> proc \<Rightarrow> int ended \<times> proc" where
  "ipc_listen_fd os p =
     (let p = call (Unlink sockname) p in
      if 108 \<le> length sockname then (Exit (-1), p)
      else
        let fd = os_socket os; p = call Unix_socket p in
        if fd < 0 then (Exit 1, p)
        else
          let p = call (Bind fd sockname) p in
          if os_bind os = -1 then (Exit 1, p)
          else
            let p = call (Listen fd 20) p in
            if os_listen os = -1 then (Exit 1, p) else (Value fd, p))"

text \<open>
  The loop and the threads it starts.  Each thread is handed the address of the one variable
  \<open>datasock\<close> and copies its descriptor from there when it first runs; \<open>ln_started\<close> counts the threads
  that have not got so far, \<open>ln_serving\<close> lists the descriptors the others serve.
\<close>

record listener =
  ln_datasock :: "int option"
  ln_conns :: ipc_conns
  ln_started :: nat
  ln_serving :: "int list"

definition listener_boot :: listener where
  "listener_boot = \<lparr>ln_datasock = None, ln_conns = \<lparr>ic_socks = [], ic_count = 0\<rparr>, ln_started = 0, ln_serving = []\<rparr>"

text \<open>One round of the loop: what \<open>accept\<close> and \<open>pthread_create\<close> return.\<close>

definition listener_accept :: "int \<Rightarrow> int \<Rightarrow> listener \<Rightarrow> listener ended" where
  "listener_accept datasock created l =
     (let l = l\<lparr>ln_datasock := Some datasock\<rparr> in
      if datasock = -1 then Exit 1
      else
        let l = l\<lparr>ln_conns := ipc_alloc_thread datasock (ln_conns l)\<rparr> in
        if created \<noteq> 0 then Exit 1 else Value (l\<lparr>ln_started := ln_started l + 1\<rparr>))"

text \<open>The first step of \<open>socket_ipc_open\<close> in a new thread.\<close>

definition listener_thread :: "listener \<Rightarrow> listener option" where
  "listener_thread l = do {
     d \<leftarrow> ln_datasock l;
     (if ln_started l = 0 then None
      else Some (l\<lparr>ln_started := ln_started l - 1, ln_serving := ln_serving l @ [d]\<rparr>))
   }"

text \<open>Everything that can happen to the listener, one step of it or of a new thread at a time.\<close>

inductive listener_step :: "listener \<Rightarrow> int list \<Rightarrow> listener \<Rightarrow> bool" where
  accepts: "datasock \<noteq> -1 \<Longrightarrow> listener_accept datasock 0 l = Value l' \<Longrightarrow> listener_step l [datasock] l'"
| begins: "listener_thread l = Some l' \<Longrightarrow> listener_step l [] l'"

text \<open>A run with the clients it accepts, in order.\<close>

inductive listener_run :: "listener \<Rightarrow> int list \<Rightarrow> listener \<Rightarrow> bool" where
  none: "listener_run l [] l"
| step: "listener_run l ds l' \<Longrightarrow> listener_step l' es l'' \<Longrightarrow> listener_run l (ds @ es) l''"

section \<open>The application's end\<close>

text \<open>
  \<open>init_socket\<close> of \<open>liblevelip.c\<close>, in the process of an application.  \<open>strcpy\<close> into \<open>sun_path\<close> is not
  guarded there as it is in the listener.
\<close>

definition init_socket :: "os \<Rightarrow> string \<Rightarrow> proc \<Rightarrow> (int ended \<times> proc) option" where
  "init_socket os path p =
     (let data_socket = os_socket os; p = call Unix_socket p in
      if data_socket = -1 then Some (Exit 1, p)
      else if 108 \<le> length path then None
      else
        let p = call (Connect data_socket path) p in
        if os_connect os = -1 then Some (Exit 1, p) else Some (Value data_socket, p))"

text \<open>\<open>free_socket\<close> of the library, which no call of it uses: connections to the stack are never closed.\<close>

definition free_lvl_socket :: "os \<Rightarrow> int \<Rightarrow> proc \<Rightarrow> int \<times> proc" where
  "free_lvl_socket os lvlfd p = (os_close os lvlfd, call (Close lvlfd) p)"

text \<open>
  The library asks for the path the listener is bound to, so that no call of \<open>init_socket\<close> overruns
  its buffer; it returns the connected descriptor, or ends the application with code 1.
\<close>

lemma init_socket_outcome:
  "\<exists>r p'. init_socket os sockname p = Some (r, p') \<and>
     r = (if os_socket os = -1 \<or> os_connect os = -1 then Exit 1 else Value (os_socket os)) \<and>
     (os_socket os \<noteq> -1 \<longrightarrow> p_calls p' = p_calls p @ [Unix_socket, Connect (os_socket os) sockname])"
  by (simp add: init_socket_def sockname_def call_def Let_def)

section \<open>What the start does\<close>

definition link_up_cmd :: "string \<Rightarrow> string" where
  "link_up_cmd d = ''ip link set dev '' @ d @ '' up''"

definition address_cmd :: "string \<Rightarrow> string" where
  "address_cmd d = ''ip address add dev '' @ d @ '' local 10.0.1.5/24''"

text \<open>A command is cut off at 99 characters; those of the start are shorter.\<close>

lemma run_cmd_set_up:
  assumes "length d < DEVLEN"
  shows "set_if_up os d p = Some (os_system os (link_up_cmd d), call (System (link_up_cmd d)) p)"
    "set_if_address os d c p = Some (os_system os (address_cmd d), call (System (address_cmd d)) p)"
proof -
  have "vformat ''ip link set dev %s up'' [d] = Some (link_up_cmd d)"
    "vformat ''ip address add dev %s local 10.0.1.5/24'' [d, c] = Some (address_cmd d)"
    by (simp_all add: link_up_cmd_def address_cmd_def)
  moreover have "take (CMDBUFLEN - 1) (link_up_cmd d) = link_up_cmd d"
    "take (CMDBUFLEN - 1) (address_cmd d) = address_cmd d"
    using assms by (intro take_all; simp add: link_up_cmd_def address_cmd_def)+
  ultimately show "set_if_up os d p = Some (os_system os (link_up_cmd d), call (System (link_up_cmd d)) p)"
    "set_if_address os d c p = Some (os_system os (address_cmd d), call (System (address_cmd d)) p)"
    by (simp_all only: set_if_up_def set_if_address_def run_cmd_def Let_def bind.bind_lunit)
qed

lemma init_stack_after_tun:
  assumes "tun_init os p = Some (Value (), p')"
  shows "init_stack os oth isns p = Some (Value (world_boot oth isns), p')"
proof -
  obtain n where n: "netdev_init = Some n" using boot_net_eq by (auto elim!: bind_SomeE)
  then have r: "route_init n = Some boot_net" using boot_net_eq unfolding n by simp
  show ?thesis
    unfolding init_stack_def assms n by (simp add: r world_boot_def)
qed

text \<open>
  C22.  Start: when the system opens the device and names it with at most nine characters, \<open>main\<close> brings it
  up, gives it its address by exactly two commands, starts the listener and the timers, and
  receives on the device, from the initial state, every frame the system has for it.
\<close>

theorem main_starts:
  assumes "os_open os ''/dev/net/tap'' = fd" and "0 \<le> fd"
    and "os_tunsetiff os fd 0x1002 [] = (0, name)" and "length name < 10"
    and "os_pthread_create os = (\<lambda>t. 0)"
  shows "main os oth isns tv =
    Option.bind (netdev_rx_loop tv (map (take BUFLEN) (os_frames os fd)) (world_boot oth isns)) (\<lambda>w.
      Some (Value ([THREAD_IPC, THREAD_TIMERS], w),
        \<lparr>p_calls = [Open ''/dev/net/tap'', Tunsetiff fd 0x1002 [], System (link_up_cmd name),
            System (address_cmd name)],
         p_tun_fd = fd, p_dev = name\<rparr>))"
proof -
  let ?p = "\<lparr>p_calls = [Open ''/dev/net/tap'', Tunsetiff fd 0x1002 [], System (link_up_cmd name),
            System (address_cmd name)],
         p_tun_fd = fd, p_dev = name\<rparr>"
  have "tun_alloc os (proc_boot\<lparr>p_dev := []\<rparr>) =
      Some (Value fd, \<lparr>p_calls = [Open ''/dev/net/tap'', Tunsetiff fd 0x1002 []], p_tun_fd = 0, p_dev = name\<rparr>)"
    using assms by (simp add: tun_alloc_def proc_boot_def call_def)
  then have "tun_init os proc_boot = Some (Value (), ?p)"
    by (simp add: tun_init_def run_cmd_set_up [OF assms(4)] call_def)
  then have "init_stack os oth isns proc_boot = Some (Value (world_boot oth isns), ?p)"
    by (rule init_stack_after_tun)
  then show ?thesis
    using assms(5) by (simp add: main_def tun_read_def run_threads_def create_thread_def)
qed

text \<open>
  C38.  Start without a device: when the system refuses to make the tap device, \<open>main\<close> goes on with the
  error number as the descriptor of the device and sets up a device without a name.  With reads
  of it failing, the receive loop ends at once, and the stack is left in its initial state.
\<close>

theorem main_without_device:
  assumes "os_open os ''/dev/net/tap'' = fd" and "0 \<le> fd"
    and "os_tunsetiff os fd 0x1002 [] = (err, name)" and "err < 0" and "\<forall>d<0. os_frames os d = []"
  shows "\<exists>ts p. main os oth isns tv = Some (Value (ts, world_boot oth isns), p) \<and> p_tun_fd p = err \<and>
    System (link_up_cmd []) \<in> set (p_calls p)"
proof -
  have "tun_alloc os (proc_boot\<lparr>p_dev := []\<rparr>) =
      Some (Value err, \<lparr>p_calls = [Open ''/dev/net/tap'', Tunsetiff fd 0x1002 [], Close fd], p_tun_fd = 0, p_dev = []\<rparr>)"
    using assms by (simp add: tun_alloc_def proc_boot_def call_def)
  then obtain p where p: "tun_init os proc_boot = Some (Value (), p)" "p_tun_fd p = err"
      "System (link_up_cmd []) \<in> set (p_calls p)"
    using run_cmd_set_up [of "[]"] by (simp add: tun_init_def call_def)
  have "tun_read os p = []" using assms(4,5) p(2) by (simp add: tun_read_def)
  then show ?thesis
    using init_stack_after_tun [OF p(1)] p(2,3) by (simp add: main_def)
qed

lemma main_exits:
  assumes "os_open os ''/dev/net/tap'' < 0"
  shows "main os oth isns tv = Some (Exit 1, \<lparr>p_calls = [Open ''/dev/net/tap''], p_tun_fd = 0, p_dev = []\<rparr>)"
  using assms by (simp add: main_def init_stack_def tun_init_def tun_alloc_def proc_boot_def call_def)

text \<open>Every path of \<open>set_stack_attribute\<close> that opened a socket closes it, last.\<close>

lemma set_stack_attribute_closes:
  "0 \<le> os_socket os \<Longrightarrow> last (p_calls (snd (set_stack_attribute os dev p))) = Close (os_socket os)"
  by (simp add: set_stack_attribute_def Let_def call_def)

section \<open>Which client a thread serves\<close>

lemma listener_accept_eq:
  "datasock \<noteq> -1 \<Longrightarrow> listener_accept datasock 0 l = Value (l\<lparr>ln_datasock := Some datasock,
     ln_conns := ipc_alloc_thread datasock (ln_conns l), ln_started := ln_started l + 1\<rparr>)"
  by (simp add: listener_accept_def)

text \<open>What holds of every run: all clients are listed, and every thread serves one of them.\<close>

lemma listener_run_inv:
  assumes "listener_run l ds l'" and "l = listener_boot"
  shows "ic_socks (ln_conns l') = ds \<and> conns_counted (ln_conns l') \<and> set (ln_serving l') \<subseteq> set ds \<and>
    ln_started l' + length (ln_serving l') = length ds \<and> ln_datasock l' = (if ds = [] then None else Some (last ds))"
  using assms
proof (induction rule: listener_run.induct)
  case (none l)
  then show ?case by (simp add: listener_boot_def conns_counted_def)
next
  case (step l ds l' es l'')
  have ih: "ic_socks (ln_conns l') = ds" "conns_counted (ln_conns l')" "set (ln_serving l') \<subseteq> set ds"
    "ln_started l' + length (ln_serving l') = length ds" "ln_datasock l' = (if ds = [] then None else Some (last ds))"
    using step.IH [OF step.prems] by auto
  from step.hyps(2) show ?case
  proof cases
    case (accepts d)
    then show ?thesis using ih
      by (auto simp: listener_accept_eq conns_counted_def ipc_alloc_thread_def ipc_connections_enqueue_def)
  next
    case begins
    then show ?thesis using ih
      by (auto simp: listener_thread_def split: if_splits elim!: bind_SomeE)
  qed
qed

lemma listener_accepts:
  assumes "listener_run l ds l'" and "d \<noteq> -1"
  shows "\<exists>l''. listener_run l (ds @ [d]) l'' \<and> ln_started l'' = ln_started l' + 1 \<and> ln_serving l'' = ln_serving l' \<and>
    ln_datasock l'' = Some d"
  using listener_run.step [OF assms(1) listener_step.accepts [OF assms(2) listener_accept_eq [OF assms(2)]]] by fastforce

lemma listener_begins:
  assumes "listener_run l ds l'" and "ln_datasock l' = Some d" and "ln_started l' = Suc k"
  shows "\<exists>l''. listener_run l ds l'' \<and> ln_started l'' = k \<and> ln_serving l'' = ln_serving l' @ [d] \<and>
    ln_datasock l'' = Some d"
proof -
  have "listener_thread l' = Some (l'\<lparr>ln_started := k, ln_serving := ln_serving l' @ [d]\<rparr>)"
    using assms by (simp add: listener_thread_def)
  from listener_run.step [OF assms(1) listener_step.begins [OF this]] assms(2) show ?thesis by fastforce
qed

lemma listener_in_turn:
  "-1 \<notin> set ds \<Longrightarrow> \<exists>l. listener_run listener_boot ds l \<and> ln_serving l = ds \<and> ln_started l = 0"
proof (induction ds rule: rev_induct)
  case Nil
  show ?case using listener_run.none [of listener_boot] by (auto simp: listener_boot_def)
next
  case (snoc d ds)
  then obtain l where "listener_run listener_boot ds l" "ln_serving l = ds" "ln_started l = 0" by auto
  moreover have "d \<noteq> -1" using snoc.prems by simp
  ultimately show ?case
    using listener_accepts [of listener_boot ds l d] listener_begins by fastforce
qed

lemma listener_late:
  assumes "listener_run l ds l'" and "ln_datasock l' = Some d" and "ln_started l' = n"
  shows "\<exists>l''. listener_run l ds l'' \<and> ln_serving l'' = ln_serving l' @ replicate n d"
  using assms
proof (induction n arbitrary: l')
  case 0
  then show ?case by auto
next
  case (Suc n)
  then obtain l'' where "listener_run l ds l''" "ln_started l'' = n" "ln_serving l'' = ln_serving l' @ [d]"
    "ln_datasock l'' = Some d"
    using listener_begins by blast
  then show ?case using Suc.IH [of l''] by auto
qed

lemma listener_all_accepted:
  "-1 \<notin> set ds \<Longrightarrow> \<exists>l. listener_run listener_boot ds l \<and> ln_serving l = [] \<and> ln_started l = length ds"
proof (induction ds rule: rev_induct)
  case Nil
  show ?case using listener_run.none [of listener_boot] by (auto simp: listener_boot_def)
next
  case (snoc d ds)
  then obtain l where "listener_run listener_boot ds l" "ln_serving l = []" "ln_started l = length ds" by auto
  moreover have "d \<noteq> -1" using snoc.prems by simp
  ultimately show ?case using listener_accepts [of listener_boot ds l d] by fastforce
qed

text \<open>
  C39.  The listener lists every client it accepts, but which client a thread serves depends on when the
  thread first runs: if each does before the next client comes, every client is served; if all
  come later, all threads serve the last client and the others wait for ever.
\<close>

theorem listener_threads_race:
  assumes "-1 \<notin> set ds" and "ds \<noteq> []"
  shows "(\<exists>l. listener_run listener_boot ds l \<and> ln_serving l = ds \<and> ic_socks (ln_conns l) = ds) \<and>
    (\<exists>l. listener_run listener_boot ds l \<and> ln_serving l = replicate (length ds) (last ds) \<and> ic_socks (ln_conns l) = ds)"
proof -
  obtain l where l: "listener_run listener_boot ds l" "ln_serving l = []" "ln_started l = length ds"
    using listener_all_accepted [OF assms(1)] by blast
  then have "ln_datasock l = Some (last ds)" using listener_run_inv [OF l(1)] assms(2) by simp
  then obtain l' where "listener_run listener_boot ds l'" "ln_serving l' = replicate (length ds) (last ds)"
    using listener_late [OF l(1)] l(2,3) by fastforce
  then show ?thesis using listener_in_turn [OF assms(1)] listener_run_inv by blast
qed

end
