(* ===== verification/Isolation.thy ===== *)
theory Isolation
  imports World_Invariant Socket
begin

text \<open>
  The table of \<open>struct socket\<close>s and the structures of the transports share one memory of list
  nodes.  Whatever the transports do, the table stays as it is: their nodes never point into it,
  so no unlinking of theirs can write to it.
\<close>

section \<open>Nodes that nothing else points to\<close>

definition walled :: "addr set \<Rightarrow> links \<Rightarrow> bool" where
  "walled A h \<longleftrightarrow> (\<forall>x. x \<notin> A \<longrightarrow> nxt h x \<notin> A \<and> prv h x \<notin> A)"

lemma walled_read:
  "rd_next h x = Some n \<Longrightarrow> walled A h \<and> x \<notin> A \<longrightarrow> n \<notin> A"
  "rd_prev h x = Some n \<Longrightarrow> walled A h \<and> x \<notin> A \<longrightarrow> n \<notin> A"
  by (auto simp: walled_def link_defs split: if_splits)

lemma walled_write:
  "wr_next h x n = Some h' \<Longrightarrow> walled A h \<and> x \<notin> A \<and> n \<notin> A \<and> agree A g h \<longrightarrow> walled A h' \<and> agree A g h'"
  "wr_prev h x n = Some h' \<Longrightarrow> walled A h \<and> x \<notin> A \<and> n \<notin> A \<and> agree A g h \<longrightarrow> walled A h' \<and> agree A g h'"
  by (auto simp: walled_def agree_def link_defs split: if_splits)

lemma agree_refl [simp]: "agree A h h"
  by (simp add: agree_def)

lemma walled_ops:
  assumes "walled A h" and "x \<notin> A"
  shows "list_init h x = Some h' \<Longrightarrow> walled A h' \<and> agree A h h'"
    "list_del h x = Some h' \<Longrightarrow> walled A h' \<and> agree A h h'"
    "list_del_init h x = Some h' \<Longrightarrow> walled A h' \<and> agree A h h'"
    "head \<notin> A \<Longrightarrow> list_add h x head = Some h' \<Longrightarrow> walled A h' \<and> agree A h h'"
    "head \<notin> A \<Longrightarrow> list_add_tail h x head = Some h' \<Longrightarrow> walled A h' \<and> agree A h h'"
  using assms
  by (auto simp: list_init_def list_del_def list_del_init_def list_add_def list_add_tail_def elim!: bind_SomeE
      dest!: walled_read [where A = A] walled_write [where A = A and g = h])

section \<open>The table of sockets apart from the transports\<close>

text \<open>
  \<open>S\<close> are the \<open>struct socket\<close>s on the table; 0 stands for its head.  Nodes not yet allocated are
  counted to the table, so that a new socket finds nothing that points to it.
\<close>

definition zone :: "nat set \<Rightarrow> nat \<Rightarrow> addr set" where
  "zone S n = link_of ` (S \<union> {n..})"

definition apart :: "nat set \<Rightarrow> world \<Rightarrow> bool" where
  "apart S w \<longleftrightarrow> 0 \<in> S \<and> S \<subseteq> {..<w_next w} \<and> S \<inter> (dom (w_tcp w) \<union> dom (w_udp w)) = {} \<and>
     dom (w_tcp w) \<union> dom (w_udp w) \<subseteq> {..<w_next w} \<and> walled (zone S (w_next w)) (w_links w)"

lemma zone_mem [simp]: "link_of s \<in> zone S n \<longleftrightarrow> s \<in> S \<or> n \<le> s"
  by (auto simp: zone_def)

lemma zone_outside [simp]:
  "list_of s \<notin> zone S n" "listen_queue_of s \<notin> zone S n" "accept_queue_of s \<notin> zone S n"
  "0 \<notin> zone S n" "Suc 0 \<notin> zone S n" "2 \<notin> zone S n" "3 \<notin> zone S n"
  by (auto simp: zone_def link_of_def list_of_def listen_queue_of_def accept_queue_of_def) presburger+

lemma apart_outside:
  assumes "apart S w" and "w_tcp w s \<noteq> None \<or> w_udp w s \<noteq> None"
  shows "s \<notin> S" "link_of s \<notin> zone S (w_next w)"
  using assms by (auto simp: apart_def)

lemma zone_Suc: "zone S (Suc n) = zone S n - {link_of n}" if "n \<notin> S"
  using that by (auto simp: zone_def)

lemma clear_walled:
  assumes "walled A h" and "0 \<notin> A"
  shows "walled A (clear_nodes s h)"
  using assms by (simp add: walled_def clear_nodes_def)

lemma clear_opened:
  assumes "walled A h" and "0 \<notin> A"
  shows "walled (A - {link_of s}) (clear_nodes s h)"
proof -
  have "nxt (clear_nodes s h) (link_of s) = 0" "prv (clear_nodes s h) (link_of s) = 0"
    by (simp_all add: clear_nodes_def link_of_def)
  moreover have "nxt (clear_nodes s h) x \<notin> A \<and> prv (clear_nodes s h) x \<notin> A" if "x \<notin> A" for x
    using clear_walled [OF assms, of s] that by (simp add: walled_def)
  ultimately show ?thesis unfolding walled_def using assms(2) by (metis DiffD1 DiffI singletonD)
qed

lemma clear_agree:
  assumes "s \<notin> S"
  shows "agree (link_of ` S) h (clear_nodes s h)"
proof -
  have "\<not> (4 * s + 4 \<le> link_of t \<and> link_of t < 4 * s + 8)" if "t \<in> S" for t
  proof -
    have "t \<noteq> s" using assms that by blast
    then show ?thesis unfolding link_of_def by arith
  qed
  then show ?thesis by (auto simp: agree_def clear_nodes_def)
qed

text \<open>What the transports may change of a \<open>struct socket\<close>: its pointer to a connection they free.\<close>

definition same_sockets :: "world \<Rightarrow> world \<Rightarrow> bool" where
  "same_sockets u w \<longleftrightarrow> (\<forall>so. w_sockets w so = w_sockets u so \<or>
     (\<exists>x. w_sockets u so = Some x \<and> w_sockets w so = Some (x\<lparr>so_sk := Null\<rparr>)))"

definition isolated :: "nat set \<Rightarrow> world \<Rightarrow> world \<Rightarrow> bool" where
  "isolated S u w \<longleftrightarrow> apart S w \<and> agree (link_of ` S) (w_links u) (w_links w) \<and> same_sockets u w \<and> w_fd w = w_fd u"

lemma isolated_refl: "apart S w \<Longrightarrow> isolated S w w"
  by (simp add: isolated_def same_sockets_def)

lemma isolated_same:
  assumes "isolated S u w" and "w_links w' = w_links w" and "w_sockets w' = w_sockets w" and "w_fd w' = w_fd w"
    and "w_next w' = w_next w" and "dom (w_tcp w') = dom (w_tcp w)" and "dom (w_udp w') = dom (w_udp w)"
  shows "isolated S u w'"
  using assms by (simp add: isolated_def apart_def same_sockets_def)

lemma isolated_links:
  assumes "isolated S u w" and "walled (zone S (w_next w)) h \<and> agree (zone S (w_next w)) (w_links w) h"
  shows "isolated S u (w\<lparr>w_links := h\<rparr>)"
proof -
  have "link_of ` S \<subseteq> zone S (w_next w)" by (auto simp: zone_def)
  then have "agree (link_of ` S) (w_links w) h" using assms(2) agree_subset by blast
  with assms show ?thesis by (auto simp: isolated_def apart_def same_sockets_def intro: agree_trans)
qed

lemma isolated_wall: "isolated S u w \<Longrightarrow> walled (zone S (w_next w)) (w_links w)"
  by (simp add: isolated_def apart_def)

lemma isolated_outside:
  "isolated S u w \<Longrightarrow> w_tcp w s = Some t \<Longrightarrow> link_of s \<notin> zone S (w_next w)"
  "isolated S u w \<Longrightarrow> w_udp w s = Some k \<Longrightarrow> link_of s \<notin> zone S (w_next w)"
  by (auto simp: isolated_def dest: apart_outside(2))

lemma isolated_cleared:
  assumes "isolated S u w" and "s \<notin> S" and "w_links w' = clear_nodes s (w_links w)" and "same_sockets u w'"
    and "w_fd w' = w_fd w" and "w_next w' = w_next w" and "dom (w_tcp w') \<subseteq> dom (w_tcp w)" and "dom (w_udp w') \<subseteq> dom (w_udp w)"
  shows "isolated S u w'"
proof -
  have "walled (zone S (w_next w)) (clear_nodes s (w_links w))"
    using isolated_wall [OF assms(1)] by (rule clear_walled) simp
  moreover have "agree (link_of ` S) (w_links u) (clear_nodes s (w_links w))"
    using assms(1) clear_agree [OF assms(2)] agree_trans unfolding isolated_def by blast
  ultimately show ?thesis using assms by (simp add: isolated_def apart_def) blast
qed

lemma isolated_fresh:
  assumes "isolated S u w" and "w_links w' = h" and "w_sockets w' = w_sockets w"
    and "w_fd w' = w_fd w" and "w_next w' = Suc (w_next w)"
    and "dom (w_tcp w') \<union> dom (w_udp w') = insert (w_next w) (dom (w_tcp w) \<union> dom (w_udp w))"
    and "walled (zone S (w_next w) - {link_of (w_next w)}) h" and "agree (link_of ` S) (clear_nodes (w_next w) (w_links w)) h"
  shows "isolated S u w'"
proof -
  have n: "w_next w \<notin> S" using assms(1) by (auto simp: isolated_def apart_def)
  then have "agree (link_of ` S) (w_links u) h"
    using assms(1,8) clear_agree [OF n] agree_trans unfolding isolated_def by blast
  moreover have "walled (zone S (Suc (w_next w))) h" using assms(7) zone_Suc [OF n] by simp
  moreover have "S \<subseteq> {..<Suc (w_next w)}" using assms(1) by (auto simp: isolated_def apart_def)
  ultimately show ?thesis
    using assms(1-6) n by (simp add: isolated_def apart_def same_sockets_def lessThan_Suc) blast
qed

section \<open>The transports keep apart\<close>

text \<open>Queues of a listening socket lie outside the table, whatever is on them.\<close>

lemma accept_enqueue_isolated:
  assumes i: "isolated S u w" and "tcp_accept_enqueue s w = Some w'"
  shows "isolated S u w'"
proof -
  let ?A = "zone S (w_next w)"
  from assms(2) obtain e h p h' where h: "(if \<not> e then list_del (w_links w) (list_of s) else Some (w_links w)) = Some h"
      "list_add h (list_of s) (accept_queue_of p) = Some h'" "w' = w\<lparr>w_links := h'\<rparr>"
    by (auto simp: tcp_accept_enqueue_def elim!: bind_SomeE)
  have 1: "walled ?A h \<and> agree ?A (w_links w) h"
    using h(1) walled_ops(2) [OF isolated_wall [OF i], of "list_of s" h] isolated_wall [OF i] by (auto split: if_splits)
  then have "walled ?A h' \<and> agree ?A h h'"
    using walled_ops(4) [OF _ _ _ h(2)] by simp
  with 1 h(3) isolated_links [OF i] show ?thesis using agree_trans by blast
qed

lemma accept_dequeue_isolated:
  assumes i: "isolated S u w" and "tcp_accept_dequeue s w = Some (c, w')"
  shows "isolated S u w'"
proof -
  let ?A = "zone S (w_next w)"
  from assms(2) obtain n h h' where h: "rd_next (w_links w) (accept_queue_of s) = Some n"
      "list_del (w_links w) n = Some h" "list_init h n = Some h'" "w' = w\<lparr>w_links := h'\<rparr>"
    by (auto simp: tcp_accept_dequeue_def elim!: bind_SomeE)
  have n: "n \<notin> ?A" using walled_read(1) [OF h(1)] isolated_wall [OF i] by simp
  have 1: "walled ?A h \<and> agree ?A (w_links w) h"
    using walled_ops(2) [OF isolated_wall [OF i] n h(2)] .
  then have "walled ?A h' \<and> agree ?A h h'" using walled_ops(1) [OF _ n h(3)] by simp
  with 1 h(4) isolated_links [OF i] show ?thesis using agree_trans by blast
qed

lemma alloc_isolated:
  assumes i: "isolated S u w"
  shows "tcp_alloc_sock w = Some (c, w') \<Longrightarrow> isolated S u w'" "udp_alloc_sock w = (c, w') \<Longrightarrow> isolated S u w'"
proof -
  let ?n = "w_next w"
  let ?A = "zone S ?n - {link_of ?n}" and ?h = "clear_nodes ?n (w_links w)"
  have out: "accept_queue_of ?n \<notin> ?A" "listen_queue_of ?n \<notin> ?A" by simp_all
  have sub: "link_of ` S \<subseteq> ?A" using i by (auto simp: isolated_def apart_def)
  have wall: "walled ?A ?h" using isolated_wall [OF i] by (rule clear_opened) simp
  {
    assume "tcp_alloc_sock w = Some (c, w')"
    then obtain h1 h2 where h: "list_init ?h (accept_queue_of ?n) = Some h1" "list_init h1 (listen_queue_of ?n) = Some h2"
        "w' = (put_tsk ?n tcp_sock_zero (w\<lparr>w_next := ?n + 1, w_links := ?h\<rparr>))\<lparr>w_links := h2\<rparr>"
      by (auto simp: tcp_alloc_sock_def Let_def elim!: bind_SomeE)
    have 1: "walled ?A h1 \<and> agree ?A ?h h1" using walled_ops(1) [OF wall out(1) h(1)] .
    then have 2: "walled ?A h2 \<and> agree ?A h1 h2" using walled_ops(1) [OF _ out(2) h(2)] by simp
    with 1 have "agree (link_of ` S) ?h h2" using agree_trans agree_subset [OF _ sub] by blast
    with 2 h(3) show "isolated S u w'"
      by (intro isolated_fresh [OF i, of _ h2]) (simp_all add: put_tsk_def)
  }
  assume "udp_alloc_sock w = (c, w')"
  then have "w' = put_usk ?n (sock_zero UDP_UNCONNECTED) (w\<lparr>w_next := ?n + 1, w_links := ?h\<rparr>)"
    by (auto simp: udp_alloc_sock_def Let_def)
  with wall show "isolated S u w'"
    by (intro isolated_fresh [OF i, of _ ?h]) (simp_all add: put_usk_def)
qed

lemma same_sockets_detach:
  assumes "same_sockets u w" and "w_sockets w so = Some x"
  shows "same_sockets u (w\<lparr>w_sockets := (w_sockets w)(so \<mapsto> x\<lparr>so_sk := Null\<rparr>)\<rparr>)"
proof -
  have "w_sockets u so = Some x \<or> (\<exists>y. w_sockets u so = Some y \<and> x = y\<lparr>so_sk := Null\<rparr>)"
    using assms unfolding same_sockets_def by (metis option.inject)
  then show ?thesis using assms(1) by (auto simp: same_sockets_def)
qed

interpretation iso: world_invariant "isolated S u"
proof unfold_locales
  fix w :: world
  assume i: "isolated S u w"
  note wall = isolated_wall [OF i] and out = isolated_outside [OF i]
  show "isolated S u w'" if "tcp_accept_enqueue s w = Some w'" for s w'
    using accept_enqueue_isolated [OF i that] .
  show "isolated S u w'" if "tcp_accept_dequeue s w = Some (c, w')" for s c w'
    using accept_dequeue_isolated [OF i that] .
  show "isolated S u w'" if "tcp_alloc_sock w = Some (c, w')" for c w'
    using alloc_isolated(1) [OF i that] .
  show "isolated S u w'" if "udp_alloc_sock w = (c, w')" for c w'
    using alloc_isolated(2) [OF i that] .
  show "isolated S u (w\<lparr>w_sockets := (w_sockets w)(so \<mapsto> x\<lparr>so_sk := Null\<rparr>)\<rparr>)" if "w_sockets w so = Some x" for so x
    using i same_sockets_detach [OF _ that] by (simp add: isolated_def apart_def)
  show "isolated S u (w\<lparr>w_tcp := (w_tcp w)(s := None), w_links := clear_nodes s (w_links w)\<rparr>)"
    if "w_tcp w s = Some t" for s t
    using i that by (intro isolated_cleared [OF i, of s]) (auto simp: isolated_def same_sockets_def dest: apart_outside(1))
  show "isolated S u (w\<lparr>w_udp := (w_udp w)(s := None), w_links := clear_nodes s (w_links w)\<rparr>)"
    if "w_udp w s = Some t" for s t
    using i that by (intro isolated_cleared [OF i, of s]) (auto simp: isolated_def same_sockets_def dest: apart_outside(1))
  show "isolated S u (w\<lparr>w_links := h\<rparr>)"
    if "w_tcp w s = Some t" "list_add_tail (w_links w) (link_of s) CL_HEAD = Some h" for s t h
    using isolated_links [OF i] walled_ops(5) [OF wall out(1) [OF that(1)] _ that(2)] by simp
  show "isolated S u (w\<lparr>w_links := h\<rparr>)"
    if "w_tcp w s = Some t" "list_add_tail (w_links w) (link_of s) ES_HEAD = Some h" for s t h
    using isolated_links [OF i] walled_ops(5) [OF wall out(1) [OF that(1)] _ that(2)] by simp
  show "isolated S u (w\<lparr>w_links := h\<rparr>)"
    if "w_udp w s = Some t" "list_add_tail (w_links w) (link_of s) UDP_HEAD = Some h" for s t h
    using isolated_links [OF i] walled_ops(5) [OF wall out(2) [OF that(1)] _ that(2)] by simp
  show "isolated S u (w\<lparr>w_links := h\<rparr>)"
    if "w_tcp w s = Some t" "list_del_init (w_links w) (link_of s) = Some h" for s t h
    using isolated_links [OF i] walled_ops(3) [OF wall out(1) [OF that(1)] that(2)] by simp
  show "isolated S u (w\<lparr>w_links := h\<rparr>)"
    if "w_udp w s = Some t" "list_del_init (w_links w) (link_of s) = Some h" for s t h
    using isolated_links [OF i] walled_ops(3) [OF wall out(2) [OF that(1)] that(2)] by simp
  show "isolated S u (w\<lparr>w_links := h\<rparr>)" if "list_add (w_links w) (list_of c) (listen_queue_of s) = Some h" for c s h
    using isolated_links [OF i] walled_ops(4) [OF wall _ _ that] by simp
qed (erule isolated_same; simp add: put_tsk_def put_usk_def insert_absorb domI)+

section \<open>Lookups\<close>

lemma same_sockets_match: "same_sockets u w \<Longrightarrow> so_match w pid fd so = so_match u pid fd so"
proof -
  assume "same_sockets u w"
  then consider "w_sockets w so = w_sockets u so"
    | x where "w_sockets u so = Some x" "w_sockets w so = Some (x\<lparr>so_sk := Null\<rparr>)"
    unfolding same_sockets_def by blast
  then show ?thesis by cases (simp_all add: so_match_def)
qed

lemma same_sockets_fd:
  assumes "same_sockets u w" and "w_sockets u so = Some x"
  shows "\<exists>y. w_sockets w so = Some y \<and> so_fd y = so_fd x"
  using assms unfolding same_sockets_def by (elim allE [of _ so]) auto

lemma isolated_table:
  assumes tb: "so_table u sos" and i: "isolated S u w" and sub: "set sos \<subseteq> S"
  shows "so_table w sos"
proof -
  have "SO_HEAD = link_of 0" by (simp add: link_of_def)
  then have "set (SO_HEAD # map link_of sos) \<subseteq> link_of ` S"
    using i sub by (auto simp: isolated_def apart_def)
  then have "agree (set (SO_HEAD # map link_of sos)) (w_links u) (w_links w)"
    using i agree_subset unfolding isolated_def by blast
  then have "ring_holds SO_HEAD w sos"
    using tb dlist_agree unfolding so_table_def ring_holds_def by fastforce
  moreover have "\<exists>x. w_sockets w so = Some x \<and> so_fd x < w_fd w" if "so \<in> set sos" for so
    using tb i that same_sockets_fd unfolding so_table_def isolated_def by metis
  moreover have "0 \<in> S" "S \<subseteq> {..<w_next w}" "dom (w_tcp w) \<union> dom (w_udp w) \<subseteq> {..<w_next w}"
    using i by (simp_all add: isolated_def apart_def)
  moreover have "set sos \<subseteq> {0<..<w_next w}" using tb sub calculation(4) by (fastforce simp: so_table_def)
  moreover have "0 < w_next w" using calculation(3,4) by auto
  ultimately show ?thesis by (simp add: so_table_def)
qed

lemma isolated_lookup:
  assumes "so_table u sos" and "isolated S u w" and "set sos \<subseteq> S"
  shows "get_socket w pid fd = get_socket u pid fd"
proof -
  have "same_sockets u w" using assms(2) by (simp add: isolated_def)
  then have "so_match w pid fd = so_match u pid fd" using same_sockets_match by blast
  then show ?thesis using get_socket_table [OF assms(1)] get_socket_table [OF isolated_table [OF assms]] by simp
qed

lemma apart_boot: "apart {0} (world_boot oth isns)"
proof -
  have "x \<notin> zone {0} (Suc 0) \<Longrightarrow> (if 1 \<le> x \<and> x \<le> 4 then x else 0) \<notin> zone {0} (Suc 0)" for x
    by auto
  then show ?thesis by (simp add: apart_def world_boot_def walled_def links_boot_def)
qed

lemma run_isolated: "stack_run u w \<Longrightarrow> apart S u \<Longrightarrow> isolated S u w"
  using iso.run.run_kept isolated_refl by blast

text \<open>
  C11.  Whatever the stack does, whatever arrives, whatever connections open, close and are freed: the
  table of sockets stays as it is.  Every descriptor of every process leads to the same
  \<open>struct socket\<close>, in which at most the pointer to the connection has become null.
\<close>

theorem sockets_untouched:
  assumes "stack_run u w" and "so_table u sos" and "apart (insert 0 (set sos)) u"
  shows "so_table w sos \<and> get_socket w pid fd = get_socket u pid fd \<and>
    (w_sockets w so = w_sockets u so \<or>
     (\<exists>x. w_sockets u so = Some x \<and> w_sockets w so = Some (x\<lparr>so_sk := Null\<rparr>)))"
proof -
  have i: "isolated (insert 0 (set sos)) u w" using run_isolated assms by blast
  have sub: "set sos \<subseteq> insert 0 (set sos)" by blast
  show ?thesis
    using isolated_table [OF assms(2) i sub] isolated_lookup [OF assms(2) i sub] i
    by (simp add: isolated_def same_sockets_def)
qed

end
