(* ===== verification/Levelip_Calls.thy ===== *)
theory Levelip_Calls
  imports Levelip
begin

text \<open>
  The calls of the library that set up a connection, and those for datagrams, as calls on the
  stack: \<open>lvl_bind\<close>, \<open>lvl_listen\<close>, \<open>lvl_connect\<close>, \<open>lvl_accept\<close>, \<open>lvl_sendto\<close>, \<open>lvl_recvfrom\<close>.
\<close>

section \<open>Calls answered with a result\<close>

lemma transmit_ok:
  assumes "msg = ipc_hdr t pid @ rest" and "length msg \<le> IPC_BUFLEN" and "length b = IPC_BUFLEN"
    and "demux_ipc_socket_call c (bytes16 t @ bytes32 pid @ rest @ drop (length msg) b) w =
      Some (Returned (ipc_write_rc pid t rc), w')" and "is_int rc"
  shows "\<exists>b'. length b' = IPC_BUFLEN \<and> transmit_lvlip (ipc_chan c) l msg (b, w) = Some (errno_of rc, (b', w'))"
proof (intro exI conjI)
  show "transmit_lvlip (ipc_chan c) l msg (b, w) = Some (errno_of rc, (msg @ drop (length msg) b, w'))"
    using ipcc.transmit [OF ipc_answersI [OF assms(1-4)] assms(5)] .
  show "length (msg @ drop (length msg) b) = IPC_BUFLEN" using assms(2,3) by simp
qed

lemma load_addr_bytes [simp]: "load_addr (addr_bytes family pad a) 0 = Some a"
  using load_skip [of "bytes16 family"]
  by (simp add: load_addr_def addr_bytes_def msg_simps del: load_in_range)

lemma length_addr_bytes [simp]: "length (addr_bytes family pad a) = 8 + length pad"
  by (simp add: addr_bytes_def)

lemma lvl_bind_ok:
  assumes "lvlip_get_sock fd socks = Some (Some k)" and "is_int fd" and "length b = IPC_BUFLEN"
    and "load_addr addr 0 = Some a" and "length addr = 16"
    and "so_bind (sint pid) fd a w = Some (rc, w')" and "is_int rc"
  shows "\<exists>b'. length b' = IPC_BUFLEN \<and>
    lvl_bind (ipc_chan c) pid fd addr socks (b, w) = Some (errno_of rc, (b', w'))"
proof -
  have "demux_ipc_socket_call c (bytes16 IPC_BIND @ bytes32 pid @ (bytes32 (word_of_int fd) @ addr) @ rest) w =
      Some (Returned (ipc_write_rc pid IPC_BIND rc), w')" for rest
    using assms(2,4-6) by (simp add: demux_ipc_socket_call_def ipc_bind_def msg_simps del: load_in_range)
  then show ?thesis
    using transmit_ok [of "ipc_hdr IPC_BIND pid @ bytes32 (word_of_int fd) @ addr" IPC_BIND pid, OF _ _ assms(3) _ assms(7)] assms
    by (simp add: lvl_bind_def ipc_hdr_def)
qed

lemma lvl_listen_ok:
  assumes "lvlip_get_sock fd socks = Some (Some k)" and "is_int fd" and "length b = IPC_BUFLEN" and "is_int n"
    and "so_listen (sint pid) fd n w = Some (rc, w')" and "is_int rc"
  shows "\<exists>b'. length b' = IPC_BUFLEN \<and>
    lvl_listen (ipc_chan c) pid fd n socks (b, w) = Some (errno_of rc, (b', w'))"
proof -
  have "demux_ipc_socket_call c (bytes16 IPC_LISTEN @ bytes32 pid @ (bytes32 (word_of_int fd) @ bytes32 (word_of_int n)) @ rest) w =
      Some (Returned (ipc_write_rc pid IPC_LISTEN rc), w')" for rest
    using assms by (simp add: demux_ipc_socket_call_def ipc_listen_def msg_simps del: load_in_range)
  then show ?thesis
    using transmit_ok [of "ipc_hdr IPC_LISTEN pid @ bytes32 (word_of_int fd) @ bytes32 (word_of_int n)" IPC_LISTEN pid,
        OF _ _ assms(3) _ assms(6)] assms
    by (simp add: lvl_listen_def ipc_hdr_def)
qed

lemma lvl_connect_ok:
  assumes "lvlip_get_sock fd socks = Some (Some k)" and "is_int fd" and "length b = IPC_BUFLEN"
    and "load_addr addr 0 = Some a" and "length addr = 16"
    and "so_connect (sint pid) fd a (ie_env c) w = Some (Returned rc, w')" and "is_int rc"
  shows "\<exists>b'. length b' = IPC_BUFLEN \<and>
    lvl_connect (ipc_chan c) pid fd addr socks (b, w) = Some (errno_of rc, (b', w'))"
proof -
  have "demux_ipc_socket_call c (bytes16 IPC_CONNECT @ bytes32 pid @ (bytes32 (word_of_int fd) @ addr) @ rest) w =
      Some (Returned (ipc_write_rc pid IPC_CONNECT rc), w')" for rest
    using assms(2,4-6) by (simp add: demux_ipc_socket_call_def ipc_connect_def msg_simps del: load_in_range)
  then show ?thesis
    using transmit_ok [of "ipc_hdr IPC_CONNECT pid @ bytes32 (word_of_int fd) @ addr" IPC_CONNECT pid, OF _ _ assms(3) _ assms(7)] assms
    by (simp add: lvl_connect_def ipc_hdr_def)
qed

section \<open>Accepting\<close>

text \<open>What \<open>ipc_accept\<close> puts into the address of its reply: the padding and the family are not set.\<close>

definition accept_addr :: "ipc_ctx \<Rightarrow> sockaddr_in option \<Rightarrow> bytes" where
  "accept_addr c peer = (case peer of
       None \<Rightarrow> alloca c 16
     | Some a \<Rightarrow> put32 (put16 (alloca c 16) 2 (sin_port a)) 4 (sin_addr a))"

definition accept_reply :: "ipc_ctx \<Rightarrow> u32 \<Rightarrow> int \<Rightarrow> bool \<Rightarrow> sockaddr_in option \<Rightarrow> bytes" where
  "accept_reply c pid rc want peer = bytes16 IPC_ACCEPT @ bytes32 pid @ bytes32 (word_of_int rc) @ bytes32 0 @
     bytes32 (word_of_int (ie_sockfd c)) @ take 4 (drop 18 (alloca c 38)) @
     (if want then accept_addr c peer else drop 22 (alloca c 38))"

lemma length_accept_addr [simp]: "length (accept_addr c peer) = 16"
  by (simp add: accept_addr_def split: option.splits)

lemma ipc_accept_replies:
  assumes msg: "msg = bytes16 t @ bytes32 pid @ bytes32 fd @ bytes32 (of_bool want) @ rest"
    and acc: "so_accept (sint pid) (sint fd) (ie_env c) w = Some (Returned (rc, peer), w')"
  shows "ipc_accept c msg w = Some (Returned \<lparr>rp_rc = 0, rp_out = accept_reply c pid rc want peer\<rparr>, w')"
proof -
  let ?b = "alloca c 38" and ?sf = "word_of_int (ie_sockfd c) :: u32"
  let ?h = "bytes16 IPC_ACCEPT @ bytes32 pid @ bytes32 (word_of_int rc) @ bytes32 0"
  have 0: "load32 msg 2 = Some pid" "load32 msg 6 = Some fd" "load32 msg 10 = Some (of_bool want)"
    unfolding msg by (simp_all add: msg_simps del: load_in_range)
  have 1: "ipc_reply_head ?b IPC_ACCEPT pid rc 0 = Some (?h @ drop 14 ?b)"
    by (simp add: ipc_reply_head_fields)
  have 2: "store32 (?h @ drop 14 ?b) 14 v = Some ((?h @ bytes32 v) @ drop 18 ?b)" for v
    using store_append(2) [of "drop 14 ?b" ?h] by (simp del: store_in_range)
  have 3: "drop 18 ?b = take 4 (drop 18 ?b) @ drop 22 ?b"
    using append_take_drop_id [of 4 "drop 18 ?b"] by simp
  have 4: "store_bytes ((?h @ bytes32 v @ take 4 (drop 18 ?b)) @ drop 22 ?b) 22 a =
      Some (?h @ bytes32 v @ take 4 (drop 18 ?b) @ a)" if "length a = 16" for v a
    using store_append(4) [of a "drop 22 ?b" "?h @ bytes32 v @ take 4 (drop 18 ?b)"] that by (simp del: store_in_range)
  have 5: "store_bytes ((?h @ bytes32 v) @ drop 18 ?b) 22 a = Some (?h @ bytes32 v @ take 4 (drop 18 ?b) @ a)"
    if "length a = 16" for v a
    using 4 [OF that, of v] 3 by (metis append.assoc)
  have "ipc_accept c msg w = Option.bind (if want then store_bytes ((?h @ bytes32 ?sf) @ drop 18 ?b) 22 (accept_addr c peer)
      else Some ((?h @ bytes32 ?sf) @ drop 18 ?b)) (\<lambda>b. Some (Returned \<lparr>rp_rc = 0, rp_out = b\<rparr>, w'))"
    by (simp add: ipc_accept_def 0 acc 1 2 [unfolded append_assoc] accept_addr_def Let_def
        del: load_in_range store_in_range)
  also have "\<dots> = Some (Returned \<lparr>rp_rc = 0, rp_out = accept_reply c pid rc want peer\<rparr>, w')"
    using 5 [of "accept_addr c peer" ?sf] 3 by (simp add: accept_reply_def del: store_in_range)
  finally show ?thesis .
qed

lemma accept_reply_fields:
  fixes pid :: u32 and c :: ipc_ctx and rc :: int and want :: bool and peer :: "sockaddr_in option"
  defines "rbuf \<equiv> put_bytes (replicate 38 0) 0 (take 38 (accept_reply c pid rc want peer))"
  shows "load16 rbuf 0 = Some IPC_ACCEPT" "load32 rbuf 2 = Some pid" "load32 rbuf 6 = Some (word_of_int rc)"
    "load32 rbuf 10 = Some 0" "load_bytes rbuf 22 16 = Some (if want then accept_addr c peer else drop 22 (alloca c 38))"
proof -
  have len: "length (accept_reply c pid rc want peer) = 38" by (simp add: accept_reply_def)
  then have r: "rbuf = accept_reply c pid rc want peer"
    unfolding rbuf_def by (simp add: put_bytes_def)
  show "load16 rbuf 0 = Some IPC_ACCEPT" "load32 rbuf 2 = Some pid" "load32 rbuf 6 = Some (word_of_int rc)"
    "load32 rbuf 10 = Some 0"
    unfolding r accept_reply_def by (simp_all add: msg_simps del: load_in_range)
  have "drop 22 (accept_reply c pid rc want peer) = (if want then accept_addr c peer else drop 22 (alloca c 38))"
    by (simp add: accept_reply_def)
  then show "load_bytes rbuf 22 16 = Some (if want then accept_addr c peer else drop 22 (alloca c 38))"
    using len by (simp add: r load_bytes_def)
qed

lemma lvl_accept_ok:
  assumes "lvlip_get_sock fd socks = Some (Some k)" and "is_int fd" and "length b = IPC_BUFLEN"
    and "so_accept (sint pid) fd (ie_env c) w = Some (Returned (rc, peer), w')" and "is_int rc" and "0 \<le> rc"
  shows "\<exists>b'. length b' = IPC_BUFLEN \<and> lvl_accept (ipc_chan c) pid fd want socks (b, w) =
    Some (\<lparr>lr_rc = rc, lr_errno = None, lr_buf = [], lr_addr = (if want then Some (accept_addr c peer) else None)\<rparr>,
      socks @ [Lvlip rc (ls_lvlfd k)], (b', w'))"
proof -
  let ?m = "ipc_hdr IPC_ACCEPT pid @ bytes32 (word_of_int fd) @ bytes32 (of_bool want) @ replicate 16 0"
  let ?b = "bytes16 IPC_ACCEPT @ bytes32 pid @ bytes32 (word_of_int fd) @ bytes32 (of_bool want) @ replicate 16 0 @ drop 30 b"
  have "ipc_accept c ?b w = Some (Returned \<lparr>rp_rc = 0, rp_out = accept_reply c pid rc want peer\<rparr>, w')"
    by (rule ipc_accept_replies [OF HOL.refl]) (simp add: assms(2,4))
  then have "demux_ipc_socket_call c ?b w = Some (Returned \<lparr>rp_rc = 0, rp_out = accept_reply c pid rc want peer\<rparr>, w')"
    by (simp add: demux_ipc_socket_call_def msg_simps del: load_in_range)
  moreover have "put_bytes b 0 (take IPC_BUFLEN ?m) = ?b"
    using assms(3) by (simp add: put_bytes_def ipc_hdr_def)
  moreover have "accept_reply c pid rc want peer \<noteq> []" by (simp add: accept_reply_def bytes16_def)
  ultimately have ch: "ipc_chan c l ?m (b, w) = Some (accept_reply c pid rc want peer, (?b, w'))" for l
    by (simp add: ipc_chan_def ipc_round_def)
  note f = accept_reply_fields [where c = c and pid = pid and rc = rc and want = want and peer = peer]
  have "lvl_accept (ipc_chan c) pid fd want socks (b, w) =
    Some (\<lparr>lr_rc = rc, lr_errno = None, lr_buf = [], lr_addr = (if want then Some (accept_addr c peer) else None)\<rparr>,
      socks @ [Lvlip rc (ls_lvlfd k)], (?b, w'))"
    using assms(1,5,6) by (simp add: lvl_accept_def ch f lvlip_socks_enqueue_def del: load_in_range)
  moreover have "length ?b = IPC_BUFLEN" using assms(3) by simp
  ultimately show ?thesis by blast
qed

section \<open>Datagrams\<close>

lemma lvl_sendto_ok:
  assumes "lvlip_get_sock fd socks = Some (Some k)" and "is_int fd" and "length b = IPC_BUFLEN"
    and "load_addr addr 0 = Some a" and "length addr = 16" and "length d \<le> 4062"
    and "so_sendto (sint pid) fd d (int (length d)) (Some a) w = Some (r, w')" and "is_int (rc_value c r)"
  shows "\<exists>b'. length b' = IPC_BUFLEN \<and>
    lvl_sendto (ipc_chan c) pid fd d (of_nat (length d)) addr socks (b, w) = Some (errno_of (rc_value c r), (b', w'))"
proof -
  let ?n = "of_nat (length d) :: u64"
  let ?rest = "bytes32 (word_of_int fd) @ bytes64 ?n @ addr @ d"
  let ?m = "bytes16 IPC_SENDTO @ bytes32 pid @ ?rest @ drop (length (ipc_hdr IPC_SENDTO pid @ ?rest)) b"
  have n: "unat ?n = length d" "(ucast ?n :: u32) = of_nat (length d)" "sint (of_nat (length d) :: u32) = int (length d)"
    using assms(6) word64_length [of "length d"] by (simp_all add: unsigned_of_nat take_bit_nat_eq_self)
  have len: "length ?m = IPC_BUFLEN" using assms(3,5,6) by (simp add: ipc_hdr_def)
  have "ipc_payload c ?m 34 ?n = Some (Some (take (unat ?n) (drop 34 ?m)))"
    using len assms(5,6) n(1) by (intro ipc_payload_fits) (simp_all add: ipc_hdr_def)
  then have pay: "ipc_payload c ?m 34 ?n = Some (Some d)" using n(1) assms(5) by simp
  have "demux_ipc_socket_call c ?m w = Some (Returned (ipc_write_rc pid IPC_SENDTO (rc_value c r)), w')"
    using assms(2,4,5,7) pay n by (simp add: demux_ipc_socket_call_def ipc_sendto_def msg_simps del: load_in_range)
  then show ?thesis
    using transmit_ok [of "ipc_hdr IPC_SENDTO pid @ ?rest" IPC_SENDTO pid ?rest, OF _ _ assms(3) _ assms(8)] assms n(1)
    by (simp add: lvl_sendto_def ipc_hdr_def)
qed

text \<open>The address that \<open>udp_recvfrom\<close> stores over the 16 bytes the request has for it.\<close>

definition sender_addr :: "bytes \<Rightarrow> sockaddr_in \<Rightarrow> bytes" where
  "sender_addr junk a = bytes16 2 @ bytes16 (sin_port a) @ bytes32 (sin_addr a) @ drop 8 junk"

definition recvfrom_reply :: "ipc_ctx \<Rightarrow> u32 \<Rightarrow> u32 \<Rightarrow> bytes \<Rightarrow> bytes option \<Rightarrow> bytes" where
  "recvfrom_reply c pid fd out addr = (let b = alloca c (46 + length out) in
     bytes16 IPC_RECVFROM @ bytes32 pid @ bytes32 (word_of_int (int (length out))) @ bytes32 0 @
     bytes32 fd @ bytes64 (word_of_int (int (length out))) @ take 4 (drop 26 b) @
     (case addr of Some a \<Rightarrow> a | None \<Rightarrow> take 16 (drop 30 b)) @ out)"

lemma split_at: "n \<le> length xs - m \<Longrightarrow> drop m xs = take n (drop m xs) @ drop (m + n) xs"
  by (metis add.commute append_take_drop_id drop_drop)

lemma sender_addr_stored:
  assumes msg: "msg = pre @ junk @ rest" and pre: "length pre = 22" and junk: "length junk = 16"
  shows "Option.bind (store16 msg 22 2) (\<lambda>m. Option.bind (store16 m 24 (sin_port a)) (\<lambda>m. store32 m 26 (sin_addr a))) =
    Some (pre @ sender_addr junk a @ rest)"
proof -
  have 1: "store16 msg 22 2 = Some ((pre @ bytes16 2) @ drop 2 junk @ rest)"
    using store_append(1) [of "junk @ rest" pre 2] msg pre junk by (simp del: store_in_range)
  have 2: "store16 ((pre @ bytes16 2) @ drop 2 junk @ rest) 24 (sin_port a) =
      Some ((pre @ bytes16 2 @ bytes16 (sin_port a)) @ drop 4 junk @ rest)"
    using store_append(1) [of "drop 2 junk @ rest" "pre @ bytes16 2"] pre junk by (simp del: store_in_range)
  have 3: "store32 ((pre @ bytes16 2 @ bytes16 (sin_port a)) @ drop 4 junk @ rest) 26 (sin_addr a) =
      Some (pre @ sender_addr junk a @ rest)"
    using store_append(2) [of "drop 4 junk @ rest" "pre @ bytes16 2 @ bytes16 (sin_port a)"] pre junk
    by (simp add: sender_addr_def del: store_in_range)
  show ?thesis by (simp only: 1 2 3 bind.bind_lunit)
qed

lemma recvfrom_reply_built:
  fixes h b out :: bytes
  assumes len: "length h = 14" "length b = 46 + length out"
  shows "store32 (h @ drop 14 b) 14 fd = Some ((h @ bytes32 fd) @ drop 18 b)"
    "store64 ((h @ bytes32 fd) @ drop 18 b) 18 v = Some ((h @ bytes32 fd @ bytes64 v) @ drop 26 b)"
    "(h @ bytes32 fd @ bytes64 v) @ drop 26 b =
      (h @ bytes32 fd @ bytes64 v @ take 4 (drop 26 b)) @ take 16 (drop 30 b) @ drop 46 b"
    "length a = 16 \<Longrightarrow> store_bytes ((h @ bytes32 fd @ bytes64 v) @ drop 26 b) 30 a =
      Some ((h @ bytes32 fd @ bytes64 v @ take 4 (drop 26 b)) @ a @ drop 46 b)"
    "length a = 16 \<Longrightarrow> store_bytes ((h @ bytes32 fd @ bytes64 v @ take 4 (drop 26 b)) @ a @ drop 46 b) 46 out =
      Some (h @ bytes32 fd @ bytes64 v @ take 4 (drop 26 b) @ a @ out)"
proof -
  show "store32 (h @ drop 14 b) 14 fd = Some ((h @ bytes32 fd) @ drop 18 b)"
    using store_append(2) [of "drop 14 b" h] len by (simp del: store_in_range)
  show "store64 ((h @ bytes32 fd) @ drop 18 b) 18 v = Some ((h @ bytes32 fd @ bytes64 v) @ drop 26 b)"
    using store_append(3) [of "drop 18 b" "h @ bytes32 fd"] len by (simp del: store_in_range)
  have e: "drop 26 b = take 4 (drop 26 b) @ drop 30 b" "drop 30 b = take 16 (drop 30 b) @ drop 46 b"
    using split_at [of 4 b 26] split_at [of 16 b 30] len by simp_all
  then have e': "(h @ bytes32 fd @ bytes64 v) @ drop 26 b = (h @ bytes32 fd @ bytes64 v @ take 4 (drop 26 b)) @ drop 30 b"
    by (metis append.assoc)
  with e(2) show "(h @ bytes32 fd @ bytes64 v) @ drop 26 b =
      (h @ bytes32 fd @ bytes64 v @ take 4 (drop 26 b)) @ take 16 (drop 30 b) @ drop 46 b" by simp
  assume a: "length a = 16"
  show "store_bytes ((h @ bytes32 fd @ bytes64 v) @ drop 26 b) 30 a =
      Some ((h @ bytes32 fd @ bytes64 v @ take 4 (drop 26 b)) @ a @ drop 46 b)"
    unfolding e' using store_append(4) [of a "drop 30 b" "h @ bytes32 fd @ bytes64 v @ take 4 (drop 26 b)"] len a
    by (simp del: store_in_range)
  show "store_bytes ((h @ bytes32 fd @ bytes64 v @ take 4 (drop 26 b)) @ a @ drop 46 b) 46 out =
      Some (h @ bytes32 fd @ bytes64 v @ take 4 (drop 26 b) @ a @ out)"
    using store_append(4) [of out "drop 46 b" "h @ bytes32 fd @ bytes64 v @ take 4 (drop 26 b) @ a"] len a
    by (simp del: store_in_range)
qed

lemma ipc_recvfrom_replies:
  assumes msg: "msg = (bytes16 t @ bytes32 pid @ bytes32 fd @ bytes64 len' @ bytes32 (of_bool want)) @ junk @ rest"
    and junk: "length junk = 16"
    and rd: "so_recvfrom (sint pid) (sint fd) (sint (ucast len' :: u32)) (ie_env c) w =
      Some (Returned \<lparr>rv_rc = int (length out), rv_bytes = out, rv_from = Some a\<rparr>, w')"
    and fits: "length out \<le> unat len'"
  shows "ipc_recvfrom c msg w = Some (Returned \<lparr>rp_rc = 0,
    rp_out = recvfrom_reply c pid fd out (if want then Some (sender_addr junk a) else None)\<rparr>, w')"
proof -
  let ?n = "length out" and ?s = "sender_addr junk a"
  let ?b = "alloca c (46 + ?n)"
  let ?pre = "bytes16 t @ bytes32 pid @ bytes32 fd @ bytes64 len' @ bytes32 (of_bool want)"
  let ?h = "bytes16 IPC_RECVFROM @ bytes32 pid @ bytes32 (word_of_int (int ?n)) @ bytes32 0"
  have ints: "nat (46 + int ?n) = 46 + ?n" "(if 0 < int ?n then nat (int ?n) else 0) = ?n"
      "(if int ?n < 0 then - 1 else int ?n) = int ?n" "(if int ?n < 0 then - int ?n else 0) = 0"
    by simp_all
  have 0: "load32 msg 2 = Some pid" "load32 msg 6 = Some fd" "load64 msg 10 = Some len'" "load32 msg 18 = Some (of_bool want)"
    unfolding msg by (simp_all add: msg_simps del: load_in_range)
  have 1: "store_bytes (replicate (unat len') 0) 0 out = Some (put_bytes (replicate (unat len') 0) 0 out)"
    using fits by simp
  have 2: "load_bytes (put_bytes (replicate (unat len') 0) 0 out) 0 ?n = Some out"
    using fits by (simp add: put_bytes_def)
  have 3: "ipc_reply_head ?b IPC_RECVFROM pid (int ?n) 0 = Some (?h @ drop 14 ?b)"
    by (simp add: ipc_reply_head_fields)
  have s16: "length ?s = 16" using junk by (simp add: sender_addr_def)
  then have 4: "load_bytes (?pre @ ?s @ rest) 22 16 = Some ?s"
    using load_skip_plus(3) [of ?pre "?s @ rest" 0 16] by (simp add: load_bytes_def)
  have len: "length ?h = 14" "length ?b = 46 + ?n" by simp_all
  note st = recvfrom_reply_built [OF len]
  have nz: "((of_bool want :: u32) \<noteq> 0) = want" by simp
  show ?thesis
  proof (cases want)
    case True
    then have tr: "(case want of True \<Rightarrow> x | False \<Rightarrow> y) = x" "(if want then x else y) = x" for x y :: 'x
      by simp_all
    have "length ?pre = 22" by simp
    note stored = sender_addr_stored [OF msg this junk, of a]
    show ?thesis
      by (simp only: ipc_recvfrom_def 0 rd 1 2 3 [unfolded append_assoc] 4 [unfolded append_assoc] ints
          st(1,2) [unfolded append_assoc] st(4,5) [OF s16, unfolded append_assoc] nz tr recvfrom_reply_def Let_def
          stored [unfolded append_assoc] bind.bind_lunit prod.case outcome.case received.select_convs option.case append_assoc)
  next
    case False
    then have fl: "(case want of True \<Rightarrow> x | False \<Rightarrow> y) = y" "(if want then x else y) = y" for x y :: 'x
      by simp_all
    have "length (take 16 (drop 30 ?b)) = 16" by simp
    note put = st(5) [OF this]
    show ?thesis
      by (simp only: ipc_recvfrom_def 0 rd 1 2 3 [unfolded append_assoc] ints
          st(1,2,3) [unfolded append_assoc] put [unfolded append_assoc] nz fl recvfrom_reply_def Let_def
          bind.bind_lunit prod.case outcome.case received.select_convs option.case append_assoc)
  qed
qed

lemma recvfrom_reply_fields:
  fixes pid fd :: u32 and c :: ipc_ctx and out :: bytes and addr :: "bytes option" and n :: nat
  assumes "length out \<le> n" and "length out < 2 ^ 31" and "\<forall>a. addr = Some a \<longrightarrow> length a = 16"
  defines "rbuf \<equiv> put_bytes (replicate (46 + n) 0) 0 (take (46 + n) (recvfrom_reply c pid fd out addr))"
  shows "load16 rbuf 0 = Some IPC_RECVFROM" "load32 rbuf 2 = Some pid"
    "load32 rbuf 6 = Some (word_of_int (int (length out)))" "load32 rbuf 10 = Some 0"
    "load64 rbuf 18 = Some (word_of_int (int (length out)))" "load_bytes rbuf 46 (length out) = Some out"
    "\<exists>a. load_bytes rbuf 30 16 = Some a \<and> (\<forall>x. addr = Some x \<longrightarrow> a = x)"
proof -
  let ?b = "alloca c (46 + length out)"
  define ad where "ad = (case addr of Some a \<Rightarrow> a | None \<Rightarrow> take 16 (drop 30 ?b))"
  have ad: "length ad = 16" using assms(3) by (auto simp: ad_def split: option.splits)
  let ?h = "bytes16 IPC_RECVFROM @ bytes32 pid @ bytes32 (word_of_int (int (length out))) @ bytes32 0 @
    bytes32 fd @ bytes64 (word_of_int (int (length out))) @ take 4 (drop 26 ?b)"
  have rep: "recvfrom_reply c pid fd out addr = ?h @ ad @ out" by (simp add: recvfrom_reply_def ad_def Let_def)
  have r: "rbuf = ?h @ ad @ out @ drop (46 + length out) (replicate (46 + n) 0)"
    using assms(1) ad unfolding rbuf_def rep by (simp add: put_bytes_def)
  show "load16 rbuf 0 = Some IPC_RECVFROM" "load32 rbuf 2 = Some pid"
    "load32 rbuf 6 = Some (word_of_int (int (length out)))" "load32 rbuf 10 = Some 0"
    "load64 rbuf 18 = Some (word_of_int (int (length out)))"
    unfolding r by (simp_all add: msg_simps del: load_in_range)
  have h: "length ?h = 30" by simp
  have "load_bytes rbuf 30 16 = Some ad"
    using load_skip_plus(3) [of ?h "ad @ out @ drop (46 + length out) (replicate (46 + n) 0)" 0 16] ad h
    unfolding r by (simp add: load_bytes_def)
  then show "\<exists>a. load_bytes rbuf 30 16 = Some a \<and> (\<forall>x. addr = Some x \<longrightarrow> a = x)" by (simp add: ad_def)
  show "load_bytes rbuf 46 (length out) = Some out"
    using load_skip_plus(3) [of "?h @ ad" "out @ drop (46 + length out) (replicate (46 + n) 0)" 0 "length out"] ad
    unfolding r by (simp add: load_bytes_def)
qed

lemma lvl_recvfrom_ok:
  assumes "lvlip_get_sock fd socks = Some (Some k)" and "is_int fd" and "length b = IPC_BUFLEN" and "length junk = 16"
    and "so_recvfrom (sint pid) fd (sint (ucast len' :: u32)) (ie_env c) w =
      Some (Returned \<lparr>rv_rc = int (length out), rv_bytes = out, rv_from = Some a\<rparr>, w')"
    and "length out \<le> unat len'" and "length out < 2 ^ 31"
  shows "\<exists>b'. length b' = IPC_BUFLEN \<and> lvl_recvfrom (ipc_chan c) pid fd len' want junk socks (b, w) =
    Some (\<lparr>lr_rc = int (length out), lr_errno = None, lr_buf = out @ replicate (unat len' - length out) 0,
           lr_addr = (if want then Some (sender_addr junk a) else None)\<rparr>, (b', w'))"
proof -
  let ?m = "ipc_hdr IPC_RECVFROM pid @ bytes32 (word_of_int fd) @ bytes64 len' @ bytes32 (of_bool want) @ junk"
  let ?pre = "bytes16 IPC_RECVFROM @ bytes32 pid @ bytes32 (word_of_int fd) @ bytes64 len' @ bytes32 (of_bool want)"
  let ?b = "?pre @ junk @ drop 38 b" and ?ad = "if want then Some (sender_addr junk a) else None"
  let ?r = "recvfrom_reply c pid (word_of_int fd) out ?ad"
  have "ipc_recvfrom c ?b w = Some (Returned \<lparr>rp_rc = 0, rp_out = ?r\<rparr>, w')"
    by (rule ipc_recvfrom_replies [OF HOL.refl assms(4) _ assms(6)]) (simp add: assms(2,5))
  then have "demux_ipc_socket_call c ?b w = Some (Returned \<lparr>rp_rc = 0, rp_out = ?r\<rparr>, w')"
    by (simp add: demux_ipc_socket_call_def msg_simps del: load_in_range)
  moreover have "put_bytes b 0 (take IPC_BUFLEN ?m) = ?b"
    using assms(3,4) by (simp add: put_bytes_def ipc_hdr_def)
  moreover have "?r \<noteq> []" by (simp add: recvfrom_reply_def bytes16_def Let_def)
  ultimately have ch: "ipc_chan c l ?m (b, w) = Some (?r, (?b, w'))" for l
    by (simp add: ipc_chan_def ipc_round_def)
  have ad: "\<forall>x. ?ad = Some x \<longrightarrow> length x = 16" using assms(4) by (auto simp: sender_addr_def)
  note f = recvfrom_reply_fields [OF assms(6,7) ad, where c = c and pid = pid and fd = "word_of_int fd"]
  obtain x where x: "load_bytes (put_bytes (replicate (46 + unat len') 0) 0 (take (46 + unat len') ?r)) 30 16 = Some x"
      "\<forall>y. ?ad = Some y \<longrightarrow> x = y"
    using f(7) by blast
  have st: "store_bytes (replicate (unat len') 0) 0 out = Some (out @ replicate (unat len' - length out) 0)"
    using assms(6) by (simp add: put_bytes_def)
  have ld: "(if want then Some x else None) = ?ad" using x(2) by simp
  have "lvl_recvfrom (ipc_chan c) pid fd len' want junk socks (b, w) =
    Some (\<lparr>lr_rc = int (length out), lr_errno = None, lr_buf = out @ replicate (unat len' - length out) 0,
           lr_addr = ?ad\<rparr>, (?b, w'))"
    using ld by (simp add: lvl_recvfrom_def assms(1) ch f(1-6) x(1) st word64_length [OF assms(7)] del: load_in_range store_in_range)
  moreover have "length ?b = IPC_BUFLEN" using assms(3,4) by simp
  ultimately show ?thesis by blast
qed

end
