(* ===== verification/Serving.thy ===== *)
theory Serving
  imports Isolation Application Handshake Levelip_Calls
begin

text \<open>
  A server on the stack, as its application sees it: \<open>socket\<close>, \<open>bind\<close>, \<open>listen\<close>, \<open>accept\<close>, \<open>write\<close>.  The
  sockets of the application stay found while the connections come and go, by the theorems on
  the isolation of their table.
\<close>

section \<open>The table of sockets grows\<close>

lemma walled_agree: "walled A h \<Longrightarrow> agree (- A) h h' \<Longrightarrow> walled A h'"
  by (auto simp: walled_def agree_def)

lemma zone_insert: "zone (insert n S) (Suc n) = zone S n"
  by (auto simp: zone_def le_Suc_eq)

lemma alloc_socket_apart:
  assumes "apart S w"
  shows "\<exists>h. alloc_socket pid w = Some (w_next w, put_so (w_next w)
      \<lparr>so_fd = w_fd w, so_pid = pid, so_type = None, so_flags = O_RDWR, so_sk = Unset, so_ops = False\<rparr>
      (w\<lparr>w_next := w_next w + 1, w_links := h, w_fd := w_fd w + 1\<rparr>)) \<and>
    agree (- nodes (w_next w)) (w_links w) h \<and> walled (zone (insert (w_next w) S) (w_next w + 1)) h"
proof -
  let ?n = "w_next w" and ?h = "clear_nodes (w_next w) (w_links w)"
  obtain h where h: "list_init ?h (link_of ?n) = Some h" using dlist_init [of "link_of ?n"] by auto
  have "walled (zone S ?n) ?h" by (rule clear_walled) (use assms in \<open>simp_all add: apart_def\<close>)
  then have "walled (zone S ?n) h"
    by (rule walled_agree) (rule agree_subset [OF list_init_agree [OF h]], simp)
  moreover have "agree (- nodes ?n) (w_links w) h"
    by (rule agree_trans [OF clear_nodes_agree agree_subset [OF list_init_agree [OF h]]]) (simp add: nodes_def)
  ultimately show ?thesis
    using h by (intro exI [of _ h]) (simp add: alloc_socket_def Let_def zone_insert)
qed

lemma enqueue_apart:
  assumes "apart S w" and "so_table w sos" and "set sos \<subseteq> S" and "so \<in> S" and "so \<notin> set sos" and "0 < so"
  shows "\<exists>h. socket_sockets_enqueue so w = Some (w\<lparr>w_links := h, w_socket_count := w_socket_count w + 1\<rparr>) \<and>
    ring_holds SO_HEAD (w\<lparr>w_links := h, w_socket_count := w_socket_count w + 1\<rparr>) (sos @ [so]) \<and>
    apart S (w\<lparr>w_links := h, w_socket_count := w_socket_count w + 1\<rparr>) \<and>
    agree (- (link_of ` insert 0 (insert so (set sos)))) (w_links w) h"
proof -
  have ring: "ring_holds SO_HEAD w sos" using assms(2) by (simp add: so_table_def)
  have so: "SO_HEAD = link_of 0" "link_of so \<noteq> SO_HEAD" using assms(6) by (simp_all add: link_of_def)
  obtain h where h: "list_add_tail (w_links w) (link_of so) SO_HEAD = Some h"
    "ring_holds SO_HEAD (w\<lparr>w_links := h\<rparr>) (sos @ [so])"
    using ring_holds_enq [OF ring assms(5)] so(2) by blast
  have "agree (- set (link_of so # SO_HEAD # map link_of sos)) (w_links w) h"
    using ring h(1) list_add_tail_agree unfolding ring_holds_def by blast
  then have ag: "agree (- (link_of ` insert 0 (insert so (set sos)))) (w_links w) h"
    by (rule agree_subset) (use so(1) in auto)
  have "walled (zone S (w_next w)) h"
    by (rule walled_agree [OF _ agree_subset [OF ag]])
      (use assms(1,3,4) in \<open>auto simp: apart_def\<close>)
  then show ?thesis
    using assms(1) h ag by (intro exI [of _ h]) (simp add: socket_sockets_enqueue_def apart_def ring_holds_def)
qed

section \<open>A stream socket\<close>

lemma tcp_alloc_queues: "tcp_alloc_sock w = Some (c, w') \<Longrightarrow> backlog w' c [] []"
  by (auto simp: tcp_alloc_sock_def list_init_def link_defs backlog_def dlist_def Let_def listen_queue_of_def
      accept_queue_of_def split: if_splits elim!: bind_SomeE)

definition stream_tsk :: "nat \<Rightarrow> tcp_sock" where
  "stream_tsk so = on_sk (\<lambda>sk. sk_init_with_socket so (sk\<lparr>sk_protocol := 0\<rparr>)) tcp_sock_zero"

definition stream_socket :: "world \<Rightarrow> int \<Rightarrow> socket" where
  "stream_socket w pid = \<lparr>so_fd = w_fd w, so_pid = pid, so_type = Some SOCK_STREAM, so_flags = O_RDWR,
     so_sk = Sk (w_next w + 1), so_ops = True\<rparr>"

text \<open>The state after \<open>_socket (AF_INET, SOCK_STREAM, 0)\<close>, with the list nodes \<open>h\<close>.\<close>

definition with_stream :: "int \<Rightarrow> links \<Rightarrow> world \<Rightarrow> world" where
  "with_stream pid h w = w\<lparr>w_next := w_next w + 2, w_fd := w_fd w + 1, w_links := h, w_socket_count := w_socket_count w + 1,
     w_tcp := (w_tcp w)(w_next w + 1 \<mapsto> stream_tsk (w_next w)),
     w_sockets := (w_sockets w)(w_next w \<mapsto> stream_socket w pid)\<rparr>"

lemma so_socket_stream:
  assumes ap: "apart S w" and tb: "so_table w sos" and sub: "set sos \<subseteq> S" and ta: "tables w cs es"
  shows "\<exists>h. so_socket pid AF_INET SOCK_STREAM 0 w = Some (w_fd w, with_stream pid h w) \<and>
    so_table (with_stream pid h w) (sos @ [w_next w]) \<and> apart (insert (w_next w) S) (with_stream pid h w) \<and>
    tables (with_stream pid h w) cs es \<and> backlog (with_stream pid h w) (w_next w + 1) [] [] \<and>
    get_socket (with_stream pid h w) pid (w_fd w) = Some (Some (w_next w))"
proof -
  let ?n = "w_next w" and ?S = "insert (w_next w) S"
  let ?x = "\<lparr>so_fd = w_fd w, so_pid = pid, so_type = None, so_flags = O_RDWR, so_sk = Unset, so_ops = False\<rparr>"
  obtain h1 where h1: "alloc_socket pid w = Some (?n, put_so ?n ?x (w\<lparr>w_next := ?n + 1, w_links := h1, w_fd := w_fd w + 1\<rparr>))"
    "agree (- nodes ?n) (w_links w) h1" "walled (zone ?S (?n + 1)) h1"
    using alloc_socket_apart [OF ap] by blast
  let ?w1 = "put_so ?n (?x\<lparr>so_type := Some SOCK_STREAM\<rparr>) (w\<lparr>w_next := ?n + 1, w_links := h1, w_fd := w_fd w + 1\<rparr>)"
  have n: "0 < ?n" "?n \<notin> S" "?n \<notin> set sos" "?n \<notin> dom (w_tcp w)" "?n \<notin> dom (w_udp w)"
    using ap tb by (auto simp: apart_def so_table_def)
  have a1: "apart ?S ?w1"
    using ap h1(3) n by (auto simp: apart_def)
  obtain h2 where h2: "tcp_alloc_sock ?w1 = Some (?n + 1, put_tsk (?n + 1) tcp_sock_zero (?w1\<lparr>w_next := ?n + 2, w_links := h2\<rparr>))"
    "agree (- nodes (?n + 1)) h1 h2"
    using tcp_alloc_sock_ok [of ?w1] by auto
  let ?w2 = "put_so ?n (stream_socket w pid) (put_tsk (?n + 1) (stream_tsk ?n) (?w1\<lparr>w_next := ?n + 2, w_links := h2\<rparr>))"
  have i2: "isolated ?S ?w1 (put_tsk (?n + 1) tcp_sock_zero (?w1\<lparr>w_next := ?n + 2, w_links := h2\<rparr>))"
    using iso.tcp_alloc [OF isolated_refl [OF a1] h2(1)] .
  then have a2: "apart ?S ?w2" by (simp add: isolated_def apart_def put_tsk_def put_so_def)
  have b2: "backlog ?w2 (?n + 1) [] []"
    using tcp_alloc_queues [OF h2(1)] by (simp add: backlog_def)
  have run1: "inet_create ?n 0 ?w1 = Some (0, ?w2)"
    using h2(1) by (simp add: inet_create_def inet_ops_def sk_alloc_def upd_tsk_def stream_tsk_def stream_socket_def put_tsk_def put_so_def)
  have tb1: "so_table ?w1 sos"
    using tb so_ring_agree [OF tb h1(2), of ?w1] n by (fastforce simp: so_table_def)
  have "so_table (put_tsk (?n + 1) tcp_sock_zero (?w1\<lparr>w_next := ?n + 2, w_links := h2\<rparr>)) sos"
    using isolated_table [OF tb1 i2] sub by blast
  then have tb2: "so_table ?w2 sos"
    using n(3) by (auto simp: so_table_def ring_holds_def put_tsk_def put_so_def)
  obtain h3 where h3: "socket_sockets_enqueue ?n ?w2 = Some (?w2\<lparr>w_links := h3, w_socket_count := w_socket_count ?w2 + 1\<rparr>)"
    "apart ?S (?w2\<lparr>w_links := h3, w_socket_count := w_socket_count ?w2 + 1\<rparr>)"
    "agree (- (link_of ` insert 0 (insert ?n (set sos)))) h2 h3"
    using enqueue_apart [OF a2 tb2, of ?n] sub n(1,3) by auto
  let ?w3 = "with_stream pid h3 w"
  have w3: "?w2\<lparr>w_links := h3, w_socket_count := w_socket_count ?w2 + 1\<rparr> = ?w3"
    by (simp add: with_stream_def put_tsk_def put_so_def)
  have run: "so_socket pid AF_INET SOCK_STREAM 0 w = Some (w_fd w, ?w3)"
    using h1(1) run1 h3(1) w3
    by (simp add: so_socket_def Let_def put_so_def with_stream_def stream_socket_def)
  have tb3: "so_table ?w3 (sos @ [?n])" "get_socket ?w3 pid (w_fd w) = Some (Some ?n)"
    using so_socket_ok [OF tb, of SOCK_STREAM pid 0] run by auto
  let ?A = "nodes ?n \<union> nodes (?n + 1) \<union> link_of ` insert 0 (insert ?n (set sos))"
  have "agree (- ?A) (w_links w) h3"
    by (rule agree_trans [OF agree_subset [OF h1(2)] agree_trans [OF agree_subset [OF h2(2)] agree_subset [OF h3(3)]]]) auto
  moreover have "?A \<inter> insert CL_HEAD (insert ES_HEAD (link_of ` (set cs \<union> set es))) = {}"
  proof -
    have "set cs \<union> set es \<subseteq> dom (w_tcp w)" using ta by (simp add: tables_def)
    then have "x \<noteq> ?n \<and> x \<noteq> ?n + 1 \<and> x \<notin> insert 0 (set sos)" if "x \<in> set cs \<union> set es" for x
    proof -
      have "x \<in> dom (w_tcp w)" using \<open>set cs \<union> set es \<subseteq> dom (w_tcp w)\<close> that by blast
      then have "x < ?n" "x \<notin> S" "0 \<in> S" using ap unfolding apart_def by blast+
      moreover from this have "x \<noteq> 0" by metis
      ultimately show ?thesis using sub by auto
    qed
    then show ?thesis by (auto simp: nodes_def)
  qed
  ultimately have "tables ?w3 cs es"
    by (rule tables_agree [OF ta]) (auto simp: with_stream_def)
  moreover have "backlog ?w3 (?n + 1) [] []"
    by (rule backlog_agree [OF b2, of "link_of ` insert 0 (insert ?n (set sos))" h3])
      (use h3(3) in \<open>auto simp: with_stream_def\<close>)
  ultimately show ?thesis using run tb3 h3(2) w3 by auto
qed

section \<open>Binding and listening\<close>

definition stream_front :: "world \<Rightarrow> int \<Rightarrow> int \<Rightarrow> nat \<Rightarrow> sid \<Rightarrow> bool" where
  "stream_front w pid fd so s \<longleftrightarrow> get_socket w pid fd = Some (Some so) \<and>
     (\<exists>x. w_sockets w so = Some x \<and> so_ops x \<and> so_type x = Some SOCK_STREAM \<and> so_sk x = Sk s)"

lemma stream_front_tcp: "stream_front w pid fd so s \<Longrightarrow> tcp_front w pid fd s"
  by (auto simp: stream_front_def tcp_front_def)

definition port_match :: "world \<Rightarrow> u16 \<Rightarrow> sid \<Rightarrow> bool" where
  "port_match w port s \<longleftrightarrow> (\<exists>t. w_tcp w s = Some t \<and> sk_sport (tsk_sk t) = port)"

lemma tcp_port_used_tables:
  assumes "tables w cs es"
  shows "tcp_port_used w port = Some (\<exists>s\<in>set cs. port_match w port s)"
proof -
  have "ring_find (w_links w) CL_HEAD (\<lambda>s. do { tsk \<leftarrow> w_tcp w s; Some (sk_sport (tsk_sk tsk) = port) }) =
      Some (find_first (port_match w port) cs)"
    by (rule ring_holds_scan) (use assms in \<open>auto simp: tables_def port_match_def\<close>)
  moreover have "(find_first (port_match w port) cs \<noteq> None) = (\<exists>s\<in>set cs. port_match w port s)"
    using find_first_None [of "port_match w port" cs] by auto
  ultimately show ?thesis by (simp only: tcp_port_used_def bind.bind_lunit)
qed

definition bound :: "sockaddr_in \<Rightarrow> tcp_sock \<Rightarrow> tcp_sock" where
  "bound a t = on_sk (\<lambda>sk. sk\<lparr>sk_saddr := ntohl (sin_addr a), sk_sport := ntohs (sin_port a), sk_dport := 0, sk_daddr := 0\<rparr>) t"

lemma so_bind_stream:
  assumes "stream_front w pid fd so p" and "w_tcp w p = Some t" and "sk_sport (tsk_sk t) = 0"
    and "local_ipaddress (w_net w) (ntohl (sin_addr a))" and "ntohs (sin_port a) \<noteq> 0"
    and "tables w cs es" and "p \<notin> set cs" and "\<forall>s\<in>set cs. \<not> port_match w (ntohs (sin_port a)) s"
  shows "so_bind pid fd a w = Some (0, put_tsk p (bound a t) w)"
proof -
  let ?t = "on_sk (\<lambda>sk. sk\<lparr>sk_saddr := ntohl (sin_addr a)\<rparr>) t"
  have "tables (put_tsk p ?t w) cs es"
    using assms(2,6) by (auto simp: tables_def ring_holds_def put_tsk_def)
  then have "tcp_port_used (put_tsk p ?t w) (ntohs (sin_port a)) = Some False"
    using tcp_port_used_tables assms(7,8) by (auto simp: port_match_def)
  then show ?thesis
    using assms(1-5)
    by (auto simp: so_bind_def stream_front_def with_ops_def inet_bind_def sk_of_def sport_of_def ops_of_def upd_tsk_def
        tcp_set_sport_def bound_def on_sk_def Let_def)
qed

lemma so_listen_stream:
  assumes "stream_front w pid fd so p" and "w_tcp w p = Some t" and "sk_sport (tsk_sk t) \<noteq> 0" and "0 \<le> n"
    and "tsk_state t = TCP_CLOSE" and "tables w cs es" and "p \<notin> set (cs @ es)" and "backlog w p [] []"
  shows "\<exists>h. so_listen pid fd n w = Some (0, (put_tsk p (on_sk (\<lambda>sk. sk\<lparr>sk_state := TCP_LISTEN\<rparr>) t) w)\<lparr>w_links := h\<rparr>) \<and>
    tcp_listen p n w = Some (0, (put_tsk p (on_sk (\<lambda>sk. sk\<lparr>sk_state := TCP_LISTEN\<rparr>) t) w)\<lparr>w_links := h\<rparr>) \<and>
    tables ((put_tsk p (on_sk (\<lambda>sk. sk\<lparr>sk_state := TCP_LISTEN\<rparr>) t) w)\<lparr>w_links := h\<rparr>) (cs @ [p]) es \<and>
    backlog ((put_tsk p (on_sk (\<lambda>sk. sk\<lparr>sk_state := TCP_LISTEN\<rparr>) t) w)\<lparr>w_links := h\<rparr>) p [] []"
proof -
  let ?w = "put_tsk p (on_sk (\<lambda>sk. sk\<lparr>sk_state := TCP_LISTEN\<rparr>) t) w"
  have "tables ?w cs es" using assms(2,6) by (auto simp: tables_def ring_holds_def put_tsk_def)
  then obtain h where h: "tcp_connecting_or_listening_socks_enqueue p ?w = Some (?w\<lparr>w_links := h\<rparr>)"
    "tables (?w\<lparr>w_links := h\<rparr>) (cs @ [p]) es"
    using tables_cl_enqueue [of ?w cs es p] assms(2,7) by auto
  have "list_add_tail (w_links w) (link_of p) CL_HEAD = Some h"
    using h(1) by (auto simp: tcp_connecting_or_listening_socks_enqueue_def elim!: bind_SomeE dest!: arg_cong [where f = w_links])
  then have "agree (- set (link_of p # CL_HEAD # map link_of cs)) (w_links w) h"
    using assms(6) list_add_tail_agree unfolding tables_def ring_holds_def by blast
  then have "backlog (?w\<lparr>w_links := h\<rparr>) p [] []"
    by (rule backlog_agree [OF assms(8)]) (auto simp: listen_queue_of_def accept_queue_of_def link_of_def, presburger+)
  moreover have l: "tcp_listen p n w = Some (0, ?w\<lparr>w_links := h\<rparr>)"
    using assms(2,3,5) h(1) by (simp add: tcp_listen_def tcp_set_state_def upd_tsk_def)
  moreover have "so_listen pid fd n w = Some (0, ?w\<lparr>w_links := h\<rparr>)"
    using assms(1,2,4) l
    by (auto simp: so_listen_def stream_front_def with_ops_def inet_listen_def sk_of_def ops_of_def)
  ultimately show ?thesis using h(2) by blast
qed

section \<open>Accepting\<close>

text \<open>What \<open>_accept\<close> has done when it gets to \<open>tcp_accept\<close>: a \<open>struct socket\<close> for the connection to come.\<close>

definition accepting :: "int \<Rightarrow> links \<Rightarrow> world \<Rightarrow> world" where
  "accepting pid h w = put_so (w_next w)
     \<lparr>so_fd = w_fd w, so_pid = pid, so_type = None, so_flags = O_RDWR, so_sk = Unset, so_ops = True\<rparr>
     (w\<lparr>w_next := w_next w + 1, w_links := h, w_fd := w_fd w + 1\<rparr>)"

lemma accepting_simps [simp]:
  "w_tcp (accepting pid h w) = w_tcp w" "w_udp (accepting pid h w) = w_udp w" "w_net (accepting pid h w) = w_net w"
  "w_next (accepting pid h w) = w_next w + 1" "w_links (accepting pid h w) = h" "w_timers (accepting pid h w) = w_timers w"
  "w_others (accepting pid h w) = w_others w" "w_isns (accepting pid h w) = w_isns w"
  "w_isn_cnt (accepting pid h w) = w_isn_cnt w" "w_fd (accepting pid h w) = w_fd w + 1"
  by (simp_all add: accepting_def put_so_def)

definition with_connection :: "int \<Rightarrow> nat \<Rightarrow> sid \<Rightarrow> tcp_sock \<Rightarrow> links \<Rightarrow> int \<Rightarrow> world \<Rightarrow> world" where
  "with_connection fd m c t h pid w = (put_so m
     \<lparr>so_fd = fd, so_pid = pid, so_type = None, so_flags = O_RDWR, so_sk = Sk c, so_ops = True\<rparr>
     (put_tsk c (on_sk (sk_init_with_socket m) t) w))\<lparr>w_links := h, w_socket_count := w_socket_count w + 1\<rparr>"

lemma accepting_ok:
  assumes ap: "apart S w" and tb: "so_table w sos" and sub: "set sos \<subseteq> S" and l: "listening w cs es p [] []"
  shows "\<exists>h. alloc_socket pid w = Some (w_next w, put_so (w_next w)
      \<lparr>so_fd = w_fd w, so_pid = pid, so_type = None, so_flags = O_RDWR, so_sk = Unset, so_ops = False\<rparr>
      (w\<lparr>w_next := w_next w + 1, w_links := h, w_fd := w_fd w + 1\<rparr>)) \<and>
    apart (insert (w_next w) S) (accepting pid h w) \<and> so_table (accepting pid h w) sos \<and>
    listening (accepting pid h w) cs es p [] []"
proof -
  let ?n = "w_next w"
  obtain h where h: "alloc_socket pid w = Some (?n, put_so ?n
      \<lparr>so_fd = w_fd w, so_pid = pid, so_type = None, so_flags = O_RDWR, so_sk = Unset, so_ops = False\<rparr>
      (w\<lparr>w_next := ?n + 1, w_links := h, w_fd := w_fd w + 1\<rparr>))"
    "agree (- nodes ?n) (w_links w) h" "walled (zone (insert ?n S) (?n + 1)) h"
    using alloc_socket_apart [OF ap] by blast
  let ?w = "accepting pid h w"
  have n: "0 < ?n" "?n \<notin> S" "?n \<notin> set sos" "?n \<notin> dom (w_tcp w)" "?n \<notin> dom (w_udp w)"
    using ap tb by (auto simp: apart_def so_table_def)
  have "apart (insert ?n S) ?w" using ap h(3) n by (auto simp: apart_def)
  moreover have "so_table ?w sos"
    using tb so_ring_agree [OF tb h(2), of ?w] n by (fastforce simp: so_table_def accepting_def)
  moreover have "listening ?w cs es p [] []"
  proof -
    note fresh = listening_fresh [OF l]
    have "tables ?w cs es"
      by (rule tables_agree [OF _ h(2)]) (use l fresh in \<open>auto simp: listening_def nodes_def\<close>)
    moreover have "backlog ?w p [] []"
      by (rule backlog_agree [OF _ h(2)])
        (use l fresh in \<open>auto simp: listening_def nodes_def, auto simp: listen_queue_of_def accept_queue_of_def\<close>)
    ultimately show ?thesis using l by (auto simp: listening_def)
  qed
  ultimately show ?thesis using h(1) by blast
qed

lemma so_accept_stream:
  assumes "apart (insert (w_next w) S) (accepting pid h w)" and "so_table (accepting pid h w) sos" and "set sos \<subseteq> S"
    and al: "alloc_socket pid w = Some (w_next w, put_so (w_next w)
      \<lparr>so_fd = w_fd w, so_pid = pid, so_type = None, so_flags = O_RDWR, so_sk = Unset, so_ops = False\<rparr>
      (w\<lparr>w_next := w_next w + 1, w_links := h, w_fd := w_fd w + 1\<rparr>))"
    and fr: "stream_front w pid fd so p" and pt: "w_tcp w p = Some pt" "sk_sport (tsk_sk pt) \<noteq> 0"
    and tb: "so_table w sos" and es: "runs stack_run es"
    and run: "tcp_accept p es (accepting pid h w) = Some (Returned c, w2)" "w_sockets w2 = w_sockets (accepting pid h w)"
      "w_tcp w2 c = Some t"
  shows "\<exists>h4 peer. so_accept pid fd es w = Some (Returned (w_fd w, peer), with_connection (w_fd w) (w_next w) c t h4 pid w2) \<and>
    tcp_front (with_connection (w_fd w) (w_next w) c t h4 pid w2) pid (w_fd w) c \<and>
    so_table (with_connection (w_fd w) (w_next w) c t h4 pid w2) (sos @ [w_next w]) \<and>
    apart (insert (w_next w) S) (with_connection (w_fd w) (w_next w) c t h4 pid w2)"
proof -
  let ?m = "w_next w" and ?wa = "accepting pid h w"
  have "stack_run ?wa w2" using stack_run.tcp_accept [OF run(1) es] .
  then have i: "isolated (insert ?m S) ?wa w2" using run_isolated assms(1) by blast
  have tb2: "so_table w2 sos" using isolated_table [OF assms(2) i] assms(3) by blast
  let ?y = "\<lparr>so_fd = w_fd w, so_pid = pid, so_type = None, so_flags = O_RDWR, so_sk = Sk c, so_ops = True\<rparr>"
  let ?w3 = "put_so ?m ?y (put_tsk c (on_sk (sk_init_with_socket ?m) t) w2)"
  have m: "?m \<notin> set sos" "0 < ?m" using tb by (auto simp: so_table_def)
  have a3: "apart (insert ?m S) ?w3"
    using i run(3) by (auto simp: isolated_def apart_def)
  have f2: "w_fd w2 = w_fd w + 1" using i by (simp add: isolated_def)
  have tb3: "so_table ?w3 sos"
    using tb2 m run(3) by (auto simp: so_table_def ring_holds_def put_tsk_def)
  obtain h4 where h4: "socket_sockets_enqueue ?m ?w3 = Some (?w3\<lparr>w_links := h4, w_socket_count := w_socket_count ?w3 + 1\<rparr>)"
    "ring_holds SO_HEAD (?w3\<lparr>w_links := h4, w_socket_count := w_socket_count ?w3 + 1\<rparr>) (sos @ [?m])"
    "apart (insert ?m S) (?w3\<lparr>w_links := h4, w_socket_count := w_socket_count ?w3 + 1\<rparr>)"
    using enqueue_apart [OF a3 tb3, of ?m] assms(3) m by auto
  let ?w4 = "with_connection (w_fd w) ?m c t h4 pid w2"
  have w4: "?w3\<lparr>w_links := h4, w_socket_count := w_socket_count ?w3 + 1\<rparr> = ?w4"
    by (simp add: with_connection_def put_so_def put_tsk_def)
  have tb4: "so_table ?w4 (sos @ [?m])"
  proof -
    have "w_next w2 > ?m" using a3 by (auto simp: apart_def)
    moreover have "\<exists>x. w_sockets ?w4 so = Some x \<and> so_fd x < w_fd ?w4" if "so \<in> set (sos @ [?m])" for so
      using that tb3 f2 by (auto simp: so_table_def with_connection_def put_tsk_def)
    ultimately show ?thesis
      using h4(2) tb3 m(2) unfolding w4 by (auto simp: so_table_def with_connection_def put_tsk_def)
  qed
  obtain x where x: "get_socket w pid fd = Some (Some so)" "w_sockets w so = Some x" "so_ops x" "so_sk x = Sk p"
    using fr by (auto simp: stream_front_def)
  have "so \<in> set sos" using x(1) tb get_socket_table [OF tb] by (auto dest: find_first_SomeD)
  then have so: "so \<noteq> ?m" using m by auto
  have wm: "w_sockets w2 ?m = Some (?y\<lparr>so_sk := Unset\<rparr>)"
    using run(2) by (simp add: accepting_def)
  have "w_sockets ?w4 ?m = Some ?y" by (simp add: with_connection_def)
  then have "\<exists>peer. so_accept pid fd es w = Some (Returned (w_fd w, peer), ?w4)"
    using x so al run pt h4(1) w4 wm
    by (simp add: so_accept_def with_ops_def inet_accept_def sport_of_def ops_of_def accepting_def put_so_def)
  moreover have "get_socket ?w4 pid (w_fd w) = Some (Some ?m)"
  proof -
    have "\<forall>so\<in>set sos. w_sockets ?w4 so = w_sockets w so"
      using run(2) m(1) by (auto simp: with_connection_def accepting_def)
    moreover have "so_match ?w4 pid (w_fd w) ?m" by (simp add: so_match_def with_connection_def)
    ultimately show ?thesis
      using so_match_fresh [OF tb, of ?w4 pid "w_fd w" ?m pid] get_socket_table [OF tb4] by simp
  qed
  then have "tcp_front ?w4 pid (w_fd w) c" by (simp add: tcp_front_def with_connection_def)
  ultimately show ?thesis using tb4 h4(3) w4 by auto
qed

section \<open>A listening server\<close>

definition same_rest :: "world \<Rightarrow> world \<Rightarrow> bool" where
  "same_rest u w \<longleftrightarrow> w_net w = w_net u \<and> w_timers w = w_timers u \<and> w_others w = w_others u \<and> w_isns w = w_isns u \<and>
     w_isn_cnt w = w_isn_cnt u"

text \<open>
  The state \<open>w'\<close> after \<open>_socket\<close>, \<open>_bind\<close> and \<open>_listen\<close> in \<open>w\<close>: descriptor \<open>w_fd w\<close> stands for a listening
  socket with control block \<open>pt\<close>.
\<close>

definition serving ::
    "nat set \<Rightarrow> nat list \<Rightarrow> sid list \<Rightarrow> sid list \<Rightarrow> int \<Rightarrow> sockaddr_in \<Rightarrow> world \<Rightarrow> world \<Rightarrow> tcp_sock \<Rightarrow> bool" where
  "serving S sos cs es pid a w w' pt \<longleftrightarrow> apart (insert (w_next w) S) w' \<and> so_table w' (sos @ [w_next w]) \<and>
     stream_front w' pid (w_fd w) (w_next w) (w_next w + 1) \<and>
     listening w' (cs @ [w_next w + 1]) es (w_next w + 1) [] [] \<and> w_tcp w' = (w_tcp w)(w_next w + 1 \<mapsto> pt) \<and>
     tsk_state pt = TCP_LISTEN \<and> sk_saddr (tsk_sk pt) = ntohl (sin_addr a) \<and> sk_sport (tsk_sk pt) = ntohs (sin_port a) \<and>
     same_rest w w' \<and> w_next w' = w_next w + 2 \<and> w_fd w' = w_fd w + 1"

lemma server_listens:
  assumes ap: "apart S w" and tb: "so_table w sos" and sub: "set sos \<subseteq> S" and ta: "tables w cs es"
    and a: "local_ipaddress (w_net w) (ntohl (sin_addr a))" "ntohs (sin_port a) \<noteq> 0"
      "\<forall>s\<in>set cs. \<not> port_match w (ntohs (sin_port a)) s" and n: "0 \<le> n"
  shows "\<exists>w1 w2 w3 pt. so_socket pid AF_INET SOCK_STREAM 0 w = Some (w_fd w, w1) \<and>
    so_bind pid (w_fd w) a w1 = Some (0, w2) \<and> so_listen pid (w_fd w) n w2 = Some (0, w3) \<and>
    serving S sos cs es pid a w w3 pt"
proof -
  let ?so = "w_next w" and ?p = "w_next w + 1" and ?fd = "w_fd w"
  obtain h where h: "so_socket pid AF_INET SOCK_STREAM 0 w = Some (?fd, with_stream pid h w)"
      "so_table (with_stream pid h w) (sos @ [?so])" "apart (insert ?so S) (with_stream pid h w)"
      "tables (with_stream pid h w) cs es" "backlog (with_stream pid h w) ?p [] []"
      "get_socket (with_stream pid h w) pid ?fd = Some (Some ?so)"
    using so_socket_stream [OF ap tb sub ta] by blast
  let ?w1 = "with_stream pid h w" and ?t = "stream_tsk ?so"
  have t1: "w_tcp ?w1 ?p = Some ?t" "sk_sport (tsk_sk ?t) = 0" "tsk_state ?t = TCP_CLOSE"
    by (simp_all add: with_stream_def stream_tsk_def sk_init_with_socket_def sk_init_def tcp_sock_zero_def sock_zero_def)
  have f1: "stream_front ?w1 pid ?fd ?so ?p"
    using h(6) by (simp add: stream_front_def with_stream_def stream_socket_def)
  have dom: "dom (w_tcp w) \<subseteq> {..<?so}" using ap by (simp add: apart_def)
  have cs: "set cs \<union> set es \<subseteq> dom (w_tcp w)" using ta by (simp add: tables_def)
  moreover have "?p \<notin> dom (w_tcp w)" using dom by (meson lessThan_iff not_add_less1 subsetD)
  ultimately have p: "?p \<notin> set (cs @ es)" unfolding set_append by blast
  have a1: "local_ipaddress (w_net ?w1) (ntohl (sin_addr a))" "\<forall>s\<in>set cs. \<not> port_match ?w1 (ntohs (sin_port a)) s"
    using a p by (auto simp: with_stream_def port_match_def)
  let ?w2 = "put_tsk ?p (bound a ?t) ?w1"
  have b: "so_bind pid ?fd a ?w1 = Some (0, ?w2)"
    using so_bind_stream [OF f1 t1(1,2) a1(1) a(2) h(4) _ a1(2)] p by simp
  have t2: "w_tcp ?w2 ?p = Some (bound a ?t)" "sk_sport (tsk_sk (bound a ?t)) \<noteq> 0" "tsk_state (bound a ?t) = TCP_CLOSE"
    using a(2) t1(3) by (simp_all add: bound_def)
  have f2: "stream_front ?w2 pid ?fd ?so ?p" using f1 by (simp add: stream_front_def get_socket_def)
  have k2: "tables ?w2 cs es" "backlog ?w2 ?p [] []"
    using h(4,5) t1(1) by (auto simp: tables_def ring_holds_def backlog_def)
  let ?pt = "on_sk (\<lambda>sk. sk\<lparr>sk_state := TCP_LISTEN\<rparr>) (bound a ?t)"
  obtain h3 where l: "so_listen pid ?fd n ?w2 = Some (0, (put_tsk ?p ?pt ?w2)\<lparr>w_links := h3\<rparr>)"
    "tcp_listen ?p n ?w2 = Some (0, (put_tsk ?p ?pt ?w2)\<lparr>w_links := h3\<rparr>)"
    "tables ((put_tsk ?p ?pt ?w2)\<lparr>w_links := h3\<rparr>) (cs @ [?p]) es"
    "backlog ((put_tsk ?p ?pt ?w2)\<lparr>w_links := h3\<rparr>) ?p [] []"
    using so_listen_stream [OF f2 t2(1,2) n t2(3) k2(1) p k2(2)] by blast
  let ?w3 = "(put_tsk ?p ?pt ?w2)\<lparr>w_links := h3\<rparr>"
  have ap2: "apart (insert ?so S) ?w2" using h(3) t1(1) by (simp add: apart_def insert_absorb domI)
  have tb2: "so_table ?w2 (sos @ [?so])"
    using h(2) t1(1) by (simp add: so_table_def ring_holds_def insert_absorb domI put_tsk_def)
  have i: "isolated (insert ?so S) ?w2 ?w3"
    using run_isolated [OF stack_run.tcp_listen [OF l(2)] ap2] .
  have sub': "set (sos @ [?so]) \<subseteq> insert ?so S" using sub by auto
  have "get_socket ?w3 pid ?fd = Some (Some ?so)"
    using isolated_lookup [OF tb2 i sub', of pid ?fd] f2 by (simp add: stream_front_def)
  then have f3: "stream_front ?w3 pid ?fd ?so ?p" using f2 by (simp add: stream_front_def)
  have "dom (w_tcp ?w3) \<subseteq> {..<w_next ?w3}" using i by (simp add: isolated_def apart_def)
  then have "listening ?w3 (cs @ [?p]) es ?p [] []" using l(3,4) by (simp add: listening_def)
  moreover have "w_tcp ?w3 = (w_tcp w)(?p \<mapsto> ?pt)" "same_rest w ?w3" "w_next ?w3 = w_next w + 2" "w_fd ?w3 = w_fd w + 1"
    by (simp_all add: with_stream_def same_rest_def put_tsk_def)
  moreover have "so_table ?w3 (sos @ [?so])" "apart (insert ?so S) ?w3"
    using isolated_table [OF tb2 i sub'] i by (simp_all add: isolated_def)
  ultimately have "serving S sos cs es pid a w ?w3 ?pt"
    using f3 by (simp add: serving_def bound_def)
  then show ?thesis using h(1) b l(1) by blast
qed

section \<open>A client of the server\<close>

lemma runs_rx: "runs stack_run [netdev_rx_loop_step tv f, netdev_rx_loop_step tv g]"
  by (auto simp: runs_def intro: stack_run.rx)

text \<open>What the server needs of the machine it runs on, besides its tables.\<close>

definition machine_ok :: "world \<Rightarrow> bool" where
  "machine_ok w \<longleftrightarrow> net_inv (w_net w) \<and> arp_get_hwaddr (w_net w) gateway \<noteq> None \<and> others_ok (w_others w) \<and>
     timers_inv (w_timers w)"

lemma serving_matches:
  assumes sv: "serving S sos cs es pid a w w3 pt" and pm: "\<forall>s\<in>set cs. \<not> port_match w (ntohs (sin_port a)) s"
    and ta: "tables w cs es" and eq: "w_tcp w' = w_tcp w3"
    and none: "find_first (conn_match w x1 x2 x3 x4) es = None"
  shows "find_first (conn_match w' x1 x2 x3 x4) es = None"
    "find_first (local_match w' (ntohl (sin_addr a)) (ntohs (sin_port a))) (cs @ [w_next w + 1]) = Some (w_next w + 1)"
proof -
  let ?p = "w_next w + 1"
  have p: "?p \<notin> set (cs @ es)"
  proof -
    have "listening w3 (cs @ [?p]) es ?p [] []" using sv by (simp add: serving_def)
    then have "distinct (map link_of (cs @ [?p]))" "set (cs @ [?p]) \<inter> set es = {}"
      by (simp_all add: listening_def tables_def ring_holds_def dlist_def)
    then show ?thesis by (auto simp: distinct_map)
  qed
  have tcp: "w_tcp w' = (w_tcp w)(?p \<mapsto> pt)" using sv eq by (simp add: serving_def)
  have "find_first (conn_match w' x1 x2 x3 x4) es = find_first (conn_match w x1 x2 x3 x4) es"
    by (rule find_first_cong) (use p in \<open>auto simp: conn_match_def tcp\<close>)
  then show "find_first (conn_match w' x1 x2 x3 x4) es = None" using none by simp
  have "find_first (local_match w' (ntohl (sin_addr a)) (ntohs (sin_port a))) cs = None"
    using pm p by (auto simp: find_first_None local_match_def port_match_def tcp split: option.splits)
  moreover have "local_match w' (ntohl (sin_addr a)) (ntohs (sin_port a)) ?p"
    using sv by (simp add: local_match_def tcp serving_def)
  ultimately show "find_first (local_match w' (ntohl (sin_addr a)) (ntohs (sin_port a))) (cs @ [?p]) = Some ?p"
    by (simp add: find_first_append)
qed

lemma so_serve:
  assumes cl: "unopened wa ca ea s tsk" "arp_get_hwaddr (w_net wa) gateway = Some ma" "ntohl (sin_addr a) = 0x0A000104"
      "find_first (conn_match wa 0x0A000104 (fst (tcp_generate_port wa)) 0x0A000104 (ntohs (sin_port a))) ea = None"
      "find_first (local_match wa 0x0A000104 (fst (tcp_generate_port wa))) ca = None"
    and sv: "serving S sos cs es pid a w w3 pt" "machine_ok w" "tables w cs es" "set sos \<subseteq> S" "ntohs (sin_port a) \<noteq> 0"
      "\<forall>s\<in>set cs. \<not> port_match w (ntohs (sin_port a)) s"
      "find_first (conn_match w 0x0A000104 (ntohs (sin_port a)) 0x0A000104 (fst (tcp_generate_port wa))) es = None"
    and i: "w_isns wa (w_isn_cnt wa) < w_isns wa (w_isn_cnt wa) + 1" "w_isns w (w_isn_cnt w) \<le> w_isns w (w_isn_cnt w) + 1"
    and buf: "length buf < 2 ^ 31" "unat (w_isns w (w_isn_cnt w) + 1) + length buf + unat tcp_select_initial_window < 2 ^ 32"
  shows "\<exists>syn synack ack wa1 peer w4 w5 frames wa2 wa3.
    tcp_v4_connect s a [netdev_rx_loop_step tv synack] wa = Some (Returned 0, wa1) \<and>
    so_accept pid (w_fd w) [netdev_rx_loop_step tv syn, netdev_rx_loop_step tv ack] w3 = Some (Returned (w_fd w + 1, peer), w4) \<and>
    so_write pid (w_fd w + 1) buf (word_of_nat (length buf)) w4 = Some (Rc (int (length buf)), w5) \<and>
    net_tx (w_net wa1) = net_tx (w_net wa) @ [syn, ack] \<and> net_tx (w_net w5) = net_tx (w_net w) @ synack # frames \<and>
    netdev_rx_loop tv frames wa1 = Some wa2 \<and>
    tcp_read s (word_of_nat (length buf)) env wa2 = Some (Returned (int (length buf), buf), wa3)"
proof -
  let ?so = "w_next w" and ?p = "w_next w + 1"
  have s3: "apart (insert ?so S) w3" "so_table w3 (sos @ [?so])" "stream_front w3 pid (w_fd w) ?so ?p"
    "listening w3 (cs @ [?p]) es ?p [] []" "w_tcp w3 ?p = Some pt" "tsk_state pt = TCP_LISTEN"
    "sk_sport (tsk_sk pt) \<noteq> 0" "same_rest w w3" "w_fd w3 = w_fd w + 1"
    using sv(1,5) by (simp_all add: serving_def)
  have sub: "set (sos @ [?so]) \<subseteq> insert ?so S" using sv(4) by auto
  obtain h where h: "alloc_socket pid w3 = Some (w_next w3, put_so (w_next w3)
      \<lparr>so_fd = w_fd w3, so_pid = pid, so_type = None, so_flags = O_RDWR, so_sk = Unset, so_ops = False\<rparr>
      (w3\<lparr>w_next := w_next w3 + 1, w_links := h, w_fd := w_fd w3 + 1\<rparr>))"
    "apart (insert (w_next w3) (insert ?so S)) (accepting pid h w3)" "so_table (accepting pid h w3) (sos @ [?so])"
    "listening (accepting pid h w3) (cs @ [?p]) es ?p [] []"
    using accepting_ok [OF s3(1,2) sub s3(4)] by blast
  let ?wb = "accepting pid h w3"
  obtain mb where net: "net_inv (w_net ?wb)" "arp_get_hwaddr (w_net ?wb) gateway = Some mb" "others_ok (w_others ?wb)"
    "timers_inv (w_timers ?wb)" and isn: "w_isns ?wb = w_isns w" "w_isn_cnt ?wb = w_isn_cnt w" "w_net ?wb = w_net w"
    using sv(2) s3(8) by (auto simp: machine_ok_def same_rest_def)
  have pt: "w_tcp ?wb ?p = Some pt" using s3(5) by simp
  note m = serving_matches [OF sv(1,6,3), of ?wb, simplified cl(3), OF accepting_simps(1) sv(7)]
  have i': "w_isns ?wb (w_isn_cnt ?wb) \<le> w_isns ?wb (w_isn_cnt ?wb) + 1" using i(2) isn by simp
  have n: "length buf < 2 ^ 32" using buf(1) by simp
  obtain syn synack ack wa1 wb1 t_a tb where hs:
    "tcp_v4_connect s a [netdev_rx_loop_step tv synack] wa = Some (Returned 0, wa1)"
    "tcp_accept ?p [netdev_rx_loop_step tv syn, netdev_rx_loop_step tv ack] ?wb = Some (Returned (w_next ?wb), wb1)"
    "net_tx (w_net wa1) = net_tx (w_net wa) @ [syn, ack]" "net_tx (w_net wb1) = net_tx (w_net ?wb) @ [synack]"
    "w_sockets wb1 = w_sockets ?wb" "shaken wa1 ca ea s (length buf) ?wb t_a wb1 tb synack"
    using tcp_handshake [OF cl h(4) pt s3(6) net m i(1) i' n, of tv] by blast
  let ?c = "w_next ?wb"
  have tb: "w_tcp wb1 ?c = Some tb" using hs(6) by (simp add: shaken_def can_answer_def)
  obtain h4 peer where acc: "so_accept pid (w_fd w) [netdev_rx_loop_step tv syn, netdev_rx_loop_step tv ack] w3 =
      Some (Returned (w_fd w3, peer), with_connection (w_fd w3) (w_next w3) ?c tb h4 pid wb1)"
    "tcp_front (with_connection (w_fd w3) (w_next w3) ?c tb h4 pid wb1) pid (w_fd w3) ?c"
    using so_accept_stream [OF h(2,3) sub h(1) s3(3,5,7,2) runs_rx hs(2,5) tb] by blast
  let ?w4 = "with_connection (w_fd w3) (w_next w3) ?c tb h4 pid wb1" and ?t4 = "on_sk (sk_init_with_socket (w_next w3)) tb"
  have t4: "w_tcp ?w4 ?c = Some ?t4" "w_net ?w4 = w_net wb1" "w_timers ?w4 = w_timers wb1" "w_others ?w4 = w_others wb1"
    by (simp_all add: with_connection_def)
  have "can_send ?w4 ?c ?t4"
    using hs(6) t4 net(1) by (simp add: shaken_def can_send_def can_answer_def timers_live_def sk_init_with_socket_def sk_init_def)
  moreover have "same_ends tb ?t4" "tsk_tcb ?t4 = tsk_tcb tb" "tsk_state ?t4 = tsk_state tb" "tsk_smss ?t4 = tsk_smss tb"
    by (simp_all add: same_ends_def sk_init_with_socket_def sk_init_def)
  ultimately obtain w5 frames wa2 wa3 where wr: "tcp_write ?c buf (word_of_nat (length buf)) ?w4 = Some (int (length buf), w5)"
      "net_tx (w_net w5) = net_tx (w_net ?w4) @ frames" "netdev_rx_loop tv frames wa1 = Some wa2"
      "tcp_read s (word_of_nat (length buf)) env wa2 = Some (Returned (int (length buf), buf), wa3)"
    using shaken_write [OF hs(6) net(2) buf(1), of ?w4 ?t4 buf tv env] buf(2) isn t4(2) by (auto simp: isn)
  have "so_write pid (w_fd w3) buf (word_of_nat (length buf)) ?w4 = Some (Rc (int (length buf)), w5)"
    using so_write_tcp [OF acc(2) t4(1) wr(1)] .
  then show ?thesis
    using hs(1,3,4) acc(1) wr(2-4) t4(2) isn(3) s3(9) by (metis append.assoc append_Cons append_Nil)
qed

section \<open>A session\<close>

text \<open>
  C3.  Two stacks, from \<open>connect\<close> on the one and \<open>accept\<close> on the other to data: every frame that goes into
  one was put on the wire by the other.  \<open>connect\<close> returns, \<open>accept\<close> returns with the address of the peer and
  with the connection in the new socket, its queues initialised, and then what is written to that socket is
  what the connecting side reads.
\<close>

theorem tcp_session:
  assumes a: "unopened wa ca ea s tsk" "arp_get_hwaddr (w_net wa) gateway = Some ma"
      "ntohl (sin_addr addr) = 0x0A000104"
      "find_first (conn_match wa 0x0A000104 (fst (tcp_generate_port wa)) 0x0A000104 (ntohs (sin_port addr))) ea = None"
      "find_first (local_match wa 0x0A000104 (fst (tcp_generate_port wa))) ca = None"
    and b: "listening wb cb eb p ls []" "w_tcp wb p = Some pt" "tsk_state pt = TCP_LISTEN"
      "net_inv (w_net wb)" "arp_get_hwaddr (w_net wb) gateway = Some mb" "others_ok (w_others wb)" "timers_inv (w_timers wb)"
      "find_first (conn_match wb 0x0A000104 (ntohs (sin_port addr)) 0x0A000104 (fst (tcp_generate_port wa))) eb = None"
      "find_first (local_match wb 0x0A000104 (ntohs (sin_port addr))) cb = Some p"
    and so: "w_sockets wb so = Some x" "so_sk x = Sk p" "sk_sport (tsk_sk pt) \<noteq> 0" "w_sockets wb newso = Some y"
    and i: "w_isns wa (w_isn_cnt wa) < w_isns wa (w_isn_cnt wa) + 1" "w_isns wb (w_isn_cnt wb) \<le> w_isns wb (w_isn_cnt wb) + 1"
    and buf: "length buf < 2 ^ 31"
      "unat (w_isns wb (w_isn_cnt wb) + 1) + length buf + unat tcp_select_initial_window < 2 ^ 32"
  shows "\<exists>syn synack ack wa1 wb1 wb2 frames wa2 wa3.
    tcp_v4_connect s addr [netdev_rx_loop_step tv synack] wa = Some (Returned 0, wa1) \<and>
    inet_accept so newso [netdev_rx_loop_step tv syn, netdev_rx_loop_step tv ack] wb =
      Some (Returned (0, Some \<lparr>sin_port = htons (fst (tcp_generate_port wa)), sin_addr = htonl 0x0A000104\<rparr>), wb1) \<and>
    net_tx (w_net wa1) = net_tx (w_net wa) @ [syn, ack] \<and> net_tx (w_net wb1) = net_tx (w_net wb) @ [synack] \<and>
    inet_write newso buf (int (length buf)) wb1 = Some (Rc (int (length buf)), wb2) \<and>
    net_tx (w_net wb2) = net_tx (w_net wb1) @ frames \<and> netdev_rx_loop tv frames wa1 = Some wa2 \<and>
    tcp_read s (word_of_nat (length buf)) env wa2 = Some (Returned (int (length buf), buf), wa3)"
proof -
  have "length buf < 2 ^ 32" using buf(1) by simp
  then obtain syn synack ack wa1 w1 ta tb where h:
    "tcp_v4_connect s addr [netdev_rx_loop_step tv synack] wa = Some (Returned 0, wa1)"
    "tcp_accept p [netdev_rx_loop_step tv syn, netdev_rx_loop_step tv ack] wb = Some (Returned (w_next wb), w1)"
    "net_tx (w_net wa1) = net_tx (w_net wa) @ [syn, ack]" "net_tx (w_net w1) = net_tx (w_net wb) @ [synack]"
    "w_sockets w1 = w_sockets wb" "shaken wa1 ca ea s (length buf) wb ta w1 tb synack"
    "sk_daddr (tsk_sk tb) = 0x0A000104" "sk_dport (tsk_sk tb) = fst (tcp_generate_port wa)"
    using tcp_handshake [OF a b i, of "length buf" tv] by blast
  let ?c = "w_next wb"
  have tb: "can_answer w1 ?c tb" "w_tcp w1 ?c = Some tb" using h(6) unfolding shaken_def can_answer_def by blast+
  let ?t = "on_sk (sk_init_with_socket newso) tb"
  let ?w1 = "put_so newso (y\<lparr>so_sk := Sk ?c\<rparr>) (put_tsk ?c ?t w1)"
  have acc: "inet_accept so newso [netdev_rx_loop_step tv syn, netdev_rx_loop_step tv ack] wb =
      Some (Returned (0, Some \<lparr>sin_port = htons (fst (tcp_generate_port wa)), sin_addr = htonl 0x0A000104\<rparr>), ?w1)"
    using so b(2) h(2,5,7,8) tb(2) by (simp add: inet_accept_def sport_of_def ops_of_def)
  have c: "can_send ?w1 ?c ?t"
    using tb(1) by (simp add: can_send_def can_answer_def timers_live_def sk_init_with_socket_def sk_init_def)
  have t: "tsk_tcb ?t = tsk_tcb tb" "tsk_state ?t = tsk_state tb" "tsk_smss ?t = tsk_smss tb" "same_ends tb ?t"
    by (simp_all add: same_ends_def sk_init_with_socket_def sk_init_def)
  obtain wb2 frames wa2 wa3 where wr: "tcp_write ?c buf (word_of_nat (length buf)) ?w1 = Some (int (length buf), wb2)"
    "net_tx (w_net wb2) = net_tx (w_net ?w1) @ frames" "netdev_rx_loop tv frames wa1 = Some wa2"
    "tcp_read s (word_of_nat (length buf)) env wa2 = Some (Returned (int (length buf), buf), wa3)"
    using shaken_write [OF h(6) b(5) buf c _ t refl, of tv env] by auto
  have "inet_write newso buf (int (length buf)) ?w1 = Some (Rc (int (length buf)), wb2)"
    using wr(1) by (simp add: inet_write_def sk_of_def ops_of_def)
  then show ?thesis using h(1,3,4) acc wr(2-4)
    by - (rule exI [of _ syn], rule exI [of _ synack], rule exI [of _ ack], rule exI [of _ wa1], rule exI [of _ ?w1],
      rule exI [of _ wb2], rule exI [of _ frames], rule exI [of _ wa2], rule exI [of _ wa3], simp)
qed

end
