(* ===== verification/Programs.thy ===== *)
theory Programs
  imports Serving Boot
begin

text \<open>
  The programs of \<open>toy_app/bin\<close>, on the library and the stack behind it: \<open>server.c\<close>, \<open>curl.c\<close> and
  \<open>udp_cli.c\<close>.  Printing is left out; the names a program resolves and the lines it reads are
  arguments.
\<close>

section \<open>Opening a socket of the library\<close>

text \<open>
  \<open>lvl_socket\<close> from its first line: the test of the arguments, the connection to the stack, and then
  the exchange that \<open>lvl_socket\<close> above models with the descriptor given.
\<close>

definition lvl_socket_init ::
    "os \<Rightarrow> 's chan \<Rightarrow> u32 \<Rightarrow> int \<Rightarrow> int \<Rightarrow> int \<Rightarrow> lvlip_sock list \<Rightarrow> proc \<times> 's \<Rightarrow>
     (((int \<times> int option) \<times> lvlip_sock list) ended \<times> proc \<times> 's) option" where
  "lvl_socket_init os chan pid domain type protocol socks ps =
     (if \<not> is_socket_supported domain type protocol then None
      else do {
        (r, p) \<leftarrow> init_socket os sockname (fst ps);
        (case r of
           Exit c \<Rightarrow> Some (Exit c, p, snd ps)
         | Value lvlfd \<Rightarrow> do {
             (rc, socks, s) \<leftarrow> lvl_socket chan pid lvlfd domain type protocol socks (snd ps);
             Some (Value (rc, socks), p, s)
           })
      })"

text \<open>An application that finds no stack ends with code 1 and has sent nothing.\<close>

lemma lvl_socket_init_down:
  assumes "is_socket_supported domain type protocol" and "os_socket os = -1 \<or> os_connect os = -1"
  shows "\<exists>p'. lvl_socket_init os chan pid domain type protocol socks (p, s) = Some (Exit 1, p', s)"
  using init_socket_outcome [of os p] assms by (auto simp: lvl_socket_init_def)

text \<open>
  With the stack up, the new entry of the library holds both the descriptor of the stack and that of
  the connection over which later calls reach it.
\<close>

lemma lvl_socket_init_up:
  assumes "os_socket os \<noteq> -1" and "os_connect os \<noteq> -1"
    and "is_socket_supported domain type protocol" and "length b = IPC_BUFLEN"
    and "so_socket (sint pid) domain type protocol w = Some (fd, w')" and "0 \<le> fd" and "is_int fd"
  shows "\<exists>p' b'. lvl_socket_init os (ipc_chan c) pid domain type protocol socks (p, b, w) =
      Some (Value ((fd, None), socks @ [Lvlip fd (os_socket os)]), p', b', w') \<and>
    p_calls p' = p_calls p @ [Unix_socket, Connect (os_socket os) sockname] \<and> length b' = IPC_BUFLEN"
proof -
  obtain p' where p': "init_socket os sockname p = Some (Value (os_socket os), p')"
      "p_calls p' = p_calls p @ [Unix_socket, Connect (os_socket os) sockname]"
    using init_socket_outcome [of os p] assms(1,2) by auto
  obtain b' where "lvl_socket (ipc_chan c) pid (os_socket os) domain type protocol socks (b, w) =
      Some ((fd, None), socks @ [Lvlip fd (os_socket os)], (b', w'))" "length b' = IPC_BUFLEN"
    using lvl_socket_call [OF assms(3-7)] by blast
  with p' show ?thesis using assms(3) by (auto simp: lvl_socket_init_def)
qed

section \<open>The server\<close>

definition string_bytes :: "string \<Rightarrow> bytes" where
  "string_bytes s = map of_char s"

definition greeting :: bytes where
  "greeting = string_bytes ''Hi, I am Yihulee! Glad to see you!11111111111111111111\<newline>''"

definition server_addr :: sockaddr_in where
  "server_addr = \<lparr>sin_port = htons 41000, sin_addr = htonl 0x0A000104\<rparr>"

text \<open>
  \<open>main\<close> of \<open>server.c\<close> up to its \<open>lvl_close\<close>: the result of the write, the descriptor of the connection, and
  the sockets of the process.  \<open>es\<close> is what happens while \<open>lvl_accept\<close> waits.
\<close>

definition server_serve ::
    "ipc_ctx \<Rightarrow> env \<Rightarrow> u32 \<Rightarrow> int \<Rightarrow> bytes \<times> world \<Rightarrow> (int \<times> int \<times> lvlip_sock list \<times> bytes \<times> world) option" where
  "server_serve c es pid lvlfd s = do {
     let buff = replicate 1024 0;
     (r, socks, s) \<leftarrow> lvl_socket (ipc_chan c) pid lvlfd AF_INET SOCK_STREAM 0 [] s;
     let listenfd = fst r;
     let addr = addr_bytes 2 (replicate 8 0) server_addr;
     (r, s) \<leftarrow> lvl_bind (ipc_chan c) pid listenfd addr socks s;
     (r, s) \<leftarrow> lvl_listen (ipc_chan c) pid listenfd 10 socks s;
     (conn, socks, s) \<leftarrow> lvl_accept (ipc_chan (c\<lparr>ie_env := es\<rparr>)) pid listenfd False socks s;
     let connfd = lr_rc conn;
     let buff = put_bytes buff 0 greeting;
     (r, s) \<leftarrow> lvl_write (ipc_chan c) pid connfd buff (of_nat (length greeting)) socks s;
     Some (fst r, connfd, socks, s)
   }"

definition server_main :: "ipc_ctx \<Rightarrow> env \<Rightarrow> u32 \<Rightarrow> int \<Rightarrow> bytes \<times> world \<Rightarrow> (int \<times> bytes \<times> world) option" where
  "server_main c es pid lvlfd s = do {
     (n, connfd, socks, s) \<leftarrow> server_serve c es pid lvlfd s;
     (r, socks, s) \<leftarrow> lvl_close (ipc_chan c) pid connfd socks s;
     Some (0, s)
   }"

section \<open>The client of the web\<close>

text \<open>
  \<open>curl.c\<close>.  \<open>getaddrinfo\<close> is an argument: its result, and the addresses (\<open>struct sockaddr\<close>) it lists.  A
  program is observed for a number of calls that sleep; it may not have come to its end by then.
\<close>

type_synonym resolver = "string \<Rightarrow> string \<Rightarrow> int \<times> bytes list"

datatype status = Running | Done int

definition get_address :: "resolver \<Rightarrow> string \<Rightarrow> string \<Rightarrow> (int \<times> bytes) ended" where
  "get_address getaddrinfo host port =
     (let (s, result) = getaddrinfo host port in
      if s \<noteq> 0 then Exit 1
      else case result of [] \<Rightarrow> Value (1, []) | rp # _ \<Rightarrow> Value (0, rp))"

text \<open>What \<open>printf\<close> makes of \<open>%s\<close>; an array without a zero is read beyond its end.\<close>

definition c_string :: "bytes \<Rightarrow> bytes option" where
  "c_string buf = (if 0 \<in> set buf then Some (takeWhile (\<lambda>b. b \<noteq> 0) buf) else None)"

abbreviation RLEN :: u64 where "RLEN \<equiv> 4096"

text \<open>
  The loop that reads: \<open>ess\<close> holds what happens during each read.  Its result is that of the last read,
  if the loop has ended, and what was printed.
\<close>

fun curl_reads ::
    "ipc_ctx \<Rightarrow> env list \<Rightarrow> u32 \<Rightarrow> int \<Rightarrow> lvlip_sock list \<Rightarrow> bytes \<times> world \<Rightarrow>
     (int option \<times> bytes \<times> bytes \<times> world) option" where
  "curl_reads c [] pid sock socks s = Some (None, [], s)"
| "curl_reads c (es # ess) pid sock socks s = do {
     (r, s) \<leftarrow> lvl_read (ipc_chan (c\<lparr>ie_env := es\<rparr>)) pid sock RLEN socks s;
     (if 0 < lr_rc r then do {
        out \<leftarrow> c_string (lr_buf r);
        (rlen, outs, s) \<leftarrow> curl_reads c ess pid sock socks s;
        Some (rlen, out @ outs, s)
      }
      else Some (Some (lr_rc r), [], s))
   }"

definition http_get :: string where
  "http_get = ''GET / HTTP/1.1'' @ [CHR 0x0D, CHR 0x0A] @ ''Host: %s:%s'' @ [CHR 0x0D, CHR 0x0A] @
     ''Connection: close'' @ [CHR 0x0D, CHR 0x0A, CHR 0x0D, CHR 0x0A]"

text \<open>\<open>main\<close> once the address is known.  \<open>es\<close> is what happens while \<open>lvl_connect\<close> waits.\<close>

definition curl_fetch ::
    "ipc_ctx \<Rightarrow> env \<Rightarrow> env list \<Rightarrow> u32 \<Rightarrow> int \<Rightarrow> bytes \<Rightarrow> string \<Rightarrow> string \<Rightarrow> bytes \<times> world \<Rightarrow>
     (status \<times> bytes \<times> bytes \<times> world) option" where
  "curl_fetch c es ess pid lvlfd addr host port s = do {
     (r, socks, s) \<leftarrow> lvl_socket (ipc_chan c) pid lvlfd AF_INET SOCK_STREAM 0 [] s;
     let sock = fst r;
     (r, s) \<leftarrow> lvl_connect (ipc_chan (c\<lparr>ie_env := es\<rparr>)) pid sock addr socks s;
     (if fst r = -1 then Some (Done 1, [], s)
      else do {
        fmt \<leftarrow> vformat http_get [host, port];
        let str = take (512 - 1) fmt;
        let len' = length str;
        (r, s) \<leftarrow> lvl_write (ipc_chan c) pid sock (string_bytes str) (of_nat len') socks s;
        (if fst r \<noteq> int len' then Some (Done 1, [], s)
         else do {
           (rlen, out, s) \<leftarrow> curl_reads c ess pid sock socks s;
           (case rlen of
              None \<Rightarrow> Some (Running, out, s)
            | Some rl \<Rightarrow>
                if rl = -1 then Some (Done 1, out, s)
                else do {
                  (r, socks, s) \<leftarrow> lvl_close (ipc_chan c) pid sock socks s;
                  Some (Done 0, out, s)
                })
         })
      })
   }"

text \<open>\<open>main\<close>; \<open>argv\<close> holds no zero characters, so \<open>strnlen\<close> is the length, cut off.\<close>

definition curl_main ::
    "ipc_ctx \<Rightarrow> resolver \<Rightarrow> env \<Rightarrow> env list \<Rightarrow> u32 \<Rightarrow> int \<Rightarrow> string list \<Rightarrow> bytes \<times> world \<Rightarrow>
     (status \<times> bytes \<times> bytes \<times> world) option" where
  "curl_main c getaddrinfo es ess pid lvlfd argv s =
     (if length argv \<noteq> 3 \<or> min 50 (length (argv ! 1)) = 50 then Some (Done 1, [], s)
      else if min 6 (length (argv ! 2)) = 6 then Some (Done 1, [], s)
      else case get_address getaddrinfo (argv ! 1) (argv ! 2) of
          Exit code \<Rightarrow> Some (Done code, [], s)
        | Value (r, addr) \<Rightarrow>
            if r \<noteq> 0 then Some (Done 1, [], s)
            else curl_fetch c es ess pid lvlfd addr (argv ! 1) (argv ! 2) s)"

section \<open>The datagram client\<close>

text \<open>\<open>udp_cli.c\<close>.  \<open>fgets\<close> into an array of \<open>n\<close> bytes: the line, and what of the input is left.\<close>

fun fgets :: "nat \<Rightarrow> bytes \<Rightarrow> bytes \<times> bytes" where
  "fgets n [] = ([], [])"
| "fgets n (x # xs) =
     (if n \<le> 1 then ([], x # xs)
      else if x = 10 then ([x], xs)
      else map_prod (Cons x) id (fgets (n - 1) xs))"

abbreviation MAXLINE :: nat where "MAXLINE \<equiv> 1024"

text \<open>
  \<open>dg_cli\<close> for as many rounds as \<open>ess\<close> has entries: \<open>input\<close> is what \<open>fp\<close> still holds, \<open>junk\<close> what is in the
  address field that \<open>lvl_recvfrom\<close> does not set.
\<close>

fun dg_cli ::
    "ipc_ctx \<Rightarrow> env list \<Rightarrow> bytes \<Rightarrow> bytes \<Rightarrow> u32 \<Rightarrow> int \<Rightarrow> bytes \<Rightarrow> lvlip_sock list \<Rightarrow> bytes \<times> world \<Rightarrow>
     (status \<times> bytes \<times> bytes \<times> world) option" where
  "dg_cli c ess junk [] pid sockfd addr socks s = Some (Done 0, [], s)"
| "dg_cli c [] junk (x # input) pid sockfd addr socks s = Some (Running, [], s)"
| "dg_cli c (es # ess) junk (x # input) pid sockfd addr socks s = do {
     let (line, rest) = fgets MAXLINE (x # input);
     let sendline = takeWhile (\<lambda>b. b \<noteq> 0) line;
     (r, s) \<leftarrow> lvl_sendto (ipc_chan c) pid sockfd sendline (of_nat (length sendline)) addr socks s;
     (m, s) \<leftarrow> lvl_recvfrom (ipc_chan (c\<lparr>ie_env := es\<rparr>)) pid sockfd (of_nat MAXLINE) False junk socks s;
     out \<leftarrow> (if 0 < lr_rc m then c_string (take (nat (lr_rc m)) (lr_buf m) @ [0]) else Some []);
     (st, outs, s) \<leftarrow> dg_cli c ess junk rest pid sockfd addr socks s;
     Some (st, out @ outs, s)
   }"

definition udp_cli_main ::
    "ipc_ctx \<Rightarrow> env list \<Rightarrow> bytes \<Rightarrow> bytes \<Rightarrow> u32 \<Rightarrow> int \<Rightarrow> bytes \<times> world \<Rightarrow> (status \<times> bytes \<times> bytes \<times> world) option" where
  "udp_cli_main c ess junk input pid lvlfd s = do {
     let servaddr = addr_bytes 2 (replicate 8 0) \<lparr>sin_port = htons 40000, sin_addr = htonl 0x0A000105\<rparr>;
     (r, socks, s) \<leftarrow> lvl_socket (ipc_chan c) pid lvlfd AF_INET SOCK_DGRAM 0 [] s;
     dg_cli c ess junk input pid (fst r) servaddr socks s
   }"

section \<open>The calls of the server\<close>

lemma length_greeting [simp]: "length greeting = 55"
  by (simp add: greeting_def string_bytes_def)

lemma server_addr_simps [simp]: "ntohl (sin_addr server_addr) = 0x0A000104" "ntohs (sin_port server_addr) = 41000"
  by (simp_all add: server_addr_def)

lemma lvl_write_prefix:
  "unat n = length d \<Longrightarrow> lvl_write ch pid fd (d @ rest) n socks s = lvl_write ch pid fd d n socks s"
  by (simp add: lvl_write_def load_bytes_def)

text \<open>The calls of the server through the library, given what they do on the stack.\<close>

lemma server_serve_calls:
  assumes "so_socket (sint pid) AF_INET SOCK_STREAM 0 w = Some (fd, w1)" and "so_bind (sint pid) fd server_addr w1 = Some (0, w2)"
    and "so_listen (sint pid) fd 10 w2 = Some (0, w3)" and "so_accept (sint pid) fd es w3 = Some (Returned (fd + 1, peer), w4)"
    and "so_write (sint pid) (fd + 1) greeting (of_nat (length greeting)) w4 = Some (Rc (int (length greeting)), w5)"
    and "0 \<le> fd" and "is_int (fd + 1)" and "length b = IPC_BUFLEN"
  shows "\<exists>b'. length b' = IPC_BUFLEN \<and> server_serve c es pid lvlfd (b, w) =
    Some (int (length greeting), fd + 1, [Lvlip fd lvlfd, Lvlip (fd + 1) lvlfd], (b', w5))"
proof -
  have ints: "is_int fd" "is_int 10" "is_int 0" "is_int (int (length greeting))" using assms(6,7) by (auto simp: is_int_def)
  have sup: "is_socket_supported AF_INET SOCK_STREAM 0" by (simp add: is_socket_supported_def)
  let ?l = "Lvlip fd lvlfd" and ?a = "addr_bytes 2 (replicate 8 0) server_addr" and ?ca = "c\<lparr>ie_env := es\<rparr>"
  have g: "lvlip_get_sock fd [?l] = Some (Some ?l)"
    "lvlip_get_sock (fd + 1) [?l, Lvlip (fd + 1) lvlfd] = Some (Some (Lvlip (fd + 1) lvlfd))" by simp_all
  obtain b1 where c1: "lvl_socket (ipc_chan c) pid lvlfd AF_INET SOCK_STREAM 0 [] (b, w) = Some ((fd, None), [?l], (b1, w1))"
    "length b1 = IPC_BUFLEN"
    using lvl_socket_call [OF sup assms(8,1,6) ints(1), of c lvlfd "[]"] by auto
  obtain b2 where c2: "lvl_bind (ipc_chan c) pid fd ?a [?l] (b1, w1) = Some (errno_of 0, (b2, w2))" "length b2 = IPC_BUFLEN"
    using lvl_bind_ok [OF g(1) ints(1) c1(2) load_addr_bytes _ assms(2) ints(3), of 2 "replicate 8 0" c] by auto
  obtain b3 where c3: "lvl_listen (ipc_chan c) pid fd 10 [?l] (b2, w2) = Some (errno_of 0, (b3, w3))" "length b3 = IPC_BUFLEN"
    using lvl_listen_ok [OF g(1) ints(1) c2(2) ints(2) assms(3) ints(3)] by blast
  obtain b4 r where c4: "lvl_accept (ipc_chan ?ca) pid fd False [?l] (b3, w3) =
      Some (r, [?l] @ [Lvlip (fd + 1) (ls_lvlfd ?l)], (b4, w4))" "lr_rc r = fd + 1" "length b4 = IPC_BUFLEN"
    using lvl_accept_ok [OF g(1) ints(1) c3(2), of pid ?ca w3 "fd + 1" peer w4 False] assms(4,6,7) by auto
  have n: "unat (of_nat (length greeting) :: u64) = length greeting" "length greeting \<le> 4078"
    "(ucast (of_nat (length greeting) :: u64) :: u32) = of_nat (length greeting)"
    by simp_all
  obtain b5 where c5: "lvl_write (ipc_chan c) pid (fd + 1) greeting (of_nat (length greeting)) [?l, Lvlip (fd + 1) lvlfd] (b4, w4) =
      Some (errno_of (int (length greeting)), (b5, w5))" "length b5 = IPC_BUFLEN"
    using lvl_write_ok [OF g(2) assms(7) n(1,2) c4(3), of pid w4 "int (length greeting)" w5 c] assms(5) ints(4) n(3) by auto
  have buff: "put_bytes (replicate 1024 0) 0 greeting = greeting @ replicate (1024 - length greeting) 0"
    by (simp add: put_bytes_def)
  have "server_serve c es pid lvlfd (b, w) =
      Some (int (length greeting), fd + 1, [?l, Lvlip (fd + 1) lvlfd], (b5, w5))"
    using c1(1) c2(1) c3(1) c4(1,2) c5(1) unfolding server_serve_def buff Let_def
    by (simp add: errno_of_def lvl_write_prefix)
  then show ?thesis using c5(2) by blast
qed

text \<open>
  C2.  \<open>server.c\<close> and a client: on a machine whose port 41000 is free the program opens its socket, and when
  a client on another stack connects, \<open>lvl_accept\<close> returns; the client then reads the greeting of
  the program, whole and unchanged.  Every frame that goes into one stack was sent by the other.
\<close>

theorem server_greets:
  assumes cl: "unopened wa ca ea s tsk" "arp_get_hwaddr (w_net wa) gateway = Some ma"
      "find_first (conn_match wa 0x0A000104 (fst (tcp_generate_port wa)) 0x0A000104 41000) ea = None"
      "find_first (local_match wa 0x0A000104 (fst (tcp_generate_port wa))) ca = None"
    and sv: "apart S w" "so_table w sos" "set sos \<subseteq> S" "tables w cs es" "machine_ok w"
      "\<forall>s\<in>set cs. \<not> port_match w 41000 s"
      "find_first (conn_match w 0x0A000104 41000 0x0A000104 (fst (tcp_generate_port wa))) es = None"
    and i: "w_isns wa (w_isn_cnt wa) < w_isns wa (w_isn_cnt wa) + 1" "w_isns w (w_isn_cnt w) \<le> w_isns w (w_isn_cnt w) + 1"
      "unat (w_isns w (w_isn_cnt w) + 1) + length greeting + unat tcp_select_initial_window < 2 ^ 32"
    and lib: "0 \<le> w_fd w" "is_int (w_fd w + 1)" "length b = IPC_BUFLEN"
  shows "\<exists>syn synack ack wa1 frames socks b' w' wa2 wa3.
    tcp_v4_connect s server_addr [netdev_rx_loop_step tv synack] wa = Some (Returned 0, wa1) \<and>
    server_serve c [netdev_rx_loop_step tv syn, netdev_rx_loop_step tv ack] pid lvlfd (b, w) =
      Some (int (length greeting), w_fd w + 1, socks, (b', w')) \<and>
    net_tx (w_net wa1) = net_tx (w_net wa) @ [syn, ack] \<and> net_tx (w_net w') = net_tx (w_net w) @ synack # frames \<and>
    netdev_rx_loop tv frames wa1 = Some wa2 \<and>
    tcp_read s (of_nat (length greeting)) env wa2 = Some (Returned (int (length greeting), greeting), wa3)"
proof -
  have a: "local_ipaddress (w_net w) (ntohl (sin_addr server_addr))" "ntohs (sin_port server_addr) \<noteq> 0"
    using sv(5) routes_booted_dev by (auto simp: machine_ok_def net_inv_def local_ipaddress_def)
  have pm: "\<forall>s\<in>set cs. \<not> port_match w (ntohs (sin_port server_addr)) s" using sv(6) by simp
  obtain w1 w2 w3 pt where l: "so_socket (sint pid) AF_INET SOCK_STREAM 0 w = Some (w_fd w, w1)"
      "so_bind (sint pid) (w_fd w) server_addr w1 = Some (0, w2)" "so_listen (sint pid) (w_fd w) 10 w2 = Some (0, w3)"
      "serving S sos cs es (sint pid) server_addr w w3 pt"
    using server_listens [OF sv(1-4) a pm, of 10 "sint pid"] by auto
  have cl': "ntohl (sin_addr server_addr) = 0x0A000104"
    "find_first (conn_match wa 0x0A000104 (fst (tcp_generate_port wa)) 0x0A000104 (ntohs (sin_port server_addr))) ea = None"
    "find_first (conn_match w 0x0A000104 (ntohs (sin_port server_addr)) 0x0A000104 (fst (tcp_generate_port wa))) es = None"
    using cl(3) sv(7) by simp_all
  have n: "length greeting < 2 ^ 31" by simp
  obtain syn synack ack wa1 peer w4 w5 frames wa2 wa3 where r:
    "tcp_v4_connect s server_addr [netdev_rx_loop_step tv synack] wa = Some (Returned 0, wa1)"
    "so_accept (sint pid) (w_fd w) [netdev_rx_loop_step tv syn, netdev_rx_loop_step tv ack] w3 =
      Some (Returned (w_fd w + 1, peer), w4)"
    "so_write (sint pid) (w_fd w + 1) greeting (word_of_nat (length greeting)) w4 = Some (Rc (int (length greeting)), w5)"
    "net_tx (w_net wa1) = net_tx (w_net wa) @ [syn, ack]" "net_tx (w_net w5) = net_tx (w_net w) @ synack # frames"
    "netdev_rx_loop tv frames wa1 = Some wa2"
    "tcp_read s (word_of_nat (length greeting)) env wa2 = Some (Returned (int (length greeting), greeting), wa3)"
    using so_serve [OF cl(1,2) cl'(1,2) cl(4) l(4) sv(5,4,3) a(2) pm cl'(3) i(1,2) n i(3), of tv env] by blast
  obtain b' where "server_serve c [netdev_rx_loop_step tv syn, netdev_rx_loop_step tv ack] pid lvlfd (b, w) =
      Some (int (length greeting), w_fd w + 1, [Lvlip (w_fd w) lvlfd, Lvlip (w_fd w + 1) lvlfd], (b', w5))"
    using server_serve_calls [OF l(1-3) r(2,3) lib] by blast
  then show ?thesis using r(1,4-7) by blast
qed

end
