(* ===== verification/Sample_Programs.thy ===== *)
theory Sample_Programs
  imports Sample_Runs Boot Programs
begin

text \<open>
  Concrete runs of the program and of applications: the start on a system with and without a tap
  device, the listener with three clients, and the server with a client.
\<close>

section \<open>Start\<close>

text \<open>A system on which every call succeeds and the device has no frames.\<close>

definition sample_os :: "int \<Rightarrow> os" where
  "sample_os err = \<lparr>os_open = (\<lambda>s. 3), os_tunsetiff = (\<lambda>fd flags name. (err, ''tap0'')), os_ioctl = (\<lambda>fd req. 0),
     os_flags = 0, os_system = (\<lambda>s. 0), os_socket = 4, os_bind = 0, os_listen = 0, os_connect = 0, os_close = (\<lambda>fd. 0),
     os_pthread_create = (\<lambda>t. 0),
     os_frames = (\<lambda>fd. [])\<rparr>"

theorem main_starts_witness:
  "main (sample_os 0) (\<lambda>n. n) (\<lambda>i. 0) (0, 0) =
    Some (Value ([THREAD_IPC, THREAD_TIMERS], world_boot (\<lambda>n. n) (\<lambda>i. 0)),
      \<lparr>p_calls = [Open ''/dev/net/tap'', Tunsetiff 3 0x1002 [], System ''ip link set dev tap0 up'',
         System ''ip address add dev tap0 local 10.0.1.5/24''], p_tun_fd = 3, p_dev = ''tap0''\<rparr>)"
  using main_starts [of "sample_os 0" 3 "''tap0''" "\<lambda>n. n" "\<lambda>i. 0" "(0, 0)"]
  by (simp add: sample_os_def link_up_cmd_def address_cmd_def)

theorem main_without_device_witness:
  "\<exists>ts p. main (sample_os (-1)) (\<lambda>n. n) (\<lambda>i. 0) (0, 0) = Some (Value (ts, world_boot (\<lambda>n. n) (\<lambda>i. 0)), p) \<and>
    p_tun_fd p = -1 \<and> System (link_up_cmd []) \<in> set (p_calls p)"
  by (rule main_without_device [of _ 3 "-1" "''tap0''"]) (simp_all add: sample_os_def)

theorem listener_threads_race_witness:
  "(\<exists>l. listener_run listener_boot [5, 6, 7] l \<and> ln_serving l = [5, 6, 7] \<and> ic_socks (ln_conns l) = [5, 6, 7]) \<and>
   (\<exists>l. listener_run listener_boot [5, 6, 7] l \<and> ln_serving l = [7, 7, 7] \<and> ic_socks (ln_conns l) = [5, 6, 7])"
  using listener_threads_race [of "[5, 6, 7]"] by (simp add: numeral_3_eq_3)

section \<open>Sockets\<close>

theorem sockets_untouched_witness:
  "\<exists>s w. tcp_alloc_sock (world_boot (\<lambda>n. n) (\<lambda>i. 0)) = Some (s, w) \<and> so_table w [] \<and>
    get_socket w 7 8 = get_socket (world_boot (\<lambda>n. n) (\<lambda>i. 0)) 7 8"
proof -
  let ?u = "world_boot (\<lambda>n. n) (\<lambda>i. 0)"
  obtain s w where a: "tcp_alloc_sock ?u = Some (s, w)"
    using tcp_alloc_sock_ok [of ?u] by blast
  have "apart (insert 0 (set [])) ?u" by (simp add: apart_boot)
  from sockets_untouched [OF stack_run.tcp_alloc [OF a] so_table_boot this, of 7 8 s] a show ?thesis by blast
qed

section \<open>A session\<close>

text \<open>
  The listening stack with two sockets: 5 in front of the listening connection, and 6, which \<open>_accept\<close> has
  allocated for the new one.
\<close>

definition sample_serving :: world where
  "sample_serving = sample_listen\<lparr>w_sockets :=
     [5 \<mapsto> \<lparr>so_fd = 4097, so_pid = 77, so_type = Some 1, so_flags = 0, so_sk = Sk 3, so_ops = True\<rparr>,
      6 \<mapsto> \<lparr>so_fd = 4098, so_pid = 77, so_type = Some 1, so_flags = 0, so_sk = Unset, so_ops = True\<rparr>]\<rparr>"

lemma sample_serving_simps [simp]:
  "w_net sample_serving = sample_net" "w_next sample_serving = 4" "w_isns sample_serving i = 7000"
  "w_others sample_serving = (\<lambda>n. n)" "w_timers sample_serving = timers_boot"
  "w_tcp sample_serving = [3 \<mapsto> sample_tsk TCP_LISTEN 40001 0 1 0]"
  by (simp_all add: sample_serving_def)

lemma sample_serving_listens: "listening sample_serving [3] [] 3 [] []"
  using sample_listening by (simp add: sample_serving_def listening_def tables_def ring_holds_def backlog_def)

definition sample_addr :: sockaddr_in where
  "sample_addr = \<lparr>sin_port = htons 40001, sin_addr = htonl 0x0A000104\<rparr>"

theorem tcp_session_witness:
  "\<exists>syn synack ack wa1 wb1 wb2 frames wa2 wa3.
    tcp_v4_connect 3 sample_addr [netdev_rx_loop_step (0, 0) synack] sample_fresh = Some (Returned 0, wa1) \<and>
    inet_accept 5 6 [netdev_rx_loop_step (0, 0) syn, netdev_rx_loop_step (0, 0) ack] sample_serving =
      Some (Returned (0, Some \<lparr>sin_port = htons 40001, sin_addr = htonl 0x0A000104\<rparr>), wb1) \<and>
    net_tx (w_net wa1) = net_tx sample_net @ [syn, ack] \<and> net_tx (w_net wb1) = net_tx sample_net @ [synack] \<and>
    inet_write 6 [1, 2, 3] 3 wb1 = Some (Rc 3, wb2) \<and>
    net_tx (w_net wb2) = net_tx (w_net wb1) @ frames \<and> netdev_rx_loop (0, 0) frames wa1 = Some wa2 \<and>
    tcp_read 3 3 [] wa2 = Some (Returned (3, [1, 2, 3]), wa3)"
proof -
  obtain x y where so: "w_sockets sample_serving 5 = Some x" "so_sk x = Sk 3" "w_sockets sample_serving 6 = Some y"
    by (simp add: sample_serving_def)
  show ?thesis
    using tcp_session [OF sample_fresh_unopened _ _ _ _ sample_serving_listens _ _ _ _ _ _ _ _ so(1,2) _ so(3), of sample_mac sample_addr
        "sample_tsk TCP_LISTEN 40001 0 1 0" sample_mac "[1, 2, 3]" "(0, 0)" "[]"]
    by (simp add: sample_addr_def local_match_def tcp_select_initial_window_def)
qed

section \<open>The server\<close>

lemma sample_world_server:
  "apart {0} sample_world" "so_table sample_world []" "tables sample_world [] []" "machine_ok sample_world"
proof -
  show "apart {0} sample_world" using apart_boot [of "\<lambda>n. n" "\<lambda>i. 7000"] by (simp add: sample_world_def apart_def)
  show "so_table sample_world []" using so_table_boot [of "\<lambda>n. n" "\<lambda>i. 7000"] by (simp add: sample_world_def so_table_def ring_holds_def)
  show "tables sample_world [] []" by (simp add: tables_def ring_holds_def dlist_def links_boot_def)
  show "machine_ok sample_world" by (simp add: machine_ok_def others_ok_def timers_inv_def timers_boot_def)
qed

theorem server_greets_witness:
  "\<exists>syn synack ack wa1 frames socks b' w' wa2 wa3.
    tcp_v4_connect 3 server_addr [netdev_rx_loop_step (0, 0) synack] sample_fresh = Some (Returned 0, wa1) \<and>
    server_serve sample_ctx [netdev_rx_loop_step (0, 0) syn, netdev_rx_loop_step (0, 0) ack] 77 9
        (replicate IPC_BUFLEN 0, sample_world) =
      Some (int (length greeting), w_fd sample_world + 1, socks, (b', w')) \<and>
    net_tx (w_net wa1) = net_tx (w_net sample_fresh) @ [syn, ack] \<and>
    net_tx (w_net w') = net_tx (w_net sample_world) @ synack # frames \<and>
    netdev_rx_loop (0, 0) frames wa1 = Some wa2 \<and>
    tcp_read 3 (of_nat (length greeting)) [] wa2 = Some (Returned (int (length greeting), greeting), wa3)"
  by (rule server_greets [OF sample_fresh_unopened _ _ _ sample_world_server(1,2) _ sample_world_server(3,4)])
    (simp_all add: tcp_select_initial_window_def is_int_def sample_world_def world_boot_def)

end
