(* ===== verification/Spec2Isabelle.thy ===== *)
theory Spec2Isabelle
  imports Sample_Programs Icmp
begin

text \<open>
  A verification of ToyIP, a TCP/IP stack in user space.  The program (\<open>src/toy_src\<close>) reads
  Ethernet frames from a tap device, keeps ARP, IP, ICMP, UDP and TCP, and serves the socket
  calls of other processes over a local socket; a library (\<open>src/toy_app/lib\<close>) gives applications
  those calls.

  \<^bold>\<open>The model.\<close>  The state of the stack is one record, \<open>world\<close> (theory \<open>World\<close>): the link layer
  (\<open>net\<close>: devices, ARP cache, routes, frames sent), the timers, the memory of list nodes
  (\<open>links\<close>: the \<open>next\<close> and \<open>prev\<close> pointers of \<open>list.h\<close>), the sockets of TCP and of UDP, the sockets
  of the applications.  Every C function is a definition of the same name on this state, in the
  order of the source.  \<open>None\<close> stands for a step the C standard gives no meaning to: a read or
  write outside a buffer or through an unset or freed pointer, a failed assertion, and also a lock
  taken twice by its holder.  Numbers keep their width: \<open>u8\<close>, \<open>u16\<close>, \<open>u32\<close> and \<open>u64\<close> are words;
  \<open>int\<close> values that the source keeps small are integers.  A C function without \<open>return\<close> yields
  \<open>Indet\<close>.  A call that sleeps takes the list of steps the rest of the stack makes meanwhile
  (\<open>env\<close>) and returns \<open>Asleep\<close> when the list ends before it is woken.

  \<^bold>\<open>Parameters.\<close>  What the sources do not determine is an argument: the initial sequence numbers
  (\<open>w_isns\<close>), what other threads do to the ARP cache while \<open>dst_neigh_output\<close> retries (\<open>others\<close>), the
  clock of the ICMP timestamps, uninitialised memory (\<open>ie_junk\<close>), in \<open>Levelip\<close> the channel to
  the stack, which is then instantiated with the model of \<open>ipc.c\<close>, in \<open>Boot\<close> what the calls of the
  operating system return (record \<open>os\<close>), in \<open>Programs\<close> the resolver of host names.

  \<^bold>\<open>Theories.\<close>
    \<^item> \<open>Prelude\<close>: words, bytes in memory, loads and stores that can fail.
    \<^item> \<open>List_Head\<close> (\<open>list.h\<close>): the rings, with \<open>dlist\<close> relating the pointers to a list of nodes; in
      loops that free nodes, which nodes have been freed is part of the state, and to touch one is a fault.
    \<^item> \<open>Utils\<close> (\<open>utils.c\<close>): checksum and address parsing; the checksum is the complement of the
      ones' complement sum and verifies.
    \<^item> \<open>Skbuff\<close> (\<open>skbuff.c\<close>, \<open>skbuff.h\<close>): buffers and queues; locale \<open>fifo\<close>.  A queue that was only set to
      zero, as those of a new connection until \<open>sk_init_with_socket\<close>, is not one that was initialised
      (\<open>q_linked\<close>): \<open>skb_queue_tail\<close> faults on it.
    \<^item> \<open>Netdev\<close>, \<open>Arp\<close>, \<open>Route\<close>, \<open>Ip_Output\<close>, \<open>Ip_Send\<close>, \<open>Ip_Input\<close>, \<open>Icmp\<close> (\<open>netdev.c\<close>, \<open>arp.c\<close>,
      \<open>route.c\<close>, \<open>dst.c\<close>, \<open>ip_output.c\<close>, \<open>ip_input.c\<close>, \<open>icmpv4.c\<close>): what goes out and what comes in;
      locale \<open>address_table\<close> for the cache.
    \<^item> \<open>Timer\<close>, \<open>World\<close> (\<open>timer.c\<close>, \<open>wait.h\<close>, \<open>sock.c\<close>, the structures).
    \<^item> \<open>Tcp\<close>, \<open>Tcp_Output\<close>, \<open>Tcp_Data\<close>, \<open>Tcp_Input\<close>, \<open>Tcp_Sock\<close> (\<open>tcp.c\<close>, \<open>tcp_output.c\<close>, \<open>tcp_data.c\<close>,
      \<open>tcp_input.c\<close>, \<open>tcp_sock.c\<close>): sockets and their tables (locale \<open>socket_table\<close>), segments,
      reassembly, input processing and the user's calls.  \<open>Tcp_Fsm\<close>: the transitions every
      operation can cause.  \<open>Tcp_Open\<close>: the handlers of the handshake on both sides.
    \<^item> \<open>Udp\<close> (\<open>udp.c\<close>, \<open>udp_sock.c\<close>).
    \<^item> \<open>Delivery\<close>, \<open>Tcp_Transfer\<close>: from the frame to the reader, for ICMP, UDP and TCP.
      \<open>Delivery\<close> also has address resolution between two stacks.  \<open>Handshake\<close>: \<open>connect\<close> and \<open>accept\<close> from
      the SYN to the established connection.  \<open>Tcp_Stream\<close>: a receiver behind a network that loses, repeats and reorders
      frames (\<open>history\<close>).  \<open>Retransmission\<close>: what the write queue keeps, and what a timeout sends.
    \<^item> \<open>Stack\<close>: ticks with the handlers of TCP, and \<open>stack_run\<close>: every sequence of received frames, ticks
      and calls of the transport layer (not of \<open>inet.c\<close> and \<open>socket.c\<close> above it), with the locale \<open>run_relation\<close> for what relates the two ends of every run and, as an instance of
      it, \<open>state_invariant\<close> for the states of the connections.  \<open>World_Invariant\<close>: the locale
      \<open>world_invariant\<close>, which derives that every operation keeps a predicate from laws about single
      changes of the state, interpreted in \<open>Well_Formed\<close> (what holds of every state that a run from boot
      leads to) and in \<open>Isolation\<close> (runs of the stack leave the sockets of the applications alone).
    \<^item> \<open>Inet\<close>, \<open>Socket\<close>, \<open>Ipc\<close> (\<open>inet.c\<close>, \<open>socket.c\<close>, \<open>ipc.c\<close>): the calls, as other processes make them.
    \<^item> \<open>Levelip\<close> (\<open>liblevelip.c\<close>): the library, with the locale \<open>rc_channel\<close> for its connection to the
      stack, and \<open>Levelip_Calls\<close>, what each call does when the stack answers; \<open>Application\<close>: from one
      application to another.
    \<^item> \<open>Boot\<close> (\<open>main.c\<close>, \<open>tuntap.c\<close>, \<open>run_cmd\<close>, \<open>start_ipc_listener\<close>): the start of the program and the threads
      that serve applications, and \<open>init_socket\<close> of the library at the other end.
    \<^item> \<open>Serving\<close>: \<open>socket\<close>, \<open>bind\<close>, \<open>listen\<close> and \<open>accept\<close> as one sequence of calls, and a session between two
      stacks; \<open>Programs\<close> (\<open>toy_app/bin\<close>): the
      programs, and \<open>server.c\<close> with a client.
    \<^item> \<open>Samples\<close>, \<open>Sample_Runs\<close>, \<open>Sample_Programs\<close>: concrete states and runs.
  This theory adds the properties that restate lemmas of several components.

  \<^bold>\<open>What is shown.\<close>  Data written through the library on one machine is what the library on the
  other machine reads (\<open>application_transfer\<close>, with \<open>tcp_transfer\<close>, \<open>udp_transfer\<close> and the theorems on
  segmentation, reassembly and reading below it); of what a write puts on the wire, a reader behind an
  unreliable network reads a prefix, whatever is lost, repeated or reordered
  (\<open>tcp_stream_integrity\<close>); \<open>server.c\<close>, from its first call on, greets a client of another stack
  (\<open>server_greets\<close>); \<open>connect\<close> and \<open>accept\<close> meet, and what is written to the accepted socket arrives
  (\<open>tcp_session\<close>); pings are answered, whatever the flags and the lifetime of their datagrams; due
  retransmissions happen; ARP learns and answers what its messages call for, and one stack resolves the
  address of another (\<open>arp_rcv_refines\<close>, \<open>arp_resolves\<close>); checksums verify;
  whatever is received, times out or is asked of the transport layer, the stack stays well formed and descriptors keep their meaning
  (\<open>stack_well_formed\<close>, \<open>sockets_untouched\<close>); \<open>main\<close> makes exactly the calls it should
  (\<open>main_starts\<close>); every call on an unknown descriptor fails without effect.  Other theorems
  pin down where the code does not do what it means to: retransmissions that corrupt the stream or
  never happen (\<open>retransmission_corrupts\<close>, \<open>partial_ack_forgets\<close>), accepted connections that drop all data
  sent to them, connections that never finish closing,
  \<open>close\<close> that uses freed memory or waits for the lock it holds (\<open>so_close_uses_freed\<close>,
  \<open>so_close_listening_hangs\<close>), routes that never match, UDP sockets that
  cannot be bound or are linked twice, copies beyond the buffers of the local protocol, threads
  that serve the wrong client, a start that goes on without a device.

  \<^bold>\<open>Bounds and loops.\<close>  Loops over rings recurse on the pointers with \<open>partial_function\<close>, so a
  corrupted ring gives no result, and the lemmas show that they return on every ring that is
  intact.  \<open>tcp_send\<close>, \<open>tcp_data_dequeue\<close> and the queues recurse with measures.  There is no fuel.
  The transfer theorems assume that sequence numbers do not pass \<open>2^32\<close> during the transfer, since
  the code compares them as plain unsigned numbers, and that the gateway is resolved.  The length of
  the buffer for a reply, an \<open>int\<close> in \<open>lvl_read\<close> and \<open>lvl_recvfrom\<close>, is not cut to 32 bits: the
  definitions stand for lengths below \<open>2^31\<close>, which the stack of a process cannot hold anyway.

  \<^bold>\<open>Not modelled.\<close>  Printing of messages; functions that are empty or only free memory at exit
  (\<open>tcp_init\<close>, \<open>udp_init\<close>, \<open>free_netdev\<close>, \<open>free_tun\<close>).  Locks are modelled only where one thread takes the same lock twice; the interleaving
  of threads is that of whole steps.
\<close>

section \<open>Foundations\<close>

text \<open>
  C19.  The Internet checksum: on any stretch of at most 65535 bytes with a zeroed, 16-bit
  aligned checksum field, \<open>checksum\<close> returns, and with its result stored in the field the
  receiver's check over the same stretch yields 0.
\<close>

theorem checksum_roundtrip:
  assumes "even k" and "k + 1 < n" and "p + n \<le> length b" and "n \<le> 65535" and "get16 b (p + k) = 0"
  shows "\<exists>c. checksum b p (int n) 0 = Some c \<and> checksum (put16 b (p + k) c) p (int n) 0 = Some 0"
proof -
  have "sum_le (take n (drop p b)) \<le> 2147450880"
    using assms by (intro sum_le_small) simp
  then show ?thesis
    using checksum_folds [of p n b 0] checksum_verifies [of k n p b 0] assms by fastforce
qed

theorem checksum_roundtrip_witness:
  "\<exists>c. checksum [0x45, 0, 0, 0, 0x12, 0x34] 0 6 0 = Some c \<and>
     checksum (put16 [0x45, 0, 0, 0, 0x12, 0x34] 2 c) 0 6 0 = Some 0"
  using checksum_roundtrip [of 2 6 0 "[0x45, 0, 0, 0, 0x12, 0x34]"] by (simp add: get16_def le16_def numeral_2_eq_2)

section \<open>The network layer\<close>

text \<open>
  C30.  With the routes \<open>route_init\<close> installs, every destination is looked up to the default
  route, also those of the loopback and of the local network: the two entries before it store
  a destination that its own mask can never yield.
\<close>

theorem route_lookup_default:
  assumes "routes_booted n"
  shows "route_lookup n daddr = Some (default_route (net_dev n))"
  using assms by (rule route_lookup_booted)

theorem route_lookup_default_witness:
  "route_lookup boot_net 0x7F000001 = Some (default_route (net_dev boot_net))"
  by (rule route_lookup_default) simp

text \<open>
  C18.  \<open>ip_output\<close>: with the gateway resolved, exactly one frame leaves the device; it goes to the
  gateway's hardware address and carries an IP datagram to \<open>daddr\<close> with a correct header, whose
  payload is what the transport handed down.
\<close>

theorem ip_output_sends:
  assumes "net_inv n" and "out_ready skb" and "arp_get_hwaddr n gateway = Some mac"
  shows "\<exists>skb' pkt. ip_output others daddr skb n =
      Some (Indet, skb', tun_write (eth_frame mac (nd_hwaddr (net_dev n)) ETH_P_IP pkt) n) \<and>
    ip_datagram (net_dev n) daddr (ucast (skb_protocol skb)) (skb_bytes skb) pkt"
  using ip_output_sent [OF assms, of others daddr] by blast

theorem ip_output_sends_witness:
  "\<exists>skb' pkt. ip_output (\<lambda>n. n) 0x08080808 ((alloc_skb 60)\<lparr>skb_data := 34, skb_len := 26, skb_protocol := 17\<rparr>) sample_net =
      Some (Indet, skb', tun_write (eth_frame sample_mac (nd_hwaddr (net_dev sample_net)) ETH_P_IP pkt) sample_net) \<and>
    ip_datagram (net_dev sample_net) 0x08080808 17 (replicate 26 0) pkt"
  using ip_output_sends [of sample_net "(alloc_skb 60)\<lparr>skb_data := 34, skb_len := 26, skb_protocol := 17\<rparr>"
      sample_mac "\<lambda>n. n" "0x08080808"]
  by (simp add: out_ready_def alloc_skb_def skb_bytes_def)

section \<open>TCP\<close>

text \<open>
  C13.  \<open>tcp_write\<close> on an established connection: the data goes out as one frame for each
  \<open>smss\<close> bytes, the sequence numbers run on from \<open>snd_nxt\<close> without gap or overlap, the last
  segment has PSH, and every segment has a correct TCP checksum; the call returns the number of
  bytes.
\<close>

theorem tcp_write_segments:
  assumes "can_send w s tsk" and "tsk_state tsk = TCP_ESTABLISHED" and "arp_get_hwaddr (w_net w) gateway = Some mac"
    and "0 < tsk_smss tsk" and "unat (tsk_smss tsk) \<le> 65000" and "length buf < 2 ^ 31"
  shows "\<exists>w' tsk' segs pkts. tcp_write s buf (word_of_nat (length buf)) w = Some (int (length buf), w') \<and>
    concat segs = buf \<and> (\<forall>c\<in>set segs. 0 < length c \<and> length c \<le> unat (tsk_smss tsk)) \<and>
    net_tx (w_net w') = net_tx (w_net w) @ map (eth_frame mac (nd_hwaddr (net_dev (w_net w))) ETH_P_IP) pkts \<and>
    on_wire tsk (net_dev (w_net w)) (snd_nxt (tsk_tcb tsk)) segs pkts \<and>
    w_tcp w' s = Some tsk' \<and> snd_nxt (tsk_tcb tsk') = snd_nxt (tsk_tcb tsk) + word_of_nat (length buf)"
proof -
  let ?m = "unat (tsk_smss tsk)"
  have m: "0 < ?m" using assms(4) by (simp add: word_less_nat_alt)
  have "unat (word_of_nat (length buf) :: u32) = length buf"
    using assms(6) by (simp add: unsigned_of_nat take_bit_nat_eq_self)
  then have n: "sint (word_of_nat (length buf) :: u32) = int (length buf)"
    using assms(6) by (simp add: sint_small)
  obtain w' tsk' pkts where o: "tcp_send_loop s buf (int (length buf)) (int ?m) w = Some w'"
    "w_net w' = (w_net w)\<lparr>net_tx := net_tx (w_net w) @ map (eth_frame mac (nd_hwaddr (net_dev (w_net w))) ETH_P_IP) pkts\<rparr>"
    "on_wire tsk (net_dev (w_net w)) (snd_nxt (tsk_tcb tsk)) (chunks ?m buf) pkts" "can_send w' s tsk'"
    "tsk_tcb tsk' = (tsk_tcb tsk)\<lparr>snd_nxt := snd_nxt (tsk_tcb tsk) + word_of_nat (length buf)\<rparr>"
    using tcp_send_loop_sent [OF assms(1,3) m assms(5), of buf] by blast
  have "tcp_write s buf (word_of_nat (length buf)) w = Some (int (length buf), w')"
    using assms(1,2) o(1) n by (simp add: tcp_write_def tcp_send_def can_send_def)
  moreover have "w_tcp w' s = Some tsk'" using o(4) by (simp add: can_send_def)
  ultimately show ?thesis
    using o(2,3,5) chunks_concat [OF m] chunks_bound
    by (intro exI [of _ w'] exI [of _ tsk'] exI [of _ "chunks ?m buf"] exI [of _ pkts]) auto
qed

theorem tcp_write_segments_witness:
  "\<exists>w' segs. tcp_write 3 [1, 2, 3] 3 (sample_conn ES_HEAD (sample_tsk TCP_ESTABLISHED 80 40001 501 1001)) = Some (3, w') \<and>
    concat segs = [1, 2, 3 :: u8]"
  using tcp_write_segments [OF sample_conn_can_send [where h = ES_HEAD and x = TCP_ESTABLISHED and
        sp = 80 and dp = 40001 and ss = 501 and rs = 1001], of sample_mac "[1, 2, 3]"]
  by auto

text \<open>
  C14.  Reassembly: a segment that starts at \<open>rcv_nxt\<close> extends the stream of received bytes by its
  data and by the data of the segments of the out-of-order queue that now follow on without a
  gap; \<open>rcv_nxt\<close> moves to the end of them.
\<close>

theorem tcp_data_reassembles:
  assumes "can_send w s tsk" and "rx_inv tsk" and "ofo_inv tsk" and "rx_ok skb"
    and "length (rx_items tsk) + length (q_items (tsk_ofo_queue tsk)) + 1 < 2 ^ 32"
    and "rcv_wnd (tsk_tcb tsk) \<noteq> 0" and "skb_seq skb = rcv_nxt (tsk_tcb tsk)"
    and "contig (rcv_nxt (tsk_tcb tsk) + skb_dlen skb) (q_items (tsk_ofo_queue tsk)) = (moved, left, n')"
  shows "\<exists>w' tsk'. tcp_data_queue s th skb w = Some (0, Some (skb\<lparr>skb_refcnt := skb_refcnt skb + 1\<rparr>), w') \<and>
    w_tcp w' s = Some tsk' \<and> rx_inv tsk' \<and> ofo_inv tsk' \<and>
    rx_stream tsk' = rx_stream tsk @ rx_data skb @ concat (map rx_data moved) \<and>
    q_items (tsk_ofo_queue tsk') = left \<and> rcv_nxt (tsk_tcb tsk') = n'"
  using tcp_data_queue_expected [OF assms, of th] by (fastforce simp: can_send_def)

theorem tcp_data_reassembles_witness:
  "\<exists>w' tsk'. tcp_data_queue 3 (sample_hdr 1001 501 0x18)
      ((alloc_skb 60)\<lparr>skb_seq := 1001, skb_dlen := 4, skb_payload := 54\<rparr>)
      (sample_conn ES_HEAD (sample_tsk TCP_ESTABLISHED 80 40001 501 1001)) =
    Some (0, Some ((alloc_skb 60)\<lparr>skb_seq := 1001, skb_dlen := 4, skb_payload := 54, skb_refcnt := 1\<rparr>), w') \<and>
    w_tcp w' 3 = Some tsk' \<and> rx_stream tsk' = replicate 4 0 \<and> rcv_nxt (tsk_tcb tsk') = 1005"
  using tcp_data_reassembles [of "sample_conn ES_HEAD (sample_tsk TCP_ESTABLISHED 80 40001 501 1001)" 3
      "sample_tsk TCP_ESTABLISHED 80 40001 501 1001" "(alloc_skb 60)\<lparr>skb_seq := 1001, skb_dlen := 4, skb_payload := 54\<rparr>"
      "[]" "[]" 1005 "sample_hdr 1001 501 0x18"]
  by (auto simp: rx_inv_def ofo_inv_def rx_ok_def alloc_skb_def rx_stream_def rx_data_def)

text \<open>
  C15.  \<open>tcp_data_dequeue\<close> hands the reader the first \<open>n\<close> bytes of the stream, whatever the
  boundaries of the segments, and keeps the rest for the next read.
\<close>

theorem tcp_dequeue_prefix:
  assumes "w_tcp w s = Some tsk" and "rx_inv tsk" and "unat n < 2 ^ 31"
  shows "\<exists>w' tsk'. tcp_data_dequeue s n w = Some (take (unat n) (rx_stream tsk), w') \<and>
    w_tcp w' s = Some tsk' \<and> rx_inv tsk' \<and> rx_stream tsk' = drop (unat n) (rx_stream tsk)"
proof -
  obtain f q where d: "tcp_dequeue_loop n [] tsk = Some (take (unat n) (rx_stream tsk),
      on_sk (\<lambda>sk. sk\<lparr>sk_receive_queue := q\<rparr>) (tsk\<lparr>tsk_flags := f\<rparr>))"
    "rx_inv (on_sk (\<lambda>sk. sk\<lparr>sk_receive_queue := q\<rparr>) (tsk\<lparr>tsk_flags := f\<rparr>))"
    "concat (map rx_data (q_items q)) = drop (unat n) (rx_stream tsk)"
    using tcp_dequeue_stream [OF assms(2), of "[]" n] assms(3) by auto
  then show ?thesis
    using assms(1) by (simp add: tcp_data_dequeue_def) (simp add: rx_stream_def)
qed

theorem tcp_dequeue_prefix_witness:
  "\<exists>w'. tcp_data_dequeue 3 10 (sample_conn ES_HEAD (sample_tsk TCP_ESTABLISHED 80 40001 501 1001)) = Some ([], w')"
  using tcp_dequeue_prefix [of "sample_conn ES_HEAD (sample_tsk TCP_ESTABLISHED 80 40001 501 1001)" 3
      "sample_tsk TCP_ESTABLISHED 80 40001 501 1001" 10]
  by (auto simp: rx_inv_def rx_stream_def)

text \<open>
  C12.  The state machine: a received segment changes the state of at most one connection, and
  only along the transitions of \<open>seg_step\<close>; besides that it can end a connection in
  SYN-RECEIVED, or, at a listening socket, create one in SYN-RECEIVED.
\<close>

theorem tcp_in_steps:
  assumes "tcp_in skb w = Some (fate, w')"
  shows "st w' = st w \<or> (\<exists>s x. st w s = Some x \<and> ((\<exists>y. seg_step x y \<and> st w' = (st w)(s \<mapsto> y)) \<or>
    x = TCP_SYN_RECEIVED \<and> st w' = (st w)(s := None) \<or>
    x = TCP_LISTEN \<and> st w' = (st w)(w_next w \<mapsto> TCP_SYN_RECEIVED)))"
  using assms by (rule fsm_tcp_in)

theorem tcp_in_steps_witness:
  "\<exists>fate w'. tcp_in (alloc_skb 100) sample_world = Some (fate, w') \<and>
    (st w' = st sample_world \<or> (\<exists>s x. st sample_world s = Some x \<and>
      ((\<exists>y. seg_step x y \<and> st w' = (st sample_world)(s \<mapsto> y)) \<or>
       x = TCP_SYN_RECEIVED \<and> st w' = (st sample_world)(s := None) \<or>
       x = TCP_LISTEN \<and> st w' = (st sample_world)(w_next sample_world \<mapsto> TCP_SYN_RECEIVED))))"
proof -
  have "tables sample_world [] []"
    by (simp add: tables_def ring_holds_def dlist_def links_boot_def)
  then have "\<exists>fate w'. tcp_in (alloc_skb 100) sample_world = Some (fate, w')"
    by (simp add: tcp_in_def tcp_init_segment_def tcp_host_hdr_def tcp_hdr_def ip_hdr_def skb_head_def alloc_skb_def
        Let_def tcp_lookup_sock_tables)
  then show ?thesis using tcp_in_steps by blast
qed

end
